(* ===== verification/Prelude.thy ===== *)
theory Prelude imports Main begin

text \<open>
  Shared vocabulary of the development: failures as values, table rows and their
  queries, and the JavaScript number operations the code uses.

  \<^item> \<open>error\<close> has one constructor per exception class the code throws. The string
    argument is a short ASCII slug naming the throw statement (the messages themselves
    are user-facing text, mostly Chinese, which no code reads back).
  \<^item> \<open>bindE\<close> sequences fallible steps: an exception leaves the function at once. A
    transaction that throws is rolled back, so an \<open>Inl\<close> result carries no database.
  \<^item> A table is the list of its rows in insertion order. \<open>lookup\<close> is
    \<open>findUnique\<close>, \<open>update_one\<close> is \<open>update\<close> (it throws Prisma's P2025 when no row
    has the key), \<open>update_many\<close> is \<open>updateMany\<close>.
\<close>

named_theorems err_simps "results of fallible steps"
named_theorems table_simps "rows after a table operation"

type_synonym id = string
type_synonym instant = int

text \<open>Instants are milliseconds since 1970-01-01T00:00:00Z, the value of \<open>Date.getTime()\<close>.\<close>

section \<open>Failures as values\<close>

datatype error =
    BadRequest string
  | NotFound string
  | Conflict string
  | ServiceUnavailable string
  | PlainError string
  | PaymentRejected string
  | RangeError
  | PrismaKnown string

definition bindE :: "'e + 'a \<Rightarrow> ('a \<Rightarrow> 'e + 'b) \<Rightarrow> 'e + 'b" where
  "bindE m f = (case m of Inl e \<Rightarrow> Inl e | Inr x \<Rightarrow> f x)"

lemma bindE_Inl [simp]: "bindE (Inl e) f = Inl e"
  by (simp add: bindE_def)

lemma bindE_Inr [simp]: "bindE (Inr x) f = f x"
  by (simp add: bindE_def)

lemma bindE_eq_Inr [err_simps]: "bindE m f = Inr y \<longleftrightarrow> (\<exists>x. m = Inr x \<and> f x = Inr y)"
  by (cases m) auto

lemma bindE_eq_Inl [err_simps]:
  "bindE m f = Inl e \<longleftrightarrow> m = Inl e \<or> (\<exists>x. m = Inr x \<and> f x = Inl e)"
  by (cases m) auto

lemma bindE_InrE:
  assumes "bindE m f = Inr y"
  obtains x where "m = Inr x" "f x = Inr y"
  using assms by (auto simp: err_simps)

lemma not_isl_obtain: "\<not> isl r \<Longrightarrow> \<exists>x. r = Inr x"
  by (cases r) auto

lemma Inr_pair_obtain:
  "(case r of Inr (x, s) \<Rightarrow> P x | Inl _ \<Rightarrow> False) \<Longrightarrow> \<exists>x s. r = Inr (x, s) \<and> P x"
  by (auto split: sum.splits)

lemma bindE_assoc: "bindE (bindE m f) g = bindE m (\<lambda>x. bindE (f x) g)"
  by (cases m) auto

lemma if_Inl_eq_Inr [err_simps]: "(if b then Inl e else m) = Inr y \<longleftrightarrow> \<not> b \<and> m = Inr y"
  by auto

text \<open>\<open>x ?? y\<close>\<close>

definition nvl :: "'a option \<Rightarrow> 'a \<Rightarrow> 'a" where
  "nvl x y = (case x of None \<Rightarrow> y | Some v \<Rightarrow> v)"

lemma nvl_simps [simp]: "nvl None y = y" "nvl (Some v) y = v"
  by (simp_all add: nvl_def)

definition orElse :: "'a option \<Rightarrow> 'a option \<Rightarrow> 'a option" where
  "orElse x y = (case x of None \<Rightarrow> y | Some v \<Rightarrow> Some v)"

lemma orElse_simps [simp]: "orElse None y = y" "orElse (Some v) y = Some v"
  by (simp_all add: orElse_def)

text \<open>A row that a query must find (\<open>findUniqueOrThrow\<close>, or \<open>if (!row) throw e\<close>).\<close>

definition require :: "error \<Rightarrow> 'a option \<Rightarrow> error + 'a" where
  "require e x = (case x of None \<Rightarrow> Inl e | Some v \<Rightarrow> Inr v)"

lemma require_simps [simp]: "require e None = Inl e" "require e (Some v) = Inr v"
  by (simp_all add: require_def)

lemma require_eq_Inr [err_simps]: "require e x = Inr v \<longleftrightarrow> x = Some v"
  by (cases x) auto

section \<open>Tables\<close>

definition lookup :: "('r \<Rightarrow> 'k) \<Rightarrow> 'k \<Rightarrow> 'r list \<Rightarrow> 'r option" where
  "lookup key k rows = List.find (\<lambda>r. key r = k) rows"

definition update_many :: "('r \<Rightarrow> bool) \<Rightarrow> ('r \<Rightarrow> 'r) \<Rightarrow> 'r list \<Rightarrow> 'r list" where
  "update_many p f rows = map (\<lambda>r. if p r then f r else r) rows"

definition update_one :: "('r \<Rightarrow> 'k) \<Rightarrow> 'k \<Rightarrow> ('r \<Rightarrow> 'r) \<Rightarrow> 'r list \<Rightarrow> error + 'r list" where
  "update_one key k f rows =
     (if k \<in> set (map key rows) then Inr (update_many (\<lambda>r. key r = k) f rows)
      else Inl (PrismaKnown ''P2025''))"

definition first_row :: "'r list \<Rightarrow> 'r option" where
  "first_row rows = (case rows of [] \<Rightarrow> None | r # _ \<Rightarrow> Some r)"

lemma first_row_simps [simp]: "first_row [] = None" "first_row (r # rs) = Some r"
  by (simp_all add: first_row_def)

lemma first_row_SomeD: "first_row rs = Some r \<Longrightarrow> r \<in> set rs"
  by (cases rs) auto

lemma first_row_None [simp]: "first_row rs = None \<longleftrightarrow> rs = []"
  by (cases rs) auto

text \<open>Ordering a query's rows: a stable sort, and NULLS LAST for ascending nullable columns.\<close>

definition order_desc :: "('r \<Rightarrow> int) \<Rightarrow> 'r list \<Rightarrow> 'r list" where
  "order_desc key rows = sort_key (\<lambda>r. - key r) rows"

definition nulls_last :: "int option \<Rightarrow> bool \<times> int" where
  "nulls_last x = (x = None, nvl x 0)"

lemma lookup_simps [simp]:
  "lookup key k [] = None"
  "lookup key k (r # rs) = (if key r = k then Some r else lookup key k rs)"
  by (auto simp: lookup_def)

lemma lookup_SomeD: "lookup key k rs = Some r \<Longrightarrow> r \<in> set rs \<and> key r = k"
  by (induction rs) (auto split: if_splits)

lemma lookup_None_iff [table_simps]: "lookup key k rs = None \<longleftrightarrow> k \<notin> set (map key rs)"
  by (induction rs) auto

lemma lookup_mem:
  "distinct (map key rs) \<Longrightarrow> r \<in> set rs \<Longrightarrow> lookup key (key r) rs = Some r"
  by (induction rs) auto

lemma lookup_append [table_simps]:
  "lookup key k (xs @ ys) = orElse (lookup key k xs) (lookup key k ys)"
  by (induction xs) auto

lemma find_append_None: "List.find P xs = None \<Longrightarrow> List.find P (xs @ ys) = List.find P ys"
  by (induction xs) (auto split: if_splits)

lemma update_many_simps [simp]:
  "update_many p f [] = []"
  "update_many p f (r # rs) = (if p r then f r else r) # update_many p f rs"
  by (auto simp: update_many_def)

lemma update_many_append [table_simps]:
  "update_many p f (xs @ ys) = update_many p f xs @ update_many p f ys"
  by (simp add: update_many_def)

lemma length_update_many [simp]: "length (update_many p f rs) = length rs"
  by (simp add: update_many_def)

lemma set_update_many: "set (update_many p f rs) = (\<lambda>r. if p r then f r else r) ` set rs"
  by (simp add: update_many_def)

lemma update_many_memE:
  assumes "r \<in> set (update_many p f rows)"
  obtains (hit) x where "x \<in> set rows" "p x" "r = f x" | (miss) "r \<in> set rows" "\<not> p r"
  using assms by (auto simp: set_update_many split: if_splits)

lemma update_many_idle: "(\<And>r. r \<in> set rs \<Longrightarrow> \<not> p r) \<Longrightarrow> update_many p f rs = rs"
  by (induction rs) auto

lemma map_update_many:
  "(\<And>r. p r \<Longrightarrow> g (f r) = g r) \<Longrightarrow> map g (update_many p f rs) = map g rs"
  by (induction rs) auto

lemma filter_update_many_idle:
  "(\<And>r. p r \<Longrightarrow> \<not> q r \<and> \<not> q (f r)) \<Longrightarrow> filter q (update_many p f rs) = filter q rs"
  by (induction rs) auto

lemma lookup_update_many [table_simps]:
  "(\<And>r. p r \<Longrightarrow> key (f r) = key r) \<Longrightarrow>
   lookup key k (update_many p f rs) =
     map_option (\<lambda>r. if p r then f r else r) (lookup key k rs)"
  by (induction rs) auto

lemma lookup_update_key:
  "(\<And>r. key (f r) = key r) \<Longrightarrow>
   lookup key j (update_many (\<lambda>r. key r = k) f rs) =
     (if j = k then map_option f (lookup key k rs) else lookup key j rs)"
  by (induction rs) auto

lemma update_one_eq_Inr [err_simps]:
  "update_one key k f rs = Inr rs' \<longleftrightarrow>
     k \<in> set (map key rs) \<and> rs' = update_many (\<lambda>r. key r = k) f rs"
  by (auto simp: update_one_def)

lemma update_one_found:
  "lookup key k rs = Some r \<Longrightarrow>
   update_one key k f rs = Inr (update_many (\<lambda>r. key r = k) f rs)"
  by (auto simp: update_one_def dest: lookup_SomeD)

lemma sum_list_update_key:
  fixes g :: "'r \<Rightarrow> int"
  assumes "distinct (map key rs)" and "lookup key k rs = Some r"
  shows "sum_list (map g (update_many (\<lambda>r. key r = k) f rs)) =
           sum_list (map g rs) - g r + g (f r)"
  using assms
proof (induction rs)
  case Nil
  then show ?case by simp
next
  case (Cons x xs)
  show ?case
  proof (cases "key x = k")
    case True
    with Cons.prems have "x = r" by simp
    moreover from True Cons.prems have "update_many (\<lambda>r. key r = k) f xs = xs"
      by (intro update_many_idle) (auto simp: image_iff)
    ultimately show ?thesis using True by simp
  next
    case False
    with Cons show ?thesis by simp
  qed
qed

text \<open>Inserting under a unique index: the engine refuses a row that clashes with another.\<close>

definition insert_unique :: "('r \<Rightarrow> 'r \<Rightarrow> bool) \<Rightarrow> 'r \<Rightarrow> 'r list \<Rightarrow> error + 'r list" where
  "insert_unique clash row rows =
     (if \<exists>r \<in> set rows. clash r row then Inl (PrismaKnown ''P2002'') else Inr (rows @ [row]))"

lemma insert_unique_eq_Inr [err_simps]:
  "insert_unique clash row rows = Inr rows' \<longleftrightarrow>
     (\<forall>r \<in> set rows. \<not> clash r row) \<and> rows' = rows @ [row]"
  by (auto simp: insert_unique_def)

lemma insert_unique_eq_Inl [err_simps]:
  "insert_unique clash row rows = Inl e \<longleftrightarrow>
     (\<exists>r \<in> set rows. clash r row) \<and> e = PrismaKnown ''P2002''"
  by (auto simp: insert_unique_def)

text \<open>A condition that must hold, else the function throws.\<close>

definition guardE :: "error \<Rightarrow> bool \<Rightarrow> error + unit" where
  "guardE e ok = (if ok then Inr () else Inl e)"

lemma guardE_eq_Inr [err_simps]: "guardE e ok = Inr u \<longleftrightarrow> ok"
  by (simp add: guardE_def)

lemma guardE_eq_Inl [err_simps]: "guardE e ok = Inl e' \<longleftrightarrow> \<not> ok \<and> e' = e"
  by (auto simp: guardE_def)

lemma guardE_simps [simp]: "guardE e True = Inr ()" "guardE e False = Inl e"
  by (simp_all add: guardE_def)

text \<open>Steps over the rows of a loop, each changing the state.\<close>

fun foldE :: "('a \<Rightarrow> 's \<Rightarrow> 'e + 's) \<Rightarrow> 'a list \<Rightarrow> 's \<Rightarrow> 'e + 's" where
  "foldE f [] s = Inr s"
| "foldE f (x # xs) s = bindE (f x s) (foldE f xs)"

lemma foldE_keeps:
  assumes "foldE f xs s = Inr s'" and "Q s"
    and "\<And>x s s'. x \<in> set xs \<Longrightarrow> Q s \<Longrightarrow> f x s = Inr s' \<Longrightarrow> Q s'"
  shows "Q s'"
  using assms
proof (induction xs arbitrary: s)
  case (Cons x xs)
  from Cons.prems(1) obtain t where t: "f x s = Inr t" "foldE f xs t = Inr s'"
    by (auto simp: err_simps)
  then have "Q t" using Cons.prems(2) Cons.prems(3) [of x s t] by simp
  show ?case
    by (rule Cons.IH [OF t(2) \<open>Q t\<close>]) (use Cons.prems(3) in auto)
qed simp

section \<open>Strings\<close>

text \<open>A natural number in a template string.\<close>

fun decimal :: "nat \<Rightarrow> string" where
  "decimal n = (let c = char_of (48 + n mod 10) in if n < 10 then [c] else decimal (n div 10) @ [c])"

declare decimal.simps [simp del]

lemma decimal_inject: "decimal m = decimal n \<longleftrightarrow> m = n"
proof
  have digit: "char_of (48 + i mod 10) = (char_of (48 + j mod 10) :: char) \<longleftrightarrow> i mod 10 = j mod 10"
    for i j :: nat
    by (simp add: char_of_eq_iff take_bit_eq_mod)
  have ne: "decimal k \<noteq> []" for k
    by (subst decimal.simps) (simp add: Let_def)
  show "decimal m = decimal n \<Longrightarrow> m = n"
  proof (induction m arbitrary: n rule: decimal.induct)
    case (1 m)
    note eq = 1(2) [unfolded decimal.simps [of m] decimal.simps [of n] Let_def]
    show ?case
    proof (cases "m < 10 \<or> n < 10")
      case True
      then show ?thesis using eq ne [of "m div 10"] ne [of "n div 10"] digit [of m n]
        by (auto split: if_splits)
    next
      case False
      then have "decimal (m div 10) = decimal (n div 10)" "m mod 10 = n mod 10"
        using eq digit by auto
      then have "m div 10 = n div 10" using 1(1) False by simp
      then show ?thesis using \<open>m mod 10 = n mod 10\<close> by (metis div_mult_mod_eq)
    qed
  qed
qed simp

section \<open>JavaScript numbers\<close>

text \<open>
  \<open>Number.isSafeInteger\<close> on an integral number. Every number the model passes is
  integral; the same guards reject fractions and NaN in the code.
\<close>

definition isSafeInteger :: "int \<Rightarrow> bool" where
  "isSafeInteger n \<longleftrightarrow> \<bar>n\<bar> \<le> 2 ^ 53 - 1"

text \<open>BigInt division and remainder truncate towards zero.\<close>

definition bigDiv :: "int \<Rightarrow> int \<Rightarrow> int" where
  "bigDiv a b = sgn a * sgn b * (\<bar>a\<bar> div \<bar>b\<bar>)"

definition bigMod :: "int \<Rightarrow> int \<Rightarrow> int" where
  "bigMod a b = a - b * bigDiv a b"

lemma bigDiv_nonneg: "0 \<le> a \<Longrightarrow> 0 < b \<Longrightarrow> bigDiv a b = a div b"
  by (cases "a = 0") (auto simp: bigDiv_def)

lemma bigMod_nonneg: "0 \<le> a \<Longrightarrow> 0 < b \<Longrightarrow> bigMod a b = a mod b"
  by (simp add: bigMod_def bigDiv_nonneg minus_mult_div_eq_mod)

text \<open>\<open>Math.ceil(a / b)\<close> for a positive integral divisor.\<close>

definition ceilDiv :: "int \<Rightarrow> int \<Rightarrow> int" where
  "ceilDiv a b = - ((- a) div b)"

lemma ceilDiv_upper:
  assumes "0 < b"
  shows "a \<le> ceilDiv a b * b"
proof -
  have "b * (- a div b) + (- a) mod b = - a" by (rule mult_div_mod_eq)
  moreover have "0 \<le> (- a) mod b" using assms by (rule pos_mod_sign)
  moreover have "ceilDiv a b * b = - (b * (- a div b))"
    unfolding ceilDiv_def by (simp only: mult_minus_left mult.commute [of _ b])
  ultimately show ?thesis by linarith
qed

lemma ceilDiv_lower:
  assumes "0 < b"
  shows "(ceilDiv a b - 1) * b < a"
proof -
  have "b * (- a div b) + (- a) mod b = - a" by (rule mult_div_mod_eq)
  moreover have "(- a) mod b < b" using assms by (rule pos_mod_bound)
  moreover have "(ceilDiv a b - 1) * b = - (b * (- a div b)) - b"
    unfolding ceilDiv_def by (simp add: algebra_simps del: minus_mult_left minus_mult_right)
  ultimately show ?thesis by linarith
qed

text \<open>One step of a quotient and a remainder.\<close>

lemma div_step:
  fixes k :: int
  assumes "0 < k"
  shows "(x + 1) div k = (if x mod k = k - 1 then x div k + 1 else x div k)"
proof -
  have e: "x = k * (x div k) + x mod k" by simp
  have r: "0 \<le> x mod k" "x mod k < k" using assms by simp_all
  show ?thesis
  proof (cases "x mod k = k - 1")
    case True
    have "x + 1 = k * (x div k + 1) + 0" using e True by (simp add: algebra_simps)
    then have "(x + 1) div k = x div k + 1" by (rule int_div_pos_eq) (use assms in simp_all)
    then show ?thesis using True by simp
  next
    case False
    have "x + 1 = k * (x div k) + (x mod k + 1)" using e by simp
    then have "(x + 1) div k = x div k" by (rule int_div_pos_eq) (use False r in linarith)+
    then show ?thesis using False by simp
  qed
qed

lemma mod_step:
  fixes k :: int
  assumes "0 < k"
  shows "(x + 1) mod k = (if x mod k = k - 1 then 0 else x mod k + 1)"
proof -
  have e: "x = k * (x div k) + x mod k" by simp
  have r: "0 \<le> x mod k" "x mod k < k" using assms by simp_all
  show ?thesis
  proof (cases "x mod k = k - 1")
    case True
    have "x + 1 = k * (x div k + 1) + 0" using e True by (simp add: algebra_simps)
    then have "(x + 1) mod k = 0" by (rule int_mod_pos_eq) (use assms in simp_all)
    then show ?thesis using True by simp
  next
    case False
    have "x + 1 = k * (x div k) + (x mod k + 1)" using e by simp
    then have "(x + 1) mod k = x mod k + 1" by (rule int_mod_pos_eq) (use False r in linarith)+
    then show ?thesis using False by simp
  qed
qed

lemma mod_offset: "(x - k * c) mod k = x mod (k :: int)"
  using mod_mult_self2 [of x k "- c"] by simp

lemma quotient_unique:
  fixes k q r x :: int
  assumes "x = k * q + r" and "0 \<le> r" and "r < k"
  shows "x div k = q" and "x mod k = r"
  using int_div_pos_eq [OF assms] int_mod_pos_eq [OF assms] by simp_all

text \<open>The least of a positive quantity left over, as the code's \<open>a > b ? a - b : 0\<close>.\<close>

definition positivePart :: "int \<Rightarrow> int \<Rightarrow> int" where
  "positivePart granted consumed = (if consumed < granted then granted - consumed else 0)"

lemma positivePart_nonneg [simp]: "0 \<le> positivePart g c"
  by (simp add: positivePart_def)

lemma positivePart_le: "c \<le> g \<Longrightarrow> positivePart g c = g - c"
  by (simp add: positivePart_def)

end
