(* ===== verification/Database.thy ===== *)
theory Database imports Prelude begin

text \<open>
  The rows the modelled code reads and writes, as declared in
  \<open>apps/api/prisma/schema.prisma\<close>, and the database they live in.

  Every table is a list of rows in insertion order. A row record has the columns that the
  modelled code reads or writes; \<open>updatedAt\<close> columns, descriptive catalog columns and columns
  that only other modules use are left out. Nullable columns are options. Columns are prefixed with
  a table abbreviation, since record fields share one name space.

  What the database engine supplies is part of the state: \<open>db_ids\<close> is the generator behind
  \<open>@default(cuid())\<close>, of which the next value is \<open>db_ids (db_next)\<close>, and \<open>db_now\<close>
  is the value of \<open>@default(now())\<close>. \<open>new Date()\<close> in the code is an argument \<open>now\<close>.
\<close>

section \<open>Enumerations\<close>

datatype user_status = UserActive | UserSuspended | UserBanned
datatype subscription_status = SubActive | SubExpired | SubPaused | SubCanceled
datatype pack_status = PackActive | PackExhausted | PackExpired
datatype order_status = OrderPending | OrderApplied | OrderVoid
datatype order_kind = OrderWalletTopup | OrderRenewal | OrderTrafficPack | OrderManualCredit
datatype order_source = SourceLegacy | SourceAdmin | SourceWallet | SourceCdk | SourcePayment
datatype billing_period = Legacy | Monthly | Quarterly | Yearly | OneTime
datatype wallet_kind = TxnTopup | TxnPurchase | TxnRefund | TxnAdjust
datatype product_kind = ProductPlan | ProductTrafficPack
datatype product_status = ProductDraft | ProductActive | ProductArchived
datatype product_series = Standard | Ultra
datatype quota_cadence = MonthlyReset | OneTimeQuota
datatype grant_kind = GrantPlan | GrantTrafficPack
datatype grant_status = GrantActive | GrantExpired | GrantCanceled
datatype bucket_kind = PlanCycle | TrafficPackBucket
datatype lifecycle = LifeActive | LifeDraining | LifeMaintenance | LifeDisabled
datatype adjust_mode = Delta | SetRemaining
datatype payment_source = PayWallet | PayCdk | PayManual | PayEpay
datatype payment_status = PayPending | PaySettled | PayVoid
datatype epay_status = EpayPending | EpaySettled | EpayExpired | EpayFailed
datatype fulfillment =
  FulPending | FulApplied | FulRetrying | FulRefundPending | FulRefunded | FulManualReview
datatype refund_method = RefundWallet | RefundManual | RefundOriginal | RefundEpay
datatype refund_status = RefundPending | RefundApplied | RefundVoid
datatype node_protocol = Hysteria2 | VlessReality
datatype member_status =
    MemberPaymentPending | MemberPaid | MemberFulfilled | MemberRefundPending | MemberRefunded
  | MemberFallbackFulfilled | MemberPaymentClosed | MemberException
datatype group_status =
    GroupPendingPayment | GroupOpen | GroupFulfilling | GroupSucceeded | GroupRefunding
  | GroupRefunded | GroupFallbackFulfilled | GroupException | GroupCanceled
datatype code_kind = CodePlan | CodeTrafficPack | CodeBalance | CodeDiscount
datatype code_status = CodeActive | CodeRedeemed | CodeVoid | CodeExpired
datatype referral_status = ReferralPending | ReferralRewarded | ReferralReversed
datatype epay_refund_status = EpayRefundPending | EpayRefundSubmitted | EpayRefundConfirmed | EpayRefundManual

text \<open>
  JSON columns. \<open>JDate t\<close> is the string \<open>toISOString\<close> gives for \<open>t\<close> and
  \<open>JBig n\<close> the decimal string of a BigInt, both kept by value.
\<close>

datatype json =
    JNull | JBool bool | JNum int | JStr string | JDate instant | JBig int
  | JArr "json list" | JObj "(string \<times> json) list"

fun jget :: "json \<Rightarrow> string \<Rightarrow> json option" where
  "jget (JObj kvs) k = map_of kvs k"
| "jget _ _ = None"

definition jopt :: "('a \<Rightarrow> json) \<Rightarrow> 'a option \<Rightarrow> json" where
  "jopt f x = (case x of None \<Rightarrow> JNull | Some v \<Rightarrow> f v)"

section \<open>Rows\<close>

record user_row =
  u_id :: id
  u_status :: user_status
  u_balanceCents :: int
  u_deletedAt :: "instant option"

record account_row =
  aa_id :: id
  aa_userId :: id
  aa_multiplier :: int
  aa_multiplierOverride :: "int option"
  aa_remainder :: int

record profile_row =
  ap_id :: id
  ap_active :: bool
  ap_speedUpMbps :: int
  ap_speedDownMbps :: int
  ap_deviceLimit :: int

record profile_node_row =
  apn_profileId :: id
  apn_nodeId :: id
  apn_priority :: int

record server_row =
  ns_id :: id
  ns_multiplier :: int

record node_row =
  n_id :: id
  n_serverId :: "id option"
  n_label :: string
  n_active :: bool
  n_lifecycle :: lifecycle
  n_region :: "string option"
  n_protocol :: node_protocol
  n_retiredAt :: "instant option"
  n_trafficApiSecret :: string
  n_controlApiSecret :: "string option"

record plan_row =
  p_id :: id
  p_name :: string
  p_slug :: string
  p_trafficBytes :: int
  p_durationDays :: int
  p_accessProfileId :: "id option"

record plan_offer_row =
  po_id :: id
  po_billingPeriod :: billing_period
  po_intervalMonths :: "int option"
  po_legacyDurationDays :: "int option"

record product_row =
  cp_id :: id
  cp_legacyPlanId :: "id option"
  cp_legacyTrafficPackProductId :: "id option"
  cp_slug :: string
  cp_kind :: product_kind
  cp_series :: product_series
  cp_status :: product_status
  cp_name :: string
  cp_quotaCadence :: quota_cadence
  cp_accessProfileId :: "id option"
  cp_speedUpMbps :: int
  cp_speedDownMbps :: int
  cp_defaultMultiplier :: int
  cp_purchaseLimitPerUser :: "int option"
  cp_purchaseLimitKey :: "string option"
  cp_requiresActivePlan :: bool
  cp_referralEligible :: bool

record offer_row =
  co_id :: id
  co_productId :: id
  co_legacyPlanOfferId :: "id option"
  co_slug :: string
  co_name :: string
  co_billingPeriod :: billing_period
  co_intervalMonths :: "int option"
  co_trafficBytes :: int
  co_priceCents :: int
  co_currency :: string
  co_active :: bool
  co_archivedAt :: "instant option"

record grant_row =
  g_id :: id
  g_userId :: id
  g_accountId :: id
  g_productId :: id
  g_offerId :: "id option"
  g_subscriptionId :: "id option"
  g_packId :: "id option"
  g_kind :: grant_kind
  g_status :: grant_status
  g_startsAt :: instant
  g_endsAt :: instant
  g_profileId :: id
  g_speedUp :: int
  g_speedDown :: int
  g_deviceLimit :: int
  g_multiplier :: int
  g_quotaCadence :: "quota_cadence option"
  g_resetAnchorAt :: "instant option"
  g_priceCents :: "int option"
  g_trafficBytes :: "int option"
  g_activeSlot :: "string option"
  g_createdAt :: instant

record bucket_row =
  qb_id :: id
  qb_grantId :: id
  qb_kind :: bucket_kind
  qb_startsAt :: instant
  qb_endsAt :: instant
  qb_granted :: int
  qb_consumed :: int
  qb_multiplier :: int
  qb_createdAt :: instant

record subscription_row =
  s_id :: id
  s_userId :: id
  s_planId :: id
  s_nodeId :: id
  s_accountId :: "id option"
  s_planOfferId :: "id option"
  s_status :: subscription_status
  s_startsAt :: instant
  s_endsAt :: instant
  s_included :: int
  s_bonus :: int
  s_consumed :: int
  s_speedUp :: int
  s_speedDown :: int
  s_deviceLimit :: int

record cycle_row =
  sc_id :: id
  sc_subscriptionId :: id
  sc_startsAt :: instant
  sc_endsAt :: instant
  sc_granted :: int
  sc_adjustment :: int
  sc_consumed :: int
  sc_overage :: int
  sc_legacy :: bool

record pack_row =
  tp_id :: id
  tp_userId :: id
  tp_subscriptionId :: "id option"
  tp_accountId :: "id option"
  tp_profileId :: "id option"
  tp_totalBytes :: int
  tp_remainingBytes :: int
  tp_status :: pack_status
  tp_expiresAt :: "instant option"
  tp_createdAt :: instant

record adjustment_row =
  qa_id :: id
  qa_accountId :: id
  qa_cycleId :: "id option"
  qa_packId :: "id option"
  qa_bucketId :: "id option"
  qa_actorId :: "id option"
  qa_idempotencyKey :: "string option"
  qa_mode :: adjust_mode
  qa_delta :: int
  qa_before :: int
  qa_after :: int
  qa_reason :: string

record order_row =
  mo_id :: id
  mo_userId :: id
  mo_planId :: "id option"
  mo_planOfferId :: "id option"
  mo_packProductId :: "id option"
  mo_catalogOfferId :: "id option"
  mo_status :: order_status
  mo_kind :: order_kind
  mo_source :: order_source
  mo_amountCents :: int
  mo_basePriceCents :: "int option"
  mo_discountCents :: int
  mo_durationDays :: "int option"
  mo_trafficBytes :: "int option"
  mo_entitlementExpiresAt :: "instant option"
  mo_billingPeriod :: "billing_period option"
  mo_intervalMonths :: "int option"
  mo_profileId :: "id option"
  mo_speedUp :: "int option"
  mo_speedDown :: "int option"
  mo_deviceLimit :: "int option"
  mo_multiplier :: "int option"
  mo_requiresActivePlan :: "bool option"
  mo_quotaCadence :: "quota_cadence option"
  mo_resetAnchorAt :: "instant option"
  mo_upgradeFromProductId :: "id option"
  mo_upgradeFromPriceCents :: "int option"
  mo_planUpgrade :: "json option"
  mo_grantId :: "id option"
  mo_idempotencyKey :: "string option"
  mo_note :: "string option"
  mo_createdAt :: instant
  mo_processedAt :: "instant option"

record wallet_txn_row =
  wt_id :: id
  wt_userId :: id
  wt_amountCents :: int
  wt_kind :: wallet_kind
  wt_note :: string

record ledger_row =
  wl_id :: id
  wl_legacyTransactionId :: "id option"
  wl_userId :: id
  wl_actorId :: "id option"
  wl_orderId :: "id option"
  wl_amountCents :: int
  wl_before :: "int option"
  wl_after :: "int option"
  wl_kind :: wallet_kind
  wl_idempotencyKey :: "string option"
  wl_note :: string

record rollup_row =
  ur_id :: id
  ur_userId :: id
  ur_subscriptionId :: "id option"
  ur_cycleId :: "id option"
  ur_nodeId :: id
  ur_bucketStart :: instant
  ur_txBytes :: int
  ur_rxBytes :: int
  ur_rawBytes :: int
  ur_multiplier :: int
  ur_accounted :: int
  ur_overage :: int
  ur_source :: string
  ur_importBatchId :: id
  ur_allocations :: "(id \<times> int) list"

record import_batch_row =
  ub_id :: id
  ub_nodeId :: id
  ub_externalId :: string
  ub_claimedAt :: instant
  ub_totalTx :: int
  ub_totalRx :: int
  ub_recordCount :: int

record token_row =
  at_id :: id
  at_userId :: id
  at_token :: string
  at_vlessUuid :: string
  at_createdAt :: instant
  at_revokedAt :: "instant option"
  at_lastUsedAt :: "instant option"

record payment_row =
  pr_id :: id
  pr_orderId :: id
  pr_userId :: id
  pr_source :: payment_source
  pr_status :: payment_status
  pr_amountCents :: int
  pr_externalRef :: "string option"
  pr_paidAt :: "instant option"

record epay_row =
  ea_id :: id
  ea_userId :: id
  ea_orderId :: "id option"
  ea_gatewayTradeNo :: "string option"
  ea_activeKey :: "string option"
  ea_status :: epay_status
  ea_fulfillment :: fulfillment
  ea_amountCents :: int
  ea_snapshot :: "json option"
  ea_settledAt :: "instant option"
  ea_closedAt :: "instant option"
  ea_failedAt :: "instant option"
  ea_lastSettlementError :: "string option"
  ea_lastSettlementFailedAt :: "instant option"
  ea_lastQueryError :: "string option"
  ea_merchantOrderNo :: string
  ea_abandonedAt :: "instant option"
  ea_abandonReason :: "string option"
  ea_createdAt :: instant

record epay_refund_row =
  er_id :: id
  er_paymentAttemptId :: id
  er_status :: epay_refund_status
  er_amountCents :: int
  er_reasonCode :: "string option"

record refund_row =
  rf_id :: id
  rf_orderId :: id
  rf_processedById :: "id option"
  rf_method :: refund_method
  rf_status :: refund_status
  rf_amountCents :: int
  rf_reason :: string

record group_member_row =
  gm_id :: id
  gm_groupId :: id
  gm_userId :: id
  gm_isCreator :: bool
  gm_status :: member_status
  gm_activeSlot :: "string option"
  gm_paymentAttemptId :: "id option"
  gm_orderId :: "id option"
  gm_bonusGrantId :: "id option"

record group_row =
  gb_id :: id
  gb_status :: group_status
  gb_completedAt :: "instant option"

record code_row =
  rc_id :: id
  rc_code :: string
  rc_label :: string
  rc_kind :: code_kind
  rc_status :: code_status
  rc_discountPercent :: "int option"
  rc_discountCents :: "int option"
  rc_maxUses :: int
  rc_maxUsesPerUser :: int
  rc_usedCount :: int
  rc_expiresAt :: "instant option"

record code_use_row =
  ru_id :: id
  ru_codeId :: id
  ru_userId :: id
  ru_orderId :: "id option"
  ru_useNumber :: int

record check_in_row =
  dc_id :: id
  dc_userId :: id
  dc_businessDate :: instant
  dc_rewardBytes :: int
  dc_grantId :: id
  dc_bucketId :: id
  dc_cycleId :: "id option"
  dc_adjustmentId :: id
  dc_claimedAt :: instant

record auth_event_row =
  ae_id :: id
  ae_userId :: "id option"
  ae_accessTokenId :: "id option"
  ae_nodeId :: "id option"
  ae_granted :: bool
  ae_reason :: string
  ae_remoteAddr :: "string option"
  ae_requestedTxBps :: "int option"
  ae_tokenPreview :: "string option"

record attribution_row =
  ra_id :: id
  ra_inviterId :: id
  ra_inviteeId :: id
  ra_codeSnapshot :: string
  ra_status :: referral_status
  ra_inviterRewardCents :: int
  ra_inviterRewardBasisPoints :: "int option"
  ra_inviteeRewardBytes :: int
  ra_qualifyingOrderId :: "id option"
  ra_rewardLedgerId :: "id option"
  ra_reversalLedgerId :: "id option"
  ra_bonusGrantId :: "id option"
  ra_rewardedAt :: "instant option"
  ra_reversedAt :: "instant option"
  ra_recoveredCents :: int
  ra_unrecoveredCents :: int
  ra_revokedUnusedBytes :: int
  ra_createdAt :: instant

record holiday_config =
  hc_inviteRewardCents :: "int option"
  hc_prizeCounts :: "int list"

record campaign_row =
  hcam_id :: id
  hcam_enabled :: bool
  hcam_startsAt :: instant
  hcam_endsAt :: instant
  hcam_reservedDraws :: int
  hcam_config :: holiday_config

record reward_row =
  hr_id :: id
  hr_campaignId :: id
  hr_inviterId :: id
  hr_inviteeId :: id
  hr_amountCents :: int
  hr_sourceOrderId :: "id option"
  hr_status :: string
  hr_reviewReason :: "string option"
  hr_rewardedAt :: "instant option"
  hr_reversedAt :: "instant option"

record ticket_row =
  ht_campaignId :: id
  ht_userId :: id
  ht_sourceOrderId :: "id option"
  ht_source :: string
  ht_sourceKey :: string
  ht_state :: string
  ht_prizeCents :: int

record audit_row =
  al_id :: id
  al_actorId :: "id option"
  al_action :: string
  al_targetType :: string
  al_targetId :: "id option"
  al_metadata :: json

section \<open>The database\<close>

record db =
  users :: "user_row list"
  accounts :: "account_row list"
  profiles :: "profile_row list"
  profileNodes :: "profile_node_row list"
  servers :: "server_row list"
  nodes :: "node_row list"
  plans :: "plan_row list"
  planOffers :: "plan_offer_row list"
  products :: "product_row list"
  offers :: "offer_row list"
  grants :: "grant_row list"
  buckets :: "bucket_row list"
  subscriptions :: "subscription_row list"
  cycles :: "cycle_row list"
  packs :: "pack_row list"
  adjustments :: "adjustment_row list"
  orders :: "order_row list"
  walletTxns :: "wallet_txn_row list"
  walletLedger :: "ledger_row list"
  rollups :: "rollup_row list"
  importBatches :: "import_batch_row list"
  tokens :: "token_row list"
  payments :: "payment_row list"
  epayAttempts :: "epay_row list"
  epayRefunds :: "epay_refund_row list"
  refunds :: "refund_row list"
  groupMembers :: "group_member_row list"
  attributions :: "attribution_row list"
  campaigns :: "campaign_row list"
  inviteRewards :: "reward_row list"
  drawTickets :: "ticket_row list"
  groupBuys :: "group_row list"
  redemptionCodes :: "code_row list"
  redemptionUses :: "code_use_row list"
  checkIns :: "check_in_row list"
  authEvents :: "auth_event_row list"
  audits :: "audit_row list"
  db_ids :: "nat \<Rightarrow> id"
  db_next :: nat
  db_now :: instant

text \<open>A row with a generated id: the id and the database after drawing it.\<close>

definition freshId :: "db \<Rightarrow> id" where
  "freshId d = db_ids d (db_next d)"

definition drawId :: "db \<Rightarrow> db" where
  "drawId d = d\<lparr>db_next := Suc (db_next d)\<rparr>"

text \<open>\<open>auditLog.create\<close>\<close>

definition createAudit ::
  "id option \<Rightarrow> string \<Rightarrow> string \<Rightarrow> id option \<Rightarrow> json \<Rightarrow> db \<Rightarrow> db" where
  "createAudit actorId action targetType targetId metadata d =
     (drawId d)\<lparr>audits := audits d @ [\<lparr>al_id = freshId d, al_actorId = actorId, al_action = action,
        al_targetType = targetType, al_targetId = targetId, al_metadata = metadata\<rparr>]\<rparr>"

text \<open>Drawing an id and writing an audit row leave the other tables alone.\<close>

lemma drawId_simps [simp]:
  "users (drawId d) = users d"
  "accounts (drawId d) = accounts d"
  "profiles (drawId d) = profiles d"
  "profileNodes (drawId d) = profileNodes d"
  "servers (drawId d) = servers d"
  "nodes (drawId d) = nodes d"
  "plans (drawId d) = plans d"
  "planOffers (drawId d) = planOffers d"
  "products (drawId d) = products d"
  "offers (drawId d) = offers d"
  "grants (drawId d) = grants d"
  "buckets (drawId d) = buckets d"
  "subscriptions (drawId d) = subscriptions d"
  "cycles (drawId d) = cycles d"
  "packs (drawId d) = packs d"
  "adjustments (drawId d) = adjustments d"
  "orders (drawId d) = orders d"
  "walletTxns (drawId d) = walletTxns d"
  "walletLedger (drawId d) = walletLedger d"
  "rollups (drawId d) = rollups d"
  "importBatches (drawId d) = importBatches d"
  "tokens (drawId d) = tokens d"
  "payments (drawId d) = payments d"
  "epayAttempts (drawId d) = epayAttempts d"
  "epayRefunds (drawId d) = epayRefunds d"
  "refunds (drawId d) = refunds d"
  "groupMembers (drawId d) = groupMembers d"
  "attributions (drawId d) = attributions d"
  "campaigns (drawId d) = campaigns d"
  "inviteRewards (drawId d) = inviteRewards d"
  "drawTickets (drawId d) = drawTickets d"
  "groupBuys (drawId d) = groupBuys d"
  "redemptionCodes (drawId d) = redemptionCodes d"
  "redemptionUses (drawId d) = redemptionUses d"
  "checkIns (drawId d) = checkIns d"
  "authEvents (drawId d) = authEvents d"
  "audits (drawId d) = audits d"
  "db_ids (drawId d) = db_ids d"
  "db_now (drawId d) = db_now d"
  by (simp_all add: drawId_def)

lemma createAudit_simps [simp]:
  "users (createAudit a b c i j d) = users d"
  "accounts (createAudit a b c i j d) = accounts d"
  "profiles (createAudit a b c i j d) = profiles d"
  "profileNodes (createAudit a b c i j d) = profileNodes d"
  "servers (createAudit a b c i j d) = servers d"
  "nodes (createAudit a b c i j d) = nodes d"
  "plans (createAudit a b c i j d) = plans d"
  "planOffers (createAudit a b c i j d) = planOffers d"
  "products (createAudit a b c i j d) = products d"
  "offers (createAudit a b c i j d) = offers d"
  "grants (createAudit a b c i j d) = grants d"
  "buckets (createAudit a b c i j d) = buckets d"
  "subscriptions (createAudit a b c i j d) = subscriptions d"
  "cycles (createAudit a b c i j d) = cycles d"
  "packs (createAudit a b c i j d) = packs d"
  "adjustments (createAudit a b c i j d) = adjustments d"
  "orders (createAudit a b c i j d) = orders d"
  "walletTxns (createAudit a b c i j d) = walletTxns d"
  "walletLedger (createAudit a b c i j d) = walletLedger d"
  "rollups (createAudit a b c i j d) = rollups d"
  "importBatches (createAudit a b c i j d) = importBatches d"
  "tokens (createAudit a b c i j d) = tokens d"
  "payments (createAudit a b c i j d) = payments d"
  "epayAttempts (createAudit a b c i j d) = epayAttempts d"
  "epayRefunds (createAudit a b c i j d) = epayRefunds d"
  "refunds (createAudit a b c i j d) = refunds d"
  "groupMembers (createAudit a b c i j d) = groupMembers d"
  "attributions (createAudit a b c i j d) = attributions d"
  "campaigns (createAudit a b c i j d) = campaigns d"
  "inviteRewards (createAudit a b c i j d) = inviteRewards d"
  "drawTickets (createAudit a b c i j d) = drawTickets d"
  "groupBuys (createAudit a b c i j d) = groupBuys d"
  "redemptionCodes (createAudit a b c i j d) = redemptionCodes d"
  "redemptionUses (createAudit a b c i j d) = redemptionUses d"
  "checkIns (createAudit a b c i j d) = checkIns d"
  "authEvents (createAudit a b c i j d) = authEvents d"
  "db_ids (createAudit a b c i j d) = db_ids d"
  "db_now (createAudit a b c i j d) = db_now d"
  by (simp_all add: createAudit_def)

text \<open>The database of a fresh installation: every table empty.\<close>

definition emptyDb :: db where
  "emptyDb = \<lparr>users = [], accounts = [], profiles = [], profileNodes = [], servers = [], nodes = [],
     plans = [], planOffers = [], products = [], offers = [], grants = [], buckets = [],
     subscriptions = [], cycles = [], packs = [], adjustments = [], orders = [], walletTxns = [],
     walletLedger = [], rollups = [], importBatches = [], tokens = [], payments = [],
     epayAttempts = [], epayRefunds = [], refunds = [], groupMembers = [], attributions = [],
     campaigns = [], inviteRewards = [], drawTickets = [],
     groupBuys = [], redemptionCodes = [], redemptionUses = [], checkIns = [], authEvents = [],
     audits = [],
     db_ids = (\<lambda>n. replicate n (CHR ''x'')), db_next = 0, db_now = 0\<rparr>"

end
