(* ===== verification/Wallet.thy ===== *)
theory Wallet imports Database begin

text \<open>
  The immutable wallet ledger, \<open>apps/api/src/wallet/wallet-ledger.ts\<close>: the only code that
  moves a member's balance. \<open>postWalletEntry\<close>, \<open>setWalletBalance\<close> and
  \<open>recoverWalletCredit\<close> look for an entry with the same idempotency key, lock the owner's row,
  look again, and write the balance, the compatibility transaction and the ledger entry.

  The second look is there because another transaction may commit while this one waits for the
  row lock. That transaction is the parameter \<open>meanwhile\<close>, any function on databases; a caller
  that meets no contention passes \<open>\<lambda>d. d\<close>.
\<close>

section \<open>Postings\<close>

record posting =
  wp_userId :: id
  wp_amountCents :: int
  wp_kind :: wallet_kind
  wp_actorId :: "id option"
  wp_orderId :: "id option"
  wp_idempotencyKey :: "string option"
  wp_note :: string
  wp_allowDeletedUser :: bool

record posting_result =
  pr_ledgerId :: "id option"
  pr_before :: int
  pr_after :: int
  pr_replayed :: bool

record recovery_result =
  rr_ledgerId :: "id option"
  rr_recovered :: int
  rr_unrecovered :: int
  rr_replayed :: bool

definition existingPosting :: "id \<Rightarrow> string option \<Rightarrow> db \<Rightarrow> ledger_row option" where
  "existingPosting userId key d =
     (case key of None \<Rightarrow> None
      | Some k \<Rightarrow> if k = [] then None
          else List.find (\<lambda>l. wl_userId l = userId \<and> wl_idempotencyKey l = Some k) (walletLedger d))"

definition lockWallet :: "(db \<Rightarrow> db) \<Rightarrow> id \<Rightarrow> db \<Rightarrow> error + (user_row \<times> db)" where
  "lockWallet meanwhile userId d =
     (let d1 = meanwhile d
      in case lookup u_id userId (users d1) of
           None \<Rightarrow> Inl (NotFound ''wallet-owner'')
         | Some u \<Rightarrow> Inr (u, d1))"

definition createLedgerEntry :: "ledger_row \<Rightarrow> db \<Rightarrow> error + db" where
  "createLedgerEntry row d =
     (if wl_idempotencyKey row \<noteq> None \<and>
         (\<exists>l \<in> set (walletLedger d). wl_userId l = wl_userId row \<and>
            wl_idempotencyKey l = wl_idempotencyKey row)
      then Inl (PrismaKnown ''P2002'')
      else Inr (d\<lparr>walletLedger := walletLedger d @ [row]\<rparr>))"

text \<open>
  \<open>User.balanceCents\<close> is an \<open>Int\<close> column, a signed 32-bit integer: the engine refuses
  to store a larger value, which fails the transaction.
\<close>

definition MAX_INT4 :: int where
  "MAX_INT4 = 2147483647"

definition columnRange :: error where
  "columnRange = PrismaKnown ''P2020''"

definition writePosting :: "posting \<Rightarrow> int \<Rightarrow> db \<Rightarrow> error + (posting_result \<times> db)" where
  "writePosting p before d =
     (let after = before + wp_amountCents p
      in if after < 0 then Inl (BadRequest ''insufficient-balance'')
         else if wp_amountCents p = 0
         then Inr (\<lparr>pr_ledgerId = None, pr_before = before, pr_after = after, pr_replayed = False\<rparr>, d)
         else if MAX_INT4 < after then Inl columnRange
         else bindE (update_one u_id (wp_userId p) (u_balanceCents_update (\<lambda>_. after)) (users d)) (\<lambda>us.
           let d1 = d\<lparr>users := us\<rparr>;
               txnId = freshId d1;
               d2 = (drawId d1)\<lparr>walletTxns := walletTxns d1 @
                      [\<lparr>wt_id = txnId, wt_userId = wp_userId p, wt_amountCents = wp_amountCents p,
                        wt_kind = wp_kind p, wt_note = wp_note p\<rparr>]\<rparr>;
               ledgerId = freshId d2
           in bindE (createLedgerEntry
                 \<lparr>wl_id = ledgerId, wl_legacyTransactionId = Some txnId, wl_userId = wp_userId p,
                  wl_actorId = wp_actorId p, wl_orderId = wp_orderId p,
                  wl_amountCents = wp_amountCents p, wl_before = Some before, wl_after = Some after,
                  wl_kind = wp_kind p, wl_idempotencyKey = wp_idempotencyKey p,
                  wl_note = wp_note p\<rparr> (drawId d2)) (\<lambda>d3.
               Inr (\<lparr>pr_ledgerId = Some ledgerId, pr_before = before, pr_after = after,
                     pr_replayed = False\<rparr>, d3))))"

definition replayPosting :: "ledger_row \<Rightarrow> posting_result" where
  "replayPosting l = \<lparr>pr_ledgerId = Some (wl_id l), pr_before = nvl (wl_before l) 0,
                      pr_after = nvl (wl_after l) 0, pr_replayed = True\<rparr>"

definition postWalletEntry ::
  "(db \<Rightarrow> db) \<Rightarrow> posting \<Rightarrow> db \<Rightarrow> error + (posting_result \<times> db)" where
  "postWalletEntry meanwhile p d =
     (if \<not> isSafeInteger (wp_amountCents p) then Inl (BadRequest ''integer-cents'')
      else case existingPosting (wp_userId p) (wp_idempotencyKey p) d of
        Some l \<Rightarrow> Inr (replayPosting l, d)
      | None \<Rightarrow>
          bindE (lockWallet meanwhile (wp_userId p) d) (\<lambda>(wallet, d1).
            if u_deletedAt wallet \<noteq> None \<and> \<not> wp_allowDeletedUser p
            then Inl (BadRequest ''owner-deleted'')
            else case existingPosting (wp_userId p) (wp_idempotencyKey p) d1 of
              Some l \<Rightarrow> Inr (replayPosting l, d1)
            | None \<Rightarrow> writePosting p (u_balanceCents wallet) d1))"

text \<open>\<open>setWalletBalance\<close> takes the target balance where a posting has its amount.\<close>

definition setWalletBalance ::
  "(db \<Rightarrow> db) \<Rightarrow> posting \<Rightarrow> int \<Rightarrow> db \<Rightarrow> error + (posting_result \<times> db)" where
  "setWalletBalance meanwhile p balanceCents d =
     (if \<not> isSafeInteger balanceCents \<or> balanceCents < 0
      then Inl (BadRequest ''non-negative-integer-cents'')
      else case existingPosting (wp_userId p) (wp_idempotencyKey p) d of
        Some l \<Rightarrow> Inr (replayPosting l, d)
      | None \<Rightarrow>
          bindE (lockWallet meanwhile (wp_userId p) d) (\<lambda>(wallet, d1).
            if u_deletedAt wallet \<noteq> None \<and> \<not> wp_allowDeletedUser p
            then Inl (BadRequest ''owner-deleted'')
            else case existingPosting (wp_userId p) (wp_idempotencyKey p) d1 of
              Some l \<Rightarrow> Inr (replayPosting l, d1)
            | None \<Rightarrow>
                writePosting (p\<lparr>wp_amountCents := balanceCents - u_balanceCents wallet\<rparr>)
                  (u_balanceCents wallet) d1))"

definition replayRecovery :: "int \<Rightarrow> ledger_row \<Rightarrow> recovery_result" where
  "replayRecovery requested l =
     (let recovered = max 0 (- wl_amountCents l)
      in \<lparr>rr_ledgerId = Some (wl_id l), rr_recovered = recovered,
          rr_unrecovered = max 0 (requested - recovered), rr_replayed = True\<rparr>)"

definition recoverWalletCredit ::
  "(db \<Rightarrow> db) \<Rightarrow> posting \<Rightarrow> int \<Rightarrow> db \<Rightarrow> error + (recovery_result \<times> db)" where
  "recoverWalletCredit meanwhile p requested d =
     (if \<not> isSafeInteger requested \<or> requested < 0 then Inl (BadRequest ''recovery-amount'')
      else case existingPosting (wp_userId p) (wp_idempotencyKey p) d of
        Some l \<Rightarrow> Inr (replayRecovery requested l, d)
      | None \<Rightarrow>
          bindE (lockWallet meanwhile (wp_userId p) d) (\<lambda>(wallet, d1).
            case existingPosting (wp_userId p) (wp_idempotencyKey p) d1 of
              Some l \<Rightarrow> Inr (replayRecovery requested l, d1)
            | None \<Rightarrow>
                let recovered = min (u_balanceCents wallet) requested
                in bindE (writePosting (p\<lparr>wp_amountCents := - recovered\<rparr>)
                            (u_balanceCents wallet) d1) (\<lambda>(r, d2).
                     Inr (\<lparr>rr_ledgerId = pr_ledgerId r, rr_recovered = recovered,
                           rr_unrecovered = requested - recovered, rr_replayed = False\<rparr>, d2))))"

section \<open>Balances\<close>

definition balance :: "db \<Rightarrow> id \<Rightarrow> int option" where
  "balance d u = map_option u_balanceCents (lookup u_id u (users d))"

definition ledgerTotal :: "db \<Rightarrow> id \<Rightarrow> int" where
  "ledgerTotal d u = sum_list (map wl_amountCents (filter (\<lambda>l. wl_userId l = u) (walletLedger d)))"

text \<open>The part of a balance no ledger entry accounts for (an opening balance).\<close>

definition unledgered :: "db \<Rightarrow> id \<Rightarrow> int option" where
  "unledgered d u = map_option (\<lambda>b. b - ledgerTotal d u) (balance d u)"

definition entriesFor :: "db \<Rightarrow> id \<Rightarrow> string \<Rightarrow> ledger_row list" where
  "entriesFor d u k =
     filter (\<lambda>l. wl_userId l = u \<and> wl_idempotencyKey l = Some k) (walletLedger d)"

definition solvent :: "db \<Rightarrow> bool" where
  "solvent d \<longleftrightarrow> (\<forall>u \<in> set (users d). 0 \<le> u_balanceCents u \<and> u_balanceCents u \<le> MAX_INT4)"

lemma existingPosting_Some:
  "existingPosting u key d = Some l \<Longrightarrow>
   l \<in> set (walletLedger d) \<and> wl_userId l = u \<and> wl_idempotencyKey l = key \<and> key \<noteq> None"
  by (auto simp: existingPosting_def find_Some_iff split: option.splits if_splits)

lemma existingPosting_None_entries:
  "existingPosting u (Some k) d = None \<Longrightarrow> k \<noteq> [] \<Longrightarrow> entriesFor d u k = []"
  by (auto simp: existingPosting_def entriesFor_def find_None_iff filter_empty_conv)

lemma lockWallet_eq_Inr [err_simps]:
  "lockWallet m u d = Inr (w, d1) \<longleftrightarrow> d1 = m d \<and> lookup u_id u (users (m d)) = Some w"
  by (auto simp: lockWallet_def Let_def split: option.splits)

text \<open>What a written posting does, in one place.\<close>

lemma writePosting_Inr:
  assumes "writePosting p before d = Inr (r, d')"
  shows "pr_before r = before" and "pr_after r = before + wp_amountCents p"
    and "0 \<le> before + wp_amountCents p" and "\<not> pr_replayed r"
    and "wp_amountCents p = 0 \<Longrightarrow> d' = d"
    and "wp_amountCents p \<noteq> 0 \<Longrightarrow>
      users d' = update_many (\<lambda>u. u_id u = wp_userId p)
        (u_balanceCents_update (\<lambda>_. before + wp_amountCents p)) (users d)"
    and "wp_amountCents p \<noteq> 0 \<Longrightarrow>
      \<exists>l. walletLedger d' = walletLedger d @ [l] \<and> wl_userId l = wp_userId p
        \<and> wl_idempotencyKey l = wp_idempotencyKey p \<and> wl_amountCents l = wp_amountCents p
        \<and> wl_before l = Some before \<and> wl_after l = Some (before + wp_amountCents p)
        \<and> pr_ledgerId r = Some (wl_id l)"
    and "wp_amountCents p \<noteq> 0 \<Longrightarrow> before + wp_amountCents p \<le> MAX_INT4"
  using assms
  by (auto simp: writePosting_def createLedgerEntry_def Let_def err_simps split: if_splits)

lemma writePosting_balance:
  assumes "writePosting p b d = Inr (r, d')" and "balance d (wp_userId p) = Some b"
  shows "balance d' u = (if u = wp_userId p then Some (b + wp_amountCents p) else balance d u)"
proof (cases "wp_amountCents p = 0")
  case True
  then show ?thesis using writePosting_Inr(5) [OF assms(1)] assms(2) by simp
next
  case False
  then show ?thesis using writePosting_Inr(6) [OF assms(1)] assms(2)
    by (auto simp: balance_def lookup_update_key)
qed

lemma writePosting_ledgerTotal:
  assumes "writePosting p b d = Inr (r, d')"
  shows "ledgerTotal d' u = ledgerTotal d u + (if u = wp_userId p then wp_amountCents p else 0)"
  using writePosting_Inr(5,7) [OF assms]
  by (cases "wp_amountCents p = 0") (auto simp: ledgerTotal_def)

lemma writePosting_unledgered:
  assumes "writePosting p b d = Inr (r, d')" and "balance d (wp_userId p) = Some b"
  shows "unledgered d' u = unledgered d u"
  using writePosting_balance [OF assms, of u] writePosting_ledgerTotal [OF assms(1), of u] assms(2)
  by (auto simp: unledgered_def)

lemma writePosting_solvent:
  assumes "writePosting p b d = Inr (r, d')" and "solvent d"
  shows "solvent d'"
  using writePosting_Inr(3,5,6,8) [OF assms(1)] assms(2)
  by (cases "wp_amountCents p = 0") (auto simp: solvent_def set_update_many)

lemma writePosting_never_P2002:
  assumes "existingPosting (wp_userId p) (wp_idempotencyKey p) d = None"
    and "wp_idempotencyKey p \<noteq> Some []"
  shows "writePosting p b d \<noteq> Inl (PrismaKnown ''P2002'')"
  using assms
  by (auto simp: writePosting_def createLedgerEntry_def update_one_def existingPosting_def Let_def
      columnRange_def find_None_iff err_simps split: if_splits option.splits)

section \<open>The contract other modules rely on\<close>

text \<open>
  A wallet: who owns how much, and a posting operation. Referrals, holiday rewards, top-ups and
  refunds post through it and never write balances themselves.
\<close>

locale wallet_api =
  fixes bal :: "'d \<Rightarrow> id \<Rightarrow> int option"
    and total :: "'d \<Rightarrow> id \<Rightarrow> int"
    and post :: "posting \<Rightarrow> 'd \<Rightarrow> error + (posting_result \<times> 'd)"
  assumes post_owner:
      "post p d = Inr (r, d') \<Longrightarrow> \<not> pr_replayed r \<Longrightarrow>
       \<exists>b. bal d (wp_userId p) = Some b \<and> 0 \<le> b + wp_amountCents p"
    and post_bal:
      "post p d = Inr (r, d') \<Longrightarrow> \<not> pr_replayed r \<Longrightarrow>
       bal d' u = (if u = wp_userId p then map_option (\<lambda>b. b + wp_amountCents p) (bal d u) else bal d u)"
    and post_total:
      "post p d = Inr (r, d') \<Longrightarrow> \<not> pr_replayed r \<Longrightarrow>
       total d' u = total d u + (if u = wp_userId p then wp_amountCents p else 0)"
    and post_replay: "post p d = Inr (r, d') \<Longrightarrow> pr_replayed r \<Longrightarrow> d' = d"
begin

lemma nonneg_kept:
  assumes "post p d = Inr (r, d')" and "\<And>u b. bal d u = Some b \<Longrightarrow> 0 \<le> b" and "bal d' u = Some b"
  shows "0 \<le> b"
  using post_owner [OF assms(1)] post_bal [OF assms(1), of u] post_replay [OF assms(1)] assms(2,3)
  by (cases "pr_replayed r") (auto split: if_splits)

lemma gap_kept:
  assumes "post p d = Inr (r, d')"
  shows "map_option (\<lambda>b. b - total d' u) (bal d' u) = map_option (\<lambda>b. b - total d u) (bal d u)"
  using post_bal [OF assms, of u] post_total [OF assms, of u] post_replay [OF assms]
  by (cases "pr_replayed r"; cases "bal d u") auto

lemma others_kept:
  "post p d = Inr (r, d') \<Longrightarrow> u \<noteq> wp_userId p \<Longrightarrow> bal d' u = bal d u"
  using post_bal [of p d r d' u] post_replay [of p d r d'] by (cases "pr_replayed r") auto

text \<open>A credit and the debit that recovers it leave every balance as it was.\<close>

lemma credit_then_recover:
  assumes "post p d = Inr (r, d1)" "\<not> pr_replayed r"
    and "post q d1 = Inr (s, d2)" "\<not> pr_replayed s"
    and "wp_userId q = wp_userId p" "wp_amountCents q = - wp_amountCents p"
  shows "bal d2 u = bal d u"
  using post_bal [OF assms(1,2), of u] post_bal [OF assms(3,4), of u] assms(5,6)
  by (cases "bal d u") auto

end

text \<open>Posting without contention, as inside a serializable transaction.\<close>

definition postEntry :: "posting \<Rightarrow> db \<Rightarrow> error + (posting_result \<times> db)" where
  "postEntry p d = postWalletEntry (\<lambda>d. d) p d"

lemma postWalletEntry_cases:
  assumes "postWalletEntry m p d = Inr (r, d')"
  shows "(pr_replayed r \<and> (d' = d \<or> d' = m d)) \<or>
    (\<not> pr_replayed r \<and> (\<exists>w. lookup u_id (wp_userId p) (users (m d)) = Some w
        \<and> existingPosting (wp_userId p) (wp_idempotencyKey p) (m d) = None
        \<and> writePosting p (u_balanceCents w) (m d) = Inr (r, d')))"
  using assms
  by (auto simp: postWalletEntry_def err_simps replayPosting_def split: if_splits option.splits
      dest: writePosting_Inr(4))

lemma postEntry_write:
  "postEntry p d = Inr (r, d') \<Longrightarrow> \<not> pr_replayed r \<Longrightarrow>
   \<exists>b. balance d (wp_userId p) = Some b \<and> writePosting p b d = Inr (r, d')"
  using postWalletEntry_cases [of "\<lambda>d. d" p d r d'] by (auto simp: postEntry_def balance_def)

interpretation wallet: wallet_api balance ledgerTotal postEntry
proof unfold_locales
  fix p d r d' u
  assume post: "postEntry p d = Inr (r, d')"
  show "pr_replayed r \<Longrightarrow> d' = d"
    using postWalletEntry_cases [of "\<lambda>d. d" p d r d'] post by (auto simp: postEntry_def)
  assume "\<not> pr_replayed r"
  then obtain b where b: "balance d (wp_userId p) = Some b" "writePosting p b d = Inr (r, d')"
    using postEntry_write [OF post] by blast
  show "\<exists>b. balance d (wp_userId p) = Some b \<and> 0 \<le> b + wp_amountCents p"
    using b writePosting_Inr(3) by blast
  show "balance d' u = (if u = wp_userId p then map_option (\<lambda>b. b + wp_amountCents p) (balance d u)
      else balance d u)"
    using writePosting_balance [OF b(2,1), of u] b(1) by simp
  show "ledgerTotal d' u = ledgerTotal d u + (if u = wp_userId p then wp_amountCents p else 0)"
    by (rule writePosting_ledgerTotal [OF b(2)])
qed

text \<open>A posting touches the balances, the two ledgers and the id generator, and nothing else.\<close>

definition nonWallet :: "db \<Rightarrow> db" where
  "nonWallet d = d\<lparr>users := [], walletTxns := [], walletLedger := [], db_next := 0\<rparr>"

lemma writePosting_frame: "writePosting p b d = Inr (r, d') \<Longrightarrow> nonWallet d' = nonWallet d"
  by (auto simp: nonWallet_def writePosting_def createLedgerEntry_def drawId_def Let_def err_simps
      split: if_splits)

lemma nonWallet_restore:
  "(nonWallet d)\<lparr>users := users d, walletTxns := walletTxns d, walletLedger := walletLedger d,
     db_next := db_next d\<rparr> = d"
  by (simp add: nonWallet_def)

lemma nonWallet_eqE:
  assumes "nonWallet d' = nonWallet d"
  obtains us ts ls n where
    "d' = d\<lparr>users := us, walletTxns := ts, walletLedger := ls, db_next := n\<rparr>"
proof
  show "d' = d\<lparr>users := users d', walletTxns := walletTxns d', walletLedger := walletLedger d',
      db_next := db_next d'\<rparr>"
    using nonWallet_restore [of d'] unfolding assms by (simp add: nonWallet_def)
qed

lemma postEntry_nonWallet: "postEntry p d = Inr (r, d') \<Longrightarrow> nonWallet d' = nonWallet d"
  using postWalletEntry_cases [of "\<lambda>d. d" p d r d'] writePosting_frame by (auto simp: postEntry_def)

lemma nonWallet_tables:
  assumes "nonWallet d' = nonWallet d"
  shows "accounts d' = accounts d"
    and "profiles d' = profiles d"
    and "profileNodes d' = profileNodes d"
    and "servers d' = servers d"
    and "nodes d' = nodes d"
    and "plans d' = plans d"
    and "planOffers d' = planOffers d"
    and "products d' = products d"
    and "offers d' = offers d"
    and "grants d' = grants d"
    and "buckets d' = buckets d"
    and "subscriptions d' = subscriptions d"
    and "cycles d' = cycles d"
    and "packs d' = packs d"
    and "adjustments d' = adjustments d"
    and "orders d' = orders d"
    and "rollups d' = rollups d"
    and "importBatches d' = importBatches d"
    and "tokens d' = tokens d"
    and "payments d' = payments d"
    and "epayAttempts d' = epayAttempts d"
    and "epayRefunds d' = epayRefunds d"
    and "refunds d' = refunds d"
    and "groupMembers d' = groupMembers d"
    and "attributions d' = attributions d"
    and "campaigns d' = campaigns d"
    and "inviteRewards d' = inviteRewards d"
    and "drawTickets d' = drawTickets d"
    and "audits d' = audits d"
  using arg_cong [OF assms, of accounts]
    arg_cong [OF assms, of profiles]
    arg_cong [OF assms, of profileNodes]
    arg_cong [OF assms, of servers]
    arg_cong [OF assms, of nodes]
    arg_cong [OF assms, of plans]
    arg_cong [OF assms, of planOffers]
    arg_cong [OF assms, of products]
    arg_cong [OF assms, of offers]
    arg_cong [OF assms, of grants]
    arg_cong [OF assms, of buckets]
    arg_cong [OF assms, of subscriptions]
    arg_cong [OF assms, of cycles]
    arg_cong [OF assms, of packs]
    arg_cong [OF assms, of adjustments]
    arg_cong [OF assms, of orders]
    arg_cong [OF assms, of rollups]
    arg_cong [OF assms, of importBatches]
    arg_cong [OF assms, of tokens]
    arg_cong [OF assms, of payments]
    arg_cong [OF assms, of epayAttempts]
    arg_cong [OF assms, of epayRefunds]
    arg_cong [OF assms, of refunds]
    arg_cong [OF assms, of groupMembers]
    arg_cong [OF assms, of attributions]
    arg_cong [OF assms, of campaigns]
    arg_cong [OF assms, of inviteRewards]
    arg_cong [OF assms, of drawTickets]
    arg_cong [OF assms, of audits]
  by (simp_all add: nonWallet_def)

lemmas postEntry_tables = nonWallet_tables [OF postEntry_nonWallet]

section \<open>Exactly once\<close>

text \<open>The ledger's unique index: a member has at most one entry under a key.\<close>

definition keysUnique :: "db \<Rightarrow> bool" where
  "keysUnique d \<longleftrightarrow> (\<forall>u k. length (entriesFor d u k) \<le> 1)"

definition chained :: "ledger_row \<Rightarrow> bool" where
  "chained l \<longleftrightarrow> (case (wl_before l, wl_after l) of
       (Some b, Some a) \<Rightarrow> a = b + wl_amountCents l \<and> 0 \<le> a | _ \<Rightarrow> True)"

definition ledgerChained :: "db \<Rightarrow> bool" where
  "ledgerChained d \<longleftrightarrow> (\<forall>l \<in> set (walletLedger d). chained l)"

lemma createLedgerEntry_keysUnique:
  assumes "createLedgerEntry l d = Inr d'" and "keysUnique d"
  shows "keysUnique d'"
proof -
  have "length (entriesFor d' u k) \<le> 1" for u k
  proof (cases "wl_userId l = u \<and> wl_idempotencyKey l = Some k")
    case True
    with assms(1) have "entriesFor d u k = []"
      by (auto simp: createLedgerEntry_def entriesFor_def filter_empty_conv split: if_splits)
    then show ?thesis using assms(1) by (auto simp: createLedgerEntry_def entriesFor_def split: if_splits)
  next
    case False
    then have "entriesFor d' u k = entriesFor d u k"
      using assms(1) by (auto simp: createLedgerEntry_def entriesFor_def split: if_splits)
    then show ?thesis using assms(2) by (simp add: keysUnique_def)
  qed
  then show ?thesis by (simp add: keysUnique_def)
qed

lemma keysUnique_cong: "walletLedger d' = walletLedger d \<Longrightarrow> keysUnique d' = keysUnique d"
  by (simp add: keysUnique_def entriesFor_def)

lemma writePosting_keysUnique:
  assumes "writePosting p b d = Inr (r, d')" and "keysUnique d"
  shows "keysUnique d'"
proof (cases "wp_amountCents p = 0")
  case True
  then show ?thesis using writePosting_Inr(5) [OF assms(1)] assms(2) by simp
next
  case False
  then obtain l d3 where "createLedgerEntry l d3 = Inr d'" and "walletLedger d3 = walletLedger d"
    using assms(1) by (auto simp: writePosting_def Let_def err_simps split: if_splits)
  then show ?thesis using createLedgerEntry_keysUnique keysUnique_cong assms(2) by blast
qed

lemma writePosting_ledgerChained:
  "writePosting p b d = Inr (r, d') \<Longrightarrow> ledgerChained d \<Longrightarrow> ledgerChained d'"
  using writePosting_Inr(3,5,7) [of p b d r d']
  by (cases "wp_amountCents p = 0") (auto simp: ledgerChained_def chained_def)

text \<open>Everything the ledger promises about one database, and about two of them.\<close>

definition walletInv :: "db \<Rightarrow> bool" where
  "walletInv d \<longleftrightarrow> solvent d \<and> keysUnique d \<and> ledgerChained d"

definition ledgerExtends :: "db \<Rightarrow> db \<Rightarrow> bool" where
  "ledgerExtends d d' \<longleftrightarrow>
     (\<exists>new. walletLedger d' = walletLedger d @ new) \<and> (\<forall>u. unledgered d' u = unledgered d u)"

lemma ledgerExtends_refl [simp]: "ledgerExtends d d"
  by (simp add: ledgerExtends_def)

lemma ledgerExtends_trans: "ledgerExtends d d' \<Longrightarrow> ledgerExtends d' d'' \<Longrightarrow> ledgerExtends d d''"
  by (auto simp: ledgerExtends_def)

lemma writePosting_sound:
  assumes "writePosting p b d = Inr (r, d')" and "balance d (wp_userId p) = Some b"
  shows "walletInv d \<Longrightarrow> walletInv d'" and "ledgerExtends d d'"
proof -
  show "walletInv d \<Longrightarrow> walletInv d'"
    using assms(1) writePosting_solvent writePosting_keysUnique writePosting_ledgerChained
    unfolding walletInv_def by blast
  show "ledgerExtends d d'"
    using writePosting_unledgered [OF assms] writePosting_Inr(5,7) [OF assms(1)]
    by (cases "wp_amountCents p = 0") (auto simp: ledgerExtends_def)
qed

text \<open>
  The three operations follow one course: a replay that leaves the database as it is (before or
  after waiting for the lock), or one posting written on the balance read under the lock.
\<close>

definition wroteOrReplayed :: "(db \<Rightarrow> db) \<Rightarrow> posting \<Rightarrow> db \<Rightarrow> db \<Rightarrow> bool" where
  "wroteOrReplayed m p d d' \<longleftrightarrow> d' = d \<or> d' = m d \<or>
     (\<exists>q b r. wp_userId q = wp_userId p \<and> balance (m d) (wp_userId p) = Some b
        \<and> writePosting q b (m d) = Inr (r, d'))"

lemma postWalletEntry_course:
  "postWalletEntry m p d = Inr (r, d') \<Longrightarrow> wroteOrReplayed m p d d'"
  using postWalletEntry_cases [of m p d r d'] by (auto simp: wroteOrReplayed_def balance_def)

lemma setWalletBalance_cases:
  assumes "setWalletBalance m p target d = Inr (r, d')"
  shows "(pr_replayed r \<and> (d' = d \<or> d' = m d)) \<or>
    (\<not> pr_replayed r \<and> 0 \<le> target \<and> (\<exists>b. balance (m d) (wp_userId p) = Some b
        \<and> writePosting (p\<lparr>wp_amountCents := target - b\<rparr>) b (m d) = Inr (r, d')))"
  using assms
  by (auto simp: setWalletBalance_def err_simps replayPosting_def balance_def
      split: if_splits option.splits dest: writePosting_Inr(4))

lemma setWalletBalance_course:
  "setWalletBalance m p target d = Inr (r, d') \<Longrightarrow> wroteOrReplayed m p d d'"
  using setWalletBalance_cases [of m p target d r d']
  by (auto simp: wroteOrReplayed_def intro: exI [of _ "p\<lparr>wp_amountCents := target - b\<rparr>" for b])

lemma recoverWalletCredit_cases:
  assumes "recoverWalletCredit m p requested d = Inr (r, d')"
  shows "(rr_replayed r \<and> (d' = d \<or> d' = m d)) \<or>
    (\<not> rr_replayed r \<and> 0 \<le> requested \<and> (\<exists>b s. balance (m d) (wp_userId p) = Some b
        \<and> writePosting (p\<lparr>wp_amountCents := - min b requested\<rparr>) b (m d) = Inr (s, d')
        \<and> rr_recovered r = min b requested \<and> rr_unrecovered r = requested - min b requested))"
  using assms
  by (auto simp: recoverWalletCredit_def err_simps replayRecovery_def balance_def Let_def
      split: if_splits option.splits)

lemma recoverWalletCredit_course:
  "recoverWalletCredit m p requested d = Inr (r, d') \<Longrightarrow> wroteOrReplayed m p d d'"
  using recoverWalletCredit_cases [of m p requested d r d']
  by (auto simp: wroteOrReplayed_def
      intro: exI [of _ "p\<lparr>wp_amountCents := - min b requested\<rparr>" for b])

lemma course_sound:
  assumes "wroteOrReplayed m p d d'" and "walletInv d" and "walletInv (m d)" and "ledgerExtends d (m d)"
  shows "walletInv d' \<and> ledgerExtends d d'"
proof -
  consider "d' = d" | "d' = m d" | q b r where "wp_userId q = wp_userId p"
      "balance (m d) (wp_userId p) = Some b" "writePosting q b (m d) = Inr (r, d')"
    using assms(1) unfolding wroteOrReplayed_def by blast
  then show ?thesis
  proof cases
    case 3
    then have "balance (m d) (wp_userId q) = Some b" by simp
    from writePosting_sound [OF 3(3) this] show ?thesis
      using assms(3,4) ledgerExtends_trans by blast
  qed (use assms(2-4) in auto)
qed

text \<open>
  Histories. An operation is a transaction that another transaction may overtake while it waits
  for the row lock: the operations in its list commit in between. A transaction that fails is
  rolled back; those that overtook it stay committed.
\<close>

datatype wallet_op =
    OpPost posting "wallet_op list"
  | OpSet posting int "wallet_op list"
  | OpRecover posting int "wallet_op list"

definition afterTransaction :: "db \<Rightarrow> error + ('r \<times> db) \<Rightarrow> db" where
  "afterTransaction d0 res = (case res of Inl _ \<Rightarrow> d0 | Inr (_, d) \<Rightarrow> d)"

fun runWallet :: "wallet_op list \<Rightarrow> db \<Rightarrow> db" where
  "runWallet [] d = d"
| "runWallet (OpPost p others # ops) d =
     runWallet ops (afterTransaction (runWallet others d) (postWalletEntry (runWallet others) p d))"
| "runWallet (OpSet p target others # ops) d =
     runWallet ops (afterTransaction (runWallet others d) (setWalletBalance (runWallet others) p target d))"
| "runWallet (OpRecover p requested others # ops) d =
     runWallet ops (afterTransaction (runWallet others d) (recoverWalletCredit (runWallet others) p requested d))"

lemma afterTransaction_sound:
  assumes "\<And>r d'. res = Inr (r, d') \<Longrightarrow> wroteOrReplayed m p d d'"
    and "walletInv d" "walletInv (m d)" "ledgerExtends d (m d)"
  shows "walletInv (afterTransaction (m d) res) \<and> ledgerExtends d (afterTransaction (m d) res)"
  using course_sound [OF assms(1) assms(2-4)] assms(3,4)
  by (auto simp: afterTransaction_def split: sum.split)

text \<open>What every history keeps, as one relation, and its step.\<close>

definition ledgerKept :: "db \<Rightarrow> db \<Rightarrow> bool" where
  "ledgerKept d d' \<longleftrightarrow> (walletInv d \<longrightarrow> walletInv d' \<and> ledgerExtends d d')"

lemma ledgerKept_trans: "ledgerKept d d' \<Longrightarrow> ledgerKept d' d'' \<Longrightarrow> ledgerKept d d''"
  unfolding ledgerKept_def using ledgerExtends_trans by blast

lemma ledgerKept_afterTransaction:
  assumes "\<And>r d'. res = Inr (r, d') \<Longrightarrow> wroteOrReplayed m p d d'" and "ledgerKept d (m d)"
  shows "ledgerKept d (afterTransaction (m d) res)"
  unfolding ledgerKept_def
proof
  assume "walletInv d"
  with assms(2) have "walletInv (m d)" "ledgerExtends d (m d)" by (simp_all add: ledgerKept_def)
  then show "walletInv (afterTransaction (m d) res) \<and> ledgerExtends d (afterTransaction (m d) res)"
    by (intro afterTransaction_sound [OF _ \<open>walletInv d\<close>]) (rule assms(1))
qed

lemma runWallet_kept: "ledgerKept d (runWallet ops d)"
proof (induction ops d rule: runWallet.induct)
  case (1 d)
  show ?case by (simp add: ledgerKept_def)
next
  case (2 p others ops d)
  have "ledgerKept d (afterTransaction (runWallet others d) (postWalletEntry (runWallet others) p d))"
    by (rule ledgerKept_afterTransaction) (use 2 postWalletEntry_course in auto)
  then show ?case using 2(3) ledgerKept_trans by simp
next
  case (3 p target others ops d)
  have "ledgerKept d (afterTransaction (runWallet others d) (setWalletBalance (runWallet others) p target d))"
    by (rule ledgerKept_afterTransaction) (use 3 setWalletBalance_course in auto)
  then show ?case using 3(3) ledgerKept_trans by simp
next
  case (4 p requested others ops d)
  have "ledgerKept d (afterTransaction (runWallet others d)
      (recoverWalletCredit (runWallet others) p requested d))"
    by (rule ledgerKept_afterTransaction) (use 4 recoverWalletCredit_course in auto)
  then show ?case using 4(3) ledgerKept_trans by simp
qed

lemma postEntry_fresh:
  assumes "postEntry p d = Inr (r, d')" and "existingPosting (wp_userId p) (wp_idempotencyKey p) d = None"
  shows "\<not> pr_replayed r"
  using assms
  by (auto simp: postEntry_def postWalletEntry_def err_simps split: if_splits option.splits
      dest: writePosting_Inr(4))

text \<open>What other modules use: the effect of a fresh posting, and what every posting keeps.\<close>

lemma postEntry_balance:
  "postEntry p d = Inr (r, d') \<Longrightarrow> existingPosting (wp_userId p) (wp_idempotencyKey p) d = None \<Longrightarrow>
   balance d' u = (if u = wp_userId p then map_option (\<lambda>b. b + wp_amountCents p) (balance d u) else balance d u)"
  using wallet.post_bal postEntry_fresh by blast

lemma postEntry_kept: "postEntry p d = Inr (r, d') \<Longrightarrow> ledgerKept d d'"
  using ledgerKept_afterTransaction [of "postEntry p d" "\<lambda>d. d" p d] postWalletEntry_course [of "\<lambda>d. d" p d]
  by (auto simp: postEntry_def afterTransaction_def ledgerKept_def)

lemma existingPosting_cong:
  "walletLedger d' = walletLedger d \<Longrightarrow> existingPosting u key d' = existingPosting u key d"
  by (cases key) (simp_all add: existingPosting_def)

lemma postEntry_existing:
  assumes "postEntry p d = Inr (r, d')" and "u \<noteq> wp_userId p \<or> key \<noteq> wp_idempotencyKey p"
  shows "existingPosting u key d' = existingPosting u key d"
proof (cases "pr_replayed r")
  case True
  then show ?thesis using wallet.post_replay [OF assms(1)] by simp
next
  case False
  then obtain b where w: "writePosting p b d = Inr (r, d')" using postEntry_write [OF assms(1)] by blast
  show ?thesis
  proof (cases "wp_amountCents p = 0")
    case True
    then show ?thesis using writePosting_Inr(5) [OF w] by simp
  next
    case False
    have find_other: "\<not> P l \<Longrightarrow> List.find P (ls @ [l]) = List.find P ls" for P and l :: ledger_row and ls
      by (induction ls) auto
    from writePosting_Inr(7) [OF w False] show ?thesis
      using assms(2) find_other by (auto simp: existingPosting_def split: option.split)
  qed
qed

lemma balance_cong: "users d' = users d \<Longrightarrow> balance d' u = balance d u"
  by (simp add: balance_def)

lemma ledgerKept_cong:
  "users d' = users d \<Longrightarrow> walletLedger d' = walletLedger d \<Longrightarrow> ledgerKept d d'"
  by (simp add: ledgerKept_def walletInv_def solvent_def keysUnique_def entriesFor_def
      ledgerChained_def ledgerExtends_def unledgered_def ledgerTotal_def balance_def)

section \<open>What the wallet guarantees\<close>

lemma existingPosting_append:
  "existingPosting u key d = None \<Longrightarrow> walletLedger d' = walletLedger d @ [l] \<Longrightarrow>
   wl_userId l = u \<Longrightarrow> wl_idempotencyKey l = key \<Longrightarrow> key \<noteq> None \<Longrightarrow> key \<noteq> Some [] \<Longrightarrow>
   existingPosting u key d' = Some l"
  by (auto simp: existingPosting_def find_append_None split: if_splits)

lemma balance_Some_update_one:
  "balance d u = Some b \<Longrightarrow> update_one u_id u f (users d) = Inr (update_many (\<lambda>r. u_id r = u) f (users d))"
  by (auto simp: balance_def update_one_found)

lemma writePosting_succeeds:
  assumes "balance d (wp_userId p) = Some b" "0 \<le> b + wp_amountCents p" "b + wp_amountCents p \<le> MAX_INT4"
    and "existingPosting (wp_userId p) (wp_idempotencyKey p) d = None" "wp_idempotencyKey p \<noteq> Some []"
  shows "\<exists>r d'. writePosting p b d = Inr (r, d')"
  using assms writePosting_never_P2002 [OF assms(4,5), of b]
  by (auto simp: writePosting_def createLedgerEntry_def Let_def balance_Some_update_one [OF assms(1)]
      split: if_splits)

definition exampleUser :: "id \<Rightarrow> int \<Rightarrow> user_row" where
  "exampleUser i b = \<lparr>u_id = i, u_status = UserActive, u_balanceCents = b, u_deletedAt = None\<rparr>"

definition examplePosting :: posting where
  "examplePosting = \<lparr>wp_userId = ''u1'', wp_amountCents = 300, wp_kind = TxnAdjust, wp_actorId = None,
     wp_orderId = None, wp_idempotencyKey = Some ''k'', wp_note = ''note'', wp_allowDeletedUser = False\<rparr>"

definition exampleWalletDb :: db where
  "exampleWalletDb = emptyDb\<lparr>users := [exampleUser ''u1'' 500, exampleUser ''u2'' 40]\<rparr>"

text \<open>C1: a posting is applied once. After a keyed posting of a non-zero amount has been written,
  every later posting of the same member under the same key, whatever its amount and whatever
  overtakes it, is answered with the result of the first and changes nothing.\<close>

theorem postWalletEntry_once:
  assumes "postWalletEntry m p d = Inr (r, d1)" and "\<not> pr_replayed r" and "wp_amountCents p \<noteq> 0"
    and "wp_idempotencyKey p = Some k" and "k \<noteq> []"
    and "wp_userId q = wp_userId p" and "wp_idempotencyKey q = Some k"
    and "isSafeInteger (wp_amountCents q)"
  shows "postWalletEntry m' q d1 = Inr (r\<lparr>pr_replayed := True\<rparr>, d1)"
proof -
  obtain w :: user_row where none: "existingPosting (wp_userId p) (wp_idempotencyKey p) (m d) = None"
    and wp: "writePosting p (u_balanceCents w) (m d) = Inr (r, d1)"
    using postWalletEntry_cases [OF assms(1)] assms(2) by blast
  obtain l where l: "walletLedger d1 = walletLedger (m d) @ [l]" "wl_userId l = wp_userId p"
      "wl_idempotencyKey l = Some k" "wl_before l = Some (u_balanceCents w)"
      "wl_after l = Some (u_balanceCents w + wp_amountCents p)" "pr_ledgerId r = Some (wl_id l)"
    using writePosting_Inr(7) [OF wp assms(3)] assms(4) by auto
  then have "existingPosting (wp_userId p) (Some k) d1 = Some l"
    using existingPosting_append none assms(4,5) by simp
  moreover have "replayPosting l = r\<lparr>pr_replayed := True\<rparr>"
    using l writePosting_Inr(1,2) [OF wp] by (cases r) (simp add: replayPosting_def)
  ultimately show ?thesis using assms(6-8) by (simp add: postWalletEntry_def)
qed

theorem postWalletEntry_once_witness:
  "\<exists>r d1. postWalletEntry (\<lambda>d. d) examplePosting exampleWalletDb = Inr (r, d1)
     \<and> postWalletEntry (\<lambda>d. emptyDb) (examplePosting\<lparr>wp_amountCents := 7\<rparr>) d1
         = Inr (r\<lparr>pr_replayed := True\<rparr>, d1)"
proof -
  obtain r d1 where *: "postWalletEntry (\<lambda>d. d) examplePosting exampleWalletDb = Inr (r, d1)"
      "\<not> pr_replayed r"
    by (simp add: postWalletEntry_def examplePosting_def exampleWalletDb_def exampleUser_def
        existingPosting_def lockWallet_def emptyDb_def writePosting_def update_one_def Let_def
        createLedgerEntry_def isSafeInteger_def MAX_INT4_def)
  then show ?thesis
    using postWalletEntry_once [OF *, where k = "''k''" and q = "examplePosting\<lparr>wp_amountCents := 7\<rparr>"]
    by (auto simp: examplePosting_def isSafeInteger_def)
qed

text \<open>C2: in every history of postings, balance settings and recoveries, however they overtake one
  another and whichever of them fail, balances stay within the column and never negative, a member
  has at most one entry under a key, every entry's after-balance is its before-balance plus its
  amount, entries are only added, and each balance moves exactly by the entries added.\<close>

theorem wallet_history_sound:
  assumes "walletInv d"
  shows "walletInv (runWallet ops d)
    \<and> (\<exists>new. walletLedger (runWallet ops d) = walletLedger d @ new)
    \<and> (\<forall>u. unledgered (runWallet ops d) u = unledgered d u)"
  using runWallet_kept [of d ops] assms by (auto simp: ledgerKept_def ledgerExtends_def)

theorem wallet_history_sound_witness:
  "walletInv (runWallet [OpPost examplePosting [OpRecover (examplePosting\<lparr>wp_idempotencyKey := None\<rparr>) 900 []]]
     exampleWalletDb)"
  by (rule wallet_history_sound [THEN conjunct1])
    (auto simp: walletInv_def solvent_def keysUnique_def ledgerChained_def exampleWalletDb_def
      emptyDb_def exampleUser_def entriesFor_def MAX_INT4_def)

text \<open>C3: a posting that is overtaken by a transaction with the same key never fails on the
  ledger's unique index: the second look under the lock finds the entry.\<close>

theorem postWalletEntry_no_duplicate_key:
  assumes "wp_idempotencyKey p \<noteq> Some []"
  shows "postWalletEntry m p d \<noteq> Inl (PrismaKnown ''P2002'')"
  using writePosting_never_P2002 [OF _ assms]
  by (auto simp: postWalletEntry_def lockWallet_def Let_def err_simps split: if_splits option.splits)

theorem postWalletEntry_no_duplicate_key_witness:
  "postWalletEntry (runWallet [OpPost examplePosting []]) examplePosting exampleWalletDb
     \<noteq> Inl (PrismaKnown ''P2002'')"
  by (rule postWalletEntry_no_duplicate_key) (simp add: examplePosting_def)

text \<open>Recovering a credit always succeeds on an existing wallet and takes what is there: the
  recovered and the unrecovered part add up to the request, the balance drops by the recovered part
  only, and something is left unrecovered only when the wallet is emptied.\<close>

theorem recoverWalletCredit_takes_what_is_there:
  assumes "solvent (m d)" and "balance (m d) (wp_userId p) = Some b"
    and "0 \<le> requested" and "isSafeInteger requested"
    and "existingPosting (wp_userId p) (wp_idempotencyKey p) d = None"
    and "existingPosting (wp_userId p) (wp_idempotencyKey p) (m d) = None"
    and "wp_idempotencyKey p \<noteq> Some []"
  shows "\<exists>r d'. recoverWalletCredit m p requested d = Inr (r, d')
    \<and> rr_recovered r + rr_unrecovered r = requested \<and> 0 \<le> rr_recovered r \<and> 0 \<le> rr_unrecovered r
    \<and> balance d' (wp_userId p) = Some (b - rr_recovered r)
    \<and> (0 < rr_unrecovered r \<longrightarrow> balance d' (wp_userId p) = Some 0)"
proof -
  let ?q = "p\<lparr>wp_amountCents := - min b requested\<rparr>"
  obtain w where w: "lookup u_id (wp_userId p) (users (m d)) = Some w" "u_balanceCents w = b"
    using assms(2) by (auto simp: balance_def)
  have b: "0 \<le> b" "b \<le> MAX_INT4"
    using assms(1) w lookup_SomeD by (fastforce simp: solvent_def)+
  have "\<exists>s d'. writePosting ?q b (m d) = Inr (s, d')"
    by (rule writePosting_succeeds) (use assms(2,3,6,7) b in auto)
  then obtain s d' where wr: "writePosting ?q b (m d) = Inr (s, d')" by blast
  then have "balance d' (wp_userId p) = Some (b - min b requested)"
    using writePosting_balance [OF wr] assms(2) by simp
  moreover have "recoverWalletCredit m p requested d =
      Inr (\<lparr>rr_ledgerId = pr_ledgerId s, rr_recovered = min b requested,
            rr_unrecovered = requested - min b requested, rr_replayed = False\<rparr>, d')"
    using assms(3-6) w wr by (simp add: recoverWalletCredit_def lockWallet_def Let_def)
  ultimately show ?thesis using b(1) assms(3) by simp
qed

theorem recoverWalletCredit_takes_what_is_there_witness:
  "\<exists>r d'. recoverWalletCredit (\<lambda>d. d) examplePosting 900 exampleWalletDb = Inr (r, d')
    \<and> rr_recovered r + rr_unrecovered r = 900 \<and> 0 \<le> rr_recovered r \<and> 0 \<le> rr_unrecovered r
    \<and> balance d' (wp_userId examplePosting) = Some (500 - rr_recovered r)
    \<and> (0 < rr_unrecovered r \<longrightarrow> balance d' (wp_userId examplePosting) = Some 0)"
  by (rule recoverWalletCredit_takes_what_is_there)
    (auto simp: solvent_def exampleWalletDb_def emptyDb_def exampleUser_def examplePosting_def
      balance_def isSafeInteger_def existingPosting_def MAX_INT4_def)

end
