(* ===== verification/HolidayInvite.thy ===== *)
theory HolidayInvite imports Wallet "HOL-Library.Sublist" begin

text \<open>
  Invitation rewards of the holiday campaign, \<open>apps/api/src/holiday/holiday-invite-draws.ts\<close>,
  and the credit ceiling of \<open>apps/api/src/wallet/wallet-credit-capacity.ts\<close>.

  A registration gives the inviter one draw ticket; the invitee's first recharge of ten yuan
  or more pays the inviter a cash reward and brings the tickets up to three. A refund of the
  recharge takes the cash, the drawn prizes and the undrawn tickets back, or asks for review
  when the inviter's wallet cannot cover them.

  All of it runs inside the caller's serializable transaction, so postings meet no contention
  (\<open>postEntry\<close>). The notes and review reasons are display text and are kept as slugs.
\<close>

definition MAX_WALLET_CENTS :: int where
  "MAX_WALLET_CENTS = 2147483647"

definition HOLIDAY_ID :: id where
  "HOLIDAY_ID = ''autumn-2026''"

definition assertWalletCreditCapacity :: "id \<Rightarrow> int \<Rightarrow> db \<Rightarrow> error + unit" where
  "assertWalletCreditCapacity userId amountCents d =
     (case lookup u_id userId (users d) of
        None \<Rightarrow> Inl (PaymentRejected ''WALLET_TOPUP_UNAVAILABLE'')
      | Some user \<Rightarrow>
          guardE (PaymentRejected ''WALLET_TOPUP_UNAVAILABLE'')
            (u_deletedAt user = None \<and> isSafeInteger amountCents \<and> 0 \<le> amountCents
             \<and> u_balanceCents user + amountCents \<le> MAX_WALLET_CENTS))"

section \<open>Granting\<close>

definition campaignOpen :: "campaign_row \<Rightarrow> instant \<Rightarrow> bool" where
  "campaignOpen c t \<longleftrightarrow> hcam_enabled c \<and> \<not> t < hcam_startsAt c \<and> \<not> hcam_endsAt c < t"

definition findReward :: "id \<Rightarrow> db \<Rightarrow> reward_row option" where
  "findReward inviteeId d =
     List.find (\<lambda>r. hr_campaignId r = HOLIDAY_ID \<and> hr_inviteeId r = inviteeId) (inviteRewards d)"

definition snapshotHolidayInviteReward :: "id \<Rightarrow> instant \<Rightarrow> db \<Rightarrow> id option" where
  "snapshotHolidayInviteReward inviteeId now d =
     (case lookup hcam_id HOLIDAY_ID (campaigns d) of
        None \<Rightarrow> None
      | Some c \<Rightarrow>
          if \<not> campaignOpen c now then None
          else case findReward inviteeId d of
            None \<Rightarrow> None
          | Some reward \<Rightarrow> if hr_status reward = ''PENDING'' then Some (hr_id reward) else None)"

text \<open>The optional, nullable argument \<open>committedRewardId\<close>: absent, null, or a reward's id.\<close>

datatype committed_reward = NotGiven | NoReward | CommittedReward id

definition upsertInviteReward ::
  "id \<Rightarrow> id \<Rightarrow> int \<Rightarrow> db \<Rightarrow> reward_row \<times> db" where
  "upsertInviteReward inviterId inviteeId amountCents d =
     (case findReward inviteeId d of
        Some r \<Rightarrow> (r, d)
      | None \<Rightarrow>
          let r = \<lparr>hr_id = freshId d, hr_campaignId = HOLIDAY_ID, hr_inviterId = inviterId,
                   hr_inviteeId = inviteeId, hr_amountCents = amountCents, hr_sourceOrderId = None,
                   hr_status = ''PENDING'', hr_reviewReason = None, hr_rewardedAt = None,
                   hr_reversedAt = None\<rparr>
          in (r, (drawId d)\<lparr>inviteRewards := inviteRewards d @ [r]\<rparr>))"

definition updateReward :: "id \<Rightarrow> (reward_row \<Rightarrow> reward_row) \<Rightarrow> db \<Rightarrow> error + db" where
  "updateReward rewardId f d =
     bindE (update_one hr_id rewardId f (inviteRewards d)) (\<lambda>rs.
       if distinct (filter (\<lambda>x. x \<noteq> None) (map hr_sourceOrderId rs))
       then Inr (d\<lparr>inviteRewards := rs\<rparr>) else Inl (PrismaKnown ''P2002''))"

text \<open>The cash reward of the first recharge. The result says whether the function goes on.\<close>

definition rechargeOf :: "id \<Rightarrow> order_row \<Rightarrow> bool" where
  "rechargeOf inviteeId o1 \<longleftrightarrow>
     mo_userId o1 = inviteeId \<and> mo_kind o1 = OrderWalletTopup \<and> mo_source o1 = SourcePayment"

definition payInviter :: "bool \<Rightarrow> id \<Rightarrow> user_row \<Rightarrow> reward_row \<Rightarrow> db \<Rightarrow> error + db" where
  "payInviter unavailable orderId inviter reward d =
     (if unavailable then Inr d
      else bindE (postEntry \<lparr>wp_userId = u_id inviter, wp_amountCents = hr_amountCents reward,
               wp_kind = TxnAdjust, wp_actorId = None, wp_orderId = Some orderId,
               wp_idempotencyKey = Some (''holiday-invite:'' @ hr_id reward @ '':credit''),
               wp_note = ''holiday-invite-reward'', wp_allowDeletedUser = False\<rparr> d)
            (\<lambda>(_, d1). Inr d1))"

definition settleInviteReward ::
  "id \<Rightarrow> id \<Rightarrow> instant \<Rightarrow> user_row \<Rightarrow> reward_row \<Rightarrow> db \<Rightarrow> error + (bool \<times> db)" where
  "settleInviteReward inviteeId orderId occurredAt inviter reward d =
     bindE (require (PrismaKnown ''P2025'') (lookup mo_id orderId (orders d))) (\<lambda>order.
       if \<not> rechargeOf inviteeId order \<or> mo_status order \<noteq> OrderApplied
       then Inl (PlainError ''invalid-recharge-source'')
       else if mo_amountCents order < 1000 then Inr (False, d)
       else if \<exists>o1 \<in> set (orders d). rechargeOf inviteeId o1 \<and> 1000 \<le> mo_amountCents o1 \<and> mo_id o1 \<noteq> orderId
       then bindE (updateReward (hr_id reward)
                    (\<lambda>r. r\<lparr>hr_status := ''INELIGIBLE'', hr_sourceOrderId := Some orderId\<rparr>) d) (\<lambda>d1.
              Inr (False, d1))
       else
         let unavailable = u_deletedAt inviter \<noteq> None \<or> u_status inviter \<noteq> UserActive
               \<or> MAX_WALLET_CENTS < u_balanceCents inviter + hr_amountCents reward
         in bindE (payInviter unavailable orderId inviter reward d) (\<lambda>d1.
            bindE (updateReward (hr_id reward)
                    (\<lambda>r. r\<lparr>hr_sourceOrderId := Some orderId,
                           hr_status := (if unavailable then ''MANUAL_REVIEW'' else ''REWARDED''),
                           hr_rewardedAt := (if unavailable then None else Some occurredAt),
                           hr_reviewReason :=
                             (if unavailable then Some ''inviter-cannot-be-credited'' else None)\<rparr>) d1) (\<lambda>d2.
            Inr (True, createAudit None ''HOLIDAY_INVITE_CASH'' ''HolidayInviteReward''
              (Some (hr_id reward))
              (JObj [(''inviterId'', JStr (u_id inviter)), (''inviteeId'', JStr inviteeId),
                     (''orderId'', JStr orderId), (''amountCents'', JNum (hr_amountCents reward)),
                     (''manualReview'', JBool unavailable)]) d2))))"

text \<open>The draw tickets.\<close>

definition ticketPrefix :: "id \<Rightarrow> string" where
  "ticketPrefix inviteeId = ''invite:'' @ HOLIDAY_ID @ '':'' @ inviteeId @ '':''"

definition createTickets ::
  "user_row \<Rightarrow> id \<Rightarrow> id option \<Rightarrow> nat \<Rightarrow> nat \<Rightarrow> ticket_row list \<Rightarrow> error + ticket_row list" where
  "createTickets inviter inviteeId orderId existing count =
     foldE (\<lambda>i. insert_unique (\<lambda>t t'. ht_sourceKey t = ht_sourceKey t')
       \<lparr>ht_campaignId = HOLIDAY_ID, ht_userId = u_id inviter, ht_sourceOrderId = orderId,
        ht_source = (if orderId \<noteq> None then ''INVITE_TOPUP'' else ''INVITE_REGISTER''),
        ht_sourceKey = ticketPrefix inviteeId @ decimal (existing + i),
        ht_state = ''AVAILABLE'', ht_prizeCents = 0\<rparr>) [0..<count]"

definition grantInviteTickets ::
  "id \<Rightarrow> id option \<Rightarrow> campaign_row \<Rightarrow> user_row \<Rightarrow> reward_row \<Rightarrow> db \<Rightarrow> error + db" where
  "grantInviteTickets inviteeId orderId c inviter reward d =
     (if u_deletedAt inviter \<noteq> None \<or> u_status inviter \<noteq> UserActive then Inr d
      else
        let existing = filter (\<lambda>t. prefix (ticketPrefix inviteeId) (ht_sourceKey t)) (drawTickets d);
            target = (if orderId \<noteq> None then 3 else 1)
        in if hr_status reward = ''REVERSED'' \<or> hr_status reward = ''INELIGIBLE''
              \<or> target \<le> length existing
              \<or> (orderId \<noteq> None \<and> (\<exists>t \<in> set existing. ht_source t = ''INVITE_TOPUP''))
           then Inr d
           else
             let count = target - length existing
             in if sum_list (hc_prizeCounts (hcam_config c)) < hcam_reservedDraws c + int count then Inr d
                else bindE (createTickets inviter inviteeId orderId (length existing) count (drawTickets d)) (\<lambda>ts.
                     bindE (update_one hcam_id HOLIDAY_ID
                       (\<lambda>r. r\<lparr>hcam_reservedDraws := hcam_reservedDraws r + int count\<rparr>) (campaigns d)) (\<lambda>cs.
                     Inr (createAudit None ''HOLIDAY_INVITE_DRAWS_GRANTED'' ''User'' (Some (u_id inviter))
                       (JObj [(''inviteeId'', JStr inviteeId), (''orderId'', jopt JStr orderId),
                              (''count'', JNum (int count))])
                       (d\<lparr>drawTickets := ts, campaigns := cs\<rparr>)))))"

text \<open>The early returns before the reward is touched: the campaign and the inviter, if any.\<close>

definition eligibleInvite ::
  "id \<Rightarrow> instant \<Rightarrow> bool \<Rightarrow> db \<Rightarrow> (campaign_row \<times> user_row) option" where
  "eligibleInvite inviteeId occurredAt committed d =
     (case lookup hcam_id HOLIDAY_ID (campaigns d) of
        None \<Rightarrow> None
      | Some c \<Rightarrow>
          if \<not> committed \<and> \<not> campaignOpen c occurredAt then None
          else case lookup ra_inviteeId inviteeId (attributions d) of
            None \<Rightarrow> None
          | Some attribution \<Rightarrow>
              if ra_inviterId attribution = inviteeId
                 \<or> (\<not> committed \<and> (ra_createdAt attribution < hcam_startsAt c
                                \<or> hcam_endsAt c < ra_createdAt attribution))
              then None
              else map_option (Pair c) (lookup u_id (ra_inviterId attribution) (users d)))"

definition isCommitted :: "id option \<Rightarrow> committed_reward \<Rightarrow> bool" where
  "isCommitted orderId committedRewardId \<longleftrightarrow>
     orderId \<noteq> None \<and> (case committedRewardId of CommittedReward _ \<Rightarrow> True | _ \<Rightarrow> False)"

definition grantHolidayInviteDraws ::
  "id \<Rightarrow> id option \<Rightarrow> instant \<Rightarrow> committed_reward \<Rightarrow> db \<Rightarrow> error + db" where
  "grantHolidayInviteDraws inviteeId orderId occurredAt committedRewardId d =
     (if orderId \<noteq> None \<and> committedRewardId = NoReward then Inr d
      else case eligibleInvite inviteeId occurredAt (isCommitted orderId committedRewardId) d of
        None \<Rightarrow> Inr d
      | Some (c, inviter) \<Rightarrow>
          if isCommitted orderId committedRewardId
             \<and> map_option (CommittedReward \<circ> hr_id) (findReward inviteeId d) \<noteq> Some committedRewardId
          then Inl (PlainError ''invalid-reward-snapshot'')
          else
            let (reward, d1) = upsertInviteReward (u_id inviter) inviteeId
                  (nvl (hc_inviteRewardCents (hcam_config c)) 500) d
            in if orderId \<noteq> None \<and> hr_sourceOrderId reward \<noteq> None \<and> hr_sourceOrderId reward \<noteq> orderId
               then Inr d1
               else bindE
                 (case orderId of
                    Some oid \<Rightarrow>
                      if hr_status reward = ''PENDING''
                      then settleInviteReward inviteeId oid occurredAt inviter reward d1
                      else Inr (True, d1)
                  | None \<Rightarrow> Inr (True, d1)) (\<lambda>(goOn, d2).
                 if goOn then grantInviteTickets inviteeId orderId c inviter reward d2 else Inr d2))"

section \<open>Reversing\<close>

text \<open>The result is the review reason, or null when the reversal went through.\<close>

definition topupTicket :: "id \<Rightarrow> ticket_row \<Rightarrow> bool" where
  "topupTicket orderId t \<longleftrightarrow> ht_sourceOrderId t = Some orderId \<and> ht_source t = ''INVITE_TOPUP''"

definition orderReward :: "id \<Rightarrow> db \<Rightarrow> reward_row option" where
  "orderReward orderId d = lookup hr_sourceOrderId (Some orderId) (inviteRewards d)"

definition rewardCash :: "reward_row option \<Rightarrow> int" where
  "rewardCash reward = (case reward of
       Some r \<Rightarrow> if hr_status r = ''REWARDED'' then hr_amountCents r else 0 | None \<Rightarrow> 0)"

definition drawnPrizes :: "ticket_row list \<Rightarrow> int" where
  "drawnPrizes tickets = sum_list (map ht_prizeCents (filter (\<lambda>t. ht_state t = ''DRAWN'') tickets))"

definition recoveryPosting :: "id \<Rightarrow> id \<Rightarrow> int \<Rightarrow> posting" where
  "recoveryPosting orderId inviterId recover = \<lparr>wp_userId = inviterId, wp_amountCents = - recover,
     wp_kind = TxnAdjust, wp_actorId = None, wp_orderId = Some orderId,
     wp_idempotencyKey = Some (''holiday-invite:'' @ orderId @ '':recovery''),
     wp_note = ''holiday-invite-recovery'', wp_allowDeletedUser = False\<rparr>"

definition recoverFromInviter :: "id \<Rightarrow> id \<Rightarrow> int \<Rightarrow> db \<Rightarrow> error + db" where
  "recoverFromInviter orderId inviterId recover d =
     (if recover \<noteq> 0
      then bindE (postEntry (recoveryPosting orderId inviterId recover) d) (\<lambda>(_, d1). Inr d1)
      else Inr d)"

definition revokeTickets :: "id \<Rightarrow> db \<Rightarrow> db" where
  "revokeTickets orderId d =
     d\<lparr>drawTickets := update_many (\<lambda>t. topupTicket orderId t \<and> ht_state t = ''AVAILABLE'')
         (\<lambda>t. t\<lparr>ht_state := ''REVOKED''\<rparr>) (drawTickets d)\<rparr>"

definition closeReward :: "reward_row option \<Rightarrow> instant \<Rightarrow> db \<Rightarrow> error + db" where
  "closeReward reward now d =
     (case reward of
        Some r \<Rightarrow> updateReward (hr_id r)
          (\<lambda>r. r\<lparr>hr_status := ''REVERSED'', hr_reversedAt := Some now, hr_reviewReason := None\<rparr>) d
      | None \<Rightarrow> Inr d)"

definition reverseHolidayInviteDraws ::
  "id \<Rightarrow> instant \<Rightarrow> db \<Rightarrow> error + (string option \<times> db)" where
  "reverseHolidayInviteDraws orderId now d =
     (let tickets = filter (topupTicket orderId) (drawTickets d);
          reward = orderReward orderId d
      in if tickets = [] \<and> reward = None then Inr (None, d)
         else bindE (update_one hcam_id HOLIDAY_ID (\<lambda>c. c) (campaigns d)) (\<lambda>_.
         if map_option hr_status reward = Some ''REVERSED'' then Inr (None, d)
         else
           let inviterId = nvl (map_option hr_inviterId reward) (ht_userId (hd tickets));
               cash = rewardCash reward;
               prizes = drawnPrizes tickets;
               recover = cash + prizes;
               inviter = lookup u_id inviterId (users d)
           in if recover \<noteq> 0 \<and> (case inviter of None \<Rightarrow> True
                 | Some u \<Rightarrow> u_deletedAt u \<noteq> None \<or> u_balanceCents u < recover)
              then Inr (Some ''inviter-cannot-cover'', d)
              else
                bindE (recoverFromInviter orderId inviterId recover d) (\<lambda>d1.
                bindE (closeReward reward now (revokeTickets orderId d1)) (\<lambda>d3.
                Inr (None, createAudit None ''HOLIDAY_INVITE_REVERSED'' ''ManualOrder'' (Some orderId)
                  (JObj [(''inviterId'', JStr inviterId), (''cashCents'', JNum cash),
                         (''prizeCents'', JNum prizes)]) d3)))))"

section \<open>What a reversal does\<close>

lemma updateReward_eq_Inr [err_simps]:
  "updateReward i f d = Inr d' \<longleftrightarrow> i \<in> set (map hr_id (inviteRewards d))
     \<and> d' = d\<lparr>inviteRewards := update_many (\<lambda>r. hr_id r = i) f (inviteRewards d)\<rparr>
     \<and> distinct (filter (\<lambda>x. x \<noteq> None)
         (map hr_sourceOrderId (update_many (\<lambda>r. hr_id r = i) f (inviteRewards d))))"
  by (auto simp: updateReward_def err_simps)

lemma reverse_review_unchanged:
  "reverseHolidayInviteDraws oid now d = Inr (Some msg, d') \<Longrightarrow> d' = d"
  by (auto simp: reverseHolidayInviteDraws_def Let_def err_simps split: if_splits option.splits)

text \<open>A reversal that goes through: the wallet step, then the tickets, the reward, the audit.\<close>

definition reversalRest :: "id \<Rightarrow> instant \<Rightarrow> reward_row option \<Rightarrow> db \<Rightarrow> db \<Rightarrow> bool" where
  "reversalRest oid now reward d1 d' \<longleftrightarrow> (\<exists>d3 a. closeReward reward now (revokeTickets oid d1) = Inr d3
     \<and> d' = createAudit None ''HOLIDAY_INVITE_REVERSED'' ''ManualOrder'' (Some oid) a d3)"

definition reverseInviter :: "id \<Rightarrow> db \<Rightarrow> id" where
  "reverseInviter orderId d = nvl (map_option hr_inviterId (orderReward orderId d))
     (ht_userId (hd (filter (topupTicket orderId) (drawTickets d))))"

lemma reverse_steps:
  assumes "reverseHolidayInviteDraws oid now d = Inr (None, d')"
  shows "d' = d \<and> map_option hr_status (orderReward oid d) \<in> {None, Some ''REVERSED''}
    \<or> HOLIDAY_ID \<in> set (map hcam_id (campaigns d)) \<and>
      (\<exists>d1. recoverFromInviter oid (reverseInviter oid d)
         (rewardCash (orderReward oid d) + drawnPrizes (filter (topupTicket oid) (drawTickets d))) d = Inr d1
       \<and> reversalRest oid now (orderReward oid d) d1 d')"
  using assms
  by (auto simp: reverseHolidayInviteDraws_def reversalRest_def reverseInviter_def Let_def err_simps
      split: if_splits)

lemma reversalRest_tables:
  assumes "reversalRest oid now reward d1 d'"
  shows "users d' = users d1 \<and> walletLedger d' = walletLedger d1 \<and> orders d' = orders d1
    \<and> epayAttempts d' = epayAttempts d1 \<and> refunds d' = refunds d1 \<and> campaigns d' = campaigns d1
    \<and> drawTickets d' = update_many (\<lambda>t. topupTicket oid t \<and> ht_state t = ''AVAILABLE'')
         (\<lambda>t. t\<lparr>ht_state := ''REVOKED''\<rparr>) (drawTickets d1)"
  using assms
  by (auto simp: reversalRest_def closeReward_def revokeTickets_def err_simps split: option.splits)

lemma reversalRest_rewards:
  "reversalRest oid now (Some r) d1 d' \<Longrightarrow> inviteRewards d' = update_many (\<lambda>x. hr_id x = hr_id r)
     (\<lambda>x. x\<lparr>hr_status := ''REVERSED'', hr_reversedAt := Some now, hr_reviewReason := None\<rparr>)
     (inviteRewards d1)"
  by (auto simp: reversalRest_def closeReward_def revokeTickets_def err_simps)

lemma recoverFromInviter_cases:
  "recoverFromInviter oid who n d = Inr d1 \<Longrightarrow>
   n = 0 \<and> d1 = d \<or> (\<exists>r. postEntry (recoveryPosting oid who n) d = Inr (r, d1))"
  by (auto simp: recoverFromInviter_def err_simps split: if_splits)

lemma revoked_none_available:
  "t \<in> set (update_many (\<lambda>t. topupTicket oid t \<and> ht_state t = ''AVAILABLE'')
     (\<lambda>t. t\<lparr>ht_state := ''REVOKED''\<rparr>) ts) \<Longrightarrow> topupTicket oid t \<Longrightarrow> ht_state t \<noteq> ''AVAILABLE''"
  by (auto simp: set_update_many)

lemma reversed_again:
  assumes "map_option hr_status (orderReward oid d) = Some ''REVERSED''"
    and "HOLIDAY_ID \<in> set (map hcam_id (campaigns d))"
  shows "reverseHolidayInviteDraws oid now d = Inr (None, d)"
  using assms by (auto simp: reverseHolidayInviteDraws_def update_one_def Let_def)


text \<open>When the inviter cannot cover the recovery, a review is asked for and nothing moves.\<close>

lemma reverse_uncovered:
  assumes "orderReward oid d = Some reward" and "hr_status reward \<noteq> ''REVERSED''"
    and "HOLIDAY_ID \<in> set (map hcam_id (campaigns d))"
    and "lookup u_id (hr_inviterId reward) (users d) = Some inviter" and "u_deletedAt inviter = None"
    and "u_balanceCents inviter < rewardCash (Some reward)
           + drawnPrizes (filter (topupTicket oid) (drawTickets d))"
    and "0 \<le> u_balanceCents inviter"
  shows "reverseHolidayInviteDraws oid now d = Inr (Some ''inviter-cannot-cover'', d)"
  using assms by (auto simp: reverseHolidayInviteDraws_def update_one_def Let_def)

section \<open>What a grant does\<close>

text \<open>Only \<open>who\<close> is paid; the orders and the payment attempts stay.\<close>

definition paysOnly :: "id \<Rightarrow> db \<Rightarrow> db \<Rightarrow> bool" where
  "paysOnly who d d' \<longleftrightarrow> ledgerKept d d' \<and> (\<forall>u. u \<noteq> who \<longrightarrow> balance d' u = balance d u)
     \<and> orders d' = orders d \<and> epayAttempts d' = epayAttempts d \<and> refunds d' = refunds d"

lemma paysOnly_trans: "paysOnly w d d' \<Longrightarrow> paysOnly w d' d'' \<Longrightarrow> paysOnly w d d''"
  unfolding paysOnly_def using ledgerKept_trans by auto

lemma paysOnly_same:
  "users d' = users d \<Longrightarrow> walletLedger d' = walletLedger d \<Longrightarrow> orders d' = orders d \<Longrightarrow>
   epayAttempts d' = epayAttempts d \<Longrightarrow> refunds d' = refunds d \<Longrightarrow> paysOnly w d d'"
  unfolding paysOnly_def by (intro conjI allI impI) (rule ledgerKept_cong balance_cong | assumption)+

lemma postEntry_paysOnly:
  assumes "postEntry p d = Inr (r, d')"
  shows "paysOnly (wp_userId p) d d'"
  using postEntry_kept [OF assms] wallet.others_kept [OF assms] postEntry_tables [OF assms]
  by (simp add: paysOnly_def)

lemma upsertInviteReward_same:
  "upsertInviteReward i j n d = (r, d') \<Longrightarrow> users d' = users d \<and> walletLedger d' = walletLedger d
     \<and> orders d' = orders d \<and> epayAttempts d' = epayAttempts d \<and> campaigns d' = campaigns d
     \<and> drawTickets d' = drawTickets d \<and> refunds d' = refunds d"
  by (auto simp: upsertInviteReward_def Let_def split: option.splits)

text \<open>The tables a grant's later steps rely on.\<close>

definition sameDraws :: "db \<Rightarrow> db \<Rightarrow> bool" where
  "sameDraws d d' \<longleftrightarrow> campaigns d' = campaigns d \<and> drawTickets d' = drawTickets d"

lemma payInviter_effect:
  "payInviter b oid inviter reward d = Inr d' \<Longrightarrow> paysOnly (u_id inviter) d d' \<and> sameDraws d d'"
  by (auto simp: payInviter_def sameDraws_def err_simps postEntry_tables paysOnly_same split: if_splits
      dest: postEntry_paysOnly)

definition sameAccounts :: "db \<Rightarrow> db \<Rightarrow> bool" where
  "sameAccounts d d' \<longleftrightarrow> users d' = users d \<and> walletLedger d' = walletLedger d \<and> orders d' = orders d
     \<and> epayAttempts d' = epayAttempts d \<and> refunds d' = refunds d"

lemma sameAccounts_paysOnly: "sameAccounts d d' \<Longrightarrow> paysOnly w d d'"
  by (auto simp: sameAccounts_def intro: paysOnly_same)

definition sameMoney :: "db \<Rightarrow> db \<Rightarrow> bool" where
  "sameMoney d d' \<longleftrightarrow> sameAccounts d d' \<and> sameDraws d d'"

lemma sameMoney_rewards:
  "sameMoney d d" "sameMoney d (d\<lparr>inviteRewards := rs\<rparr>)"
  "sameMoney d (createAudit a b c i j (d\<lparr>inviteRewards := rs\<rparr>))"
  by (simp_all add: sameMoney_def sameAccounts_def sameDraws_def)

lemma settleInviteReward_steps:
  "settleInviteReward inviteeId oid t inviter reward d = Inr (g, d') \<Longrightarrow>
   \<exists>b d1. (d1 = d \<or> payInviter b oid inviter reward d = Inr d1) \<and> sameMoney d1 d'"
  by (auto simp: settleInviteReward_def Let_def err_simps split: if_splits intro: sameMoney_rewards)

lemma settleInviteReward_effect:
  assumes "settleInviteReward inviteeId oid t inviter reward d = Inr (g, d')"
  shows "paysOnly (u_id inviter) d d' \<and> sameDraws d d'"
proof -
  obtain b d1 where "d1 = d \<or> payInviter b oid inviter reward d = Inr d1" and s: "sameMoney d1 d'"
    using settleInviteReward_steps [OF assms] by blast
  then have "paysOnly (u_id inviter) d d1 \<and> sameDraws d d1"
    using payInviter_effect paysOnly_same [of d d] by (auto simp: sameDraws_def)
  moreover have "paysOnly (u_id inviter) d1 d'"
    by (rule sameAccounts_paysOnly) (use s in \<open>simp add: sameMoney_def\<close>)
  ultimately show ?thesis using paysOnly_trans s by (auto simp: sameMoney_def sameDraws_def)
qed

lemma foldE_insert_unique:
  "foldE (\<lambda>i. insert_unique clash (row i)) xs ts = Inr ts' \<Longrightarrow> ts' = ts @ map row xs"
proof (induction xs arbitrary: ts)
  case (Cons x xs)
  then have "foldE (\<lambda>i. insert_unique clash (row i)) xs (ts @ [row x]) = Inr ts'"
    by (simp add: err_simps)
  from Cons.IH [OF this] show ?case by simp
qed simp

lemma createTickets_effect:
  assumes "createTickets inviter inviteeId orderId n k ts = Inr ts'"
  shows "\<exists>new. ts' = ts @ new \<and> length new = k \<and> (\<forall>t \<in> set new. prefix (ticketPrefix inviteeId) (ht_sourceKey t))"
  using foldE_insert_unique [OF assms [unfolded createTickets_def]] by auto

lemma grantInviteTickets_paysOnly:
  "grantInviteTickets inviteeId oid c inviter reward d = Inr d' \<Longrightarrow> paysOnly w d d'"
  by (auto simp: grantInviteTickets_def Let_def err_simps split: if_splits intro!: paysOnly_same)

definition ticketsOf :: "id \<Rightarrow> db \<Rightarrow> ticket_row list" where
  "ticketsOf inviteeId d = filter (\<lambda>t. prefix (ticketPrefix inviteeId) (ht_sourceKey t)) (drawTickets d)"

text \<open>The campaign's reserved draws never exceed the prizes it holds.\<close>

definition drawsCovered :: "db \<Rightarrow> bool" where
  "drawsCovered d = (case lookup hcam_id HOLIDAY_ID (campaigns d) of
       None \<Rightarrow> True | Some c \<Rightarrow> hcam_reservedDraws c \<le> sum_list (hc_prizeCounts (hcam_config c)))"

definition reservedDraws :: "db \<Rightarrow> int" where
  "reservedDraws d = (case lookup hcam_id HOLIDAY_ID (campaigns d) of
       None \<Rightarrow> 0 | Some c \<Rightarrow> hcam_reservedDraws c)"

lemma grantInviteTickets_effect:
  assumes "grantInviteTickets inviteeId oid c inviter reward d = Inr d'"
    and "lookup hcam_id HOLIDAY_ID (campaigns d) = Some c"
  shows "(drawsCovered d \<longrightarrow> drawsCovered d')
    \<and> length (ticketsOf inviteeId d') \<le> max (length (ticketsOf inviteeId d)) 3
    \<and> reservedDraws d' - reservedDraws d = int (length (drawTickets d')) - int (length (drawTickets d))"
proof (cases "d' = d")
  case False
  let ?have = "length (ticketsOf inviteeId d)"
  let ?target = "if oid \<noteq> None then 3 else 1"
  let ?count = "?target - ?have"
  from assms(1) False obtain ts where
    room: "hcam_reservedDraws c + int ?count \<le> sum_list (hc_prizeCounts (hcam_config c))"
    and short: "?have < ?target"
    and ts: "createTickets inviter inviteeId oid ?have ?count (drawTickets d) = Inr ts"
    and d': "drawTickets d' = ts"
      "campaigns d' = update_many (\<lambda>r. hcam_id r = HOLIDAY_ID)
         (\<lambda>r. r\<lparr>hcam_reservedDraws := hcam_reservedDraws r + int ?count\<rparr>) (campaigns d)"
    by (auto simp: grantInviteTickets_def ticketsOf_def Let_def err_simps not_less not_le split: if_splits)
  obtain new where new: "ts = drawTickets d @ new" "length new = ?count"
      "\<forall>t \<in> set new. prefix (ticketPrefix inviteeId) (ht_sourceKey t)"
    using createTickets_effect [OF ts] by blast
  have "filter (\<lambda>t. prefix (ticketPrefix inviteeId) (ht_sourceKey t)) new = new"
    using new(3) by simp
  then have "length (ticketsOf inviteeId d') = ?have + ?count"
    by (simp add: ticketsOf_def d'(1) new(1,2))
  moreover have "lookup hcam_id HOLIDAY_ID (campaigns d') =
      Some (c\<lparr>hcam_reservedDraws := hcam_reservedDraws c + int ?count\<rparr>)"
    using lookup_SomeD [OF assms(2)] by (simp add: d'(2) lookup_update_many assms(2))
  ultimately show ?thesis
    using room short new(1,2) by (auto simp: drawsCovered_def reservedDraws_def assms(2) d'(1))
qed auto

text \<open>A grant pays nobody but the inviter (never the invited member), keeps the ledger sound,
  never reserves more draws than the campaign has prizes, gives an invitation at most three tickets
  in all, and counts every ticket it creates against the reserve.\<close>

theorem grantHolidayInviteDraws_bounded:
  assumes "grantHolidayInviteDraws inviteeId oid t cr d = Inr d'"
  shows "ledgerKept d d' \<and> balance d' inviteeId = balance d inviteeId \<and> orders d' = orders d
    \<and> (drawsCovered d \<longrightarrow> drawsCovered d')
    \<and> length (ticketsOf inviteeId d') \<le> max (length (ticketsOf inviteeId d)) 3
    \<and> reservedDraws d' - reservedDraws d = int (length (drawTickets d')) - int (length (drawTickets d))"
proof (cases "d' = d")
  case True
  then show ?thesis by (simp add: ledgerKept_def)
next
  case False
  let ?com = "isCommitted oid cr"
  from False obtain c inviter where e: "eligibleInvite inviteeId t ?com d = Some (c, inviter)"
    using assms by (auto simp: grantHolidayInviteDraws_def split: if_splits option.splits)
  then have c: "lookup hcam_id HOLIDAY_ID (campaigns d) = Some c" and inviter: "u_id inviter \<noteq> inviteeId"
    by (auto simp: eligibleInvite_def split: if_splits option.splits dest!: lookup_SomeD)
  obtain reward d1 where up: "upsertInviteReward (u_id inviter) inviteeId
      (nvl (hc_inviteRewardCents (hcam_config c)) 500) d = (reward, d1)" by force
  obtain g d2 where
    settle: "d2 = d1 \<or> (\<exists>oid. settleInviteReward inviteeId oid t inviter reward d1 = Inr (g, d2))"
    and tickets: "d' = d2 \<or> grantInviteTickets inviteeId oid c inviter reward d2 = Inr d'"
    using assms e up False
    by (auto simp: grantHolidayInviteDraws_def err_simps split: if_splits option.splits)
  have d1: "paysOnly (u_id inviter) d d1" "campaigns d1 = campaigns d" "drawTickets d1 = drawTickets d"
    using up upsertInviteReward_same by (auto intro: paysOnly_same)
  have d2: "paysOnly (u_id inviter) d1 d2" "campaigns d2 = campaigns d1" "drawTickets d2 = drawTickets d1"
    using settle settleInviteReward_effect by (auto simp: sameDraws_def intro: paysOnly_same)
  have "paysOnly (u_id inviter) d2 d'"
    using tickets grantInviteTickets_paysOnly by (auto intro: paysOnly_same)
  then have pays: "paysOnly (u_id inviter) d d'"
    using d1(1) d2(1) paysOnly_trans by blast
  have "lookup hcam_id HOLIDAY_ID (campaigns d2) = Some c"
    using c d1(2) d2(2) by simp
  then have "(drawsCovered d2 \<longrightarrow> drawsCovered d')
    \<and> length (ticketsOf inviteeId d') \<le> max (length (ticketsOf inviteeId d2)) 3
    \<and> reservedDraws d' - reservedDraws d2 = int (length (drawTickets d')) - int (length (drawTickets d2))"
    using tickets grantInviteTickets_effect by auto
  then show ?thesis
    using pays inviter d1(2,3) d2(2,3)
    by (simp add: paysOnly_def drawsCovered_def reservedDraws_def ticketsOf_def)
qed

text \<open>What a reversal leaves alone: everybody but the inviter, and the order's other records.\<close>

lemma sameAccounts_refl: "sameAccounts d d"
  by (simp add: sameAccounts_def)

lemma reversalRest_sameAccounts: "reversalRest oid now reward d1 d' \<Longrightarrow> sameAccounts d1 d'"
  using reversalRest_tables unfolding sameAccounts_def by blast

lemma reverse_money:
  assumes "reverseHolidayInviteDraws oid now d = Inr (None, d')"
  shows "\<exists>d1. (d1 = d \<or> (\<exists>n r. postEntry (recoveryPosting oid (reverseInviter oid d) n) d = Inr (r, d1)))
    \<and> sameAccounts d1 d'"
  using reverse_steps [OF assms]
proof (elim disjE conjE exE)
  assume "d' = d"
  then show ?thesis using sameAccounts_refl by blast
next
  fix d1
  assume r: "recoverFromInviter oid (reverseInviter oid d)
      (rewardCash (orderReward oid d) + drawnPrizes (filter (topupTicket oid) (drawTickets d))) d = Inr d1"
    and rest: "reversalRest oid now (orderReward oid d) d1 d'"
  show ?thesis
    using recoverFromInviter_cases [OF r] reversalRest_sameAccounts [OF rest] by auto
qed

lemma reverse_paysOnly:
  assumes "reverseHolidayInviteDraws oid now d = Inr (None, d')"
  shows "paysOnly (reverseInviter oid d) d d'"
    and "key \<noteq> Some (''holiday-invite:'' @ oid @ '':recovery'') \<Longrightarrow>
      existingPosting u key d' = existingPosting u key d"
proof -
  obtain d1 where d1: "d1 = d \<or> (\<exists>n r. postEntry (recoveryPosting oid (reverseInviter oid d) n) d = Inr (r, d1))"
    and s: "sameAccounts d1 d'"
    using reverse_money [OF assms] by blast
  have "paysOnly (reverseInviter oid d) d d1"
    using d1 postEntry_paysOnly [of "recoveryPosting oid (reverseInviter oid d) n" d r d1 for n r]
      paysOnly_same [of d d] by (auto simp: recoveryPosting_def)
  then show "paysOnly (reverseInviter oid d) d d'"
    using sameAccounts_paysOnly [OF s] paysOnly_trans by blast
  assume "key \<noteq> Some (''holiday-invite:'' @ oid @ '':recovery'')"
  then have "existingPosting u key d1 = existingPosting u key d"
    using d1 postEntry_existing [of "recoveryPosting oid (reverseInviter oid d) n" d r d1 u key for n r]
    by (auto simp: recoveryPosting_def)
  then show "existingPosting u key d' = existingPosting u key d"
    using s existingPosting_cong [of d' d1] by (simp add: sameAccounts_def)
qed

text \<open>A running campaign in which \<open>u1\<close> has invited \<open>u2\<close>, who has recharged with order \<open>o1\<close>.\<close>

definition exampleCampaign :: campaign_row where
  "exampleCampaign = \<lparr>hcam_id = HOLIDAY_ID, hcam_enabled = True, hcam_startsAt = 100, hcam_endsAt = 900,
     hcam_reservedDraws = 3, hcam_config = \<lparr>hc_inviteRewardCents = Some 500, hc_prizeCounts = [4, 5]\<rparr>\<rparr>"

definition exampleHolidayDb :: db where
  "exampleHolidayDb = exampleWalletDb\<lparr>campaigns := [exampleCampaign],
     attributions := [\<lparr>ra_id = ''ra1'', ra_inviterId = ''u1'', ra_inviteeId = ''u2'', ra_codeSnapshot = ''CODE'',
       ra_status = ReferralPending, ra_inviterRewardCents = 0, ra_inviterRewardBasisPoints = Some 1000,
       ra_inviteeRewardBytes = 0, ra_qualifyingOrderId = None, ra_rewardLedgerId = None,
       ra_reversalLedgerId = None, ra_bonusGrantId = None, ra_rewardedAt = None, ra_reversedAt = None,
       ra_recoveredCents = 0, ra_unrecoveredCents = 0, ra_revokedUnusedBytes = 0, ra_createdAt = 200\<rparr>],
     inviteRewards := [\<lparr>hr_id = ''r1'', hr_campaignId = HOLIDAY_ID, hr_inviterId = ''u1'',
       hr_inviteeId = ''u2'', hr_amountCents = 300, hr_sourceOrderId = Some ''o1'',
       hr_status = ''REWARDED'', hr_reviewReason = None, hr_rewardedAt = Some 300, hr_reversedAt = None\<rparr>],
     drawTickets := [\<lparr>ht_campaignId = HOLIDAY_ID, ht_userId = ''u1'', ht_sourceOrderId = Some ''o1'',
       ht_source = ''INVITE_TOPUP'', ht_sourceKey = ticketPrefix ''u2'' @ ''1'', ht_state = ''DRAWN'',
       ht_prizeCents = 120\<rparr>,
       \<lparr>ht_campaignId = HOLIDAY_ID, ht_userId = ''u1'', ht_sourceOrderId = Some ''o1'',
       ht_source = ''INVITE_TOPUP'', ht_sourceKey = ticketPrefix ''u2'' @ ''2'', ht_state = ''AVAILABLE'',
       ht_prizeCents = 0\<rparr>]\<rparr>"


theorem grantHolidayInviteDraws_bounded_witness:
  "\<exists>d'. grantHolidayInviteDraws ''u2'' None 400 NotGiven (exampleHolidayDb\<lparr>drawTickets := []\<rparr>) = Inr d'
     \<and> balance d' ''u2'' = Some 40 \<and> length (ticketsOf ''u2'' d') \<le> 3"
proof -
  let ?d = "exampleHolidayDb\<lparr>drawTickets := []\<rparr>"
  have "\<not> isl (grantHolidayInviteDraws ''u2'' None 400 NotGiven ?d)"
    by code_simp
  then obtain d' where d': "grantHolidayInviteDraws ''u2'' None 400 NotGiven ?d = Inr d'"
    using not_isl_obtain by blast
  have "balance ?d ''u2'' = Some 40" "ticketsOf ''u2'' ?d = []"
    by (simp_all add: balance_def ticketsOf_def exampleHolidayDb_def exampleWalletDb_def exampleUser_def)
  then show ?thesis using grantHolidayInviteDraws_bounded [OF d'] d' by auto
qed

end
