(* ===== verification/WalletTopup.thy ===== *)
theory WalletTopup imports HolidayInvite begin

text \<open>
  Online recharges of the wallet, \<open>apps/api/src/wallet/wallet-topup.ts\<close>: the amount check, the
  fulfilment of a verified payment, and its refund to the original channel, which first takes back
  what the recharge brought to the payer and to the inviter.

  Both run inside the caller's serializable transaction; an \<open>Inl\<close> result rolls it back.
\<close>

definition MIN_TOPUP_CENTS :: int where
  "MIN_TOPUP_CENTS = 1000"

definition validateTopupAmount :: "int \<Rightarrow> error + unit" where
  "validateTopupAmount amount =
     guardE (BadRequest ''topup-amount'') (MIN_TOPUP_CENTS \<le> amount \<and> amount \<le> MAX_WALLET_CENTS)"

definition isWalletTopup :: "json option \<Rightarrow> bool" where
  "isWalletTopup snapshot =
     (case snapshot of
        Some (JObj kvs) \<Rightarrow> map_of kvs ''purchaseMode'' = Some (JStr ''wallet_topup'')
                          \<and> map_of kvs ''version'' = Some (JNum 1)
      | _ \<Rightarrow> False)"

text \<open>\<open>snapshot.holidayInviteRewardId as string | null | undefined\<close>; reading a property of a
  null snapshot throws.\<close>

definition committedReward :: "json option \<Rightarrow> error + committed_reward" where
  "committedReward snapshot =
     (case nvl snapshot JNull of
        JNull \<Rightarrow> Inl (PlainError ''TypeError'')
      | j \<Rightarrow> Inr (case jget j ''holidayInviteRewardId'' of
                  Some JNull \<Rightarrow> NoReward
                | Some (JStr s) \<Rightarrow> CommittedReward s
                | _ \<Rightarrow> NotGiven))"

text \<open>\<open>manualOrder.create\<close> with the columns a recharge sets; the others take their defaults.\<close>

definition topupOrder :: "id \<Rightarrow> id \<Rightarrow> int \<Rightarrow> id \<Rightarrow> instant \<Rightarrow> instant \<Rightarrow> order_row" where
  "topupOrder orderId userId amountCents attemptId paidAt createdAt =
     \<lparr>mo_id = orderId, mo_userId = userId, mo_planId = None, mo_planOfferId = None,
      mo_packProductId = None, mo_catalogOfferId = None,
      mo_status = OrderApplied, mo_kind = OrderWalletTopup, mo_source = SourcePayment,
      mo_amountCents = amountCents, mo_basePriceCents = Some amountCents, mo_discountCents = 0,
      mo_durationDays = None,
      mo_trafficBytes = None, mo_entitlementExpiresAt = None, mo_billingPeriod = None,
      mo_intervalMonths = None,
      mo_profileId = None, mo_speedUp = None, mo_speedDown = None, mo_deviceLimit = None,
      mo_multiplier = None, mo_requiresActivePlan = None, mo_quotaCadence = None,
      mo_resetAnchorAt = None, mo_upgradeFromProductId = None, mo_upgradeFromPriceCents = None,
      mo_planUpgrade = None, mo_grantId = None,
      mo_idempotencyKey = Some (''wallet-topup:'' @ attemptId), mo_note = None,
      mo_createdAt = createdAt, mo_processedAt = Some paidAt\<rparr>"

definition orderClash :: "order_row \<Rightarrow> order_row \<Rightarrow> bool" where
  "orderClash a b \<longleftrightarrow> mo_userId a = mo_userId b \<and> mo_idempotencyKey a = mo_idempotencyKey b
     \<and> mo_idempotencyKey a \<noteq> None"

definition settleAttempt :: "id \<Rightarrow> id \<Rightarrow> string \<Rightarrow> instant \<Rightarrow> db \<Rightarrow> error + (epay_row \<times> db)" where
  "settleAttempt attemptId orderId tradeNo paidAt d =
     bindE (require (PrismaKnown ''P2025'') (lookup ea_id attemptId (epayAttempts d))) (\<lambda>a.
       if \<exists>b \<in> set (epayAttempts d). ea_id b \<noteq> attemptId
            \<and> (ea_gatewayTradeNo b = Some tradeNo \<or> ea_orderId b = Some orderId)
       then Inl (PrismaKnown ''P2002'')
       else
         let f = (\<lambda>a. a\<lparr>ea_orderId := Some orderId, ea_gatewayTradeNo := Some tradeNo,
               ea_status := EpaySettled, ea_fulfillment := FulApplied, ea_activeKey := None,
               ea_settledAt := Some paidAt, ea_closedAt := None, ea_failedAt := None,
               ea_lastSettlementError := None, ea_lastSettlementFailedAt := None,
               ea_lastQueryError := None\<rparr>)
         in Inr (f a, d\<lparr>epayAttempts := update_many (\<lambda>r. ea_id r = attemptId) f (epayAttempts d)\<rparr>))"

text \<open>The order and the payment record.\<close>

definition recordTopup :: "epay_row \<Rightarrow> string \<Rightarrow> instant \<Rightarrow> db \<Rightarrow> error + (id \<times> db)" where
  "recordTopup attempt tradeNo paidAt d =
     (let orderId = freshId d;
          order = topupOrder orderId (ea_userId attempt) (ea_amountCents attempt) (ea_id attempt)
                    paidAt (db_now d)
      in bindE (insert_unique orderClash order (orders d)) (\<lambda>os.
         let d1 = (drawId d)\<lparr>orders := os\<rparr>
         in Inr (orderId, (drawId d1)\<lparr>payments := payments d1 @ [\<lparr>pr_id = freshId d1,
              pr_orderId = orderId, pr_userId = ea_userId attempt, pr_source = PayEpay,
              pr_status = PaySettled, pr_amountCents = ea_amountCents attempt,
              pr_externalRef = Some tradeNo, pr_paidAt = Some paidAt\<rparr>]\<rparr>)))"

definition topupPosting :: "epay_row \<Rightarrow> id \<Rightarrow> posting" where
  "topupPosting attempt orderId = \<lparr>wp_userId = ea_userId attempt, wp_amountCents = ea_amountCents attempt,
     wp_kind = TxnTopup, wp_actorId = None, wp_orderId = Some orderId,
     wp_idempotencyKey = Some (''wallet-topup:'' @ ea_id attempt), wp_note = ''wallet-topup'',
     wp_allowDeletedUser = False\<rparr>"

definition auditTopup :: "epay_row \<Rightarrow> id \<Rightarrow> db \<Rightarrow> db" where
  "auditTopup attempt orderId =
     createAudit (Some (ea_userId attempt)) ''WALLET_TOPUP_APPLIED'' ''ManualOrder'' (Some orderId)
       (JObj [(''attemptId'', JStr (ea_id attempt)), (''amountCents'', JNum (ea_amountCents attempt))])"

definition fulfillWalletTopup ::
  "epay_row \<Rightarrow> string \<Rightarrow> instant \<Rightarrow> db \<Rightarrow> error + (epay_row \<times> db)" where
  "fulfillWalletTopup attempt tradeNo paidAt d =
     bindE (validateTopupAmount (ea_amountCents attempt)) (\<lambda>_.
     bindE (assertWalletCreditCapacity (ea_userId attempt) (ea_amountCents attempt) d) (\<lambda>_.
     bindE (recordTopup attempt tradeNo paidAt d) (\<lambda>(orderId, d2).
     bindE (postEntry (topupPosting attempt orderId) d2) (\<lambda>(_, d3).
     bindE (committedReward (ea_snapshot attempt)) (\<lambda>committedRewardId.
     bindE (grantHolidayInviteDraws (ea_userId attempt) (Some orderId) paidAt committedRewardId
              (auditTopup attempt orderId d3)) (\<lambda>d5.
     settleAttempt (ea_id attempt) orderId tradeNo paidAt d5))))))"

text \<open>The payment attempt a refund is for, once every check has passed.\<close>

definition refundableAttempt :: "order_row \<Rightarrow> int \<Rightarrow> string \<Rightarrow> db \<Rightarrow> error + epay_row" where
  "refundableAttempt order amountCents method d =
     (if method \<noteq> ''original'' \<or> amountCents \<noteq> mo_amountCents order
      then Inl (BadRequest ''topup-refund-original-only'')
      else case lookup ea_orderId (Some (mo_id order)) (epayAttempts d) of
        None \<Rightarrow> Inl (Conflict ''topup-payment-incomplete'')
      | Some attempt \<Rightarrow>
          if \<not> isWalletTopup (ea_snapshot attempt) then Inl (Conflict ''topup-payment-incomplete'')
          else if ea_fulfillment attempt \<noteq> FulApplied
               \<or> (\<exists>r \<in> set (refunds d). rf_orderId r = mo_id order
                     \<and> (rf_status r = RefundPending \<or> rf_status r = RefundApplied))
          then Inl (Conflict ''topup-already-refunded'')
          else bindE (require (PrismaKnown ''P2025'') (lookup u_id (mo_userId order) (users d))) (\<lambda>user.
            if u_balanceCents user < amountCents then Inl (Conflict ''topup-balance-too-low'')
            else Inr attempt))"

definition refundPosting :: "order_row \<Rightarrow> int \<Rightarrow> id \<Rightarrow> posting" where
  "refundPosting order amountCents actorId = \<lparr>wp_userId = mo_userId order, wp_amountCents = - amountCents,
     wp_kind = TxnAdjust, wp_actorId = Some actorId, wp_orderId = Some (mo_id order),
     wp_idempotencyKey = Some (''wallet-topup-refund:'' @ mo_id order),
     wp_note = ''wallet-topup-refund'', wp_allowDeletedUser = False\<rparr>"

definition recordRefund :: "order_row \<Rightarrow> epay_row \<Rightarrow> int \<Rightarrow> id \<Rightarrow> string \<Rightarrow> db \<Rightarrow> error + db" where
  "recordRefund order attempt amountCents actorId reason d =
     bindE (insert_unique (\<lambda>a b. er_paymentAttemptId a = er_paymentAttemptId b)
         \<lparr>er_id = freshId d, er_paymentAttemptId = ea_id attempt, er_status = EpayRefundPending,
          er_amountCents = amountCents, er_reasonCode = Some ''WALLET_TOPUP_REFUND''\<rparr> (epayRefunds d)) (\<lambda>ers.
     bindE (update_one ea_id (ea_id attempt) (\<lambda>a. a\<lparr>ea_fulfillment := FulRefundPending\<rparr>)
         (epayAttempts d)) (\<lambda>eas.
     let d1 = (drawId d)\<lparr>epayRefunds := ers, epayAttempts := eas\<rparr>;
         d2 = (drawId d1)\<lparr>refunds := refunds d1 @ [\<lparr>rf_id = freshId d1, rf_orderId = mo_id order,
                rf_processedById = Some actorId, rf_method = RefundEpay, rf_status = RefundPending,
                rf_amountCents = amountCents, rf_reason = reason\<rparr>]\<rparr>
     in Inr (createAudit (Some actorId) ''WALLET_TOPUP_REFUND_REQUESTED'' ''ManualOrder''
          (Some (mo_id order))
          (JObj [(''amountCents'', JNum amountCents), (''reason'', JStr reason)]) d2)))"

definition refundWalletTopup ::
  "order_row \<Rightarrow> int \<Rightarrow> string \<Rightarrow> id \<Rightarrow> string \<Rightarrow> instant \<Rightarrow> db \<Rightarrow> error + ((string \<times> id) \<times> db)" where
  "refundWalletTopup order amountCents method actorId reason now d =
     bindE (refundableAttempt order amountCents method d) (\<lambda>attempt.
     bindE (reverseHolidayInviteDraws (mo_id order) now d) (\<lambda>(review, d1).
     case review of
       Some msg \<Rightarrow> Inl (Conflict msg)
     | None \<Rightarrow>
         bindE (postEntry (refundPosting order amountCents actorId) d1) (\<lambda>(_, d2).
         bindE (recordRefund order attempt amountCents actorId reason d2) (\<lambda>d3.
         Inr ((''refund_pending'', mo_id order), d3)))))"

section \<open>What a recharge and its refund do\<close>

lemma assertWalletCreditCapacity_eq_Inr [err_simps]:
  "assertWalletCreditCapacity userId n d = Inr x \<longleftrightarrow> (\<exists>user. lookup u_id userId (users d) = Some user
     \<and> u_deletedAt user = None \<and> isSafeInteger n \<and> 0 \<le> n \<and> u_balanceCents user + n \<le> MAX_WALLET_CENTS)"
  by (auto simp: assertWalletCreditCapacity_def err_simps split: option.splits)

lemma settleAttempt_frame:
  "settleAttempt a oid no t d = Inr (r, d') \<Longrightarrow> users d' = users d \<and> walletLedger d' = walletLedger d
     \<and> orders d' = orders d \<and> ea_status r = EpaySettled \<and> ea_orderId r = Some oid
     \<and> lookup ea_id a (epayAttempts d') = Some r"
  by (auto simp: settleAttempt_def Let_def err_simps lookup_update_key split: if_splits)

lemma recordTopup_effect:
  "recordTopup attempt no t d = Inr (oid, d') \<Longrightarrow> users d' = users d \<and> walletLedger d' = walletLedger d
     \<and> orders d' = orders d @ [topupOrder oid (ea_userId attempt) (ea_amountCents attempt)
          (ea_id attempt) t (db_now d)]"
  by (auto simp: recordTopup_def Let_def err_simps)

lemma auditTopup_simps [simp]:
  "users (auditTopup a i d) = users d" "walletLedger (auditTopup a i d) = walletLedger d"
  "orders (auditTopup a i d) = orders d"
  by (simp_all add: auditTopup_def)

lemma fulfill_stages:
  "fulfillWalletTopup attempt no t d = Inr (a, d') \<Longrightarrow> \<exists>oid d2 r d3 cr d5.
     validateTopupAmount (ea_amountCents attempt) = Inr ()
   \<and> assertWalletCreditCapacity (ea_userId attempt) (ea_amountCents attempt) d = Inr ()
   \<and> recordTopup attempt no t d = Inr (oid, d2)
   \<and> postEntry (topupPosting attempt oid) d2 = Inr (r, d3)
   \<and> grantHolidayInviteDraws (ea_userId attempt) (Some oid) t cr (auditTopup attempt oid d3) = Inr d5
   \<and> settleAttempt (ea_id attempt) oid no t d5 = Inr (a, d')"
  by (fastforce simp: fulfillWalletTopup_def err_simps)

lemma fulfill_key_taken:
  assumes "\<exists>o1 \<in> set (orders d). mo_userId o1 = ea_userId a \<and> mo_idempotencyKey o1 = Some (''wallet-topup:'' @ ea_id a)"
  shows "isl (fulfillWalletTopup a no t d)"
proof -
  have "insert_unique orderClash (topupOrder i (ea_userId a) n (ea_id a) t now) (orders d)
      = Inl (PrismaKnown ''P2002'')" for i n now
    using assms by (auto simp: insert_unique_def orderClash_def topupOrder_def)
  then have "isl (recordTopup a no t d)" by (simp add: recordTopup_def Let_def)
  then show ?thesis
    by (cases "fulfillWalletTopup a no t d") (auto dest!: fulfill_stages)
qed

text \<open>C5: a fulfilled recharge credits the payer with exactly the amount paid, within the column, and
  keeps the ledger sound; it adds one applied recharge order of the payer for that amount, the attempt is settled and
  linked to that order; and, if the key of the recharge was unused before, no attempt with the same id can be fulfilled
  for the payer a second time.\<close>

theorem fulfillWalletTopup_once:
  assumes "fulfillWalletTopup attempt no t d = Inr (a, d')"
    and "existingPosting (ea_userId attempt) (Some (''wallet-topup:'' @ ea_id attempt)) d = None"
  shows "(\<exists>b. balance d (ea_userId attempt) = Some b
        \<and> balance d' (ea_userId attempt) = Some (b + ea_amountCents attempt)
        \<and> b + ea_amountCents attempt \<le> MAX_WALLET_CENTS)
    \<and> MIN_TOPUP_CENTS \<le> ea_amountCents attempt \<and> ledgerKept d d'
    \<and> (\<exists>o1. orders d' = orders d @ [o1] \<and> mo_userId o1 = ea_userId attempt \<and> mo_amountCents o1 = ea_amountCents attempt
         \<and> mo_kind o1 = OrderWalletTopup \<and> mo_status o1 = OrderApplied \<and> mo_processedAt o1 = Some t
         \<and> ea_orderId a = Some (mo_id o1))
    \<and> lookup ea_id (ea_id attempt) (epayAttempts d') = Some a \<and> ea_status a = EpaySettled
    \<and> (\<forall>again no' t'. ea_id again = ea_id attempt \<and> ea_userId again = ea_userId attempt \<longrightarrow>
          isl (fulfillWalletTopup again no' t' d'))"
proof -
  obtain oid d2 r d3 cr d5 where
    ok: "validateTopupAmount (ea_amountCents attempt) = Inr ()"
      "assertWalletCreditCapacity (ea_userId attempt) (ea_amountCents attempt) d = Inr ()"
    and rec: "recordTopup attempt no t d = Inr (oid, d2)"
    and post: "postEntry (topupPosting attempt oid) d2 = Inr (r, d3)"
    and grant: "grantHolidayInviteDraws (ea_userId attempt) (Some oid) t cr (auditTopup attempt oid d3) = Inr d5"
    and settle: "settleAttempt (ea_id attempt) oid no t d5 = Inr (a, d')"
    using fulfill_stages [OF assms(1)] by blast
  let ?u = "ea_userId attempt"
  note g = grantHolidayInviteDraws_bounded [OF grant] and s = settleAttempt_frame [OF settle]
    and d2 = recordTopup_effect [OF rec]
  have fresh: "existingPosting ?u (Some (''wallet-topup:'' @ ea_id attempt)) d2 = None"
    using assms(2) d2 by (simp add: existingPosting_def)
  have "balance d' ?u = balance d3 ?u"
    using g s balance_cong [of "auditTopup attempt oid d3" d3] balance_cong [of d' d5] by simp
  moreover have "balance d3 ?u = map_option (\<lambda>b. b + ea_amountCents attempt) (balance d ?u)"
    using postEntry_balance [OF post, of ?u] fresh balance_cong [of d2 d] d2
    by (simp add: topupPosting_def)
  moreover have "ledgerKept d d2" "ledgerKept d2 d3" "ledgerKept d3 (auditTopup attempt oid d3)"
      "ledgerKept d5 d'"
    using postEntry_kept [OF post] s d2 by (auto intro: ledgerKept_cong)
  then have "ledgerKept d d'"
    using g ledgerKept_trans by blast
  moreover have orders: "orders d' = orders d @ [topupOrder oid ?u (ea_amountCents attempt) (ea_id attempt) t (db_now d)]"
    using g s postEntry_tables [OF post] d2 by simp
  then have "isl (fulfillWalletTopup again no' t' d')"
    if "ea_id again = ea_id attempt" "ea_userId again = ea_userId attempt" for again no' t'
    using that by (intro fulfill_key_taken) (auto simp: topupOrder_def)
  moreover have "\<exists>o1. orders d' = orders d @ [o1] \<and> mo_userId o1 = ?u \<and> mo_amountCents o1 = ea_amountCents attempt
      \<and> mo_kind o1 = OrderWalletTopup \<and> mo_status o1 = OrderApplied \<and> mo_processedAt o1 = Some t
      \<and> ea_orderId a = Some (mo_id o1)"
    using orders s by (simp add: topupOrder_def)
  ultimately show ?thesis
    using ok s by (auto simp: validateTopupAmount_def err_simps balance_def)
qed

lemma recordRefund_effect:
  "recordRefund order attempt n actor reason d = Inr d' \<Longrightarrow> users d' = users d
     \<and> walletLedger d' = walletLedger d \<and> (\<exists>r. refunds d' = refunds d @ [r] \<and> rf_orderId r = mo_id order
          \<and> rf_status r = RefundPending \<and> rf_amountCents r = n)
     \<and> epayAttempts d' = update_many (\<lambda>a. ea_id a = ea_id attempt)
          (\<lambda>a. a\<lparr>ea_fulfillment := FulRefundPending\<rparr>) (epayAttempts d)"
  by (auto simp: recordRefund_def Let_def err_simps)

lemma refundableAttempt_eq_Inr:
  "refundableAttempt order n method d = Inr attempt \<Longrightarrow> n = mo_amountCents order
     \<and> lookup ea_orderId (Some (mo_id order)) (epayAttempts d) = Some attempt
     \<and> isWalletTopup (ea_snapshot attempt) \<and> ea_fulfillment attempt = FulApplied
     \<and> (\<exists>b. balance d (mo_userId order) = Some b \<and> n \<le> b)"
  by (auto simp: refundableAttempt_def balance_def err_simps split: if_splits option.splits)

lemma refund_stages:
  "refundWalletTopup order n method actor reason now d = Inr (res, d') \<Longrightarrow> \<exists>attempt d1 r d2.
     refundableAttempt order n method d = Inr attempt
   \<and> reverseHolidayInviteDraws (mo_id order) now d = Inr (None, d1)
   \<and> postEntry (refundPosting order n actor) d1 = Inr (r, d2)
   \<and> recordRefund order attempt n actor reason d2 = Inr d'"
  by (fastforce simp: refundWalletTopup_def err_simps split: option.splits)

lemma refunded_order_refused:
  assumes "lookup ea_orderId (Some (mo_id order)) (epayAttempts d) = Some attempt"
    and "isWalletTopup (ea_snapshot attempt)" and "ea_fulfillment attempt = FulRefundPending"
  shows "refundWalletTopup order (mo_amountCents order) ''original'' actor reason now d
    = Inl (Conflict ''topup-already-refunded'')"
  using assms by (simp add: refundWalletTopup_def refundableAttempt_def)


text \<open>A recharge of fifteen yuan by \<open>u2\<close>, pending and settled.\<close>

definition exampleAttempt :: epay_row where
  "exampleAttempt = \<lparr>ea_id = ''a1'', ea_userId = ''u2'', ea_orderId = None, ea_gatewayTradeNo = None,
     ea_activeKey = Some ''k'', ea_status = EpayPending, ea_fulfillment = FulPending, ea_amountCents = 1500,
     ea_snapshot = Some (JObj [(''purchaseMode'', JStr ''wallet_topup''), (''version'', JNum 1),
       (''holidayInviteRewardId'', JNull)]), ea_settledAt = None, ea_closedAt = None, ea_failedAt = None,
     ea_lastSettlementError = None, ea_lastSettlementFailedAt = None, ea_lastQueryError = None,
     ea_merchantOrderNo = ''m1'', ea_abandonedAt = None, ea_abandonReason = None, ea_createdAt = 0\<rparr>"

definition examplePaidDb :: db where
  "examplePaidDb = exampleWalletDb\<lparr>users := [exampleUser ''u1'' 500, exampleUser ''u2'' 1600],
     orders := [topupOrder ''o9'' ''u2'' 1500 ''a1'' 300 300], campaigns := [exampleCampaign],
     epayAttempts := [exampleAttempt\<lparr>ea_orderId := Some ''o9'', ea_fulfillment := FulApplied\<rparr>],
     inviteRewards := [\<lparr>hr_id = ''r1'', hr_campaignId = HOLIDAY_ID, hr_inviterId = ''u1'',
       hr_inviteeId = ''u2'', hr_amountCents = 300, hr_sourceOrderId = Some ''o9'',
       hr_status = ''REWARDED'', hr_reviewReason = None, hr_rewardedAt = Some 300, hr_reversedAt = None\<rparr>]\<rparr>"

theorem fulfillWalletTopup_once_witness:
  "\<exists>a d'. fulfillWalletTopup exampleAttempt ''t1'' 300 (exampleWalletDb\<lparr>epayAttempts := [exampleAttempt]\<rparr>) = Inr (a, d')
     \<and> balance d' ''u2'' = Some 1540 \<and> isl (fulfillWalletTopup exampleAttempt ''t2'' 400 d')"
proof -
  let ?d = "exampleWalletDb\<lparr>epayAttempts := [exampleAttempt]\<rparr>"
  have "\<not> isl (fulfillWalletTopup exampleAttempt ''t1'' 300 ?d)" by code_simp
  then obtain a d' where *: "fulfillWalletTopup exampleAttempt ''t1'' 300 ?d = Inr (a, d')"
    using not_isl_obtain by fastforce
  have "existingPosting (ea_userId exampleAttempt) (Some (''wallet-topup:'' @ ea_id exampleAttempt)) ?d = None"
    and "balance ?d ''u2'' = Some 40" and "ea_userId exampleAttempt = ''u2''" "ea_amountCents exampleAttempt = 1500"
    by (simp_all add: existingPosting_def exampleWalletDb_def emptyDb_def balance_def exampleUser_def exampleAttempt_def)
  then show ?thesis using fulfillWalletTopup_once [OF *] * by auto
qed


end
