(* ===== verification/UtcTime.thy ===== *)
theory UtcTime imports Prelude begin

text \<open>
  The UTC calendar of ECMAScript \<open>Date\<close> values, and the month arithmetic the code builds
  on it: \<open>addUtcMonthsClamped\<close> and \<open>monthlyCycleBounds\<close> of
  \<open>entitlement.service.ts\<close>.

  An instant is its number of milliseconds; dates are proleptic Gregorian. Months are
  counted from year 0 (\<open>12 * year + month\<close>), so month arithmetic is addition. The TimeClip
  range (years -271821 to 275760) is not modelled; the year 0..99 quirk of \<open>Date.UTC\<close> is.
\<close>

named_theorems cal_simps "calendar readings of constructed dates"

section \<open>Days, months, years\<close>

definition msPerDay :: int where
  "msPerDay = 86400000"

text \<open>Day number of the first of January (\<open>DayFromYear\<close> of the ECMAScript specification).\<close>

definition yearStart :: "int \<Rightarrow> int" where
  "yearStart y = 365 * (y - 1970) + (y - 1969) div 4 - (y - 1901) div 100 + (y - 1601) div 400"

definition leapYear :: "int \<Rightarrow> bool" where
  "leapYear y \<longleftrightarrow> (y mod 4 = 0 \<and> y mod 100 \<noteq> 0) \<or> y mod 400 = 0"

definition leapDay :: "int \<Rightarrow> int" where
  "leapDay y = (if leapYear y then 1 else 0)"

text \<open>Days of the year before the first of month \<open>m\<close> (0 to 11).\<close>

definition monthOffset :: "int \<Rightarrow> int \<Rightarrow> int" where
  "monthOffset l m =
     (if m \<le> 0 then 0 else if m = 1 then 31 else if m = 2 then 59 + l
      else if m = 3 then 90 + l else if m = 4 then 120 + l else if m = 5 then 151 + l
      else if m = 6 then 181 + l else if m = 7 then 212 + l else if m = 8 then 243 + l
      else if m = 9 then 273 + l else if m = 10 then 304 + l else if m = 11 then 334 + l
      else 365 + l)"

text \<open>Day number of the first of the month with index \<open>i = 12 * year + month\<close>.\<close>

definition monthStart :: "int \<Rightarrow> int" where
  "monthStart i = yearStart (i div 12) + monthOffset (leapDay (i div 12)) (i mod 12)"

definition monthDays :: "int \<Rightarrow> int" where
  "monthDays i = monthStart (i + 1) - monthStart i"

lemma yearStart_step: "yearStart (y + 1) = yearStart y + 365 + leapDay y"
proof -
  have div_at: "(y + 1 - a) div k = (y - a) div k + (if y mod k = 0 then 1 else 0)"
    if "0 < k" "a - 1 = k * c" for a k c :: int
  proof -
    have m: "(y - a + 1) mod k = y mod k"
      using mod_offset [of y k c] that by (simp add: algebra_simps)
    have e: "y + 1 - a = y - a + 1" by simp
    show ?thesis
      unfolding e using m div_step [OF that(1), of "y - a"] mod_step [OF that(1), of "y - a"]
        pos_mod_sign [OF that(1), of "y - a"] by (auto split: if_splits)
  qed
  have h: "(y + 1 - 1969) div 4 = (y - 1969) div 4 + (if y mod 4 = 0 then 1 else 0)"
       "(y + 1 - 1901) div 100 = (y - 1901) div 100 + (if y mod 100 = 0 then 1 else 0)"
       "(y + 1 - 1601) div 400 = (y - 1601) div 400 + (if y mod 400 = 0 then 1 else 0)"
    by (rule div_at [of 4 1969 492] div_at [of 100 1901 19] div_at [of 400 1601 4]; simp)+
  have d: "y mod 400 = 0 \<Longrightarrow> y mod 100 = 0" "y mod 100 = 0 \<Longrightarrow> y mod 4 = 0"
    using dvd_trans [of 100 400 y] dvd_trans [of 4 100 y] by (simp_all add: mod_eq_0_iff_dvd)
  have m: "365 * (y + 1 - 1970) = 365 * (y - 1970) + 365" by simp
  show ?thesis
    unfolding yearStart_def leapDay_def leapYear_def h m using d
    by (cases "y mod 4 = 0"; cases "y mod 100 = 0"; cases "y mod 400 = 0") simp_all
qed

lemma quotient_bounds: "k * (x div k) \<le> x" "x < k * (x div k) + k" if "0 < (k :: int)"
  using that mult_div_mod_eq [of k x] pos_mod_sign [of k x] pos_mod_bound [of k x] by linarith+

lemma yearStart_estimate:
  "400 * yearStart y \<le> 146097 * (y - 1970) + 700"
  "146097 * (y - 1970) - 700 \<le> 400 * yearStart y"
proof -
  define a where "a = (y - 1969) div 4"
  define b where "b = (y - 1901) div 100"
  define c where "c = (y - 1601) div 400"
  have e: "yearStart y = 365 * (y - 1970) + a - b + c"
    by (simp add: yearStart_def a_def b_def c_def)
  have a: "4 * a \<le> y - 1969" "y - 1969 < 4 * a + 4"
    unfolding a_def by (rule quotient_bounds; simp)+
  have b: "100 * b \<le> y - 1901" "y - 1901 < 100 * b + 100"
    unfolding b_def by (rule quotient_bounds; simp)+
  have c: "400 * c \<le> y - 1601" "y - 1601 < 400 * c + 400"
    unfolding c_def by (rule quotient_bounds; simp)+
  show "400 * yearStart y \<le> 146097 * (y - 1970) + 700"
    and "146097 * (y - 1970) - 700 \<le> 400 * yearStart y"
    using a b c unfolding e by (simp_all add: algebra_simps)
qed

lemma monthDays_bounds: "28 \<le> monthDays i \<and> monthDays i \<le> 31"
proof -
  have m: "0 \<le> i mod 12" "i mod 12 < 12" by simp_all
  have l: "leapDay (i div 12) = 0 \<or> leapDay (i div 12) = 1" by (simp add: leapDay_def)
  show ?thesis
  proof (cases "i mod 12 = 11")
    case True
    then have "(i + 1) div 12 = i div 12 + 1" "(i + 1) mod 12 = 0"
      by (simp_all add: div_step mod_step)
    then show ?thesis
      using True by (simp add: monthDays_def monthStart_def yearStart_step monthOffset_def)
  next
    case False
    then have "(i + 1) div 12 = i div 12" "(i + 1) mod 12 = i mod 12 + 1"
      by (simp_all add: div_step mod_step)
    then have "monthDays i = monthOffset (leapDay (i div 12)) (i mod 12 + 1)
        - monthOffset (leapDay (i div 12)) (i mod 12)"
      by (simp add: monthDays_def monthStart_def)
    moreover define m where "m = i mod 12"
    then have "m = 0 \<or> m = 1 \<or> m = 2 \<or> m = 3 \<or> m = 4 \<or> m = 5 \<or> m = 6 \<or> m = 7 \<or> m = 8
        \<or> m = 9 \<or> m = 10" using m False by (simp flip: m_def) presburger
    ultimately show ?thesis using l unfolding m_def by (elim disjE) (simp_all add: monthOffset_def)
  qed
qed

lemma monthStart_step: "monthStart i + 28 \<le> monthStart (i + 1)"
  using monthDays_bounds [of i] by (simp add: monthDays_def)

lemma monthStart_add: "monthStart i + int n * 28 \<le> monthStart (i + int n)"
proof (induction n)
  case 0
  then show ?case by simp
next
  case (Suc n)
  then show ?case using monthStart_step [of "i + int n"] by (simp add: algebra_simps)
qed

lemma monthStart_less: "i < j \<Longrightarrow> monthStart i < monthStart j"
  using monthStart_add [of i "nat (j - i)"] by simp

lemma monthStart_mono: "i \<le> j \<Longrightarrow> monthStart i \<le> monthStart j"
  using monthStart_less [of i j] by (cases "i = j") auto

lemma monthStart_next_le: "i < j \<Longrightarrow> monthStart (i + 1) \<le> monthStart j"
  by (rule monthStart_mono) simp

section \<open>Reading a day number\<close>

text \<open>
  The year is found from the mean year length and corrected by at most one, the month by
  comparing with the offsets of that year.
\<close>

definition yearOfDay :: "int \<Rightarrow> int" where
  "yearOfDay d =
     (let y = 400 * d div 146097 + 1970
      in if d < yearStart y then y - 1 else if yearStart (y + 1) \<le> d then y + 1 else y)"

definition monthOfYearDay :: "int \<Rightarrow> int \<Rightarrow> int" where
  "monthOfYearDay l n =
     (if n < 31 then 0 else if n < 59 + l then 1 else if n < 90 + l then 2
      else if n < 120 + l then 3 else if n < 151 + l then 4 else if n < 181 + l then 5
      else if n < 212 + l then 6 else if n < 243 + l then 7 else if n < 273 + l then 8
      else if n < 304 + l then 9 else if n < 334 + l then 10 else 11)"

definition monthOfDay :: "int \<Rightarrow> int" where
  "monthOfDay d = (let y = yearOfDay d in 12 * y + monthOfYearDay (leapDay y) (d - yearStart y))"

lemma yearOfDay_bounds: "yearStart (yearOfDay d) \<le> d \<and> d < yearStart (yearOfDay d + 1)"
proof -
  define y where "y = 400 * d div 146097 + 1970"
  have e: "146097 * (y - 1970) \<le> 400 * d" "400 * d < 146097 * (y - 1970) + 146097"
    using quotient_bounds [of 146097 "400 * d"] by (simp_all add: y_def)
  have lo: "yearStart (y - 1) \<le> d"
    using e yearStart_estimate(1) [of "y - 1"] by (simp add: algebra_simps)
  have hi: "d < yearStart (y + 2)"
    using e yearStart_estimate(2) [of "y + 2"] by (simp add: algebra_simps)
  show ?thesis
    using lo hi by (auto simp: yearOfDay_def Let_def add.assoc simp flip: y_def)
qed

lemma monthOfDay_bounds: "monthStart (monthOfDay d) \<le> d \<and> d < monthStart (monthOfDay d + 1)"
proof -
  define y where "y = yearOfDay d"
  define n where "n = d - yearStart y"
  define m where "m = monthOfYearDay (leapDay y) n"
  have l: "leapDay y = 0 \<or> leapDay y = 1" by (simp add: leapDay_def)
  have n: "0 \<le> n" "n < 365 + leapDay y"
    using yearOfDay_bounds [of d] by (simp_all add: n_def y_def yearStart_step)
  have m: "0 \<le> m" "m \<le> 11" by (simp_all add: m_def monthOfYearDay_def)
  have off: "monthOffset (leapDay y) m \<le> n" "n < monthOffset (leapDay y) (m + 1)"
    using n l unfolding m_def monthOfYearDay_def monthOffset_def by auto
  have i: "monthOfDay d = 12 * y + m"
    by (simp add: monthOfDay_def Let_def y_def n_def m_def)
  have dm: "(12 * y + m) div 12 = y" "(12 * y + m) mod 12 = m"
    using m quotient_unique [of "12 * y + m" 12 y m] by simp_all
  have start: "monthStart (monthOfDay d) = yearStart y + monthOffset (leapDay y) m"
    by (simp add: i monthStart_def dm del: mod_mult_self4)
  have fin: "monthStart (monthOfDay d + 1) = yearStart y + monthOffset (leapDay y) (m + 1)"
    using m by (cases "m = 11")
      (simp_all add: i monthStart_def div_step mod_step dm yearStart_step monthOffset_def
        add.commute [of 1 y] del: mod_mult_self4 flip: add.assoc)
  show ?thesis using off by (simp add: start fin n_def)
qed

lemma monthOfDay_eq: "monthStart i \<le> d \<Longrightarrow> d < monthStart (i + 1) \<Longrightarrow> monthOfDay d = i"
proof -
  assume a: "monthStart i \<le> d" "d < monthStart (i + 1)"
  note b = monthOfDay_bounds [of d]
  have "\<not> monthOfDay d < i"
    using monthStart_next_le [of "monthOfDay d" i] a b by linarith
  moreover have "\<not> i < monthOfDay d"
    using monthStart_next_le [of i "monthOfDay d"] a b by linarith
  ultimately show ?thesis by simp
qed

section \<open>Date objects in UTC\<close>

definition dayOf :: "instant \<Rightarrow> int" where
  "dayOf t = t div msPerDay"

definition timeInDay :: "instant \<Rightarrow> int" where
  "timeInDay t = t mod msPerDay"

definition monthOf :: "instant \<Rightarrow> int" where
  "monthOf t = monthOfDay (dayOf t)"

definition getUTCFullYear :: "instant \<Rightarrow> int" where
  "getUTCFullYear t = monthOf t div 12"

definition getUTCMonth :: "instant \<Rightarrow> int" where
  "getUTCMonth t = monthOf t mod 12"

definition getUTCDate :: "instant \<Rightarrow> int" where
  "getUTCDate t = dayOf t - monthStart (monthOf t) + 1"

definition getUTCHours :: "instant \<Rightarrow> int" where
  "getUTCHours t = timeInDay t div 3600000"

definition getUTCMinutes :: "instant \<Rightarrow> int" where
  "getUTCMinutes t = timeInDay t div 60000 mod 60"

definition getUTCSeconds :: "instant \<Rightarrow> int" where
  "getUTCSeconds t = timeInDay t div 1000 mod 60"

definition getUTCMilliseconds :: "instant \<Rightarrow> int" where
  "getUTCMilliseconds t = timeInDay t mod 1000"

text \<open>\<open>Date.UTC\<close>: a month or a day out of range carries over; years 0..99 mean 1900..1999.\<close>

definition dateUTC :: "int \<Rightarrow> int \<Rightarrow> int \<Rightarrow> int \<Rightarrow> int \<Rightarrow> int \<Rightarrow> int \<Rightarrow> instant" where
  "dateUTC y m d h mi s ms =
     (let yr = (if 0 \<le> y \<and> y \<le> 99 then 1900 + y else y)
      in (monthStart (12 * yr + m) + d - 1) * msPerDay
           + (h * 3600000 + mi * 60000 + s * 1000 + ms))"

definition setUTCDate :: "instant \<Rightarrow> int \<Rightarrow> instant" where
  "setUTCDate t d = (monthStart (monthOf t) + d - 1) * msPerDay + timeInDay t"

definition setUTCMonth :: "instant \<Rightarrow> int \<Rightarrow> instant" where
  "setUTCMonth t m =
     (monthStart (12 * getUTCFullYear t + m) + getUTCDate t - 1) * msPerDay + timeInDay t"

lemma timeInDay_bounds: "0 \<le> timeInDay t" "timeInDay t < msPerDay"
  by (simp_all add: timeInDay_def msPerDay_def)

lemma day_time_split: "t = dayOf t * msPerDay + timeInDay t"
  by (simp add: dayOf_def timeInDay_def)

lemma day_time [cal_simps]:
  assumes "0 \<le> s" and "s < msPerDay"
  shows "dayOf (d * msPerDay + s) = d" and "timeInDay (d * msPerDay + s) = s"
  using quotient_unique [of "d * msPerDay + s" msPerDay d s] assms
  by (simp_all add: dayOf_def timeInDay_def mult.commute)

lemma clock_split:
  "getUTCHours t * 3600000 + getUTCMinutes t * 60000 + getUTCSeconds t * 1000
     + getUTCMilliseconds t = timeInDay t"
proof -
  define n where "n = timeInDay t"
  have "n div 60000 div 60 = n div 3600000" "n div 1000 div 60 = n div 60000"
    by (simp_all add: div_mult2_eq [symmetric] zdiv_zmult2_eq [symmetric])
  then have "n div 3600000 * 60 + n div 60000 mod 60 = n div 60000"
      "n div 60000 * 60 + n div 1000 mod 60 = n div 1000"
      "n div 1000 * 1000 + n mod 1000 = n"
    by (metis div_mult_mod_eq)+
  then show ?thesis
    unfolding getUTCHours_def getUTCMinutes_def getUTCSeconds_def getUTCMilliseconds_def n_def
    by linarith
qed

text \<open>An instant on day \<open>k\<close> of month \<open>i\<close>.\<close>

lemma date_readings [cal_simps]:
  assumes "1 \<le> k" and "k \<le> monthDays i" and "0 \<le> s" and "s < msPerDay"
  shows "monthOf ((monthStart i + k - 1) * msPerDay + s) = i"
    and "getUTCDate ((monthStart i + k - 1) * msPerDay + s) = k"
    and "timeInDay ((monthStart i + k - 1) * msPerDay + s) = s"
proof -
  have "monthOfDay (monthStart i + k - 1) = i"
    by (rule monthOfDay_eq) (use assms in \<open>simp_all add: monthDays_def\<close>)
  then show "monthOf ((monthStart i + k - 1) * msPerDay + s) = i"
    and "getUTCDate ((monthStart i + k - 1) * msPerDay + s) = k"
    by (simp_all add: monthOf_def getUTCDate_def day_time assms)
  show "timeInDay ((monthStart i + k - 1) * msPerDay + s) = s"
    by (simp add: day_time assms)
qed

lemma getUTCDate_bounds: "1 \<le> getUTCDate t" "getUTCDate t \<le> monthDays (monthOf t)"
  using monthOfDay_bounds [of "dayOf t"]
  by (simp_all add: getUTCDate_def monthOf_def monthDays_def)

lemma date_split: "t = (monthStart (monthOf t) + getUTCDate t - 1) * msPerDay + timeInDay t"
  using day_time_split [of t] by (simp add: getUTCDate_def)

lemma year_month [simp]: "12 * getUTCFullYear t + getUTCMonth t = monthOf t"
  by (simp add: getUTCFullYear_def getUTCMonth_def)

lemma monthOf_mono: "s \<le> t \<Longrightarrow> monthOf s \<le> monthOf t"
proof (rule ccontr)
  assume "s \<le> t" and "\<not> monthOf s \<le> monthOf t"
  then have "dayOf s \<le> dayOf t" "monthOf t + 1 \<le> monthOf s"
    by (simp_all add: dayOf_def msPerDay_def zdiv_mono1)
  moreover have "monthStart (monthOf s) \<le> dayOf s" "dayOf t < monthStart (monthOf t + 1)"
    using monthOfDay_bounds by (simp_all add: monthOf_def)
  ultimately show False using monthStart_mono [of "monthOf t + 1" "monthOf s"] by linarith
qed

lemma setUTCDate_readings [cal_simps]:
  assumes "1 \<le> k" and "k \<le> monthDays (monthOf t)"
  shows "monthOf (setUTCDate t k) = monthOf t"
    and "getUTCDate (setUTCDate t k) = k"
    and "timeInDay (setUTCDate t k) = timeInDay t"
  unfolding setUTCDate_def by (simp_all add: date_readings assms timeInDay_bounds)

lemma dateUTC_eq:
  "y < 0 \<or> 99 < y \<Longrightarrow>
   dateUTC y m d h mi s ms =
     (monthStart (12 * y + m) + d - 1) * msPerDay + (h * 3600000 + mi * 60000 + s * 1000 + ms)"
  by (auto simp: dateUTC_def)

text \<open>Day 0 of the next month is the last day of this one.\<close>

lemma lastDay_eq [cal_simps]:
  assumes "y < 0 \<or> 99 < y"
  shows "getUTCDate (dateUTC y (m + 1) 0 0 0 0 0) = monthDays (12 * y + m)"
proof -
  have "dateUTC y (m + 1) 0 0 0 0 0 =
      (monthStart (12 * y + m) + monthDays (12 * y + m) - 1) * msPerDay + 0"
    using assms by (simp add: dateUTC_eq monthDays_def add.assoc)
  then show ?thesis
    using date_readings(2) [of "monthDays (12 * y + m)" "12 * y + m" 0] monthDays_bounds
    by (simp add: msPerDay_def order_trans [of 1 28])
qed

end
