(* ===== verification/MonthCycles.thy ===== *)
theory MonthCycles imports UtcTime begin

text \<open>
  Month arithmetic of \<open>entitlement.service.ts\<close>: \<open>addUtcMonthsClamped\<close> and
  \<open>monthlyCycleBounds\<close>, which decide when a monthly quota resets.

  The locale \<open>month_calendar\<close> is what callers of month arithmetic rely on (the activation
  of reserved plans receives \<open>addMonths\<close> as a constructor argument). Its lemmas hold for any
  such calendar; the interpretation discharges the laws for the code's function, for months
  from the year 100 on (below it \<open>Date.UTC\<close> reads a year as 1900 plus it).
\<close>

section \<open>The contract of month arithmetic\<close>

locale month_calendar =
  fixes index :: "instant \<Rightarrow> int"
    and addMonths :: "instant \<Rightarrow> int \<Rightarrow> instant"
    and supported :: "int \<Rightarrow> bool"
  assumes index_mono: "s \<le> t \<Longrightarrow> index s \<le> index t"
    and supported_up: "supported i \<Longrightarrow> i \<le> j \<Longrightarrow> supported j"
    and index_add:
      "supported (index a) \<Longrightarrow> supported (index a + k) \<Longrightarrow> index (addMonths a k) = index a + k"
    and add_zero: "supported (index a) \<Longrightarrow> addMonths a 0 = a"
begin

lemma earlier_index: "index s < index t \<Longrightarrow> s < t"
  using index_mono [of t s] by force

lemma add_strict_mono:
  "supported (index a) \<Longrightarrow> supported (index a + k) \<Longrightarrow> k < l \<Longrightarrow> addMonths a k < addMonths a l"
  by (rule earlier_index) (simp add: index_add supported_up [of "index a + k"])

lemma add_mono:
  "supported (index a) \<Longrightarrow> supported (index a + k) \<Longrightarrow> k \<le> l \<Longrightarrow> addMonths a k \<le> addMonths a l"
  using add_strict_mono [of a k l] by (cases "k = l") auto

lemma add_future: "supported (index a) \<Longrightarrow> 0 < k \<Longrightarrow> a < addMonths a k"
  using add_strict_mono [of a 0 k] by (simp add: add_zero)

text \<open>The offset the code computes starts the cycle that holds \<open>now\<close>.\<close>

lemma cycle_holds_now:
  assumes a: "supported (index anchor)" and n: "supported (index now - 1)"
    and off: "off = (if now < addMonths anchor (index now - index anchor)
                     then index now - index anchor - 1 else index now - index anchor)"
  shows "addMonths anchor off \<le> now \<and> now < addMonths anchor (off + 1)"
proof -
  let ?k = "index now - index anchor"
  have s: "supported (index now + j)" if "-1 \<le> j" for j
    by (rule supported_up [OF n]) (use that in simp)
  have before: "addMonths anchor (?k - 1) < now"
    by (rule earlier_index) (use index_add [OF a, of "?k - 1"] n in simp)
  have after: "now < addMonths anchor (?k + 1)"
    by (rule earlier_index) (use index_add [OF a, of "?k + 1"] s [of 1] in simp)
  show ?thesis using before after by (auto simp: off)
qed

text \<open>The cycle that holds an instant is the only one: cycles do not overlap.\<close>

lemma cycle_unique:
  assumes a: "supported (index anchor)"
    and j: "supported (index anchor + j)" "addMonths anchor j \<le> t" "t < addMonths anchor (j + 1)"
    and k: "supported (index anchor + k)" "addMonths anchor k \<le> t" "t < addMonths anchor (k + 1)"
  shows "j = k"
proof (rule ccontr)
  assume "j \<noteq> k"
  then consider "j + 1 \<le> k" | "k + 1 \<le> j" by linarith
  then show False
  proof cases
    case 1
    then have "addMonths anchor (j + 1) \<le> addMonths anchor k"
      by (intro add_mono a supported_up [OF j(1)]) simp_all
    then show False using j k by linarith
  next
    case 2
    then have "addMonths anchor (k + 1) \<le> addMonths anchor j"
      by (intro add_mono a supported_up [OF k(1)]) simp_all
    then show False using j k by linarith
  qed
qed

end

section \<open>\<open>addUtcMonthsClamped\<close>\<close>

definition addUtcMonthsClamped :: "instant \<Rightarrow> int \<Rightarrow> instant" where
  "addUtcMonthsClamped anchor months =
     (let first = dateUTC (getUTCFullYear anchor) (getUTCMonth anchor + months) 1
                    (getUTCHours anchor) (getUTCMinutes anchor) (getUTCSeconds anchor)
                    (getUTCMilliseconds anchor);
          lastDay = getUTCDate (dateUTC (getUTCFullYear first) (getUTCMonth first + 1) 0 0 0 0 0)
      in setUTCDate first (min (getUTCDate anchor) lastDay))"

text \<open>Month indices from the year 100 on, where \<open>Date.UTC\<close> takes the year as it is.\<close>

definition fullYearMonth :: "int \<Rightarrow> bool" where
  "fullYearMonth i \<longleftrightarrow> 1200 \<le> i"

lemma fullYearMonth_year: "fullYearMonth (monthOf t) \<Longrightarrow> 99 < getUTCFullYear t"
  by (simp add: fullYearMonth_def getUTCFullYear_def)

lemma addUtcMonthsClamped_readings [cal_simps]:
  assumes a: "fullYearMonth (monthOf anchor)" and k: "fullYearMonth (monthOf anchor + k)"
  shows "monthOf (addUtcMonthsClamped anchor k) = monthOf anchor + k"
    and "getUTCDate (addUtcMonthsClamped anchor k) =
           min (getUTCDate anchor) (monthDays (monthOf anchor + k))"
    and "timeInDay (addUtcMonthsClamped anchor k) = timeInDay anchor"
proof -
  define first where "first = dateUTC (getUTCFullYear anchor) (getUTCMonth anchor + k) 1
      (getUTCHours anchor) (getUTCMinutes anchor) (getUTCSeconds anchor) (getUTCMilliseconds anchor)"
  have e: "first = (monthStart (monthOf anchor + k) + 1 - 1) * msPerDay + timeInDay anchor"
    using fullYearMonth_year [OF a] year_month [of anchor]
    by (simp add: first_def dateUTC_eq clock_split add.assoc [symmetric])
  have dim: "1 \<le> monthDays (monthOf anchor + k)"
    using monthDays_bounds by (rule order_trans [rotated, OF conjunct1]) simp
  have f: "monthOf first = monthOf anchor + k" "timeInDay first = timeInDay anchor"
    unfolding e by (rule date_readings; use dim timeInDay_bounds in simp)+
  have last: "getUTCDate (dateUTC (getUTCFullYear first) (getUTCMonth first + 1) 0 0 0 0 0)
      = monthDays (monthOf anchor + k)"
    using fullYearMonth_year [of first] k by (simp add: lastDay_eq f)
  have r: "addUtcMonthsClamped anchor k =
      setUTCDate first (min (getUTCDate anchor) (monthDays (monthOf anchor + k)))"
    by (simp add: addUtcMonthsClamped_def Let_def last flip: first_def)
  have b: "1 \<le> min (getUTCDate anchor) (monthDays (monthOf anchor + k))"
    using getUTCDate_bounds [of anchor] dim by simp
  show "monthOf (addUtcMonthsClamped anchor k) = monthOf anchor + k"
    and "getUTCDate (addUtcMonthsClamped anchor k) =
           min (getUTCDate anchor) (monthDays (monthOf anchor + k))"
    and "timeInDay (addUtcMonthsClamped anchor k) = timeInDay anchor"
    unfolding r using b by (simp_all add: setUTCDate_readings f)
qed

lemma addUtcMonthsClamped_zero:
  assumes "fullYearMonth (monthOf a)"
  shows "addUtcMonthsClamped a 0 = a"
proof -
  have "getUTCDate (addUtcMonthsClamped a 0) = getUTCDate a"
    using getUTCDate_bounds [of a] assms by (simp add: addUtcMonthsClamped_readings)
  then show ?thesis
    using date_split [of "addUtcMonthsClamped a 0"] date_split [of a] assms
    by (simp add: addUtcMonthsClamped_readings)
qed

interpretation utc: month_calendar monthOf addUtcMonthsClamped fullYearMonth
  by unfold_locales
    (auto simp: monthOf_mono fullYearMonth_def addUtcMonthsClamped_readings addUtcMonthsClamped_zero)

section \<open>\<open>monthlyCycleBounds\<close>\<close>

record cycle_bounds =
  cb_startsAt :: instant
  cb_endsAt :: instant

definition monthlyCycleBounds :: "instant \<Rightarrow> instant \<Rightarrow> instant \<Rightarrow> cycle_bounds" where
  "monthlyCycleBounds anchor entitlementEnd now =
     (let offset = (getUTCFullYear now - getUTCFullYear anchor) * 12 + getUTCMonth now
                     - getUTCMonth anchor;
          startsAt = addUtcMonthsClamped anchor offset;
          offset' = (if now < startsAt then offset - 1 else offset);
          startsAt' = (if now < startsAt then addUtcMonthsClamped anchor offset' else startsAt);
          endsAt = addUtcMonthsClamped anchor (offset' + 1)
      in \<lparr>cb_startsAt = startsAt', cb_endsAt = (if entitlementEnd < endsAt then entitlementEnd else endsAt)\<rparr>)"

text \<open>The number of whole months from the anchor to the cycle that holds \<open>now\<close>.\<close>

definition cycleOffset :: "instant \<Rightarrow> instant \<Rightarrow> int" where
  "cycleOffset anchor now =
     (if now < addUtcMonthsClamped anchor (monthOf now - monthOf anchor)
      then monthOf now - monthOf anchor - 1 else monthOf now - monthOf anchor)"

lemma monthlyCycleBounds_offset:
  "monthlyCycleBounds anchor end now =
     \<lparr>cb_startsAt = addUtcMonthsClamped anchor (cycleOffset anchor now),
      cb_endsAt = min end (addUtcMonthsClamped anchor (cycleOffset anchor now + 1))\<rparr>"
proof -
  have "(getUTCFullYear now - getUTCFullYear anchor) * 12 + getUTCMonth now - getUTCMonth anchor
      = monthOf now - monthOf anchor"
    using year_month [of now] year_month [of anchor] by (simp add: algebra_simps del: year_month)
  then show ?thesis
    by (simp add: monthlyCycleBounds_def cycleOffset_def Let_def min_def)
qed

lemma cycleOffset_holds:
  "fullYearMonth (monthOf anchor) \<Longrightarrow> fullYearMonth (monthOf now - 1) \<Longrightarrow>
   addUtcMonthsClamped anchor (cycleOffset anchor now) \<le> now
     \<and> now < addUtcMonthsClamped anchor (cycleOffset anchor now + 1)"
  by (rule utc.cycle_holds_now) (simp_all add: cycleOffset_def)

lemma cycleOffset_supported:
  "fullYearMonth (monthOf now - 1) \<Longrightarrow> fullYearMonth (monthOf anchor + cycleOffset anchor now)"
  by (simp add: cycleOffset_def fullYearMonth_def)

text \<open>The monthly cycle the code computes for an instant inside an entitlement contains that
  instant, and it never runs past the end of the entitlement.
\<close>

theorem monthlyCycleBounds_contains_now:
  assumes "fullYearMonth (monthOf anchor)" and "fullYearMonth (monthOf now - 1)" and "now < end"
  shows "cb_startsAt (monthlyCycleBounds anchor end now) \<le> now
       \<and> now < cb_endsAt (monthlyCycleBounds anchor end now)
       \<and> cb_endsAt (monthlyCycleBounds anchor end now) \<le> end"
  using cycleOffset_holds [OF assms(1,2)] assms(3) by (simp add: monthlyCycleBounds_offset)

theorem monthlyCycleBounds_contains_now_witness:
  "cb_startsAt (monthlyCycleBounds 1706745600000 1714521600000 1709251200000) \<le> 1709251200000
   \<and> 1709251200000 < cb_endsAt (monthlyCycleBounds 1706745600000 1714521600000 1709251200000)
   \<and> cb_endsAt (monthlyCycleBounds 1706745600000 1714521600000 1709251200000) \<le> 1714521600000"
  by (rule monthlyCycleBounds_contains_now) code_simp+

text \<open>Cycles tile the entitlement: every instant of a computed cycle yields the very same
  cycle, so the bucket key (grant, cycle start) of an entitlement is stable during the cycle and
  two cycles of one anchor never overlap.
\<close>

theorem monthlyCycleBounds_stable:
  assumes a: "fullYearMonth (monthOf anchor)" and n: "fullYearMonth (monthOf now - 1)"
    and s: "cb_startsAt (monthlyCycleBounds anchor end now) \<le> t" "fullYearMonth (monthOf t - 1)"
    and e: "t < cb_endsAt (monthlyCycleBounds anchor end now)"
  shows "monthlyCycleBounds anchor end t = monthlyCycleBounds anchor end now"
proof -
  have "cycleOffset anchor t = cycleOffset anchor now"
  proof (rule utc.cycle_unique [OF a])
    show "addUtcMonthsClamped anchor (cycleOffset anchor now) \<le> t"
      and "t < addUtcMonthsClamped anchor (cycleOffset anchor now + 1)"
      using s e by (simp_all add: monthlyCycleBounds_offset)
  qed (use a n s cycleOffset_holds cycleOffset_supported in auto)
  then show ?thesis by (simp add: monthlyCycleBounds_offset)
qed

theorem monthlyCycleBounds_stable_witness:
  "monthlyCycleBounds 1706745600000 1714521600000 1710000000000 =
     monthlyCycleBounds 1706745600000 1714521600000 1709251200000"
  by (rule monthlyCycleBounds_stable) code_simp+

end
