(* ===== verification/QuotaCycles.thy ===== *)
theory QuotaCycles imports MonthCycles Database begin

text \<open>
  Quota periods of \<open>apps/api/src/entitlement/entitlement.service.ts\<close>: the access account, the current
  bucket of every monthly entitlement, the current cycle of every legacy subscription, and the
  retry loop around serializable transactions.

  A query's rows come in insertion order where the code asks for no order. Required relations are
  looked up; a dangling one is the inconsistent-result error the client throws.
\<close>

section \<open>Transactions that are retried\<close>

text \<open>
  \<open>serializable\<close> runs a transaction up to three times. Attempt \<open>i\<close> runs on the database
  \<open>world i\<close> that the engine shows it, and \<open>refused i\<close> says that the engine refuses to commit
  it (P2034). Only write conflicts and unique-index failures are retried.
\<close>

definition retryable :: "error \<Rightarrow> bool" where
  "retryable e \<longleftrightarrow> e = PrismaKnown ''P2034'' \<or> e = PrismaKnown ''P2002''"

definition attemptOnce ::
  "(db \<Rightarrow> error + 'a) \<Rightarrow> (nat \<Rightarrow> db) \<Rightarrow> (nat \<Rightarrow> bool) \<Rightarrow> nat \<Rightarrow> error + 'a" where
  "attemptOnce operation world refused i =
     (case operation (world i) of
        Inl e \<Rightarrow> Inl e
      | Inr x \<Rightarrow> if refused i then Inl (PrismaKnown ''P2034'') else Inr x)"

fun retryLoop ::
  "nat \<Rightarrow> (db \<Rightarrow> error + 'a) \<Rightarrow> (nat \<Rightarrow> db) \<Rightarrow> (nat \<Rightarrow> bool) \<Rightarrow> nat \<Rightarrow> error + 'a" where
  "retryLoop 0 operation world refused attempt = Inl (Conflict ''concurrent-update'')"
| "retryLoop (Suc n) operation world refused attempt =
     (case attemptOnce operation world refused attempt of
        Inr x \<Rightarrow> Inr x
      | Inl e \<Rightarrow> if \<not> retryable e \<or> attempt = 2 then Inl e
                 else retryLoop n operation world refused (attempt + 1))"

definition serializable ::
  "(db \<Rightarrow> error + 'a) \<Rightarrow> (nat \<Rightarrow> db) \<Rightarrow> (nat \<Rightarrow> bool) \<Rightarrow> error + 'a" where
  "serializable operation world refused = retryLoop 3 operation world refused 0"

section \<open>Accounts and cycles\<close>

definition ensureAccessAccount :: "id \<Rightarrow> db \<Rightarrow> error + (account_row \<times> db)" where
  "ensureAccessAccount userId d =
     bindE (require (NotFound ''user'') (lookup u_id userId (users d))) (\<lambda>_.
       case lookup aa_userId userId (accounts d) of
         Some a \<Rightarrow> Inr (a, d)
       | None \<Rightarrow>
           let a = \<lparr>aa_id = freshId d, aa_userId = userId, aa_multiplier = 10000,
                    aa_multiplierOverride = None, aa_remainder = 0\<rparr>
           in Inr (a, (drawId d)\<lparr>accounts := accounts d @ [a]\<rparr>))"

definition cycleRemaining :: "cycle_row \<Rightarrow> int" where
  "cycleRemaining c =
     (let value = sc_granted c + sc_adjustment c - sc_consumed c in if 0 < value then value else 0)"

definition presentCycle :: "cycle_row \<Rightarrow> json" where
  "presentCycle c = JObj [(''id'', JStr (sc_id c)), (''startsAt'', JDate (sc_startsAt c)),
     (''endsAt'', JDate (sc_endsAt c)), (''grantedBytes'', JNum (sc_granted c)),
     (''adjustmentBytes'', JNum (sc_adjustment c)), (''consumedBytes'', JNum (sc_consumed c)),
     (''remainingBytes'', JNum (cycleRemaining c)), (''overageBytes'', JNum (sc_overage c)),
     (''legacy'', JBool (sc_legacy c))]"

definition cycleClash :: "cycle_row \<Rightarrow> cycle_row \<Rightarrow> bool" where
  "cycleClash a b \<longleftrightarrow> sc_subscriptionId a = sc_subscriptionId b \<and> sc_startsAt a = sc_startsAt b"

definition newCycle :: "id \<Rightarrow> id \<Rightarrow> instant \<Rightarrow> instant \<Rightarrow> int \<Rightarrow> int \<Rightarrow> bool \<Rightarrow> cycle_row" where
  "newCycle i subscriptionId startsAt endsAt granted consumed legacy =
     \<lparr>sc_id = i, sc_subscriptionId = subscriptionId, sc_startsAt = startsAt, sc_endsAt = endsAt,
      sc_granted = granted, sc_adjustment = 0, sc_consumed = consumed, sc_overage = 0, sc_legacy = legacy\<rparr>"

definition currentCycle :: "id \<Rightarrow> instant \<Rightarrow> db \<Rightarrow> cycle_row option" where
  "currentCycle subscriptionId now d =
     first_row (order_desc sc_startsAt (filter (\<lambda>c. sc_subscriptionId c = subscriptionId
        \<and> sc_startsAt c \<le> now \<and> now < sc_endsAt c) (cycles d)))"

definition ensureCurrentCycleInTransaction ::
  "subscription_row \<Rightarrow> instant \<Rightarrow> db \<Rightarrow> error + (cycle_row option \<times> db)" where
  "ensureCurrentCycleInTransaction s now d =
     (case currentCycle (s_id s) now d of
        Some c \<Rightarrow> Inr (Some c, d)
      | None \<Rightarrow>
          if now < s_startsAt s \<or> s_endsAt s \<le> now then Inr (None, d)
          else
            let offer = (case s_planOfferId s of None \<Rightarrow> None | Some i \<Rightarrow> lookup po_id i (planOffers d))
            in if offer = None \<or> map_option po_billingPeriod offer = Some Legacy
               then
                 let c = newCycle (freshId d) (s_id s) (s_startsAt s) (s_endsAt s)
                           (s_included s + s_bonus s) (s_consumed s) True
                 in bindE (insert_unique cycleClash c (cycles d)) (\<lambda>cs.
                      Inr (Some c, (drawId d)\<lparr>cycles := cs\<rparr>))
               else
                 let b = monthlyCycleBounds (s_startsAt s) (s_endsAt s) now
                 in case List.find (\<lambda>c. sc_subscriptionId c = s_id s \<and> sc_startsAt c = cb_startsAt b) (cycles d) of
                      Some c \<Rightarrow> Inr (Some c, d)
                    | None \<Rightarrow>
                        bindE (require (PrismaKnown ''inconsistent'') (lookup p_id (s_planId s) (plans d))) (\<lambda>plan.
                        let c = newCycle (freshId d) (s_id s) (cb_startsAt b) (cb_endsAt b)
                                  (p_trafficBytes plan) 0 False
                        in Inr (Some c, (drawId d)\<lparr>cycles := cycles d @ [c]\<rparr>)))"

definition updateCycle :: "id \<Rightarrow> (cycle_row \<Rightarrow> cycle_row) \<Rightarrow> db \<Rightarrow> error + db" where
  "updateCycle i f d = bindE (update_one sc_id i f (cycles d)) (\<lambda>cs. Inr (d\<lparr>cycles := cs\<rparr>))"

definition updateSubscription :: "id \<Rightarrow> (subscription_row \<Rightarrow> subscription_row) \<Rightarrow> db \<Rightarrow> error + db" where
  "updateSubscription i f d =
     bindE (update_one s_id i f (subscriptions d)) (\<lambda>ss. Inr (d\<lparr>subscriptions := ss\<rparr>))"

definition currentSubscription :: "instant \<Rightarrow> subscription_row \<Rightarrow> bool" where
  "currentSubscription now s \<longleftrightarrow> s_status s = SubActive \<and> s_startsAt s \<le> now \<and> now < s_endsAt s"

definition ensureCurrentCycles :: "id \<Rightarrow> instant \<Rightarrow> db \<Rightarrow> error + db" where
  "ensureCurrentCycles userId now d =
     foldE (\<lambda>s d1. if \<exists>c \<in> set (cycles d). sc_subscriptionId c = s_id s \<and> sc_startsAt c \<le> now \<and> now < sc_endsAt c
                   then Inr d1
                   else bindE (ensureCurrentCycleInTransaction s now d1) (\<lambda>(_, d2). Inr d2))
       (filter (\<lambda>s. s_userId s = userId \<and> currentSubscription now s) (subscriptions d)) d"

section \<open>Buckets\<close>

definition bucketKey :: "bucket_row \<Rightarrow> id \<times> instant" where
  "bucketKey b = (qb_grantId b, qb_startsAt b)"

definition newBucket :: "id \<Rightarrow> id \<Rightarrow> bucket_kind \<Rightarrow> instant \<Rightarrow> instant \<Rightarrow> int \<Rightarrow> int \<Rightarrow> instant \<Rightarrow> bucket_row" where
  "newBucket i grantId kind startsAt endsAt granted multiplier createdAt =
     \<lparr>qb_id = i, qb_grantId = grantId, qb_kind = kind, qb_startsAt = startsAt, qb_endsAt = endsAt,
      qb_granted = granted, qb_consumed = 0, qb_multiplier = multiplier, qb_createdAt = createdAt\<rparr>"

text \<open>\<open>quotaBucket.upsert\<close> with an empty update.\<close>

definition upsertBucket ::
  "id \<Rightarrow> bucket_kind \<Rightarrow> instant \<Rightarrow> instant \<Rightarrow> int \<Rightarrow> int \<Rightarrow> db \<Rightarrow> db" where
  "upsertBucket grantId kind startsAt endsAt granted multiplier d =
     (if (grantId, startsAt) \<in> bucketKey ` set (buckets d) then d
      else (drawId d)\<lparr>buckets := buckets d @
             [newBucket (freshId d) grantId kind startsAt endsAt granted multiplier (db_now d)]\<rparr>)"

definition grantLive :: "instant \<Rightarrow> grant_row \<Rightarrow> bool" where
  "grantLive now g \<longleftrightarrow> g_status g = GrantActive \<and> g_startsAt g \<le> now \<and> now < g_endsAt g"

definition resetsMonthly :: "grant_row \<Rightarrow> bool" where
  "resetsMonthly g \<longleftrightarrow> g_quotaCadence g = Some MonthlyReset \<or> (g_quotaCadence g = None \<and> g_kind g = GrantPlan)"

definition bucketCurrent :: "instant \<Rightarrow> bucket_row \<Rightarrow> bool" where
  "bucketCurrent now b \<longleftrightarrow> qb_startsAt b \<le> now \<and> now < qb_endsAt b"

definition grantOffer :: "grant_row \<Rightarrow> db \<Rightarrow> offer_row option" where
  "grantOffer g d = (case g_offerId g of None \<Rightarrow> None | Some i \<Rightarrow> lookup co_id i (offers d))"

definition ensureBucket :: "instant \<Rightarrow> grant_row \<Rightarrow> offer_row \<Rightarrow> db \<Rightarrow> db" where
  "ensureBucket now g offer d =
     (let b = monthlyCycleBounds (nvl (g_resetAnchorAt g) (g_startsAt g)) (g_endsAt g) now
      in upsertBucket (g_id g) PlanCycle (cb_startsAt b) (cb_endsAt b)
           (nvl (g_trafficBytes g) (co_trafficBytes offer)) (g_multiplier g) d)"

text \<open>One round of the loop; \<open>d0\<close> is the database the grants were read from.\<close>

definition ensureGrantBucket :: "instant \<Rightarrow> db \<Rightarrow> grant_row \<Rightarrow> db \<Rightarrow> db" where
  "ensureGrantBucket now d0 g d =
     (case grantOffer g d0 of
        None \<Rightarrow> d
      | Some offer \<Rightarrow>
          if \<exists>b \<in> set (buckets d0). qb_grantId b = g_id g \<and> bucketCurrent now b then d
          else ensureBucket now g offer d)"

definition monthlyGrants :: "id \<Rightarrow> instant \<Rightarrow> db \<Rightarrow> grant_row list" where
  "monthlyGrants userId now d =
     filter (\<lambda>g. g_userId g = userId \<and> grantLive now g \<and> resetsMonthly g) (grants d)"

definition ensureV2CurrentBuckets :: "id \<Rightarrow> instant \<Rightarrow> db \<Rightarrow> db" where
  "ensureV2CurrentBuckets userId now d = fold (ensureGrantBucket now d) (monthlyGrants userId now d) d"

text \<open>What a bucket table has consumed, and that no bucket is consumed beyond its grant.\<close>

definition consumedTotal :: "bucket_row list \<Rightarrow> int" where
  "consumedTotal rows = sum_list (map qb_consumed rows)"

definition bucketsWithin :: "bucket_row list \<Rightarrow> bool" where
  "bucketsWithin rows \<longleftrightarrow> distinct (map qb_id rows) \<and> (\<forall>b \<in> set rows. qb_consumed b \<le> qb_granted b)"

section \<open>What the periods guarantee\<close>

text \<open>A transaction is attempted at most three times; the caller sees the first result that is
  not a retryable failure, or else the third, so the loop's closing conflict error is never what it
  reports.\<close>

lemma serializable_outcome:
  "serializable operation world refused =
     (let r = attemptOnce operation world refused;
          again = (\<lambda>i. case r i of Inl e \<Rightarrow> retryable e | Inr _ \<Rightarrow> False)
      in if \<not> again 0 then r 0 else if \<not> again 1 then r 1 else r 2)"
  by (auto simp: serializable_def numeral_3_eq_3 numeral_2_eq_2 split: sum.splits)

text \<open>Periods are only added, one per grant and start, and only to the bucket table.\<close>

definition nonBuckets :: "db \<Rightarrow> db" where
  "nonBuckets d = d\<lparr>buckets := [], db_next := 0\<rparr>"

definition addsBuckets :: "db \<Rightarrow> db \<Rightarrow> bool" where
  "addsBuckets d d' \<longleftrightarrow> nonBuckets d' = nonBuckets d \<and> (\<exists>bs. buckets d' = buckets d @ bs)
     \<and> (distinct (map bucketKey (buckets d)) \<longrightarrow> distinct (map bucketKey (buckets d')))"

lemma addsBuckets_refl: "addsBuckets d d"
  by (simp add: addsBuckets_def)

lemma addsBuckets_trans: "addsBuckets d d' \<Longrightarrow> addsBuckets d' d'' \<Longrightarrow> addsBuckets d d''"
  by (auto simp: addsBuckets_def)

lemma upsertBucket_adds: "addsBuckets d (upsertBucket i k s e n m d)"
  by (simp add: upsertBucket_def addsBuckets_refl)
    (simp add: addsBuckets_def nonBuckets_def drawId_def bucketKey_def newBucket_def)

lemma ensureGrantBucket_adds: "addsBuckets d (ensureGrantBucket now d0 g d)"
  by (auto simp: ensureGrantBucket_def ensureBucket_def Let_def addsBuckets_refl upsertBucket_adds
      split: option.splits)

lemma fold_adds: "addsBuckets d (fold (ensureGrantBucket now d0) gs d)"
  by (induction gs arbitrary: d) (auto intro: addsBuckets_refl addsBuckets_trans ensureGrantBucket_adds)

lemma ensureV2CurrentBuckets_adds: "addsBuckets d (ensureV2CurrentBuckets userId now d)"
  by (simp add: ensureV2CurrentBuckets_def fold_adds)

lemma addsBuckets_tables:
  assumes "addsBuckets d d'"
  shows "grants d' = grants d" and "offers d' = offers d" and "set (buckets d) \<subseteq> set (buckets d')"
proof -
  have e: "nonBuckets d' = nonBuckets d" using assms by (simp add: addsBuckets_def)
  show "grants d' = grants d" "offers d' = offers d"
    using arg_cong [OF e, of grants] arg_cong [OF e, of offers] by (simp_all add: nonBuckets_def)
  show "set (buckets d) \<subseteq> set (buckets d')" using assms by (auto simp: addsBuckets_def)
qed

text \<open>After the loop every grant has what its round was after.\<close>

definition periodOf :: "instant \<Rightarrow> grant_row \<Rightarrow> cycle_bounds" where
  "periodOf now g = monthlyCycleBounds (nvl (g_resetAnchorAt g) (g_startsAt g)) (g_endsAt g) now"

definition served :: "instant \<Rightarrow> db \<Rightarrow> db \<Rightarrow> grant_row \<Rightarrow> bool" where
  "served now d0 d g \<longleftrightarrow> grantOffer g d0 = None
     \<or> (\<exists>b \<in> set (buckets d0). qb_grantId b = g_id g \<and> bucketCurrent now b)
     \<or> (g_id g, cb_startsAt (periodOf now g)) \<in> bucketKey ` set (buckets d)"

lemma served_mono: "served now d0 d g \<Longrightarrow> addsBuckets d d' \<Longrightarrow> served now d0 d' g"
  using addsBuckets_tables(3) [of d d'] by (auto simp: served_def)

lemma ensureGrantBucket_serves: "served now d0 (ensureGrantBucket now d0 g d) g"
  by (auto simp: served_def ensureGrantBucket_def ensureBucket_def periodOf_def upsertBucket_def Let_def
      bucketKey_def newBucket_def split: option.splits)

lemma fold_serves: "g \<in> set gs \<Longrightarrow> served now d0 (fold (ensureGrantBucket now d0) gs d) g"
  by (induction gs arbitrary: d) (auto intro: served_mono [OF ensureGrantBucket_serves fold_adds])

lemma ensureGrantBucket_idle:
  "served now d0 d g \<Longrightarrow> ensureGrantBucket now d0 g d = d"
  by (auto simp: served_def ensureGrantBucket_def ensureBucket_def upsertBucket_def periodOf_def Let_def
      split: option.splits)

lemma fold_idle: "\<forall>g \<in> set gs. served now d0 d g \<Longrightarrow> fold (ensureGrantBucket now d0) gs d = d"
  by (induction gs) (simp_all add: ensureGrantBucket_idle)

text \<open>Preparing a member's quota periods is idempotent, only adds buckets, at most one per grant
  and period start, and changes no other table.\<close>

theorem ensureV2CurrentBuckets_idempotent:
  "ensureV2CurrentBuckets userId now (ensureV2CurrentBuckets userId now d) = ensureV2CurrentBuckets userId now d
   \<and> addsBuckets d (ensureV2CurrentBuckets userId now d)"
proof -
  let ?d = "ensureV2CurrentBuckets userId now d"
  note adds = ensureV2CurrentBuckets_adds [of d userId now]
  note tabs = addsBuckets_tables [OF adds]
  have gs: "monthlyGrants userId now ?d = monthlyGrants userId now d"
    by (simp add: monthlyGrants_def tabs(1))
  have "served now ?d ?d g" if "g \<in> set (monthlyGrants userId now d)" for g
  proof -
    have "served now d ?d g" using fold_serves [OF that] by (simp add: ensureV2CurrentBuckets_def)
    moreover have "grantOffer g ?d = grantOffer g d" by (simp add: grantOffer_def tabs(2) cong: option.case_cong)
    ultimately show ?thesis using tabs(3) by (auto simp: served_def)
  qed
  then have "fold (ensureGrantBucket now ?d) (monthlyGrants userId now ?d) ?d = ?d"
    by (intro fold_idle) (simp add: gs)
  then show ?thesis using adds by (subst ensureV2CurrentBuckets_def) simp
qed

text \<open>What a round creates.\<close>

lemma created_bucket:
  assumes "b \<in> set (buckets (ensureGrantBucket now d0 g d))" and "b \<notin> set (buckets d)"
  shows "qb_grantId b = g_id g \<and> qb_startsAt b = cb_startsAt (periodOf now g)
    \<and> qb_endsAt b = cb_endsAt (periodOf now g) \<and> qb_consumed b = 0
    \<and> (\<exists>offer. grantOffer g d0 = Some offer \<and> qb_granted b = nvl (g_trafficBytes g) (co_trafficBytes offer))"
  using assms
  by (auto simp: ensureGrantBucket_def ensureBucket_def upsertBucket_def periodOf_def newBucket_def Let_def
      split: option.splits if_splits)

lemma created_buckets:
  "b \<in> set (buckets (fold (ensureGrantBucket now d0) gs d)) \<Longrightarrow> b \<notin> set (buckets d) \<Longrightarrow>
   \<exists>g \<in> set gs. qb_grantId b = g_id g \<and> qb_startsAt b = cb_startsAt (periodOf now g)
    \<and> qb_endsAt b = cb_endsAt (periodOf now g) \<and> qb_consumed b = 0
    \<and> (\<exists>offer. grantOffer g d0 = Some offer \<and> qb_granted b = nvl (g_trafficBytes g) (co_trafficBytes offer))"
proof (induction gs arbitrary: d)
  case (Cons g gs)
  show ?case
  proof (cases "b \<in> set (buckets (ensureGrantBucket now d0 g d))")
    case True
    then show ?thesis using created_bucket [OF True Cons.prems(2)] by simp
  next
    case False
    then show ?thesis using Cons.IH [OF _ False] Cons.prems(1) by auto
  qed
qed simp

text \<open>A live monthly entitlement with an offer has, once its period is prepared, a bucket that
  holds the present instant; a bucket made for it starts unused with the entitlement's allowance and
  never outlives it.\<close>

theorem ensureV2CurrentBuckets_covers:
  assumes "g \<in> set (monthlyGrants userId now d)" and "grantOffer g d = Some offer"
    and "distinct (map g_id (grants d))"
    and "fullYearMonth (monthOf (nvl (g_resetAnchorAt g) (g_startsAt g)))" and "fullYearMonth (monthOf now - 1)"
    and "\<forall>b \<in> set (buckets d). qb_grantId b = g_id g \<longrightarrow> qb_startsAt b \<noteq> cb_startsAt (periodOf now g)
           \<or> bucketCurrent now b"
  shows "\<exists>b \<in> set (buckets (ensureV2CurrentBuckets userId now d)). qb_grantId b = g_id g \<and> bucketCurrent now b
    \<and> (b \<in> set (buckets d) \<or> qb_consumed b = 0 \<and> qb_endsAt b \<le> g_endsAt g
         \<and> qb_granted b = nvl (g_trafficBytes g) (co_trafficBytes offer))"
proof -
  let ?d = "ensureV2CurrentBuckets userId now d" and ?p = "periodOf now g"
  note tabs = addsBuckets_tables [OF ensureV2CurrentBuckets_adds [of d userId now]]
  have "served now d ?d g" using fold_serves [OF assms(1)] by (simp add: ensureV2CurrentBuckets_def)
  then consider b where "b \<in> set (buckets d)" "qb_grantId b = g_id g" "bucketCurrent now b"
    | b where "b \<in> set (buckets ?d)" "qb_grantId b = g_id g" "qb_startsAt b = cb_startsAt ?p"
    using assms(2) by (auto simp: served_def bucketKey_def)
  then show ?thesis
  proof cases
    case 1
    then show ?thesis using tabs(3) by blast
  next
    case 2
    show ?thesis
    proof (cases "b \<in> set (buckets d)")
      case True
      then show ?thesis using 2 assms(6) by blast
    next
      case False
      then obtain h o' where h: "h \<in> set (monthlyGrants userId now d)" "qb_grantId b = g_id h"
          "qb_startsAt b = cb_startsAt (periodOf now h)" "qb_endsAt b = cb_endsAt (periodOf now h)"
          "qb_consumed b = 0" "grantOffer h d = Some o'" "qb_granted b = nvl (g_trafficBytes h) (co_trafficBytes o')"
        using created_buckets 2(1) unfolding ensureV2CurrentBuckets_def by blast
      have mem: "h \<in> set (grants d)" "g \<in> set (grants d)" "now < g_endsAt g"
        using h(1) assms(1) by (auto simp: monthlyGrants_def grantLive_def)
      have "g_id h = g_id g" using h(2) 2(2) by simp
      then have "h = g" using mem(1,2) inj_onD [OF iffD1 [OF distinct_map assms(3), THEN conjunct2]] by blast
      moreover have "cb_startsAt ?p \<le> now \<and> now < cb_endsAt ?p \<and> cb_endsAt ?p \<le> g_endsAt g"
        using cycleOffset_holds [OF assms(4,5)] mem(3)
        by (simp add: periodOf_def monthlyCycleBounds_offset)
      ultimately show ?thesis using 2 h assms(2) by (auto simp: bucketCurrent_def)
    qed
  qed
qed

definition exampleGrant :: grant_row where
  "exampleGrant = \<lparr>g_id = ''g1'', g_userId = ''u1'', g_accountId = ''acc1'', g_productId = ''prod1'',
     g_offerId = Some ''offer1'', g_subscriptionId = None, g_packId = None, g_kind = GrantPlan,
     g_status = GrantActive, g_startsAt = 1706745600000, g_endsAt = 1714521600000, g_profileId = ''prof1'',
     g_speedUp = 100, g_speedDown = 100, g_deviceLimit = 3, g_multiplier = 10000,
     g_quotaCadence = Some MonthlyReset, g_resetAnchorAt = None, g_priceCents = Some 3000,
     g_trafficBytes = Some 1000, g_activeSlot = None, g_createdAt = 1706745600000\<rparr>"

definition exampleOffer :: offer_row where
  "exampleOffer = \<lparr>co_id = ''offer1'', co_productId = ''prod1'', co_legacyPlanOfferId = None, co_slug = ''m'',
     co_name = ''m'', co_billingPeriod = Quarterly, co_intervalMonths = Some 3, co_trafficBytes = 900,
     co_priceCents = 3000, co_currency = ''CNY'', co_active = True, co_archivedAt = None\<rparr>"

definition exampleQuotaDb :: db where
  "exampleQuotaDb = emptyDb\<lparr>grants := [exampleGrant], offers := [exampleOffer]\<rparr>"

theorem ensureV2CurrentBuckets_covers_witness:
  "\<exists>b \<in> set (buckets (ensureV2CurrentBuckets ''u1'' 1709251200000 exampleQuotaDb)).
     qb_grantId b = ''g1'' \<and> bucketCurrent 1709251200000 b"
proof -
  have "exampleGrant \<in> set (monthlyGrants ''u1'' 1709251200000 exampleQuotaDb)"
    by (simp add: monthlyGrants_def exampleQuotaDb_def exampleGrant_def grantLive_def resetsMonthly_def)
  moreover have "grantOffer exampleGrant exampleQuotaDb = Some exampleOffer"
    by (simp add: grantOffer_def exampleQuotaDb_def exampleGrant_def exampleOffer_def)
  moreover have "fullYearMonth (monthOf (nvl (g_resetAnchorAt exampleGrant) (g_startsAt exampleGrant)))"
    "fullYearMonth (monthOf 1709251200000 - 1)" by code_simp+
  moreover have "distinct (map g_id (grants exampleQuotaDb))" "buckets exampleQuotaDb = []" "g_id exampleGrant = ''g1''"
    by (simp_all add: exampleQuotaDb_def emptyDb_def exampleGrant_def)
  ultimately show ?thesis
    using ensureV2CurrentBuckets_covers [of exampleGrant "''u1''" 1709251200000 exampleQuotaDb exampleOffer]
    by auto
qed

end
