(* ===== verification/JsText.thy ===== *)
theory JsText imports Prelude begin

text \<open>
  The string operations the code uses on user input. A string is the list of its UTF-8 bytes;
  \<open>whiteSpaces\<close> are the encodings of ECMAScript's white space and line terminators, what \<open>\s\<close>
  matches and \<open>trim\<close> removes. No encoding of one is a part of another character, so stripping
  bytes from either end strips characters.
\<close>

definition utf8 :: "nat list \<Rightarrow> string" where
  "utf8 bs = map char_of bs"

definition whiteSpaces :: "string list" where
  "whiteSpaces = map utf8
     ([[9], [10], [11], [12], [13], [32], [0xC2, 0xA0], [0xE1, 0x9A, 0x80]]
      @ map (\<lambda>n. [0xE2, 0x80, 0x80 + n]) [0..<11]
      @ [[0xE2, 0x80, 0xA8], [0xE2, 0x80, 0xA9], [0xE2, 0x80, 0xAF], [0xE2, 0x81, 0x9F],
         [0xE3, 0x80, 0x80], [0xEF, 0xBB, 0xBF]])"

definition stripPrefix :: "string \<Rightarrow> string \<Rightarrow> string option" where
  "stripPrefix p s = (if take (length p) s = p then Some (drop (length p) s) else None)"

text \<open>\<open>n\<close> bounds the characters stripped; the length of the string is enough.\<close>

fun skipSpaces :: "string list \<Rightarrow> nat \<Rightarrow> string \<Rightarrow> string" where
  "skipSpaces ws 0 s = s"
| "skipSpaces ws (Suc n) s =
     (case List.find (\<lambda>w. stripPrefix w s \<noteq> None) ws of
        None \<Rightarrow> s
      | Some w \<Rightarrow> skipSpaces ws n (drop (length w) s))"

definition trimStart :: "string \<Rightarrow> string" where
  "trimStart s = skipSpaces whiteSpaces (length s) s"

definition trimEnd :: "string \<Rightarrow> string" where
  "trimEnd s = rev (skipSpaces (map rev whiteSpaces) (length s) (rev s))"

definition trim :: "string \<Rightarrow> string" where
  "trim s = trimEnd (trimStart s)"

text \<open>\<open>!s.trim()\<close>\<close>

definition blank :: "string \<Rightarrow> bool" where
  "blank s \<longleftrightarrow> trim s = []"

text \<open>\<open>s?.trim() || other\<close>\<close>

definition trimOr :: "string option \<Rightarrow> string \<Rightarrow> string" where
  "trimOr s other = (case s of None \<Rightarrow> other | Some x \<Rightarrow> if blank x then other else trim x)"

text \<open>The bound is enough: what is left starts with no white space.\<close>

lemma skipSpaces_stable:
  "\<forall>w \<in> set ws. w \<noteq> [] \<Longrightarrow> length s \<le> n \<Longrightarrow> w \<in> set ws \<Longrightarrow> stripPrefix w (skipSpaces ws n s) = None"
proof (induction ws n s rule: skipSpaces.induct)
  case (1 ws s)
  then show ?case by (auto simp: stripPrefix_def)
next
  case (2 ws n s)
  show ?case
  proof (cases "List.find (\<lambda>w. stripPrefix w s \<noteq> None) ws")
    case None
    then have "skipSpaces ws (Suc n) s = s" by simp
    moreover have "stripPrefix w s = None" using None 2(4) by (auto simp: find_None_iff)
    ultimately show ?thesis by simp
  next
    case (Some v)
    then have v: "v \<in> set ws" "stripPrefix v s \<noteq> None" by (auto simp: find_Some_iff)
    then have "v \<noteq> []" using 2(2) by blast
    then have "length (drop (length v) s) \<le> n" using 2(3) by (cases v) auto
    then show ?thesis using 2(1) [OF Some 2(2) _ 2(4)] Some by simp
  qed
qed

end
