(* ===== verification/QuotaLedger.thy ===== *)
theory QuotaLedger imports QuotaCycles JsText "HOL-Library.Product_Lexorder"
  "HOL-Library.List_Lexorder" begin

text \<open>
  Credits and adjustments of quota, with their audit rows: \<open>creditQuotaBucket\<close>,
  \<open>createBonusTrafficGrantFromOrder\<close>, \<open>updateTrafficMultiplier\<close>, \<open>adjustQuotaBucketRemaining\<close>,
  \<open>adjustAvailableQuota\<close>, \<open>adjustSubscriptionQuota\<close> and \<open>adjustTrafficPackQuota\<close> of
  \<open>apps/api/src/entitlement/entitlement.service.ts\<close>.

  Every operation is the body of its transaction (\<open>serializable\<close> retries it). All instants the code
  reads with \<open>new Date()\<close> inside one transaction are one argument \<open>now\<close>.
\<close>

section \<open>Buckets, balances and adjustment rows\<close>

text \<open>\<open>grantedBytes > consumedBytes ? grantedBytes - consumedBytes : 0\<close>\<close>

definition bucketRemaining :: "bucket_row \<Rightarrow> int" where
  "bucketRemaining b = positivePart (qb_granted b) (qb_consumed b)"

definition bucketGrant :: "bucket_row \<Rightarrow> db \<Rightarrow> error + grant_row" where
  "bucketGrant b d = require (PrismaKnown ''inconsistent'') (lookup g_id (qb_grantId b) (grants d))"

definition updateBucket :: "id \<Rightarrow> (bucket_row \<Rightarrow> bucket_row) \<Rightarrow> db \<Rightarrow> error + db" where
  "updateBucket i f d = bindE (update_one qb_id i f (buckets d)) (\<lambda>bs. Inr (d\<lparr>buckets := bs\<rparr>))"

definition updatePack :: "id \<Rightarrow> (pack_row \<Rightarrow> pack_row) \<Rightarrow> db \<Rightarrow> error + db" where
  "updatePack i f d = bindE (update_one tp_id i f (packs d)) (\<lambda>ps. Inr (d\<lparr>packs := ps\<rparr>))"

text \<open>\<open>quotaAdjustment.create\<close>; the idempotency key is unique in the whole table.\<close>

definition adjustmentClash :: "adjustment_row \<Rightarrow> adjustment_row \<Rightarrow> bool" where
  "adjustmentClash a b \<longleftrightarrow> qa_idempotencyKey a = qa_idempotencyKey b \<and> qa_idempotencyKey a \<noteq> None"

definition createAdjustment :: "(id \<Rightarrow> adjustment_row) \<Rightarrow> db \<Rightarrow> error + (id \<times> db)" where
  "createAdjustment row d =
     bindE (insert_unique adjustmentClash (row (freshId d)) (adjustments d)) (\<lambda>rows.
       Inr (freshId d, (drawId d)\<lparr>adjustments := rows\<rparr>))"

definition bucketAdjustment ::
  "id \<Rightarrow> id \<Rightarrow> id \<Rightarrow> adjust_mode \<Rightarrow> int \<Rightarrow> int \<Rightarrow> int \<Rightarrow> string \<Rightarrow> id \<Rightarrow> adjustment_row" where
  "bucketAdjustment accountId bucketId actorId mode delta before after reason i =
     \<lparr>qa_id = i, qa_accountId = accountId, qa_cycleId = None, qa_packId = None, qa_bucketId = Some bucketId,
      qa_actorId = Some actorId, qa_idempotencyKey = None, qa_mode = mode, qa_delta = delta,
      qa_before = before, qa_after = after, qa_reason = reason\<rparr>"

text \<open>\<open>orderBy: [{ startsAt: 'desc' }, { id: 'desc' }]\<close>, by which check-ins and resets choose.\<close>

definition newestGrants :: "grant_row list \<Rightarrow> grant_row list" where
  "newestGrants rows = rev (sort_key (\<lambda>g. (g_startsAt g, map of_char (g_id g) :: nat list)) rows)"

definition newestBuckets :: "bucket_row list \<Rightarrow> bucket_row list" where
  "newestBuckets rows = rev (sort_key (\<lambda>b. (qb_startsAt b, map of_char (qb_id b) :: nat list)) rows)"

section \<open>Credits\<close>

record quota_credit =
  qc_bucketId :: id
  qc_bytes :: int
  qc_at :: instant
  qc_reason :: string
  qc_idempotencyKey :: string
  qc_actorId :: "id option"

record credit_result =
  cr_adjustmentId :: id
  cr_bucketId :: "id option"
  cr_cycleId :: "id option"
  cr_before :: int
  cr_after :: int
  cr_replayed :: bool

definition replayCredit :: "adjustment_row \<Rightarrow> credit_result" where
  "replayCredit a = \<lparr>cr_adjustmentId = qa_id a, cr_bucketId = qa_bucketId a, cr_cycleId = qa_cycleId a,
     cr_before = qa_before a, cr_after = qa_after a, cr_replayed = True\<rparr>"

text \<open>\<open>bucket.grant.legacySubscription?.cycles[0]?.id ?? null\<close>\<close>

definition mirrorCycleId :: "grant_row \<Rightarrow> instant \<Rightarrow> db \<Rightarrow> id option" where
  "mirrorCycleId g at d =
     (case g_subscriptionId g of
        None \<Rightarrow> None
      | Some s \<Rightarrow> if lookup s_id s (subscriptions d) = None then None
                  else map_option sc_id (currentCycle s at d))"

definition creditQuotaBucket :: "quota_credit \<Rightarrow> db \<Rightarrow> error + (credit_result \<times> db)" where
  "creditQuotaBucket input d =
     (if qc_bytes input \<le> 0 then Inl (BadRequest ''credit-positive'')
      else case lookup qa_idempotencyKey (Some (qc_idempotencyKey input)) (adjustments d) of
        Some a \<Rightarrow> Inr (replayCredit a, d)
      | None \<Rightarrow>
          case lookup qb_id (qc_bucketId input) (buckets d) of
            None \<Rightarrow> Inl (Conflict ''bucket-unavailable'')
          | Some bucket \<Rightarrow>
              bindE (bucketGrant bucket d) (\<lambda>g.
              if \<not> grantLive (qc_at input) g \<or> \<not> bucketCurrent (qc_at input) bucket
              then Inl (Conflict ''bucket-unavailable'')
              else
                let before = bucketRemaining bucket;
                    cycleId = mirrorCycleId g (qc_at input) d
                in bindE (updateBucket (qb_id bucket) (\<lambda>b. b\<lparr>qb_granted := qb_granted b + qc_bytes input\<rparr>) d) (\<lambda>d1.
                   bindE (case cycleId of
                        None \<Rightarrow> Inr d1
                      | Some c \<Rightarrow> updateCycle c (\<lambda>r. r\<lparr>sc_adjustment := sc_adjustment r + qc_bytes input\<rparr>) d1) (\<lambda>d2.
                   bindE (createAdjustment (\<lambda>i. \<lparr>qa_id = i, qa_accountId = g_accountId g, qa_cycleId = cycleId,
                          qa_packId = None, qa_bucketId = Some (qb_id bucket), qa_actorId = qc_actorId input,
                          qa_idempotencyKey = Some (qc_idempotencyKey input), qa_mode = Delta,
                          qa_delta = qc_bytes input, qa_before = before, qa_after = before + qc_bytes input,
                          qa_reason = qc_reason input\<rparr>) d2) (\<lambda>(i, d3).
                   Inr (\<lparr>cr_adjustmentId = i, cr_bucketId = Some (qb_id bucket), cr_cycleId = cycleId,
                         cr_before = before, cr_after = before + qc_bytes input, cr_replayed = False\<rparr>, d3))))))"

text \<open>A bonus pack on the entitlement an order bought.\<close>

record bonus_input =
  bi_orderId :: id
  bi_userId :: id
  bi_productId :: id
  bi_startsAt :: instant
  bi_bytes :: int

definition bonusGrant :: "grant_row \<Rightarrow> bonus_input \<Rightarrow> instant \<Rightarrow> instant \<Rightarrow> id \<Rightarrow> instant \<Rightarrow> grant_row" where
  "bonusGrant planGrant input startsAt endsAt i createdAt =
     \<lparr>g_id = i, g_userId = bi_userId input, g_accountId = g_accountId planGrant,
      g_productId = bi_productId input, g_offerId = None, g_subscriptionId = None, g_packId = None,
      g_kind = GrantTrafficPack, g_status = GrantActive, g_startsAt = startsAt, g_endsAt = endsAt,
      g_profileId = g_profileId planGrant, g_speedUp = g_speedUp planGrant,
      g_speedDown = g_speedDown planGrant, g_deviceLimit = g_deviceLimit planGrant,
      g_multiplier = g_multiplier planGrant, g_quotaCadence = None, g_resetAnchorAt = None,
      g_priceCents = Some 0, g_trafficBytes = Some (bi_bytes input), g_activeSlot = None,
      g_createdAt = createdAt\<rparr>"

definition livePlanGrant :: "id \<Rightarrow> instant \<Rightarrow> db \<Rightarrow> grant_row option" where
  "livePlanGrant userId at d =
     first_row (order_desc g_endsAt (order_desc g_createdAt
       (filter (\<lambda>g. g_userId g = userId \<and> g_kind g = GrantPlan \<and> grantLive at g) (grants d))))"

definition createBonusTrafficGrantFromOrder :: "bonus_input \<Rightarrow> db \<Rightarrow> error + ((id \<times> id) \<times> db)" where
  "createBonusTrafficGrantFromOrder input d =
     (if bi_bytes input \<le> 0 then Inl (BadRequest ''bonus-positive'')
      else
        let order = lookup mo_id (bi_orderId input) (orders d);
            original = Option.bind (Option.bind order mo_grantId) (\<lambda>i. lookup g_id i (grants d));
            endsAt = (case original of
                Some g \<Rightarrow> if g_status g = GrantActive then Some (g_endsAt g)
                           else Option.bind order mo_entitlementExpiresAt
              | None \<Rightarrow> Option.bind order mo_entitlementExpiresAt);
            startsAt = (case original of
                Some g \<Rightarrow> max (bi_startsAt input) (g_startsAt g) | None \<Rightarrow> bi_startsAt input)
        in case (order, original, endsAt) of
          (Some o1, Some g, Some until) \<Rightarrow>
            if mo_userId o1 \<noteq> bi_userId input \<or> g_userId g \<noteq> bi_userId input \<or> until \<le> startsAt
            then Inl (Conflict ''bonus-unavailable'')
            else
              let planGrant = (if grantLive startsAt g then g
                     else nvl (livePlanGrant (bi_userId input) startsAt d) g);
                  grantId = freshId d;
                  d1 = (drawId d)\<lparr>grants := grants d @ [bonusGrant planGrant input startsAt until grantId (db_now d)]\<rparr>;
                  bucketId = freshId d1;
                  d2 = (drawId d1)\<lparr>buckets := buckets d1 @ [newBucket bucketId grantId TrafficPackBucket
                         startsAt until (bi_bytes input) (g_multiplier planGrant) (db_now d)]\<rparr>
              in Inr ((grantId, bucketId), d2)
        | _ \<Rightarrow> Inl (Conflict ''bonus-unavailable''))"

section \<open>The account's multiplier\<close>

record multiplier_guard =
  mg_expected :: int
  mg_reason :: string

text \<open>Multipliers arrive rounded to basis points, as \<open>Math.round(multiplier * 10000)\<close>; \<open>None\<close> is a
  number that is not finite.\<close>

definition updateTrafficMultiplier ::
  "id \<Rightarrow> int option \<Rightarrow> id \<Rightarrow> multiplier_guard option \<Rightarrow> db \<Rightarrow> error + ((id \<times> int) \<times> db)" where
  "updateTrafficMultiplier userId basisPoints actorId guard d =
     (case basisPoints of
        None \<Rightarrow> Inl (BadRequest ''multiplier-range'')
      | Some bp \<Rightarrow>
          if bp < 1000 \<or> 1000000 < bp then Inl (BadRequest ''multiplier-range'')
          else bindE (ensureAccessAccount userId d) (\<lambda>(account, d1).
            let current = nvl (aa_multiplierOverride account) 10000
            in bindE (case guard of
                 None \<Rightarrow> Inr ()
               | Some g \<Rightarrow> bindE (guardE (BadRequest ''multiplier-reason'') (\<not> blank (mg_reason g))) (\<lambda>_.
                           guardE (Conflict ''multiplier-changed'') (current = mg_expected g))) (\<lambda>_.
               bindE (update_one aa_id (aa_id account) (\<lambda>a. a\<lparr>aa_multiplierOverride := Some bp\<rparr>) (accounts d1)) (\<lambda>rows.
               Inr ((aa_id account, bp),
                    createAudit (Some actorId) ''entitlement.traffic_multiplier.updated'' ''access_account''
                      (Some (aa_id account))
                      (JObj ([(''userId'', JStr userId), (''before'', JNum current), (''after'', JNum bp)]
                        @ (case guard of None \<Rightarrow> [] | Some g \<Rightarrow> [(''reason'', JStr (trim (mg_reason g)))])))
                      (d1\<lparr>accounts := rows\<rparr>))))))"

section \<open>Setting what a bucket has left\<close>

record bucket_guard =
  bg_userId :: id
  bg_expectedRemaining :: int

definition defaultAdjustReason :: string where
  "defaultAdjustReason = ''admin-instant-adjustment''"

definition checkBucketGuard ::
  "bucket_guard option \<Rightarrow> bucket_row \<Rightarrow> grant_row \<Rightarrow> string option \<Rightarrow> instant \<Rightarrow> error + unit" where
  "checkBucketGuard guard bucket g reason now =
     (case guard of
        None \<Rightarrow> Inr ()
      | Some gd \<Rightarrow>
          bindE (guardE (NotFound ''user-quota'') (g_userId g = bg_userId gd)) (\<lambda>_.
          bindE (guardE (BadRequest ''adjust-reason'')
                  (case reason of None \<Rightarrow> False | Some r \<Rightarrow> \<not> blank r)) (\<lambda>_.
          bindE (guardE (Conflict ''quota-not-current'') (grantLive now g \<and> bucketCurrent now bucket)) (\<lambda>_.
          guardE (Conflict ''quota-changed'') (bucketRemaining bucket = bg_expectedRemaining gd)))))"

definition mirrorCycle :: "grant_row \<Rightarrow> bucket_row \<Rightarrow> int \<Rightarrow> db \<Rightarrow> error + db" where
  "mirrorCycle g bucket remaining d =
     (case g_subscriptionId g of
        None \<Rightarrow> Inr d
      | Some s \<Rightarrow>
          (case List.find (\<lambda>c. sc_subscriptionId c = s \<and> sc_startsAt c = qb_startsAt bucket) (cycles d) of
             None \<Rightarrow> Inl (Conflict ''cycle-mismatch'')
           | Some c \<Rightarrow> updateCycle (sc_id c)
               (\<lambda>r. r\<lparr>sc_adjustment := sc_consumed c + remaining - sc_granted c\<rparr>) d))"

definition mirrorPackRemaining :: "grant_row \<Rightarrow> int \<Rightarrow> db \<Rightarrow> error + db" where
  "mirrorPackRemaining g remaining d =
     (case g_packId g of
        None \<Rightarrow> Inr d
      | Some i \<Rightarrow>
          bindE (require (PrismaKnown ''P2025'') (lookup tp_id i (packs d))) (\<lambda>p.
          updatePack i (\<lambda>r. r\<lparr>tp_totalBytes := tp_totalBytes p - tp_remainingBytes p + remaining,
             tp_remainingBytes := remaining,
             tp_status := (if 0 < remaining then PackActive else PackExhausted)\<rparr>) d))"

definition adjustQuotaBucketRemaining ::
  "id \<Rightarrow> int \<Rightarrow> string option \<Rightarrow> id \<Rightarrow> bucket_guard option \<Rightarrow> instant \<Rightarrow> db \<Rightarrow> error + (id \<times> db)" where
  "adjustQuotaBucketRemaining bucketId remaining reason actorId guard now d =
     (if \<not> isSafeInteger remaining \<or> remaining < 0 then Inl (BadRequest ''remaining-non-negative'')
      else
        let auditReason = trimOr reason defaultAdjustReason
        in bindE (require (NotFound ''quota-bucket'') (lookup qb_id bucketId (buckets d))) (\<lambda>bucket.
           bindE (bucketGrant bucket d) (\<lambda>g.
           bindE (checkBucketGuard guard bucket g reason now) (\<lambda>_.
           let before = bucketRemaining bucket
           in bindE (updateBucket bucketId (\<lambda>b. b\<lparr>qb_granted := qb_consumed bucket + remaining\<rparr>) d) (\<lambda>d1.
              bindE (mirrorCycle g bucket remaining d1) (\<lambda>d2.
              bindE (mirrorPackRemaining g remaining d2) (\<lambda>d3.
              bindE (createAdjustment (bucketAdjustment (g_accountId g) bucketId actorId SetRemaining
                       (remaining - before) before remaining auditReason) d3) (\<lambda>(adjustmentId, d4).
              Inr (adjustmentId,
                createAudit (Some actorId) ''entitlement.quota_bucket.adjusted'' ''QuotaBucket'' (Some bucketId)
                  (JObj [(''adjustmentId'', JStr adjustmentId), (''userId'', JStr (g_userId g)),
                         (''beforeRemainingBytes'', JBig before), (''afterRemainingBytes'', JBig remaining),
                         (''reason'', JStr auditReason)]) d4)))))))))"

section \<open>Adjusting what a member has available\<close>

record quota_input =
  qi_mode :: adjust_mode
  qi_bytes :: "int option"
  qi_remaining :: "int option"

definition resolveAdjustmentDelta :: "quota_input \<Rightarrow> int \<Rightarrow> error + int" where
  "resolveAdjustmentDelta input before =
     (case qi_mode input of
        Delta \<Rightarrow> (case qi_bytes input of
            None \<Rightarrow> Inl (BadRequest ''bytes-required'')
          | Some b \<Rightarrow> if isSafeInteger b then Inr b else Inl (BadRequest ''bytes-required''))
      | SetRemaining \<Rightarrow> (case qi_remaining input of
            None \<Rightarrow> Inl (BadRequest ''remaining-required'')
          | Some r \<Rightarrow> if isSafeInteger r \<and> 0 \<le> r then Inr (r - before)
                      else Inl (BadRequest ''remaining-required'')))"

text \<open>The member's current buckets, of one entitlement when one is named.\<close>

definition adjustable :: "id \<Rightarrow> id option \<Rightarrow> instant \<Rightarrow> grant_row list \<Rightarrow> bucket_row \<Rightarrow> bool" where
  "adjustable userId grantId now gs b \<longleftrightarrow> bucketCurrent now b
     \<and> (case lookup g_id (qb_grantId b) gs of
          None \<Rightarrow> False
        | Some g \<Rightarrow> g_userId g = userId \<and> g_status g = GrantActive \<and> now < g_endsAt g
            \<and> (case grantId of None \<Rightarrow> True | Some i \<Rightarrow> i = [] \<or> g_id g = i))"

definition adjustableBuckets :: "id \<Rightarrow> id option \<Rightarrow> instant \<Rightarrow> db \<Rightarrow> bucket_row list" where
  "adjustableBuckets userId grantId now d =
     sort_key (\<lambda>b. (qb_endsAt b, map of_char (qb_id b) :: nat list))
       (filter (adjustable userId grantId now (grants d)) (buckets d))"

text \<open>The writes of a reduction: bucket, remaining before, remaining after.\<close>

fun reductionPlan :: "bucket_row list \<Rightarrow> int \<Rightarrow> (bucket_row \<times> int \<times> int) list" where
  "reductionPlan [] reduction = []"
| "reductionPlan (b # bs) reduction =
     (if reduction = 0 then []
      else
        let before = bucketRemaining b;
            cut = (if before < reduction then before else reduction)
        in if cut = 0 then reductionPlan bs reduction
           else (b, before, before - cut) # reductionPlan bs (reduction - cut))"

definition adjustmentPlan :: "bucket_row list \<Rightarrow> int \<Rightarrow> (bucket_row \<times> int \<times> int) list" where
  "adjustmentPlan bs delta =
     (if 0 \<le> delta
      then (case bs of [] \<Rightarrow> []
            | b # _ \<Rightarrow> [(b, qb_granted b - qb_consumed b, qb_granted b - qb_consumed b + delta)])
      else reductionPlan bs (- delta))"

definition writeAdjustment ::
  "id \<Rightarrow> id \<Rightarrow> adjust_mode \<Rightarrow> string \<Rightarrow> bucket_row \<times> int \<times> int \<Rightarrow> db \<Rightarrow> error + db" where
  "writeAdjustment accountId actorId mode reason step d =
     (case step of (b, before, after) \<Rightarrow>
        bindE (updateBucket (qb_id b) (\<lambda>r. r\<lparr>qb_granted := qb_consumed b + after\<rparr>) d) (\<lambda>d1.
        bindE (createAdjustment (bucketAdjustment accountId (qb_id b) actorId mode (after - before)
                 before after reason) d1) (\<lambda>(_, d2). Inr d2)))"

record quota_result =
  qr_before :: int
  qr_remaining :: int
  qr_steps :: "(id \<times> int \<times> int) list"

definition adjustAvailableQuota ::
  "id \<Rightarrow> quota_input \<Rightarrow> id option \<Rightarrow> string option \<Rightarrow> id \<Rightarrow> instant \<Rightarrow> db \<Rightarrow> error + (quota_result \<times> db)" where
  "adjustAvailableQuota userId input grantId reason actorId now d =
     (let auditReason = trimOr reason defaultAdjustReason
      in bindE (require (NotFound ''access-account'') (lookup aa_userId userId (accounts d))) (\<lambda>account.
         let bs = adjustableBuckets userId grantId now d;
             totalBefore = sum_list (map bucketRemaining bs)
         in if bs = [] then Inl (BadRequest ''no-active-bucket'')
            else bindE (resolveAdjustmentDelta input totalBefore) (\<lambda>delta.
              if totalBefore + delta < 0 then Inl (BadRequest ''negative-quota'')
              else
                let plan = adjustmentPlan bs delta
                in bindE (foldE (writeAdjustment (aa_id account) actorId (qi_mode input) auditReason) plan d) (\<lambda>d1.
                   Inr (\<lparr>qr_before = totalBefore, qr_remaining = totalBefore + delta,
                         qr_steps = map (\<lambda>(b, before, after). (qb_id b, before, after)) plan\<rparr>,
                     createAudit (Some actorId) ''entitlement.available_quota.adjusted'' ''AccessAccount''
                       (Some (aa_id account))
                       (JObj [(''userId'', JStr userId), (''grantId'', jopt JStr grantId),
                              (''beforeRemainingBytes'', JBig totalBefore),
                              (''afterRemainingBytes'', JBig (totalBefore + delta)),
                              (''reason'', JStr auditReason)]) d1)))))"

section \<open>Adjusting a legacy subscription or pack\<close>

text \<open>The bucket of the entitlement that mirrors a legacy row follows the adjustment.\<close>

definition followBucket ::
  "grant_row option \<Rightarrow> id \<Rightarrow> quota_input \<Rightarrow> int \<Rightarrow> int \<Rightarrow> id \<Rightarrow> string \<Rightarrow> instant \<Rightarrow> db \<Rightarrow> error + (id option \<times> db)" where
  "followBucket grant accountId input after delta actorId reason now d =
     (case Option.bind grant (\<lambda>g. first_row (order_desc qb_startsAt
            (filter (\<lambda>b. qb_grantId b = g_id g \<and> bucketCurrent now b) (buckets d)))) of
        None \<Rightarrow> Inr (None, d)
      | Some b \<Rightarrow>
          let bucketBefore = bucketRemaining b;
              bucketDelta = (if qi_mode input = SetRemaining then after - bucketBefore else delta)
          in if bucketBefore + bucketDelta < 0 then Inl (BadRequest ''negative-quota'')
             else bindE (updateBucket (qb_id b) (\<lambda>r. r\<lparr>qb_granted := qb_granted r + bucketDelta\<rparr>) d) (\<lambda>d1.
                  bindE (createAdjustment (bucketAdjustment accountId (qb_id b) actorId (qi_mode input)
                           bucketDelta bucketBefore (bucketBefore + bucketDelta) (trim reason)) d1) (\<lambda>(i, d2).
                  Inr (Some i, d2))))"

definition adjustSubscriptionQuota ::
  "id \<Rightarrow> quota_input \<Rightarrow> string \<Rightarrow> id \<Rightarrow> instant \<Rightarrow> db \<Rightarrow> error + ((id \<times> json) \<times> db)" where
  "adjustSubscriptionQuota subscriptionId input reason actorId now d =
     bindE (require (NotFound ''subscription'') (lookup s_id subscriptionId (subscriptions d))) (\<lambda>s.
     bindE (ensureAccessAccount (s_userId s) d) (\<lambda>(account, d1).
     bindE (if s_accountId s = None
            then updateSubscription (s_id s) (\<lambda>r. r\<lparr>s_accountId := Some (aa_id account)\<rparr>) d1
            else Inr d1) (\<lambda>d2.
     bindE (ensureCurrentCycleInTransaction s now d2) (\<lambda>(cycle, d3).
     bindE (require (BadRequest ''no-active-cycle'') cycle) (\<lambda>c.
     let before = cycleRemaining c
     in bindE (resolveAdjustmentDelta input before) (\<lambda>delta.
        let after = before + delta
        in if after < 0 then Inl (BadRequest ''negative-quota'')
           else bindE (updateCycle (sc_id c) (\<lambda>r. r\<lparr>sc_adjustment := sc_adjustment r + delta\<rparr>) d3) (\<lambda>d4.
                bindE (followBucket (lookup g_subscriptionId (Some (s_id s)) (grants d4)) (aa_id account)
                         input after delta actorId reason now d4) (\<lambda>(bucketAdjustmentId, d5).
                bindE (createAdjustment (\<lambda>i. \<lparr>qa_id = i, qa_accountId = aa_id account, qa_cycleId = Some (sc_id c),
                         qa_packId = None, qa_bucketId = None, qa_actorId = Some actorId,
                         qa_idempotencyKey = None, qa_mode = qi_mode input, qa_delta = delta,
                         qa_before = before, qa_after = after, qa_reason = trim reason\<rparr>) d5) (\<lambda>(i, d6).
                Inr ((i, presentCycle (c\<lparr>sc_adjustment := sc_adjustment c + delta\<rparr>)),
                  createAudit (Some actorId) ''entitlement.subscription_quota.adjusted'' ''subscription''
                    (Some (s_id s))
                    (JObj [(''adjustmentId'', JStr i), (''bucketAdjustmentId'', jopt JStr bucketAdjustmentId),
                           (''cycleId'', JStr (sc_id c)), (''deltaBytes'', JBig delta),
                           (''afterRemainingBytes'', JBig after)]) d6))))))))))"

definition adjustTrafficPackQuota ::
  "id \<Rightarrow> quota_input \<Rightarrow> string \<Rightarrow> id \<Rightarrow> instant \<Rightarrow> db \<Rightarrow> error + ((id \<times> pack_row) \<times> db)" where
  "adjustTrafficPackQuota trafficPackId input reason actorId now d =
     bindE (require (NotFound ''traffic-entitlement'') (lookup tp_id trafficPackId (packs d))) (\<lambda>pack.
     bindE (ensureAccessAccount (tp_userId pack) d) (\<lambda>(account, d1).
     let before = tp_remainingBytes pack
     in bindE (resolveAdjustmentDelta input before) (\<lambda>delta.
        let after = before + delta
        in if after < 0 then Inl (BadRequest ''negative-quota'')
           else
             let upd = (\<lambda>r. r\<lparr>tp_accountId := Some (aa_id account), tp_remainingBytes := after,
                          tp_totalBytes := (if 0 < delta then tp_totalBytes r + delta else tp_totalBytes r),
                          tp_status := (if after = 0 then PackExhausted else PackActive)\<rparr>)
             in bindE (updatePack (tp_id pack) upd d1) (\<lambda>d2.
                bindE (followBucket (lookup g_packId (Some (tp_id pack)) (grants d2)) (aa_id account)
                         input after delta actorId reason now d2) (\<lambda>(bucketAdjustmentId, d3).
                bindE (createAdjustment (\<lambda>i. \<lparr>qa_id = i, qa_accountId = aa_id account, qa_cycleId = None,
                         qa_packId = Some (tp_id pack), qa_bucketId = None, qa_actorId = Some actorId,
                         qa_idempotencyKey = None, qa_mode = qi_mode input, qa_delta = delta,
                         qa_before = before, qa_after = after, qa_reason = trim reason\<rparr>) d3) (\<lambda>(i, d4).
                Inr ((i, upd pack),
                  createAudit (Some actorId) ''entitlement.traffic_pack_quota.adjusted'' ''traffic_pack''
                    (Some (tp_id pack))
                    (JObj [(''adjustmentId'', JStr i), (''bucketAdjustmentId'', jopt JStr bucketAdjustmentId),
                           (''deltaBytes'', JBig delta), (''afterRemainingBytes'', JBig after)]) d4)))))))"

section \<open>Every adjustment is booked\<close>

definition booked :: "adjustment_row \<Rightarrow> bool" where
  "booked a \<longleftrightarrow> qa_after a = qa_before a + qa_delta a \<and> 0 \<le> qa_after a"

definition bucketFace :: "bucket_row \<Rightarrow> id \<times> id \<times> instant \<times> instant \<times> int" where
  "bucketFace b = (qb_id b, qb_grantId b, qb_startsAt b, qb_endsAt b, qb_consumed b)"

text \<open>Adjustments change grants of buckets only, keep consumption within them, and add booked rows.\<close>

definition adjusts :: "db \<Rightarrow> db \<Rightarrow> bool" where
  "adjusts d d' \<longleftrightarrow> map bucketFace (buckets d') = map bucketFace (buckets d)
     \<and> (bucketsWithin (buckets d) \<longrightarrow> bucketsWithin (buckets d'))
     \<and> (\<exists>new. adjustments d' = adjustments d @ new \<and> (\<forall>a \<in> set new. booked a))"

lemma adjusts_same: "buckets d' = buckets d \<Longrightarrow> adjustments d' = adjustments d \<Longrightarrow> adjusts d d'"
  by (simp add: adjusts_def)

lemma adjusts_refl: "adjusts d d"
  by (simp add: adjusts_def)

lemma adjusts_trans:
  assumes "adjusts d d'" and "adjusts d' d''"
  shows "adjusts d d''"
proof -
  obtain x y where "adjustments d' = adjustments d @ x" "\<forall>a \<in> set x. booked a"
    "adjustments d'' = adjustments d' @ y" "\<forall>a \<in> set y. booked a"
    using assms by (auto simp: adjusts_def)
  then have "adjustments d'' = adjustments d @ (x @ y)" "\<forall>a \<in> set (x @ y). booked a" by auto
  then show ?thesis using assms unfolding adjusts_def by metis
qed

lemma bucketsWithin_ids: "bucketsWithin rows \<Longrightarrow> distinct (map qb_id rows)"
  by (simp add: bucketsWithin_def)

lemma bucketsWithin_le: "bucketsWithin rows \<Longrightarrow> b \<in> set rows \<Longrightarrow> qb_consumed b \<le> qb_granted b"
  by (simp add: bucketsWithin_def)

lemma updateBucket_eq_Inr:
  "updateBucket i f d = Inr d' \<longleftrightarrow> i \<in> set (map qb_id (buckets d))
     \<and> d' = d\<lparr>buckets := update_many (\<lambda>r. qb_id r = i) f (buckets d)\<rparr>"
  by (auto simp: updateBucket_def err_simps)

lemma updateBucket_adjusts:
  assumes "updateBucket i f d = Inr d'" and "lookup qb_id i (buckets d) = Some b"
    and "\<And>r. bucketFace (f r) = bucketFace r"
    and "bucketsWithin (buckets d) \<Longrightarrow> qb_consumed b \<le> qb_granted (f b)"
  shows "adjusts d d'"
proof -
  let ?rows = "update_many (\<lambda>r. qb_id r = i) f (buckets d)"
  have faces: "map bucketFace ?rows = map bucketFace (buckets d)"
    by (rule map_update_many) (rule assms(3))
  have ids: "map qb_id ?rows = map qb_id (buckets d)"
    using arg_cong [OF assms(3), of fst] by (intro map_update_many) (simp add: bucketFace_def)
  have "bucketsWithin ?rows" if w: "bucketsWithin (buckets d)"
  proof -
    have "r = b" if "r \<in> set (buckets d)" "qb_id r = i" for r
      using lookup_mem [OF bucketsWithin_ids [OF w] that(1)] that(2) assms(2) by simp
    moreover have "qb_consumed (f r) = qb_consumed r" for r
      using assms(3) [of r] by (simp add: bucketFace_def)
    ultimately have "qb_consumed r \<le> qb_granted r" if "r \<in> set ?rows" for r
      using that bucketsWithin_le [OF w] assms(4) [OF w] by (auto simp: set_update_many)
    then show ?thesis using bucketsWithin_ids [OF w] ids by (simp add: bucketsWithin_def)
  qed
  then show ?thesis using assms(1) faces by (simp add: updateBucket_eq_Inr adjusts_def)
qed

lemma createAdjustment_adjusts:
  assumes "createAdjustment row d = Inr (i, d')" and "booked (row (freshId d))"
  shows "adjusts d d'"
  using assms by (auto simp: createAdjustment_def err_simps adjusts_def)

lemma positivePart_room: "c \<le> g \<Longrightarrow> 0 \<le> positivePart g c + n \<Longrightarrow> c \<le> g + n"
  by (simp add: positivePart_le)

text \<open>The other rows an adjustment touches.\<close>

lemma updateCycle_adjusts: "updateCycle i f d = Inr d' \<Longrightarrow> adjusts d d'"
  by (auto simp: updateCycle_def err_simps intro: adjusts_same)

lemma updateSubscription_adjusts: "updateSubscription i f d = Inr d' \<Longrightarrow> adjusts d d'"
  by (auto simp: updateSubscription_def err_simps intro: adjusts_same)

lemma updatePack_adjusts: "updatePack i f d = Inr d' \<Longrightarrow> adjusts d d'"
  by (auto simp: updatePack_def err_simps intro: adjusts_same)

lemma mirrorCycle_adjusts: "mirrorCycle g b n d = Inr d' \<Longrightarrow> adjusts d d'"
  by (auto simp: mirrorCycle_def intro: adjusts_refl updateCycle_adjusts split: option.splits)

lemma mirrorPackRemaining_adjusts: "mirrorPackRemaining g n d = Inr d' \<Longrightarrow> adjusts d d'"
  by (auto simp: mirrorPackRemaining_def err_simps intro: adjusts_refl updatePack_adjusts split: option.splits)

lemma ensureAccessAccount_adjusts: "ensureAccessAccount u d = Inr (a, d') \<Longrightarrow> adjusts d d'"
  by (auto simp: ensureAccessAccount_def err_simps Let_def intro: adjusts_same split: option.splits)

lemma ensureCurrentCycle_adjusts: "ensureCurrentCycleInTransaction s t d = Inr (c, d') \<Longrightarrow> adjusts d d'"
  by (auto simp: ensureCurrentCycleInTransaction_def err_simps Let_def intro: adjusts_same
      split: option.splits if_splits)

lemma createAudit_adjusts: "adjusts d (createAudit a b c i j d)"
  by (rule adjusts_same) simp_all

lemma bucketAdjustment_booked: "after = before + delta \<Longrightarrow> 0 \<le> after \<Longrightarrow>
  booked (bucketAdjustment acc b actor mode delta before after reason i)"
  by (simp add: booked_def bucketAdjustment_def)

lemma followBucket_adjusts:
  assumes "followBucket g acc input after delta actor reason now d = Inr (i, d')"
    and "0 \<le> after"
  shows "adjusts d d'"
proof (cases "Option.bind g (\<lambda>g. first_row (order_desc qb_startsAt
            (filter (\<lambda>b. qb_grantId b = g_id g \<and> bucketCurrent now b) (buckets d))))")
  case None
  then show ?thesis using assms(1) by (simp add: followBucket_def adjusts_refl)
next
  case (Some b)
  let ?delta = "if qi_mode input = SetRemaining then after - bucketRemaining b else delta"
  obtain d1 where up: "updateBucket (qb_id b) (\<lambda>r. r\<lparr>qb_granted := qb_granted r + ?delta\<rparr>) d = Inr d1"
    and adj: "\<exists>j. createAdjustment (bucketAdjustment acc (qb_id b) actor (qi_mode input) ?delta
        (bucketRemaining b) (bucketRemaining b + ?delta) (trim reason)) d1 = Inr (j, d')"
    and room: "0 \<le> bucketRemaining b + ?delta"
    using assms(1) Some by (auto simp: followBucket_def err_simps Let_def split: if_splits)
  have mem: "b \<in> set (buckets d)"
    using Some by (auto simp: bind_eq_Some_conv order_desc_def dest!: first_row_SomeD)
  then obtain b0 where b0: "lookup qb_id (qb_id b) (buckets d) = Some b0"
    using lookup_None_iff [of qb_id "qb_id b" "buckets d"] by (cases "lookup qb_id (qb_id b) (buckets d)") auto
  have "adjusts d d1"
  proof (rule updateBucket_adjusts [OF up b0])
    assume w: "bucketsWithin (buckets d)"
    then have "b0 = b" using lookup_mem [OF bucketsWithin_ids mem] b0 by simp
    then show "qb_consumed b0 \<le> qb_granted (b0\<lparr>qb_granted := qb_granted b0 + ?delta\<rparr>)"
      using positivePart_room [OF bucketsWithin_le [OF w mem], of ?delta] room
      by (simp add: bucketRemaining_def)
  qed (simp add: bucketFace_def)
  moreover have "adjusts d1 d'"
    using adj createAdjustment_adjusts bucketAdjustment_booked room by auto
  ultimately show ?thesis by (rule adjusts_trans)
qed

end
