(* ===== verification/QuotaLaws.thy ===== *)
theory QuotaLaws imports QuotaLedger "HOL-Library.Multiset" begin

text \<open>
  What the quota credits and adjustments of \<open>QuotaLedger\<close> guarantee. The interface of an
  idempotent credit is the locale \<open>credit_api\<close>, interpreted on \<open>creditQuotaBucket\<close>; sequences of
  adjustments are runs of \<open>quotaStep\<close>, in which a transaction that throws leaves the database alone.
\<close>

section \<open>An idempotent credit\<close>

text \<open>What a sequence of credits pays into bucket \<open>i\<close> when every key pays once.\<close>

primrec paidInto :: "id \<Rightarrow> (string \<Rightarrow> bool) \<Rightarrow> quota_credit list \<Rightarrow> int" where
  "paidInto i seen [] = 0"
| "paidInto i seen (c # cs) =
     (if seen (qc_idempotencyKey c) \<or> qc_bucketId c \<noteq> i then 0 else qc_bytes c)
     + paidInto i (\<lambda>k. seen k \<or> k = qc_idempotencyKey c) cs"

locale credit_api =
  fixes granted :: "'d \<Rightarrow> id \<Rightarrow> int option"
    and spent :: "'d \<Rightarrow> string \<Rightarrow> bool"
    and credit :: "quota_credit \<Rightarrow> 'd \<Rightarrow> error + (credit_result \<times> 'd)"
  assumes replays: "credit c d = Inr (r, d') \<Longrightarrow> spent d (qc_idempotencyKey c) \<Longrightarrow> d' = d"
    and pays: "credit c d = Inr (r, d') \<Longrightarrow> \<not> spent d (qc_idempotencyKey c) \<Longrightarrow>
      granted d' i = map_option (\<lambda>g. g + (if qc_bucketId c = i then qc_bytes c else 0)) (granted d i)"
    and books: "credit c d = Inr (r, d') \<Longrightarrow> spent d' k \<longleftrightarrow> spent d k \<or> k = qc_idempotencyKey c"
begin

lemma credit_adds:
  assumes "credit c d = Inr (r, d')"
  shows "granted d' i = map_option
    (\<lambda>g. g + (if spent d (qc_idempotencyKey c) \<or> qc_bucketId c \<noteq> i then 0 else qc_bytes c)) (granted d i)"
  using replays [OF assms] pays [OF assms, of i]
  by (cases "spent d (qc_idempotencyKey c)"; cases "granted d i") auto

lemma credits_total:
  "foldE (\<lambda>c d. bindE (credit c d) (\<lambda>(_, d'). Inr d')) cs d = Inr d' \<Longrightarrow>
   granted d' i = map_option (\<lambda>g. g + paidInto i (spent d) cs) (granted d i)"
proof (induction cs arbitrary: d)
  case Nil
  then show ?case by (cases "granted d i") auto
next
  case (Cons c cs)
  then obtain r m where m: "credit c d = Inr (r, m)"
    and rest: "foldE (\<lambda>c d. bindE (credit c d) (\<lambda>(_, d'). Inr d')) cs m = Inr d'"
    by (auto simp: err_simps)
  have "spent m = (\<lambda>k. spent d k \<or> k = qc_idempotencyKey c)" using books [OF m] by auto
  then show ?case using Cons.IH [OF rest] credit_adds [OF m, of i]
    by (cases "granted d i") auto
qed

end

definition grantedOf :: "db \<Rightarrow> id \<Rightarrow> int option" where
  "grantedOf d i = map_option qb_granted (lookup qb_id i (buckets d))"

definition creditKeySpent :: "db \<Rightarrow> string \<Rightarrow> bool" where
  "creditKeySpent d k \<longleftrightarrow> Some k \<in> qa_idempotencyKey ` set (adjustments d)"

lemma key_row: "lookup qa_idempotencyKey (Some k) (adjustments d) = None \<longleftrightarrow> \<not> creditKeySpent d k"
  by (auto simp: creditKeySpent_def table_simps)

lemma creditQuotaBucket_replay:
  assumes "creditQuotaBucket c d = Inr (r, d')" and "creditKeySpent d (qc_idempotencyKey c)"
  shows "d' = d \<and> cr_replayed r"
  using assms key_row [of "qc_idempotencyKey c" d]
  by (auto simp: creditQuotaBucket_def replayCredit_def split: if_splits option.splits)

text \<open>The stages of a fresh credit.\<close>

lemma creditQuotaBucket_stages:
  assumes "creditQuotaBucket c d = Inr (r, d')" and "\<not> creditKeySpent d (qc_idempotencyKey c)"
  obtains b g d1 d2 where
    "0 < qc_bytes c" "lookup qb_id (qc_bucketId c) (buckets d) = Some b" "bucketGrant b d = Inr g"
    "grantLive (qc_at c) g" "bucketCurrent (qc_at c) b"
    "updateBucket (qb_id b) (\<lambda>b. b\<lparr>qb_granted := qb_granted b + qc_bytes c\<rparr>) d = Inr d1"
    "(case mirrorCycleId g (qc_at c) d of None \<Rightarrow> Inr d1
      | Some k \<Rightarrow> updateCycle k (\<lambda>r. r\<lparr>sc_adjustment := sc_adjustment r + qc_bytes c\<rparr>) d1) = Inr d2"
    "createAdjustment (\<lambda>i. \<lparr>qa_id = i, qa_accountId = g_accountId g, qa_cycleId = mirrorCycleId g (qc_at c) d,
        qa_packId = None, qa_bucketId = Some (qb_id b), qa_actorId = qc_actorId c,
        qa_idempotencyKey = Some (qc_idempotencyKey c), qa_mode = Delta, qa_delta = qc_bytes c,
        qa_before = bucketRemaining b, qa_after = bucketRemaining b + qc_bytes c, qa_reason = qc_reason c\<rparr>) d2
      = Inr (cr_adjustmentId r, d')"
    "r = \<lparr>cr_adjustmentId = cr_adjustmentId r, cr_bucketId = Some (qb_id b), cr_cycleId = mirrorCycleId g (qc_at c) d,
        cr_before = bucketRemaining b, cr_after = bucketRemaining b + qc_bytes c, cr_replayed = False\<rparr>"
  using assms iffD2 [OF key_row [of "qc_idempotencyKey c" d] assms(2)]
  by (fastforce simp: creditQuotaBucket_def err_simps Let_def split: if_splits option.splits prod.splits)

lemma updateCycle_rows:
  "updateCycle i f d = Inr d' \<Longrightarrow> buckets d' = buckets d \<and> adjustments d' = adjustments d
    \<and> packs d' = packs d \<and> grants d' = grants d"
  by (auto simp: updateCycle_def err_simps)

lemma createAdjustment_rows:
  "createAdjustment row d = Inr (i, d') \<Longrightarrow> i = freshId d \<and> buckets d' = buckets d \<and> cycles d' = cycles d
    \<and> packs d' = packs d \<and> grants d' = grants d \<and> adjustments d' = adjustments d @ [row i]"
  by (auto simp: createAdjustment_def err_simps)

lemma updateBucket_rows:
  "updateBucket i f d = Inr d' \<Longrightarrow> buckets d' = update_many (\<lambda>r. qb_id r = i) f (buckets d)
    \<and> adjustments d' = adjustments d \<and> cycles d' = cycles d \<and> packs d' = packs d \<and> grants d' = grants d"
  by (auto simp: updateBucket_eq_Inr)

lemma updatePack_rows:
  "updatePack i f d = Inr d' \<Longrightarrow> packs d' = update_many (\<lambda>r. tp_id r = i) f (packs d)
    \<and> adjustments d' = adjustments d \<and> cycles d' = cycles d \<and> buckets d' = buckets d \<and> grants d' = grants d"
  by (auto simp: updatePack_def err_simps)

lemma mirrored_frame:
  "(case x of None \<Rightarrow> Inr d | Some k \<Rightarrow> updateCycle k f d) = Inr d' \<Longrightarrow>
    buckets d' = buckets d \<and> adjustments d' = adjustments d"
  by (auto dest: updateCycle_rows split: option.splits)

lemma creditQuotaBucket_fresh:
  assumes "creditQuotaBucket c d = Inr (r, d')" and "\<not> creditKeySpent d (qc_idempotencyKey c)"
  shows "\<exists>b a. lookup qb_id (qc_bucketId c) (buckets d) = Some b \<and> 0 < qc_bytes c
    \<and> buckets d' = update_many (\<lambda>r. qb_id r = qc_bucketId c) (\<lambda>b. b\<lparr>qb_granted := qb_granted b + qc_bytes c\<rparr>) (buckets d)
    \<and> adjustments d' = adjustments d @ [a] \<and> qa_id a = cr_adjustmentId r
    \<and> qa_idempotencyKey a = Some (qc_idempotencyKey c) \<and> qa_bucketId a = Some (qc_bucketId c)
    \<and> qa_delta a = qc_bytes c \<and> qa_before a = bucketRemaining b \<and> qa_after a = bucketRemaining b + qc_bytes c
    \<and> \<not> cr_replayed r"
proof -
  obtain b g d1 d2 where s: "0 < qc_bytes c" "lookup qb_id (qc_bucketId c) (buckets d) = Some b"
      "updateBucket (qb_id b) (\<lambda>b. b\<lparr>qb_granted := qb_granted b + qc_bytes c\<rparr>) d = Inr d1"
      "(case mirrorCycleId g (qc_at c) d of None \<Rightarrow> Inr d1
        | Some k \<Rightarrow> updateCycle k (\<lambda>r. r\<lparr>sc_adjustment := sc_adjustment r + qc_bytes c\<rparr>) d1) = Inr d2"
      "createAdjustment (\<lambda>i. \<lparr>qa_id = i, qa_accountId = g_accountId g, qa_cycleId = mirrorCycleId g (qc_at c) d,
          qa_packId = None, qa_bucketId = Some (qb_id b), qa_actorId = qc_actorId c,
          qa_idempotencyKey = Some (qc_idempotencyKey c), qa_mode = Delta, qa_delta = qc_bytes c,
          qa_before = bucketRemaining b, qa_after = bucketRemaining b + qc_bytes c, qa_reason = qc_reason c\<rparr>) d2
        = Inr (cr_adjustmentId r, d')"
      and r: "r = \<lparr>cr_adjustmentId = cr_adjustmentId r, cr_bucketId = Some (qb_id b),
        cr_cycleId = mirrorCycleId g (qc_at c) d,
        cr_before = bucketRemaining b, cr_after = bucketRemaining b + qc_bytes c, cr_replayed = False\<rparr>"
    by (rule creditQuotaBucket_stages [OF assms]) blast
  have "qb_id b = qc_bucketId c" using lookup_SomeD [OF s(2)] by simp
  moreover have "\<not> cr_replayed r" by (subst r) simp
  ultimately show ?thesis
    using s updateBucket_rows [OF s(3)] mirrored_frame [OF s(4)] createAdjustment_rows [OF s(5)] by auto
qed

lemma creditQuotaBucket_books:
  assumes "creditQuotaBucket c d = Inr (r, d')"
  shows "creditKeySpent d' k \<longleftrightarrow> creditKeySpent d k \<or> k = qc_idempotencyKey c"
proof (cases "creditKeySpent d (qc_idempotencyKey c)")
  case True
  then show ?thesis using creditQuotaBucket_replay [OF assms] by auto
next
  case False
  then show ?thesis using creditQuotaBucket_fresh [OF assms] by (auto simp: creditKeySpent_def)
qed

interpretation quota: credit_api grantedOf creditKeySpent creditQuotaBucket
proof
  fix c r i and d d' :: db
  assume run: "creditQuotaBucket c d = Inr (r, d')"
  show "creditKeySpent d (qc_idempotencyKey c) \<Longrightarrow> d' = d"
    using creditQuotaBucket_replay [OF run] by blast
  show "\<not> creditKeySpent d (qc_idempotencyKey c) \<Longrightarrow>
      grantedOf d' i = map_option (\<lambda>g. g + (if qc_bucketId c = i then qc_bytes c else 0)) (grantedOf d i)"
    using creditQuotaBucket_fresh [OF run]
    by (auto simp: grantedOf_def lookup_update_key option.map_comp comp_def option.map_ident)
  show "creditKeySpent d' k \<longleftrightarrow> creditKeySpent d k \<or> k = qc_idempotencyKey c" for k
    by (rule creditQuotaBucket_books [OF run])
qed

definition creditAll :: "quota_credit list \<Rightarrow> db \<Rightarrow> error + db" where
  "creditAll cs d = foldE (\<lambda>c d. bindE (creditQuotaBucket c d) (\<lambda>(_, d'). Inr d')) cs d"

text \<open>C10: whatever sequence of credits succeeds, each bucket's grant grows by exactly the bytes of
  the first credit under each idempotency key; retried keys pay nothing.\<close>

theorem creditQuotaBucket_once:
  assumes "creditAll cs d = Inr d'"
  shows "grantedOf d' i = map_option (\<lambda>g. g + paidInto i (creditKeySpent d) cs) (grantedOf d i)"
  by (rule quota.credits_total [OF assms [unfolded creditAll_def]])

definition exampleQuotaUser :: db where
  "exampleQuotaUser = exampleQuotaDb\<lparr>users := [\<lparr>u_id = ''u1'', u_status = UserActive, u_balanceCents = 0, u_deletedAt = None\<rparr>],
     accounts := [\<lparr>aa_id = ''acc1'', aa_userId = ''u1'', aa_multiplier = 10000, aa_multiplierOverride = None, aa_remainder = 0\<rparr>],
     buckets := [(newBucket ''b1'' ''g1'' PlanCycle 1709251200000 1711929600000 1000 10000 0)\<lparr>qb_consumed := 300\<rparr>,
       (newBucket ''b2'' ''g1'' PlanCycle 1709251200000 1714521600000 500 10000 0)\<lparr>qb_consumed := 100\<rparr>]\<rparr>"

definition exampleCredit :: "string \<Rightarrow> int \<Rightarrow> quota_credit" where
  "exampleCredit k n = \<lparr>qc_bucketId = ''b1'', qc_bytes = n, qc_at = 1709251200000, qc_reason = ''check-in'',
     qc_idempotencyKey = k, qc_actorId = None\<rparr>"

theorem creditQuotaBucket_once_witness:
  "\<exists>d'. creditAll [exampleCredit ''k1'' 50, exampleCredit ''k1'' 70, exampleCredit ''k2'' 20] exampleQuotaUser
      = Inr d' \<and> grantedOf d' ''b1'' = Some 1070"
proof -
  let ?cs = "[exampleCredit ''k1'' 50, exampleCredit ''k1'' 70, exampleCredit ''k2'' 20]"
  have "\<not> isl (creditAll ?cs exampleQuotaUser)" by code_simp
  then obtain d' where d': "creditAll ?cs exampleQuotaUser = Inr d'" using not_isl_obtain by blast
  have "grantedOf exampleQuotaUser ''b1'' = Some 1000" by code_simp
  moreover have "paidInto ''b1'' (creditKeySpent exampleQuotaUser) ?cs = 70"
    by (simp add: exampleCredit_def exampleQuotaUser_def exampleQuotaDb_def emptyDb_def creditKeySpent_def)
  ultimately show ?thesis using creditQuotaBucket_once [OF d', of "''b1''"] d' by simp
qed

section \<open>Setting a bucket\<close>

lemma mirrorCycle_rows:
  assumes "mirrorCycle g b remaining d = Inr d'"
  shows "buckets d' = buckets d \<and> packs d' = packs d \<and> adjustments d' = adjustments d
    \<and> (case g_subscriptionId g of None \<Rightarrow> cycles d' = cycles d
       | Some s \<Rightarrow> \<exists>c. List.find (\<lambda>c. sc_subscriptionId c = s \<and> sc_startsAt c = qb_startsAt b) (cycles d) = Some c
           \<and> cycles d' = update_many (\<lambda>r. sc_id r = sc_id c)
               (\<lambda>r. r\<lparr>sc_adjustment := sc_consumed c + remaining - sc_granted c\<rparr>) (cycles d))"
  using assms by (auto simp: mirrorCycle_def updateCycle_def err_simps split: option.splits)

lemma mirrorPack_rows:
  assumes "mirrorPackRemaining g remaining d = Inr d'"
  shows "buckets d' = buckets d \<and> cycles d' = cycles d \<and> adjustments d' = adjustments d
    \<and> (case g_packId g of None \<Rightarrow> packs d' = packs d
       | Some i \<Rightarrow> \<exists>p. lookup tp_id i (packs d) = Some p
           \<and> packs d' = update_many (\<lambda>r. tp_id r = i)
               (\<lambda>r. r\<lparr>tp_totalBytes := tp_totalBytes p - tp_remainingBytes p + remaining,
                      tp_remainingBytes := remaining,
                      tp_status := (if 0 < remaining then PackActive else PackExhausted)\<rparr>) (packs d))"
  using assms by (auto simp: mirrorPackRemaining_def err_simps dest: updatePack_rows split: option.splits)

lemma adjustQuotaBucketRemaining_stages:
  assumes "adjustQuotaBucketRemaining i remaining reason actor guard now d = Inr (j, d')"
  obtains b g d1 d2 d3 d4 where "0 \<le> remaining" "lookup qb_id i (buckets d) = Some b" "bucketGrant b d = Inr g"
    "checkBucketGuard guard b g reason now = Inr ()"
    "updateBucket i (\<lambda>r. r\<lparr>qb_granted := qb_consumed b + remaining\<rparr>) d = Inr d1"
    "mirrorCycle g b remaining d1 = Inr d2" "mirrorPackRemaining g remaining d2 = Inr d3"
    "createAdjustment (bucketAdjustment (g_accountId g) i actor SetRemaining (remaining - bucketRemaining b)
       (bucketRemaining b) remaining (trimOr reason defaultAdjustReason)) d3 = Inr (j, d4)"
    "d' = createAudit (Some actor) ''entitlement.quota_bucket.adjusted'' ''QuotaBucket'' (Some i)
       (JObj [(''adjustmentId'', JStr j), (''userId'', JStr (g_userId g)),
              (''beforeRemainingBytes'', JBig (bucketRemaining b)), (''afterRemainingBytes'', JBig remaining),
              (''reason'', JStr (trimOr reason defaultAdjustReason))]) d4"
  using assms by (fastforce simp: adjustQuotaBucketRemaining_def err_simps Let_def)

text \<open>Setting a bucket leaves exactly the requested remainder in the bucket, in the legacy cycle
  and in the legacy pack that mirror it, touches no other bucket, and books the change from what was
  left before; with a guard, what was left before is what the administrator saw.\<close>

theorem adjustQuotaBucketRemaining_exact:
  assumes "adjustQuotaBucketRemaining i remaining reason actor guard now d = Inr (j, d')"
    and "lookup qb_id i (buckets d) = Some b" and "bucketGrant b d = Inr g"
    and "distinct (map sc_id (cycles d))"
  shows "map_option bucketRemaining (lookup qb_id i (buckets d')) = Some remaining
    \<and> (\<forall>k. k \<noteq> i \<longrightarrow> lookup qb_id k (buckets d') = lookup qb_id k (buckets d))
    \<and> (\<forall>s. g_subscriptionId g = Some s \<longrightarrow> (\<exists>c \<in> set (cycles d'). sc_subscriptionId c = s
         \<and> sc_startsAt c = qb_startsAt b \<and> sc_granted c + sc_adjustment c - sc_consumed c = remaining))
    \<and> (\<forall>p. g_packId g = Some p \<longrightarrow> map_option tp_remainingBytes (lookup tp_id p (packs d')) = Some remaining)
    \<and> (\<exists>a. adjustments d' = adjustments d @ [a] \<and> qa_id a = j \<and> qa_bucketId a = Some i
         \<and> qa_before a = bucketRemaining b \<and> qa_after a = remaining \<and> booked a)
    \<and> (\<forall>gd. guard = Some gd \<longrightarrow> bucketRemaining b = bg_expectedRemaining gd \<and> g_userId g = bg_userId gd)"
proof -
  obtain d1 d2 d3 d4 where s: "0 \<le> remaining" "checkBucketGuard guard b g reason now = Inr ()"
      "updateBucket i (\<lambda>r. r\<lparr>qb_granted := qb_consumed b + remaining\<rparr>) d = Inr d1"
      "mirrorCycle g b remaining d1 = Inr d2" "mirrorPackRemaining g remaining d2 = Inr d3"
      "createAdjustment (bucketAdjustment (g_accountId g) i actor SetRemaining (remaining - bucketRemaining b)
         (bucketRemaining b) remaining (trimOr reason defaultAdjustReason)) d3 = Inr (j, d4)"
    and fin: "buckets d' = buckets d4" "cycles d' = cycles d4" "packs d' = packs d4" "adjustments d' = adjustments d4"
    by (rule adjustQuotaBucketRemaining_stages [OF assms(1)]) (use assms(2,3) in simp)
  note r1 = updateBucket_rows [OF s(3)] and r2 = mirrorCycle_rows [OF s(4)]
    and r3 = mirrorPack_rows [OF s(5)] and r4 = createAdjustment_rows [OF s(6)]
  have rows: "buckets d' = update_many (\<lambda>r. qb_id r = i) (\<lambda>r. r\<lparr>qb_granted := qb_consumed b + remaining\<rparr>) (buckets d)"
    and cyc: "cycles d' = cycles d2" "cycles d1 = cycles d" and pck: "packs d' = packs d3"
    using r1 r2 r3 r4 fin by simp_all
  have adjs: "adjustments d3 = adjustments d" using r1 r2 r3 by simp
  have "\<exists>c \<in> set (cycles d'). sc_subscriptionId c = t \<and> sc_startsAt c = qb_startsAt b
      \<and> sc_granted c + sc_adjustment c - sc_consumed c = remaining" if t: "g_subscriptionId g = Some t" for t
  proof -
    let ?f = "\<lambda>c r. r\<lparr>sc_adjustment := sc_consumed c + remaining - sc_granted c\<rparr>"
    obtain c where c: "List.find (\<lambda>c. sc_subscriptionId c = t \<and> sc_startsAt c = qb_startsAt b) (cycles d) = Some c"
        "cycles d2 = update_many (\<lambda>r. sc_id r = sc_id c) (?f c) (cycles d)"
      using r2 t cyc(2) by auto
    have "c \<in> set (cycles d)" "sc_subscriptionId c = t" "sc_startsAt c = qb_startsAt b"
      using c(1) by (auto simp: find_Some_iff)
    then show ?thesis unfolding cyc(1) c(2) set_update_many
      by (intro bexI [of _ "?f c c"]) (auto intro: rev_image_eqI)
  qed
  moreover have "map_option tp_remainingBytes (lookup tp_id p (packs d')) = Some remaining" if "g_packId g = Some p" for p
    using that r3 pck by (auto simp: lookup_update_key)
  moreover have "booked (bucketAdjustment (g_accountId g) i actor SetRemaining (remaining - bucketRemaining b)
         (bucketRemaining b) remaining (trimOr reason defaultAdjustReason) j)"
    by (rule bucketAdjustment_booked) (use s(1) in simp_all)
  ultimately show ?thesis
    using assms(2) s(1,2) r4 adjs fin(4) unfolding rows
    by (auto simp: lookup_update_key bucketRemaining_def positivePart_def bucketAdjustment_def
        checkBucketGuard_def err_simps)
qed

definition exampleMirrorDb :: db where
  "exampleMirrorDb = exampleQuotaUser\<lparr>grants := [exampleGrant\<lparr>g_subscriptionId := Some ''s1''\<rparr>],
     cycles := [newCycle ''c1'' ''s1'' 1709251200000 1711929600000 1000 300 False]\<rparr>"

theorem adjustQuotaBucketRemaining_exact_witness:
  "\<exists>j d'. adjustQuotaBucketRemaining ''b1'' 250 None ''admin'' None 1709251200000 exampleMirrorDb = Inr (j, d')
     \<and> map_option bucketRemaining (lookup qb_id ''b1'' (buckets d')) = Some 250
     \<and> (\<exists>c \<in> set (cycles d'). sc_granted c + sc_adjustment c - sc_consumed c = 250)"
proof -
  let ?run = "adjustQuotaBucketRemaining ''b1'' 250 None ''admin'' None 1709251200000 exampleMirrorDb"
  let ?b = "(newBucket ''b1'' ''g1'' PlanCycle 1709251200000 1711929600000 1000 10000 0)\<lparr>qb_consumed := 300\<rparr>"
  let ?g = "exampleGrant\<lparr>g_subscriptionId := Some ''s1''\<rparr>"
  have "\<not> isl ?run" by code_simp
  then obtain j d' where run: "?run = Inr (j, d')" by (cases ?run) auto
  have "lookup qb_id ''b1'' (buckets exampleMirrorDb) = Some ?b"
    by (simp add: exampleMirrorDb_def exampleQuotaUser_def newBucket_def)
  moreover have "bucketGrant ?b exampleMirrorDb = Inr ?g"
    by (simp add: exampleMirrorDb_def bucketGrant_def newBucket_def exampleGrant_def)
  moreover have "distinct (map sc_id (cycles exampleMirrorDb))" by (simp add: exampleMirrorDb_def)
  moreover have "g_subscriptionId ?g = Some ''s1''" by simp
  ultimately show ?thesis using adjustQuotaBucketRemaining_exact [OF run, of ?b ?g] run by blast
qed

declare adjusts_trans [trans]

section \<open>What a member has available\<close>

text \<open>Whether a bucket is selected depends on its face only.\<close>

definition adjustableRemaining :: "id \<Rightarrow> id option \<Rightarrow> instant \<Rightarrow> db \<Rightarrow> int" where
  "adjustableRemaining userId grantId now d =
     sum_list (map bucketRemaining (filter (adjustable userId grantId now (grants d)) (buckets d)))"

lemma adjustable_face:
  "bucketFace b = bucketFace b' \<Longrightarrow> adjustable userId grantId now gs b = adjustable userId grantId now gs b'"
  by (simp add: adjustable_def bucketFace_def bucketCurrent_def)

lemma sum_list_sort_key: "sum_list (map f (sort_key k xs)) = sum_list (map (f :: _ \<Rightarrow> int) xs)"
  by (metis mset_map mset_sort sum_mset_sum_list)

lemma adjustableBuckets_sum:
  "sum_list (map bucketRemaining (adjustableBuckets userId grantId now d)) = adjustableRemaining userId grantId now d"
  by (simp add: adjustableBuckets_def adjustableRemaining_def sum_list_sort_key)

lemma sum_filter_update:
  fixes f :: "'r \<Rightarrow> int"
  assumes "distinct (map key rows)" and "r \<in> set rows" and "P r" and "P (u r)" and "key (u r) = key r"
  shows "sum_list (map f (filter P (update_many (\<lambda>x. key x = key r) u rows)))
    = sum_list (map f (filter P rows)) - f r + f (u r)"
  using assms
proof (induction rows)
  case (Cons x xs)
  show ?case
  proof (cases "x = r")
    case True
    have "update_many (\<lambda>x. key x = key r) u xs = xs"
      using Cons.prems(1) True by (intro update_many_idle) (auto simp: image_iff)
    then show ?thesis using True Cons.prems by simp
  next
    case False
    then have "key x \<noteq> key r" using Cons.prems by (auto simp: image_iff)
    then show ?thesis using False Cons by simp
  qed
qed simp

lemma writeAdjustment_rows:
  assumes "writeAdjustment acc actor mode reason (b, before, after) d = Inr d'"
  shows "buckets d' = update_many (\<lambda>r. qb_id r = qb_id b) (\<lambda>r. r\<lparr>qb_granted := qb_consumed b + after\<rparr>) (buckets d)
    \<and> grants d' = grants d"
  using assms by (auto simp: writeAdjustment_def err_simps dest!: updateBucket_rows createAdjustment_rows)

text \<open>The writes of a plan, over distinct selected buckets, change the total by their differences.\<close>

lemma writeAdjustments_total:
  assumes "foldE (writeAdjustment acc actor mode reason) plan d = Inr d'"
    and "distinct (map qb_id (buckets d))" and "distinct (map (qb_id \<circ> fst) plan)"
    and "\<forall>(b, before, after) \<in> set plan. b \<in> set (buckets d) \<and> adjustable userId grantId now (grants d) b
           \<and> before = bucketRemaining b \<and> 0 \<le> after"
  shows "adjustableRemaining userId grantId now d' = adjustableRemaining userId grantId now d
           + sum_list (map (\<lambda>(b, before, after). after - before) plan)
    \<and> (\<forall>k. k \<notin> (qb_id \<circ> fst) ` set plan \<longrightarrow> lookup qb_id k (buckets d') = lookup qb_id k (buckets d))
    \<and> (\<forall>(b, before, after) \<in> set plan. map_option bucketRemaining (lookup qb_id (qb_id b) (buckets d')) = Some after)"
  using assms
proof (induction plan arbitrary: d)
  case (Cons p plan)
  obtain b before after where p: "p = (b, before, after)" by (cases p)
  then obtain m where m: "writeAdjustment acc actor mode reason (b, before, after) d = Inr m"
    and rest: "foldE (writeAdjustment acc actor mode reason) plan m = Inr d'"
    using Cons.prems(1) by (auto simp: err_simps)
  let ?u = "\<lambda>r. r\<lparr>qb_granted := qb_consumed b + after\<rparr>"
  note rows = writeAdjustment_rows [OF m]
  have b: "b \<in> set (buckets d)" "adjustable userId grantId now (grants d) b" "before = bucketRemaining b" "0 \<le> after"
    using Cons.prems(4) p by auto
  have "adjustableRemaining userId grantId now m
      = adjustableRemaining userId grantId now d - bucketRemaining b + bucketRemaining (?u b)"
    using sum_filter_update [where key = qb_id and r = b and u = ?u and f = bucketRemaining
        and P = "adjustable userId grantId now (grants d)", OF Cons.prems(2) b(1,2)] rows b(2)
    by (simp add: adjustableRemaining_def adjustable_def bucketCurrent_def)
  moreover have "bucketRemaining (?u b) = after" using b(4) by (simp add: bucketRemaining_def positivePart_def)
  ultimately have total: "adjustableRemaining userId grantId now m
      = adjustableRemaining userId grantId now d + (after - before)" using b(3) by simp
  have ids: "map qb_id (buckets m) = map qb_id (buckets d)" using rows by (simp add: map_update_many)
  have keep: "c \<in> set (buckets m)" if "c \<in> set (buckets d)" "qb_id c \<noteq> qb_id b" for c
    using rows that by (auto simp: set_update_many)
  have "c \<in> set (buckets m) \<and> adjustable userId grantId now (grants m) c \<and> x = bucketRemaining c \<and> 0 \<le> y"
    if q: "(c, x, y) \<in> set plan" for c x y
  proof -
    have "qb_id b \<notin> (qb_id \<circ> fst) ` set plan" using Cons.prems(3) p by simp
    moreover have "qb_id c \<in> (qb_id \<circ> fst) ` set plan" using imageI [OF q, of "qb_id \<circ> fst"] by simp
    ultimately have "qb_id c \<noteq> qb_id b" by metis
    then show ?thesis using Cons.prems(4) q rows keep [of c] by auto
  qed
  then have "\<forall>(c, x, y) \<in> set plan. c \<in> set (buckets m) \<and> adjustable userId grantId now (grants m) c
      \<and> x = bucketRemaining c \<and> 0 \<le> y" by blast
  note IH = Cons.IH [OF rest _ _ this]
  have other: "lookup qb_id k (buckets m) = lookup qb_id k (buckets d)" if "k \<noteq> qb_id b" for k
    using rows that by (simp add: lookup_update_key)
  have "lookup qb_id (qb_id b) (buckets d) = Some b" by (rule lookup_mem [OF Cons.prems(2) b(1)])
  then have own: "map_option bucketRemaining (lookup qb_id (qb_id b) (buckets m)) = Some after"
    using rows b(4) by (simp add: lookup_update_key bucketRemaining_def positivePart_def)
  have "qb_id b \<notin> (qb_id \<circ> fst) ` set plan" using Cons.prems(3) p by simp
  then show ?case using IH total own other ids Cons.prems(2,3) p by simp
qed simp

lemma reductionPlan_entries:
  "(b, before, after) \<in> set (reductionPlan bs reduction) \<Longrightarrow> 0 \<le> reduction \<Longrightarrow>
   b \<in> set bs \<and> before = bucketRemaining b \<and> 0 \<le> after"
  by (induction bs arbitrary: reduction) (fastforce simp: Let_def bucketRemaining_def split: if_splits)+

lemma reductionPlan_cut:
  "(b, before, after) \<in> set (reductionPlan bs reduction) \<Longrightarrow> 0 \<le> reduction \<Longrightarrow> after \<le> before"
  by (induction bs arbitrary: reduction) (fastforce simp: Let_def bucketRemaining_def split: if_splits)+

lemma reductionPlan_done [simp]: "reductionPlan bs 0 = []"
  by (cases bs) auto

lemma reductionPlan_total:
  "0 \<le> reduction \<Longrightarrow> reduction \<le> sum_list (map bucketRemaining bs) \<Longrightarrow>
   sum_list (map (\<lambda>(b, before, after). after - before) (reductionPlan bs reduction)) = - reduction"
  by (induction bs arbitrary: reduction) (auto simp: Let_def bucketRemaining_def)

lemma reductionPlan_distinct:
  "distinct (map qb_id bs) \<Longrightarrow> 0 \<le> reduction \<Longrightarrow> distinct (map (qb_id \<circ> fst) (reductionPlan bs reduction))"
proof (induction bs arbitrary: reduction)
  case (Cons b bs)
  have "qb_id b \<notin> (qb_id \<circ> fst) ` set (reductionPlan bs r)" if "0 \<le> r" for r
    using Cons.prems(1) reductionPlan_entries [OF _ that] by fastforce
  then show ?case using Cons by (auto simp: Let_def bucketRemaining_def)
qed simp

text \<open>A bucket is cut only when those before it are emptied.\<close>

lemma reductionPlan_order:
  "c \<in> fst ` set (reductionPlan (xs @ c # ys) reduction) \<Longrightarrow> c \<notin> set xs \<Longrightarrow> 0 \<le> reduction \<Longrightarrow> b \<in> set xs \<Longrightarrow>
   bucketRemaining b = 0 \<or> (b, bucketRemaining b, 0) \<in> set (reductionPlan (xs @ c # ys) reduction)"
proof (induction xs arbitrary: reduction)
  case (Cons x xs)
  let ?r = "bucketRemaining x"
  have "reduction \<noteq> 0" using Cons.prems(1) by auto
  show ?case
  proof (cases "?r < reduction")
    case True
    have "c \<in> fst ` set (reductionPlan (xs @ c # ys) (reduction - ?r))"
      using Cons.prems(1,2) True \<open>reduction \<noteq> 0\<close> by (auto simp: Let_def split: if_splits)
    then show ?thesis using Cons.IH [of "reduction - ?r"] Cons.prems True \<open>reduction \<noteq> 0\<close>
      by (auto simp: Let_def)
  next
    case False
    then show ?thesis using Cons.prems \<open>reduction \<noteq> 0\<close> by (auto simp: Let_def)
  qed
qed simp

lemma adjustableBuckets_mem:
  "b \<in> set (adjustableBuckets userId grantId now d) \<longleftrightarrow> b \<in> set (buckets d) \<and> adjustable userId grantId now (grants d) b"
  by (auto simp: adjustableBuckets_def)

lemma adjustableBuckets_distinct:
  "distinct (map qb_id (buckets d)) \<Longrightarrow> distinct (map qb_id (adjustableBuckets userId grantId now d))"
  by (auto simp: adjustableBuckets_def distinct_map inj_on_def)

text \<open>The plan's facts, for either direction.\<close>

lemma adjustmentPlan_facts:
  assumes "bucketsWithin (buckets d)" and "bs = adjustableBuckets userId grantId now d" and "bs \<noteq> []"
    and "0 \<le> sum_list (map bucketRemaining bs) + delta"
  shows "\<forall>(b, before, after) \<in> set (adjustmentPlan bs delta). b \<in> set (buckets d)
      \<and> adjustable userId grantId now (grants d) b \<and> before = bucketRemaining b \<and> 0 \<le> after"
    and "distinct (map (qb_id \<circ> fst) (adjustmentPlan bs delta))"
    and "sum_list (map (\<lambda>(b, before, after). after - before) (adjustmentPlan bs delta)) = delta"
proof -
  have dist: "distinct (map qb_id bs)"
    using adjustableBuckets_distinct [OF bucketsWithin_ids [OF assms(1)]] assms(2) by simp
  have mem: "b \<in> set bs \<longleftrightarrow> b \<in> set (buckets d) \<and> adjustable userId grantId now (grants d) b" for b
    using assms(2) adjustableBuckets_mem by simp
  have left: "bucketRemaining b = qb_granted b - qb_consumed b \<and> qb_consumed b \<le> qb_granted b" if "b \<in> set bs" for b
    using that mem bucketsWithin_le [OF assms(1)] by (simp add: bucketRemaining_def positivePart_le)
  obtain b0 rest where b0: "bs = b0 # rest" using assms(3) by (cases bs) auto
  show "\<forall>(b, before, after) \<in> set (adjustmentPlan bs delta). b \<in> set (buckets d)
      \<and> adjustable userId grantId now (grants d) b \<and> before = bucketRemaining b \<and> 0 \<le> after"
  proof (cases "0 \<le> delta")
    case True
    then show ?thesis using left [of b0] mem [of b0] b0 by (simp add: adjustmentPlan_def)
  next
    case False
    then show ?thesis using reductionPlan_entries [of _ _ _ bs "- delta"] mem by (auto simp: adjustmentPlan_def)
  qed
  show "distinct (map (qb_id \<circ> fst) (adjustmentPlan bs delta))"
  proof (cases "0 \<le> delta")
    case True
    then show ?thesis using b0 by (simp add: adjustmentPlan_def)
  next
    case False
    then show ?thesis using reductionPlan_distinct [OF dist, of "- delta"] by (simp add: adjustmentPlan_def)
  qed
  show "sum_list (map (\<lambda>(b, before, after). after - before) (adjustmentPlan bs delta)) = delta"
  proof (cases "0 \<le> delta")
    case True
    then show ?thesis using b0 by (simp add: adjustmentPlan_def)
  next
    case False
    then show ?thesis using reductionPlan_total [of "- delta" bs] assms(4) by (simp add: adjustmentPlan_def)
  qed
qed

lemma adjustAvailableQuota_stages:
  assumes "adjustAvailableQuota userId input grantId reason actor now d = Inr (r, d')"
  obtains account :: account_row and delta d1 where
    "adjustableBuckets userId grantId now d \<noteq> []"
    "resolveAdjustmentDelta input (adjustableRemaining userId grantId now d) = Inr delta"
    "0 \<le> adjustableRemaining userId grantId now d + delta"
    "foldE (writeAdjustment (aa_id account) actor (qi_mode input) (trimOr reason defaultAdjustReason))
       (adjustmentPlan (adjustableBuckets userId grantId now d) delta) d = Inr d1"
    "r = \<lparr>qr_before = adjustableRemaining userId grantId now d,
          qr_remaining = adjustableRemaining userId grantId now d + delta,
          qr_steps = map (\<lambda>(b, before, after). (qb_id b, before, after))
            (adjustmentPlan (adjustableBuckets userId grantId now d) delta)\<rparr>"
    "buckets d' = buckets d1" "grants d' = grants d1" "adjustments d' = adjustments d1"
  using assms
  by (fastforce simp: adjustAvailableQuota_def err_simps Let_def adjustableBuckets_sum not_less split: if_splits)

lemma adjustableRemaining_cong:
  "buckets d = buckets d' \<Longrightarrow> grants d = grants d' \<Longrightarrow>
   adjustableRemaining userId grantId now d = adjustableRemaining userId grantId now d'"
  by (simp add: adjustableRemaining_def)

lemma writeAdjustments_grants:
  "foldE (writeAdjustment acc actor mode reason) plan d = Inr d' \<Longrightarrow> grants d' = grants d"
  by (rule foldE_keeps [where Q = "\<lambda>x. grants x = grants d"])
    (auto simp: writeAdjustment_rows split_paired_all)

text \<open>C11: an adjustment of what a member has available moves the total of the selected buckets by
  exactly the requested amount, or to exactly the requested remainder, never below zero, and leaves
  every other bucket as it was.\<close>

theorem adjustAvailableQuota_exact:
  assumes "adjustAvailableQuota userId input grantId reason actor now d = Inr (r, d')"
    and "bucketsWithin (buckets d)"
  shows "qr_before r = adjustableRemaining userId grantId now d
    \<and> qr_remaining r = adjustableRemaining userId grantId now d' \<and> 0 \<le> qr_remaining r
    \<and> (case qi_mode input of
         Delta \<Rightarrow> qi_bytes input = Some (qr_remaining r - qr_before r)
       | SetRemaining \<Rightarrow> qi_remaining input = Some (qr_remaining r))
    \<and> (\<forall>b \<in> set (buckets d). \<not> adjustable userId grantId now (grants d) b \<longrightarrow>
         lookup qb_id (qb_id b) (buckets d') = Some b)"
proof -
  let ?bs = "adjustableBuckets userId grantId now d"
  obtain account :: account_row and delta d1 where s: "?bs \<noteq> []"
      "resolveAdjustmentDelta input (adjustableRemaining userId grantId now d) = Inr delta"
      "0 \<le> adjustableRemaining userId grantId now d + delta"
      "foldE (writeAdjustment (aa_id account) actor (qi_mode input) (trimOr reason defaultAdjustReason))
         (adjustmentPlan ?bs delta) d = Inr d1"
      "qr_before r = adjustableRemaining userId grantId now d"
      "qr_remaining r = adjustableRemaining userId grantId now d + delta"
      "buckets d' = buckets d1" "grants d' = grants d1"
    by (rule adjustAvailableQuota_stages [OF assms(1)]) auto
  note f = adjustmentPlan_facts [OF assms(2) refl s(1), of delta, unfolded adjustableBuckets_sum, OF s(3)]
  note w = writeAdjustments_total [OF s(4) bucketsWithin_ids [OF assms(2)] f(2) f(1)]
  have total: "adjustableRemaining userId grantId now d' = adjustableRemaining userId grantId now d + delta"
    using w f(3) adjustableRemaining_cong [OF s(7,8)] by simp
  have "lookup qb_id (qb_id b) (buckets d') = Some b"
    if b: "b \<in> set (buckets d)" "\<not> adjustable userId grantId now (grants d) b" for b
  proof -
    have "qb_id b \<notin> (qb_id \<circ> fst) ` set (adjustmentPlan ?bs delta)"
    proof
      assume "qb_id b \<in> (qb_id \<circ> fst) ` set (adjustmentPlan ?bs delta)"
      then obtain c x y where c: "(c, x, y) \<in> set (adjustmentPlan ?bs delta)" "qb_id c = qb_id b" by auto
      then have "c \<in> set (buckets d)" "adjustable userId grantId now (grants d) c" using f(1) by auto
      moreover have "lookup qb_id (qb_id b) (buckets d) = Some b" "lookup qb_id (qb_id c) (buckets d) = Some c"
        using lookup_mem [OF bucketsWithin_ids [OF assms(2)]] b(1) calculation(1) by blast+
      ultimately show False using c(2) b(2) by simp
    qed
    then show ?thesis using w s(7) lookup_mem [OF bucketsWithin_ids [OF assms(2)] b(1)] by simp
  qed
  moreover have "case qi_mode input of Delta \<Rightarrow> qi_bytes input = Some delta
       | SetRemaining \<Rightarrow> qi_remaining input = Some (adjustableRemaining userId grantId now d + delta)"
    using s(2) by (auto simp: resolveAdjustmentDelta_def split: adjust_mode.splits option.splits if_splits)
  ultimately show ?thesis using total s(3,5,6) by (auto split: adjust_mode.splits)
qed

definition exampleCut :: quota_input where
  "exampleCut = \<lparr>qi_mode = Delta, qi_bytes = Some (-800), qi_remaining = None\<rparr>"

lemma exampleCut_runs:
  "\<exists>r d'. adjustAvailableQuota ''u1'' exampleCut None None ''admin'' 1709251200000 exampleQuotaUser = Inr (r, d')"
proof -
  let ?run = "adjustAvailableQuota ''u1'' exampleCut None None ''admin'' 1709251200000 exampleQuotaUser"
  have "\<not> isl ?run" by code_simp
  then show ?thesis by (cases ?run) auto
qed

lemma exampleQuotaUser_within: "bucketsWithin (buckets exampleQuotaUser)"
  by (simp add: bucketsWithin_def exampleQuotaUser_def newBucket_def)

theorem adjustAvailableQuota_exact_witness:
  "\<exists>r d'. adjustAvailableQuota ''u1'' exampleCut None None ''admin'' 1709251200000 exampleQuotaUser = Inr (r, d')
     \<and> adjustableRemaining ''u1'' None 1709251200000 exampleQuotaUser = 1100
     \<and> adjustableRemaining ''u1'' None 1709251200000 d' = 300"
proof -
  obtain r d' where run:
    "adjustAvailableQuota ''u1'' exampleCut None None ''admin'' 1709251200000 exampleQuotaUser = Inr (r, d')"
    using exampleCut_runs by blast
  have "adjustableRemaining ''u1'' None 1709251200000 exampleQuotaUser = 1100" by code_simp
  then show ?thesis
    using adjustAvailableQuota_exact [OF run exampleQuotaUser_within] run by (simp add: exampleCut_def)
qed

text \<open>A reduction takes from the buckets that end first: once a bucket is cut, every selected
  bucket that ends earlier is left with nothing.\<close>

theorem adjustAvailableQuota_drains_in_order:
  assumes "adjustAvailableQuota userId input grantId reason actor now d = Inr (r, d')"
    and "bucketsWithin (buckets d)"
    and "c \<in> set (adjustableBuckets userId grantId now d)"
    and "map_option bucketRemaining (lookup qb_id (qb_id c) (buckets d')) \<noteq> Some (bucketRemaining c)"
    and "qr_remaining r < qr_before r"
    and "b \<in> set (adjustableBuckets userId grantId now d)" and "qb_endsAt b < qb_endsAt c"
  shows "map_option bucketRemaining (lookup qb_id (qb_id b) (buckets d')) = Some 0"
proof -
  let ?bs = "adjustableBuckets userId grantId now d"
  obtain account :: account_row and delta d1 where s: "?bs \<noteq> []"
      "0 \<le> adjustableRemaining userId grantId now d + delta"
      "foldE (writeAdjustment (aa_id account) actor (qi_mode input) (trimOr reason defaultAdjustReason))
         (adjustmentPlan ?bs delta) d = Inr d1"
      "qr_before r = adjustableRemaining userId grantId now d"
      "qr_remaining r = adjustableRemaining userId grantId now d + delta" "buckets d' = buckets d1"
    by (rule adjustAvailableQuota_stages [OF assms(1)]) auto
  have neg: "delta < 0" using assms(5) s(4,5) by simp
  then have plan: "adjustmentPlan ?bs delta = reductionPlan ?bs (- delta)" by (simp add: adjustmentPlan_def)
  note ids = bucketsWithin_ids [OF assms(2)]
  note f = adjustmentPlan_facts [OF assms(2) refl s(1), of delta, unfolded adjustableBuckets_sum, OF s(2)]
  note w = writeAdjustments_total [OF s(3) ids f(2) f(1)]
  have here: "lookup qb_id (qb_id x) (buckets d) = Some x" if "x \<in> set ?bs" for x
    using that lookup_mem [OF ids, of x] by (simp add: adjustableBuckets_mem)
  have "qb_id c \<in> (qb_id \<circ> fst) ` set (adjustmentPlan ?bs delta)"
    using w assms(4) s(6) here [OF assms(3)] by (metis option.map(2))
  then obtain c' x y where c': "(c', x, y) \<in> set (adjustmentPlan ?bs delta)" "qb_id c' = qb_id c" by auto
  then have "c' \<in> set ?bs" using f(1) adjustableBuckets_mem by blast
  then have "c' = c" using here [OF assms(3)] here [of c'] c'(2) by simp
  then have cut: "c \<in> fst ` set (reductionPlan ?bs (- delta))" using c'(1) plan by (metis fst_conv imageI)
  let ?k = "\<lambda>b. (qb_endsAt b, map of_char (qb_id b) :: nat list)"
  have "sorted (map ?k ?bs)" by (simp add: adjustableBuckets_def)
  moreover obtain xs ys where bs: "?bs = xs @ c # ys" using assms(3) by (auto dest: split_list)
  ultimately have "?k c \<le> ?k z" if "z \<in> set ys" for z using that by (auto simp: sorted_append)
  then have "b \<notin> set ys" using assms(7) by (fastforce simp: less_eq_prod_def)
  then have b: "b \<in> set xs" using assms(6,7) bs by auto
  have "distinct ?bs" using adjustableBuckets_distinct [OF ids] by (simp add: distinct_map)
  then have "c \<notin> set xs" using bs by auto
  then have "bucketRemaining b = 0 \<or> (b, bucketRemaining b, 0) \<in> set (adjustmentPlan ?bs delta)"
    using reductionPlan_order [of c xs ys "- delta" b] cut b neg bs plan by auto
  then show ?thesis
  proof
    assume "(b, bucketRemaining b, 0) \<in> set (adjustmentPlan ?bs delta)"
    then show ?thesis using w s(6) by auto
  next
    assume zero: "bucketRemaining b = 0"
    show ?thesis
    proof (cases "qb_id b \<in> (qb_id \<circ> fst) ` set (adjustmentPlan ?bs delta)")
      case False
      then show ?thesis using w s(6) here [OF assms(6)] zero by simp
    next
      case True
      then obtain b' x y where b': "(b', x, y) \<in> set (adjustmentPlan ?bs delta)" "qb_id b' = qb_id b" by auto
      then have "b' \<in> set ?bs" "x = bucketRemaining b'" "0 \<le> y" using f(1) adjustableBuckets_mem by blast+
      moreover have "y \<le> x" using b'(1) plan neg reductionPlan_entries [of b' x y] by (auto dest: reductionPlan_cut)
      moreover have "b' = b" using here [OF assms(6)] here [of b'] b'(2) calculation(1) by simp
      ultimately show ?thesis using w s(6) b' zero by auto
    qed
  qed
qed

theorem adjustAvailableQuota_drains_in_order_witness:
  "\<exists>r d'. adjustAvailableQuota ''u1'' exampleCut None None ''admin'' 1709251200000 exampleQuotaUser = Inr (r, d')
     \<and> map_option bucketRemaining (lookup qb_id ''b1'' (buckets d')) = Some 0"
proof -
  let ?run = "adjustAvailableQuota ''u1'' exampleCut None None ''admin'' 1709251200000 exampleQuotaUser"
  let ?b = "(newBucket ''b1'' ''g1'' PlanCycle 1709251200000 1711929600000 1000 10000 0)\<lparr>qb_consumed := 300\<rparr>"
  let ?c = "(newBucket ''b2'' ''g1'' PlanCycle 1709251200000 1714521600000 500 10000 0)\<lparr>qb_consumed := 100\<rparr>"
  have "case ?run of Inl _ \<Rightarrow> False | Inr (r, d') \<Rightarrow> qr_remaining r < qr_before r
      \<and> map_option bucketRemaining (lookup qb_id ''b2'' (buckets d')) = Some 300" by code_simp
  then obtain r d' where run: "?run = Inr (r, d')" and less: "qr_remaining r < qr_before r"
      and cut: "map_option bucketRemaining (lookup qb_id ''b2'' (buckets d')) = Some 300"
    by (auto split: sum.splits)
  have mem: "?b \<in> set (adjustableBuckets ''u1'' None 1709251200000 exampleQuotaUser)"
      "?c \<in> set (adjustableBuckets ''u1'' None 1709251200000 exampleQuotaUser)"
    by (simp_all add: adjustableBuckets_mem exampleQuotaUser_def exampleQuotaDb_def adjustable_def bucketCurrent_def
        newBucket_def exampleGrant_def)
  have "qb_id ?c = ''b2''" "bucketRemaining ?c = 400" "qb_endsAt ?b < qb_endsAt ?c"
    by (simp_all add: newBucket_def bucketRemaining_def positivePart_def)
  then have "map_option bucketRemaining (lookup qb_id (qb_id ?b) (buckets d')) = Some 0"
    using adjustAvailableQuota_drains_in_order [OF run exampleQuotaUser_within mem(2) _ less mem(1)] cut
    by (metis option.inject num.simps numeral_eq_iff)
  then show ?thesis using run by (simp add: newBucket_def)
qed

section \<open>Histories of adjustments\<close>

text \<open>A call of one of the adjusting operations; a transaction that throws is rolled back.\<close>

datatype quota_op =
    CreditBucket quota_credit
  | SetBucket id int "string option" id "bucket_guard option" instant
  | AdjustAvailable id quota_input "id option" "string option" id instant
  | AdjustSubscription id quota_input string id instant
  | AdjustPack id quota_input string id instant
  | SetMultiplier id "int option" id "multiplier_guard option"

definition settle :: "error + ('a \<times> db) \<Rightarrow> db \<Rightarrow> db" where
  "settle run d = (case run of Inl _ \<Rightarrow> d | Inr (_, d') \<Rightarrow> d')"

fun quotaStep :: "quota_op \<Rightarrow> db \<Rightarrow> db" where
  "quotaStep (CreditBucket c) d = settle (creditQuotaBucket c d) d"
| "quotaStep (SetBucket i n reason actor guard now) d =
     settle (adjustQuotaBucketRemaining i n reason actor guard now d) d"
| "quotaStep (AdjustAvailable u input g reason actor now) d =
     settle (adjustAvailableQuota u input g reason actor now d) d"
| "quotaStep (AdjustSubscription s input reason actor now) d =
     settle (adjustSubscriptionQuota s input reason actor now d) d"
| "quotaStep (AdjustPack p input reason actor now) d = settle (adjustTrafficPackQuota p input reason actor now d) d"
| "quotaStep (SetMultiplier u bp actor guard) d = settle (updateTrafficMultiplier u bp actor guard d) d"

definition runQuota :: "quota_op list \<Rightarrow> db \<Rightarrow> db" where
  "runQuota ops d = fold quotaStep ops d"

lemma settle_adjusts: "(\<And>x d'. run = Inr (x, d') \<Longrightarrow> adjusts d d') \<Longrightarrow> adjusts d (settle run d)"
  by (cases run) (auto simp: settle_def adjusts_refl)

text \<open>Where the row \<open>lookup\<close> finds decides the new grant.\<close>

lemma creditQuotaBucket_adjusts:
  assumes "creditQuotaBucket c d = Inr (r, d')"
  shows "adjusts d d'"
proof (cases "creditKeySpent d (qc_idempotencyKey c)")
  case True
  then show ?thesis using creditQuotaBucket_replay [OF assms] adjusts_refl by simp
next
  case False
  obtain b a where f: "lookup qb_id (qc_bucketId c) (buckets d) = Some b" "0 < qc_bytes c"
      "buckets d' = update_many (\<lambda>r. qb_id r = qc_bucketId c) (\<lambda>b. b\<lparr>qb_granted := qb_granted b + qc_bytes c\<rparr>) (buckets d)"
      "adjustments d' = adjustments d @ [a]" "booked a"
    using creditQuotaBucket_fresh [OF assms False] unfolding booked_def
    by (metis bucketRemaining_def positivePart_nonneg add_nonneg_nonneg less_imp_le)
  have mem: "b \<in> set (buckets d)" using lookup_SomeD [OF f(1)] by simp
  have "updateBucket (qc_bucketId c) (\<lambda>b. b\<lparr>qb_granted := qb_granted b + qc_bytes c\<rparr>) d
      = Inr (d\<lparr>buckets := buckets d'\<rparr>)"
    using f(1,3) lookup_None_iff [of qb_id "qc_bucketId c" "buckets d"] by (simp add: updateBucket_eq_Inr)
  then have "adjusts d (d\<lparr>buckets := buckets d'\<rparr>)"
    by (rule updateBucket_adjusts [OF _ f(1)])
      (use f(2) bucketsWithin_le [OF _ mem] in \<open>auto simp: bucketFace_def\<close>)
  then show ?thesis using f(4,5) by (auto simp: adjusts_def)
qed

lemma adjustQuotaBucketRemaining_adjusts:
  assumes "adjustQuotaBucketRemaining i remaining reason actor guard now d = Inr (j, d')"
  shows "adjusts d d'"
proof -
  obtain b g d1 d2 d3 d4 where s: "0 \<le> remaining" "lookup qb_id i (buckets d) = Some b"
      "updateBucket i (\<lambda>r. r\<lparr>qb_granted := qb_consumed b + remaining\<rparr>) d = Inr d1"
      "mirrorCycle g b remaining d1 = Inr d2" "mirrorPackRemaining g remaining d2 = Inr d3"
      "createAdjustment (bucketAdjustment (g_accountId g) i actor SetRemaining (remaining - bucketRemaining b)
         (bucketRemaining b) remaining (trimOr reason defaultAdjustReason)) d3 = Inr (j, d4)"
      "buckets d' = buckets d4" "adjustments d' = adjustments d4"
    by (rule adjustQuotaBucketRemaining_stages [OF assms]) simp
  have "adjusts d d1" by (rule updateBucket_adjusts [OF s(3,2)]) (use s(1) in \<open>simp_all add: bucketFace_def\<close>)
  also have "adjusts d1 d2" by (rule mirrorCycle_adjusts [OF s(4)])
  also have "adjusts d2 d3" by (rule mirrorPackRemaining_adjusts [OF s(5)])
  also have "adjusts d3 d4"
    by (rule createAdjustment_adjusts [OF s(6) bucketAdjustment_booked]) (use s(1) in simp_all)
  also have "adjusts d4 d'" by (rule adjusts_same) (use s(7,8) in simp_all)
  finally show ?thesis .
qed

lemma same_face_consumed:
  assumes "map bucketFace rows = map bucketFace rows'" and "b \<in> set rows'" and "distinct (map qb_id rows)"
    and "lookup qb_id (qb_id b) rows = Some b0"
  shows "qb_consumed b0 = qb_consumed b"
proof -
  have "bucketFace b \<in> bucketFace ` set rows" using assms(1,2) by (metis imageI list.set_map)
  then obtain b1 where b1: "b1 \<in> set rows" "bucketFace b1 = bucketFace b" by auto
  then have "qb_id b1 = qb_id b" by (simp add: bucketFace_def)
  then have "b1 = b0" using lookup_mem [OF assms(3) b1(1)] assms(4) by simp
  then show ?thesis using b1(2) by (simp add: bucketFace_def)
qed

lemma writeAdjustment_adjusts:
  assumes "writeAdjustment acc actor mode reason (b, before, after) m = Inr m'" and "0 \<le> after"
    and "b \<in> set (buckets d)" and "map bucketFace (buckets m) = map bucketFace (buckets d)"
  shows "adjusts m m'"
proof -
  obtain i m1 where s: "updateBucket (qb_id b) (\<lambda>r. r\<lparr>qb_granted := qb_consumed b + after\<rparr>) m = Inr m1"
      "createAdjustment (bucketAdjustment acc (qb_id b) actor mode (after - before) before after reason) m1 = Inr (i, m')"
    using assms(1) by (auto simp: writeAdjustment_def err_simps)
  obtain b0 where b0: "lookup qb_id (qb_id b) (buckets m) = Some b0"
    using s(1) lookup_None_iff [of qb_id "qb_id b" "buckets m"]
    by (cases "lookup qb_id (qb_id b) (buckets m)") (auto simp: updateBucket_eq_Inr)
  have "adjusts m m1"
    by (rule updateBucket_adjusts [OF s(1) b0])
      (use assms(2) same_face_consumed [OF assms(4,3) bucketsWithin_ids b0] in \<open>auto simp: bucketFace_def\<close>)
  also have "adjusts m1 m'"
    by (rule createAdjustment_adjusts [OF s(2) bucketAdjustment_booked]) (use assms(2) in simp_all)
  finally show ?thesis .
qed

lemma adjustAvailableQuota_adjusts:
  assumes "adjustAvailableQuota userId input grantId reason actor now d = Inr (r, d')" and "bucketsWithin (buckets d)"
  shows "adjusts d d'"
proof -
  let ?bs = "adjustableBuckets userId grantId now d"
  obtain account :: account_row and delta d1 where s: "?bs \<noteq> []"
      "0 \<le> adjustableRemaining userId grantId now d + delta"
      "foldE (writeAdjustment (aa_id account) actor (qi_mode input) (trimOr reason defaultAdjustReason))
         (adjustmentPlan ?bs delta) d = Inr d1"
      "buckets d' = buckets d1" "adjustments d' = adjustments d1"
    by (rule adjustAvailableQuota_stages [OF assms(1)]) auto
  note f = adjustmentPlan_facts [OF assms(2) refl s(1), of delta, unfolded adjustableBuckets_sum, OF s(2)]
  have "adjusts d d1"
  proof (rule foldE_keeps [where Q = "adjusts d", OF s(3) adjusts_refl])
    fix p m m'
    assume p: "p \<in> set (adjustmentPlan ?bs delta)" and m: "adjusts d m"
      and step: "writeAdjustment (aa_id account) actor (qi_mode input) (trimOr reason defaultAdjustReason) p m = Inr m'"
    obtain b x y where b: "p = (b, x, y)" by (cases p)
    then have "b \<in> set (buckets d)" "0 \<le> y" using f(1) p by auto
    moreover have "map bucketFace (buckets m) = map bucketFace (buckets d)" using m by (simp add: adjusts_def)
    ultimately have "adjusts m m'" using writeAdjustment_adjusts step b by blast
    with m show "adjusts d m'" by (rule adjusts_trans)
  qed
  also have "adjusts d1 d'" by (rule adjusts_same) (use s(4,5) in simp_all)
  finally show ?thesis .
qed

lemma adjustSubscriptionQuota_adjusts:
  assumes "adjustSubscriptionQuota sid input reason actor now d = Inr (r, d')"
  shows "adjusts d d'"
proof -
  obtain s :: subscription_row and account d1 d2 c d3 delta d4 adj d5 i d6 where
    st: "ensureAccessAccount (s_userId s) d = Inr (account, d1)"
      "(if s_accountId s = None then updateSubscription (s_id s) (\<lambda>r. r\<lparr>s_accountId := Some (aa_id account)\<rparr>) d1
        else Inr d1) = Inr d2"
      "ensureCurrentCycleInTransaction s now d2 = Inr (Some c, d3)"
      "0 \<le> cycleRemaining c + delta"
      "updateCycle (sc_id c) (\<lambda>r. r\<lparr>sc_adjustment := sc_adjustment r + delta\<rparr>) d3 = Inr d4"
      "followBucket (lookup g_subscriptionId (Some (s_id s)) (grants d4)) (aa_id account)
         input (cycleRemaining c + delta) delta actor reason now d4 = Inr (adj, d5)"
      "createAdjustment (\<lambda>i. \<lparr>qa_id = i, qa_accountId = aa_id account, qa_cycleId = Some (sc_id c),
         qa_packId = None, qa_bucketId = None, qa_actorId = Some actor, qa_idempotencyKey = None,
         qa_mode = qi_mode input, qa_delta = delta, qa_before = cycleRemaining c,
         qa_after = cycleRemaining c + delta, qa_reason = trim reason\<rparr>) d5 = Inr (i, d6)"
      "buckets d' = buckets d6" "adjustments d' = adjustments d6"
    using assms by (fastforce simp: adjustSubscriptionQuota_def err_simps Let_def not_less)
  have "adjusts d d1" by (rule ensureAccessAccount_adjusts [OF st(1)])
  also have "adjusts d1 d2" using st(2) by (auto intro: updateSubscription_adjusts adjusts_refl split: if_splits)
  also have "adjusts d2 d3" by (rule ensureCurrentCycle_adjusts [OF st(3)])
  also have "adjusts d3 d4" by (rule updateCycle_adjusts [OF st(5)])
  also have "adjusts d4 d5" by (rule followBucket_adjusts [OF st(6,4)])
  also have "adjusts d5 d6" by (rule createAdjustment_adjusts [OF st(7)]) (use st(4) in \<open>simp add: booked_def\<close>)
  also have "adjusts d6 d'" by (rule adjusts_same) (use st(8,9) in simp_all)
  finally show ?thesis .
qed

lemma adjustTrafficPackQuota_adjusts:
  assumes "adjustTrafficPackQuota pid input reason actor now d = Inr (r, d')"
  shows "adjusts d d'"
proof -
  obtain p :: pack_row and account d1 delta f d2 adj d3 i d4 where
    st: "ensureAccessAccount (tp_userId p) d = Inr (account, d1)" "0 \<le> tp_remainingBytes p + delta"
      "updatePack (tp_id p) f d1 = Inr d2"
      "followBucket (lookup g_packId (Some (tp_id p)) (grants d2)) (aa_id account)
         input (tp_remainingBytes p + delta) delta actor reason now d2 = Inr (adj, d3)"
      "createAdjustment (\<lambda>i. \<lparr>qa_id = i, qa_accountId = aa_id account, qa_cycleId = None,
         qa_packId = Some (tp_id p), qa_bucketId = None, qa_actorId = Some actor, qa_idempotencyKey = None,
         qa_mode = qi_mode input, qa_delta = delta, qa_before = tp_remainingBytes p,
         qa_after = tp_remainingBytes p + delta, qa_reason = trim reason\<rparr>) d3 = Inr (i, d4)"
      "buckets d' = buckets d4" "adjustments d' = adjustments d4"
    using assms by (fastforce simp: adjustTrafficPackQuota_def err_simps Let_def not_less)
  have "adjusts d d1" by (rule ensureAccessAccount_adjusts [OF st(1)])
  also have "adjusts d1 d2" by (rule updatePack_adjusts [OF st(3)])
  also have "adjusts d2 d3" by (rule followBucket_adjusts [OF st(4,2)])
  also have "adjusts d3 d4" by (rule createAdjustment_adjusts [OF st(5)]) (use st(2) in \<open>simp add: booked_def\<close>)
  also have "adjusts d4 d'" by (rule adjusts_same) (use st(6,7) in simp_all)
  finally show ?thesis .
qed

lemma updateTrafficMultiplier_adjusts:
  assumes "updateTrafficMultiplier u bp actor guard d = Inr (r, d')"
  shows "adjusts d d'"
proof -
  obtain account :: account_row and d1 where "ensureAccessAccount u d = Inr (account, d1)"
      "buckets d' = buckets d1" "adjustments d' = adjustments d1"
    using assms by (auto simp: updateTrafficMultiplier_def err_simps Let_def split: option.splits)
  then show ?thesis using ensureAccessAccount_adjusts adjusts_trans adjusts_same by metis
qed

lemma quotaStep_adjusts: "bucketsWithin (buckets d) \<Longrightarrow> adjusts d (quotaStep op d)"
  by (cases op) (auto intro!: settle_adjusts intro: creditQuotaBucket_adjusts adjustQuotaBucketRemaining_adjusts
      adjustAvailableQuota_adjusts adjustSubscriptionQuota_adjusts adjustTrafficPackQuota_adjusts
      updateTrafficMultiplier_adjusts)

lemma runQuota_adjusts: "bucketsWithin (buckets d) \<Longrightarrow> adjusts d (runQuota ops d)"
proof (induction ops arbitrary: d)
  case (Cons op ops)
  have "adjusts d (quotaStep op d)" by (rule quotaStep_adjusts [OF Cons.prems])
  moreover from this have "bucketsWithin (buckets (quotaStep op d))" using Cons.prems by (simp add: adjusts_def)
  ultimately show ?case using Cons.IH [of "quotaStep op d"] adjusts_trans by (simp add: runQuota_def)
qed (simp add: runQuota_def adjusts_refl)

text \<open>C12: over every history of credits and adjustments, in any order and with failed calls among
  them, no bucket is consumed beyond its grant, none is lost, retimed or has its consumption changed,
  and the adjustment table only grows, by rows whose remainders differ by the booked amount.\<close>

theorem quota_history_sound:
  assumes "bucketsWithin (buckets d)"
  shows "bucketsWithin (buckets (runQuota ops d))
    \<and> map bucketFace (buckets (runQuota ops d)) = map bucketFace (buckets d)
    \<and> (\<exists>new. adjustments (runQuota ops d) = adjustments d @ new
         \<and> (\<forall>a \<in> set new. qa_after a = qa_before a + qa_delta a \<and> 0 \<le> qa_after a))"
  using runQuota_adjusts [OF assms, of ops] assms unfolding adjusts_def booked_def by blast

theorem quota_history_sound_witness:
  "bucketsWithin (buckets (runQuota [AdjustAvailable ''u1'' exampleCut None None ''admin'' 1709251200000,
     CreditBucket (exampleCredit ''k1'' 50)] exampleQuotaUser))"
  using quota_history_sound [OF exampleQuotaUser_within] by blast

end
