(* ===== verification/OfferSnapshot.thy ===== *)
theory OfferSnapshot imports Database begin

text \<open>
  The snapshot of a catalog offer that payment attempts and upgrade quotes keep:
  \<open>apps/api/src/commerce/catalog-offer-snapshot.ts\<close>. A snapshot lives in a JSON column between
  the purchase and its fulfilment, so the interesting fact is the round trip: what
  \<open>snapshotCatalogOffer\<close> writes, \<open>parseCatalogOfferSnapshot\<close> accepts.

  A field \<open>T | null | undefined\<close> of the purchase context is an option. Byte counts are strings of
  digits in the code; the model keeps them as the integer they denote (\<open>JBig\<close> in JSON).
  Numbers in JSON are integral.
\<close>

section \<open>The enumerations as JSON\<close>

fun kindName :: "product_kind \<Rightarrow> string" where
  "kindName ProductPlan = ''PLAN''"
| "kindName ProductTrafficPack = ''TRAFFIC_PACK''"

fun periodName :: "billing_period \<Rightarrow> string" where
  "periodName Monthly = ''MONTHLY''"
| "periodName Quarterly = ''QUARTERLY''"
| "periodName Yearly = ''YEARLY''"
| "periodName OneTime = ''ONE_TIME''"
| "periodName Legacy = ''LEGACY''"

fun seriesName :: "product_series \<Rightarrow> string" where
  "seriesName Standard = ''STANDARD''"
| "seriesName Ultra = ''ULTRA''"

fun cadenceName :: "quota_cadence \<Rightarrow> string" where
  "cadenceName MonthlyReset = ''MONTHLY_RESET''"
| "cadenceName OneTimeQuota = ''ONE_TIME''"

datatype purchase_mode = InitialPurchase | UpgradePurchase | PlanReset | GroupBuy | PlanUpgrade

fun modeName :: "purchase_mode \<Rightarrow> string" where
  "modeName InitialPurchase = ''initial''"
| "modeName UpgradePurchase = ''upgrade''"
| "modeName PlanReset = ''plan_reset''"
| "modeName GroupBuy = ''group_buy''"
| "modeName PlanUpgrade = ''plan_upgrade''"

datatype activation_mode = ActInitial | ActRenewal | ActScheduled | ActImmediate

fun activationName :: "activation_mode \<Rightarrow> string" where
  "activationName ActInitial = ''initial''"
| "activationName ActRenewal = ''renewal''"
| "activationName ActScheduled = ''scheduled_switch''"
| "activationName ActImmediate = ''immediate_switch''"

datatype activation_preference = PreferScheduled | PreferImmediate

fun preferenceName :: "activation_preference \<Rightarrow> string" where
  "preferenceName PreferScheduled = ''scheduled_switch''"
| "preferenceName PreferImmediate = ''immediate_switch''"

datatype settlement_mode = UpfrontDiscount | BalanceRebate

fun settlementName :: "settlement_mode \<Rightarrow> string" where
  "settlementName UpfrontDiscount = ''UPFRONT_DISCOUNT_REFUND_ON_FAILURE''"
| "settlementName BalanceRebate = ''ORIGINAL_PRICE_BALANCE_REBATE''"

section \<open>Context and snapshot\<close>

record purchase_context =
  pc_purchaseMode :: purchase_mode
  pc_upgradeQuoteToken :: "string option"
  pc_upgradeFromGrantId :: "id option"
  pc_upgradeFromProductId :: "id option"
  pc_upgradeFromPriceCents :: "int option"
  pc_resetAnchorAt :: "instant option"
  pc_resetGrantId :: "id option"
  pc_resetBucketId :: "id option"
  pc_resetCycleStartsAt :: "instant option"
  pc_resetCycleEndsAt :: "instant option"
  pc_resetTrafficBytes :: "int option"
  pc_resetCreditBytes :: "int option"
  pc_groupBuyId :: "id option"
  pc_groupBuyMemberId :: "id option"
  pc_groupBuyBonusBytes :: "int option"
  pc_groupBuyOriginalPriceCents :: "int option"
  pc_groupBuyPriceCents :: "int option"
  pc_groupBuyDiscountBasisPoints :: "int option"
  pc_groupBuySettlementMode :: "settlement_mode option"
  pc_planActivationPreference :: "activation_preference option"
  pc_planActivationMode :: "activation_mode option"
  pc_planEffectiveAt :: "instant option"
  pc_currentPlanProductId :: "id option"
  pc_currentPlanName :: "string option"
  pc_currentPlanEndsAt :: "instant option"

text \<open>What \<open>purchaseContext?.field ?? null\<close> reads without a context.\<close>

definition noContext :: purchase_context where
  "noContext = \<lparr>pc_purchaseMode = InitialPurchase, pc_upgradeQuoteToken = None, pc_upgradeFromGrantId = None,
     pc_upgradeFromProductId = None, pc_upgradeFromPriceCents = None, pc_resetAnchorAt = None,
     pc_resetGrantId = None, pc_resetBucketId = None, pc_resetCycleStartsAt = None,
     pc_resetCycleEndsAt = None, pc_resetTrafficBytes = None, pc_resetCreditBytes = None,
     pc_groupBuyId = None, pc_groupBuyMemberId = None, pc_groupBuyBonusBytes = None,
     pc_groupBuyOriginalPriceCents = None, pc_groupBuyPriceCents = None,
     pc_groupBuyDiscountBasisPoints = None, pc_groupBuySettlementMode = None,
     pc_planActivationPreference = None, pc_planActivationMode = None, pc_planEffectiveAt = None,
     pc_currentPlanProductId = None, pc_currentPlanName = None, pc_currentPlanEndsAt = None\<rparr>"

text \<open>The fields of the offer; those of the context follow in \<open>os_context\<close>.\<close>

record offer_snapshot =
  os_version :: int
  os_offerId :: id
  os_offerSlug :: string
  os_offerName :: string
  os_productId :: id
  os_productSlug :: string
  os_productName :: string
  os_productKind :: product_kind
  os_productSeries :: product_series
  os_quotaCadence :: quota_cadence
  os_billingPeriod :: billing_period
  os_intervalMonths :: "int option"
  os_legacyDurationDays :: "int option"
  os_trafficBytes :: int
  os_currency :: string
  os_accessProfileId :: id
  os_speedUpMbps :: int
  os_speedDownMbps :: int
  os_deviceLimit :: int
  os_multiplier :: int
  os_requiresActivePlan :: bool
  os_purchaseLimitPerUser :: "int option"
  os_purchaseLimitKey :: "string option"
  os_legacyPlanId :: "id option"
  os_legacyPlanOfferId :: "id option"
  os_legacyTrafficPackProductId :: "id option"
  os_context :: purchase_context

text \<open>\<open>x\<close> when it is truthy: neither null nor the empty string.\<close>

definition present :: "string option \<Rightarrow> string option" where
  "present x = (case x of None \<Rightarrow> None | Some s \<Rightarrow> if s = [] then None else Some s)"

lemma present_eq_Some [simp]: "present x = Some s \<longleftrightarrow> x = Some s \<and> s \<noteq> []"
  by (auto simp: present_def split: option.splits)

definition legacyDuration :: "offer_row \<Rightarrow> product_row \<Rightarrow> db \<Rightarrow> int option" where
  "legacyDuration offer product d =
     (if co_billingPeriod offer = Legacy
      then orElse (Option.bind (Option.bind (co_legacyPlanOfferId offer) (\<lambda>i. lookup po_id i (planOffers d)))
                     po_legacyDurationDays)
             (map_option p_durationDays (Option.bind (cp_legacyPlanId product) (\<lambda>i. lookup p_id i (plans d))))
      else None)"

definition snapshotCatalogOffer ::
  "offer_row \<Rightarrow> purchase_context option \<Rightarrow> db \<Rightarrow> error + offer_snapshot" where
  "snapshotCatalogOffer offer ctx d =
     bindE (require (PrismaKnown ''inconsistent'') (lookup cp_id (co_productId offer) (products d))) (\<lambda>product.
     bindE (require (PlainError ''profile-missing'') (present (cp_accessProfileId product))) (\<lambda>profileId.
     bindE (require (PlainError ''profile-missing'') (lookup ap_id profileId (profiles d))) (\<lambda>profile.
     Inr \<lparr>os_version = 2, os_offerId = co_id offer, os_offerSlug = co_slug offer, os_offerName = co_name offer,
          os_productId = cp_id product, os_productSlug = cp_slug product, os_productName = cp_name product,
          os_productKind = cp_kind product, os_productSeries = cp_series product,
          os_quotaCadence = cp_quotaCadence product, os_billingPeriod = co_billingPeriod offer,
          os_intervalMonths = co_intervalMonths offer, os_legacyDurationDays = legacyDuration offer product d,
          os_trafficBytes = co_trafficBytes offer, os_currency = co_currency offer,
          os_accessProfileId = profileId, os_speedUpMbps = ap_speedUpMbps profile,
          os_speedDownMbps = ap_speedDownMbps profile, os_deviceLimit = ap_deviceLimit profile,
          os_multiplier = cp_defaultMultiplier product, os_requiresActivePlan = cp_requiresActivePlan product,
          os_purchaseLimitPerUser = cp_purchaseLimitPerUser product,
          os_purchaseLimitKey = cp_purchaseLimitKey product, os_legacyPlanId = cp_legacyPlanId product,
          os_legacyPlanOfferId = co_legacyPlanOfferId offer,
          os_legacyTrafficPackProductId = cp_legacyTrafficPackProductId product,
          os_context = nvl ctx noContext\<rparr>)))"

text \<open>The object as the JSON column keeps it.\<close>

definition contextJson :: "purchase_context \<Rightarrow> (string \<times> json) list" where
  "contextJson c = [
     (''purchaseMode'', JStr (modeName (pc_purchaseMode c))),
     (''upgradeQuoteToken'', jopt JStr (pc_upgradeQuoteToken c)),
     (''upgradeFromGrantId'', jopt JStr (pc_upgradeFromGrantId c)),
     (''upgradeFromProductId'', jopt JStr (pc_upgradeFromProductId c)),
     (''upgradeFromPriceCents'', jopt JNum (pc_upgradeFromPriceCents c)),
     (''resetAnchorAt'', jopt JDate (pc_resetAnchorAt c)),
     (''resetGrantId'', jopt JStr (pc_resetGrantId c)),
     (''resetBucketId'', jopt JStr (pc_resetBucketId c)),
     (''resetCycleStartsAt'', jopt JDate (pc_resetCycleStartsAt c)),
     (''resetCycleEndsAt'', jopt JDate (pc_resetCycleEndsAt c)),
     (''resetTrafficBytes'', jopt JBig (pc_resetTrafficBytes c)),
     (''resetCreditBytes'', jopt JBig (pc_resetCreditBytes c)),
     (''groupBuyId'', jopt JStr (pc_groupBuyId c)),
     (''groupBuyMemberId'', jopt JStr (pc_groupBuyMemberId c)),
     (''groupBuyBonusBytes'', jopt JBig (pc_groupBuyBonusBytes c)),
     (''groupBuyOriginalPriceCents'', jopt JNum (pc_groupBuyOriginalPriceCents c)),
     (''groupBuyPriceCents'', jopt JNum (pc_groupBuyPriceCents c)),
     (''groupBuyDiscountBasisPoints'', jopt JNum (pc_groupBuyDiscountBasisPoints c)),
     (''groupBuySettlementMode'', jopt (JStr \<circ> settlementName) (pc_groupBuySettlementMode c)),
     (''planActivationPreference'', jopt (JStr \<circ> preferenceName) (pc_planActivationPreference c)),
     (''planActivationMode'', jopt (JStr \<circ> activationName) (pc_planActivationMode c)),
     (''planEffectiveAt'', jopt JDate (pc_planEffectiveAt c)),
     (''currentPlanProductId'', jopt JStr (pc_currentPlanProductId c)),
     (''currentPlanName'', jopt JStr (pc_currentPlanName c)),
     (''currentPlanEndsAt'', jopt JDate (pc_currentPlanEndsAt c))]"

definition snapshotJson :: "offer_snapshot \<Rightarrow> json" where
  "snapshotJson s = JObj ([
     (''version'', JNum (os_version s)),
     (''offerId'', JStr (os_offerId s)),
     (''offerSlug'', JStr (os_offerSlug s)),
     (''offerName'', JStr (os_offerName s)),
     (''productId'', JStr (os_productId s)),
     (''productSlug'', JStr (os_productSlug s)),
     (''productName'', JStr (os_productName s)),
     (''productKind'', JStr (kindName (os_productKind s))),
     (''productSeries'', JStr (seriesName (os_productSeries s))),
     (''quotaCadence'', JStr (cadenceName (os_quotaCadence s))),
     (''billingPeriod'', JStr (periodName (os_billingPeriod s))),
     (''intervalMonths'', jopt JNum (os_intervalMonths s)),
     (''legacyDurationDays'', jopt JNum (os_legacyDurationDays s)),
     (''trafficBytes'', JBig (os_trafficBytes s)),
     (''currency'', JStr (os_currency s)),
     (''accessProfileId'', JStr (os_accessProfileId s)),
     (''speedUpMbps'', JNum (os_speedUpMbps s)),
     (''speedDownMbps'', JNum (os_speedDownMbps s)),
     (''deviceLimit'', JNum (os_deviceLimit s)),
     (''trafficMultiplierBasisPoints'', JNum (os_multiplier s)),
     (''requiresActivePlan'', JBool (os_requiresActivePlan s)),
     (''purchaseLimitPerUser'', jopt JNum (os_purchaseLimitPerUser s)),
     (''purchaseLimitKey'', jopt JStr (os_purchaseLimitKey s)),
     (''legacyPlanId'', jopt JStr (os_legacyPlanId s)),
     (''legacyPlanOfferId'', jopt JStr (os_legacyPlanOfferId s)),
     (''legacyTrafficPackProductId'', jopt JStr (os_legacyTrafficPackProductId s))]
     @ contextJson (os_context s))"

section \<open>Reading a snapshot back\<close>

text \<open>\<open>typeof v === 'string'\<close>, the test against digits only, \<open>v != null\<close> and \<open>Number.isInteger\<close>.\<close>

fun isString :: "json option \<Rightarrow> bool" where
  "isString (Some (JStr _)) = True"
| "isString (Some (JDate _)) = True"
| "isString (Some (JBig _)) = True"
| "isString _ = False"

fun isDigits :: "json option \<Rightarrow> bool" where
  "isDigits (Some (JStr s)) = (s \<noteq> [] \<and> (\<forall>c \<in> set s. (48 :: nat) \<le> of_char c \<and> of_char c \<le> (57 :: nat)))"
| "isDigits (Some (JBig n)) = (0 \<le> n)"
| "isDigits _ = False"

definition given :: "json option \<Rightarrow> bool" where
  "given v \<longleftrightarrow> v \<noteq> None \<and> v \<noteq> Some JNull"

fun integerWith :: "(int \<Rightarrow> bool) \<Rightarrow> json option \<Rightarrow> bool" where
  "integerWith p (Some (JNum n)) = p n"
| "integerWith p _ = False"

definition oneOf :: "string list \<Rightarrow> json option \<Rightarrow> bool" where
  "oneOf names v \<longleftrightarrow> v \<in> Some ` JStr ` set names"

text \<open>Whether \<open>Date.parse\<close> reads the string; \<open>parses\<close> decides for those \<open>toISOString\<close> does not
  give, on which the standard leaves it to the implementation.\<close>

fun isDate :: "(string \<Rightarrow> bool) \<Rightarrow> json option \<Rightarrow> bool" where
  "isDate parses (Some (JDate t)) = True"
| "isDate parses (Some (JStr s)) = parses s"
| "isDate parses (Some (JBig n)) = parses (if n < 0 then ''-'' @ decimal (nat (- n)) else decimal (nat n))"
| "isDate parses _ = False"

definition offerFieldsOk :: "json \<Rightarrow> bool" where
  "offerFieldsOk v \<longleftrightarrow> (jget v ''version'' = Some (JNum 1) \<or> jget v ''version'' = Some (JNum 2))
     \<and> isString (jget v ''offerId'') \<and> isString (jget v ''productId'') \<and> isString (jget v ''accessProfileId'')
     \<and> isDigits (jget v ''trafficBytes'')
     \<and> oneOf (map kindName [ProductPlan, ProductTrafficPack]) (jget v ''productKind'')
     \<and> oneOf (map periodName [Monthly, Quarterly, Yearly, OneTime, Legacy]) (jget v ''billingPeriod'')"

definition resetFieldsOk :: "json \<Rightarrow> bool" where
  "resetFieldsOk v \<longleftrightarrow> jget v ''purchaseMode'' = Some (JStr ''plan_reset'') \<longrightarrow>
     isString (jget v ''resetGrantId'') \<and> isString (jget v ''resetBucketId'')
     \<and> isString (jget v ''resetCycleStartsAt'') \<and> isString (jget v ''resetCycleEndsAt'')
     \<and> isDigits (jget v ''resetTrafficBytes'')
     \<and> (given (jget v ''resetCreditBytes'') \<longrightarrow> isDigits (jget v ''resetCreditBytes''))"

definition groupFieldsOk :: "json \<Rightarrow> bool" where
  "groupFieldsOk v \<longleftrightarrow> jget v ''purchaseMode'' = Some (JStr ''group_buy'') \<longrightarrow>
     isString (jget v ''groupBuyId'') \<and> isString (jget v ''groupBuyMemberId'')
     \<and> isDigits (jget v ''groupBuyBonusBytes'')
     \<and> integerWith (\<lambda>original. 0 < original
          \<and> integerWith (\<lambda>price. 0 < price \<and> price \<le> original) (jget v ''groupBuyPriceCents''))
          (jget v ''groupBuyOriginalPriceCents'')
     \<and> integerWith (\<lambda>n. 100 \<le> n \<and> n \<le> 10000) (jget v ''groupBuyDiscountBasisPoints'')
     \<and> (given (jget v ''groupBuySettlementMode'') \<longrightarrow>
          oneOf (map settlementName [UpfrontDiscount, BalanceRebate]) (jget v ''groupBuySettlementMode''))"

definition activationFieldsOk :: "(string \<Rightarrow> bool) \<Rightarrow> json \<Rightarrow> bool" where
  "activationFieldsOk parses v \<longleftrightarrow> given (jget v ''planActivationMode'') \<longrightarrow>
     oneOf [''initial'', ''renewal'', ''scheduled_switch'', ''immediate_switch''] (jget v ''planActivationMode'')
     \<and> isDate parses (jget v ''planEffectiveAt'')"

text \<open>\<open>Inr None\<close> is \<open>null\<close>; an accepted value is returned as it is.\<close>

definition parseCatalogOfferSnapshot :: "(string \<Rightarrow> bool) \<Rightarrow> json option \<Rightarrow> error + json option" where
  "parseCatalogOfferSnapshot parses value =
     (case value of
        Some (JObj kvs) \<Rightarrow>
          let v = JObj kvs
          in if \<not> offerFieldsOk v then Inl (PlainError ''snapshot-invalid'')
             else if \<not> resetFieldsOk v then Inl (PlainError ''reset-snapshot-invalid'')
             else if \<not> groupFieldsOk v then Inl (PlainError ''group-snapshot-invalid'')
             else if \<not> activationFieldsOk parses v then Inl (PlainError ''activation-snapshot-invalid'')
             else Inr (Some v)
      | _ \<Rightarrow> Inr None)"

section \<open>The round trip\<close>

text \<open>What the purchase flows put into a context of each mode.\<close>

definition nonNegative :: "int option \<Rightarrow> bool" where
  "nonNegative x = (case x of None \<Rightarrow> False | Some n \<Rightarrow> 0 \<le> n)"

definition resetContext :: "purchase_context \<Rightarrow> bool" where
  "resetContext c \<longleftrightarrow> pc_resetGrantId c \<noteq> None \<and> pc_resetBucketId c \<noteq> None \<and> pc_resetCycleStartsAt c \<noteq> None
     \<and> pc_resetCycleEndsAt c \<noteq> None \<and> nonNegative (pc_resetTrafficBytes c)
     \<and> (pc_resetCreditBytes c = None \<or> nonNegative (pc_resetCreditBytes c))"

definition groupContext :: "purchase_context \<Rightarrow> bool" where
  "groupContext c \<longleftrightarrow> pc_groupBuyId c \<noteq> None \<and> pc_groupBuyMemberId c \<noteq> None \<and> nonNegative (pc_groupBuyBonusBytes c)
     \<and> (\<exists>original price points. pc_groupBuyOriginalPriceCents c = Some original \<and> pc_groupBuyPriceCents c = Some price
          \<and> pc_groupBuyDiscountBasisPoints c = Some points \<and> 0 < price \<and> price \<le> original
          \<and> 100 \<le> points \<and> points \<le> 10000)"

definition contextOk :: "purchase_context \<Rightarrow> bool" where
  "contextOk c \<longleftrightarrow> (pc_purchaseMode c = PlanReset \<longrightarrow> resetContext c)
     \<and> (pc_purchaseMode c = GroupBuy \<longrightarrow> groupContext c)
     \<and> (pc_planActivationMode c \<noteq> None \<longrightarrow> pc_planEffectiveAt c \<noteq> None)"

text \<open>What each check reads in a snapshot.\<close>

lemma snapshot_offer_fields:
  "jget (snapshotJson s) ''version'' = Some (JNum (os_version s))"
  "jget (snapshotJson s) ''offerId'' = Some (JStr (os_offerId s))"
  "jget (snapshotJson s) ''productId'' = Some (JStr (os_productId s))"
  "jget (snapshotJson s) ''productKind'' = Some (JStr (kindName (os_productKind s)))"
  "jget (snapshotJson s) ''billingPeriod'' = Some (JStr (periodName (os_billingPeriod s)))"
  "jget (snapshotJson s) ''trafficBytes'' = Some (JBig (os_trafficBytes s))"
  "jget (snapshotJson s) ''accessProfileId'' = Some (JStr (os_accessProfileId s))"
  by (simp_all add: snapshotJson_def)

lemma snapshot_context_fields:
  "jget (snapshotJson s) ''purchaseMode'' = Some (JStr (modeName (pc_purchaseMode (os_context s))))"
  "jget (snapshotJson s) ''resetGrantId'' = Some (jopt JStr (pc_resetGrantId (os_context s)))"
  "jget (snapshotJson s) ''resetBucketId'' = Some (jopt JStr (pc_resetBucketId (os_context s)))"
  "jget (snapshotJson s) ''resetCycleStartsAt'' = Some (jopt JDate (pc_resetCycleStartsAt (os_context s)))"
  "jget (snapshotJson s) ''resetCycleEndsAt'' = Some (jopt JDate (pc_resetCycleEndsAt (os_context s)))"
  "jget (snapshotJson s) ''resetTrafficBytes'' = Some (jopt JBig (pc_resetTrafficBytes (os_context s)))"
  "jget (snapshotJson s) ''resetCreditBytes'' = Some (jopt JBig (pc_resetCreditBytes (os_context s)))"
  "jget (snapshotJson s) ''groupBuyId'' = Some (jopt JStr (pc_groupBuyId (os_context s)))"
  "jget (snapshotJson s) ''groupBuyMemberId'' = Some (jopt JStr (pc_groupBuyMemberId (os_context s)))"
  "jget (snapshotJson s) ''groupBuyBonusBytes'' = Some (jopt JBig (pc_groupBuyBonusBytes (os_context s)))"
  "jget (snapshotJson s) ''groupBuyOriginalPriceCents'' = Some (jopt JNum (pc_groupBuyOriginalPriceCents (os_context s)))"
  "jget (snapshotJson s) ''groupBuyPriceCents'' = Some (jopt JNum (pc_groupBuyPriceCents (os_context s)))"
  "jget (snapshotJson s) ''groupBuyDiscountBasisPoints''
     = Some (jopt JNum (pc_groupBuyDiscountBasisPoints (os_context s)))"
  "jget (snapshotJson s) ''groupBuySettlementMode''
     = Some (jopt (JStr \<circ> settlementName) (pc_groupBuySettlementMode (os_context s)))"
  "jget (snapshotJson s) ''planActivationMode''
     = Some (jopt (JStr \<circ> activationName) (pc_planActivationMode (os_context s)))"
  "jget (snapshotJson s) ''planEffectiveAt'' = Some (jopt JDate (pc_planEffectiveAt (os_context s)))"
  by (simp_all add: snapshotJson_def contextJson_def)

lemma oneOf_kind: "oneOf (map kindName [ProductPlan, ProductTrafficPack]) (Some (JStr (kindName k)))"
  by (cases k) (simp_all add: oneOf_def)

lemma oneOf_period: "oneOf (map periodName [Monthly, Quarterly, Yearly, OneTime, Legacy]) (Some (JStr (periodName p)))"
  by (cases p) (simp_all add: oneOf_def)

lemma oneOf_settlement: "oneOf (map settlementName [UpfrontDiscount, BalanceRebate]) (Some (JStr (settlementName m)))"
  by (cases m) (simp_all add: oneOf_def)

lemma oneOf_activation:
  "oneOf [''initial'', ''renewal'', ''scheduled_switch'', ''immediate_switch''] (Some (JStr (activationName a)))"
  by (cases a) (simp_all add: oneOf_def)

lemma modeName_reset: "modeName m = ''plan_reset'' \<longleftrightarrow> m = PlanReset"
  by (cases m) simp_all

lemma modeName_group: "modeName m = ''group_buy'' \<longleftrightarrow> m = GroupBuy"
  by (cases m) simp_all

lemma snapshot_offer_ok:
  "os_version s = 2 \<Longrightarrow> 0 \<le> os_trafficBytes s \<Longrightarrow> offerFieldsOk (snapshotJson s)"
  unfolding offerFieldsOk_def snapshot_offer_fields by (simp only: oneOf_kind oneOf_period) simp

lemma snapshot_reset_ok:
  assumes "contextOk (os_context s)"
  shows "resetFieldsOk (snapshotJson s)"
  using assms unfolding resetFieldsOk_def snapshot_context_fields contextOk_def
  by (auto simp: modeName_reset resetContext_def nonNegative_def jopt_def given_def split: option.splits)

lemma snapshot_group_ok:
  assumes "contextOk (os_context s)"
  shows "groupFieldsOk (snapshotJson s)"
  using assms unfolding groupFieldsOk_def snapshot_context_fields contextOk_def
  by (auto simp only: modeName_group groupContext_def nonNegative_def jopt_def given_def o_def oneOf_settlement
        option.case isString.simps isDigits.simps integerWith.simps option.inject json.inject option.distinct
        simp_thms split: option.splits)

lemma snapshot_activation_ok:
  assumes "contextOk (os_context s)"
  shows "activationFieldsOk parses (snapshotJson s)"
  using assms oneOf_activation unfolding activationFieldsOk_def snapshot_context_fields contextOk_def
  by (auto simp: jopt_def given_def split: option.splits)

text \<open>Different snapshots are stored differently.\<close>

lemma kindName_inject: "kindName x = kindName y \<longleftrightarrow> x = y"
  by (cases x; cases y) simp_all

lemma periodName_inject: "periodName x = periodName y \<longleftrightarrow> x = y"
  by (cases x; cases y) simp_all

lemma seriesName_inject: "seriesName x = seriesName y \<longleftrightarrow> x = y"
  by (cases x; cases y) simp_all

lemma cadenceName_inject: "cadenceName x = cadenceName y \<longleftrightarrow> x = y"
  by (cases x; cases y) simp_all

lemma modeName_inject: "modeName x = modeName y \<longleftrightarrow> x = y"
  by (cases x; cases y) simp_all

lemma activationName_inject: "activationName x = activationName y \<longleftrightarrow> x = y"
  by (cases x; cases y) simp_all

lemma preferenceName_inject: "preferenceName x = preferenceName y \<longleftrightarrow> x = y"
  by (cases x; cases y) simp_all

lemma settlementName_inject: "settlementName x = settlementName y \<longleftrightarrow> x = y"
  by (cases x; cases y) simp_all

lemmas names_inject = kindName_inject periodName_inject seriesName_inject cadenceName_inject modeName_inject activationName_inject preferenceName_inject settlementName_inject

lemma jopt_inject:
  assumes "\<And>a b. f a = f b \<longleftrightarrow> a = b" and "\<And>a. f a \<noteq> JNull"
  shows "jopt f x = jopt f y \<longleftrightarrow> x = y"
  using assms assms(2) [symmetric] by (cases x; cases y) (simp_all add: jopt_def)

lemma contextJson_inject: "contextJson c = contextJson c' \<longleftrightarrow> c = c'"
  by (cases c; cases c') (simp add: contextJson_def jopt_inject names_inject)

lemma snapshotJson_inject: "snapshotJson s = snapshotJson s' \<longleftrightarrow> s = s'"
  by (cases s; cases s') (simp add: snapshotJson_def jopt_inject names_inject contextJson_inject)

text \<open>C13: a snapshot of a catalog offer survives its stay in the JSON column: what
  \<open>snapshotCatalogOffer\<close> builds for a purchase flow's context is accepted unchanged by
  \<open>parseCatalogOfferSnapshot\<close>, and no other snapshot is stored as the same value.\<close>

theorem snapshot_round_trip:
  assumes "snapshotCatalogOffer offer ctx d = Inr s" and "contextOk (nvl ctx noContext)"
    and "0 \<le> co_trafficBytes offer"
  shows "parseCatalogOfferSnapshot parses (Some (snapshotJson s)) = Inr (Some (snapshotJson s))
    \<and> (\<forall>s'. snapshotJson s' = snapshotJson s \<longrightarrow> s' = s)"
proof -
  have "os_version s = 2" "os_trafficBytes s = co_trafficBytes offer" "os_context s = nvl ctx noContext"
    using assms(1) by (auto simp: snapshotCatalogOffer_def err_simps)
  then have "offerFieldsOk (snapshotJson s)" "resetFieldsOk (snapshotJson s)" "groupFieldsOk (snapshotJson s)"
      "activationFieldsOk parses (snapshotJson s)"
    using assms(2,3) by (simp_all add: snapshot_offer_ok snapshot_reset_ok snapshot_group_ok snapshot_activation_ok)
  moreover obtain kvs where "snapshotJson s = JObj kvs" by (simp add: snapshotJson_def)
  ultimately have "parseCatalogOfferSnapshot parses (Some (snapshotJson s)) = Inr (Some (snapshotJson s))"
    by (simp add: parseCatalogOfferSnapshot_def)
  then show ?thesis by (simp only: snapshotJson_inject) simp
qed

definition exampleSnapshotDb :: db where
  "exampleSnapshotDb = emptyDb\<lparr>
     products := [\<lparr>cp_id = ''prod1'', cp_legacyPlanId = None, cp_legacyTrafficPackProductId = None, cp_slug = ''s'',
       cp_kind = ProductPlan, cp_series = Standard, cp_status = ProductActive, cp_name = ''S'',
       cp_quotaCadence = MonthlyReset, cp_accessProfileId = Some ''prof1'', cp_speedUpMbps = 100,
       cp_speedDownMbps = 100, cp_defaultMultiplier = 10000, cp_purchaseLimitPerUser = None,
       cp_purchaseLimitKey = None, cp_requiresActivePlan = False,
     cp_referralEligible = True\<rparr>],
     profiles := [\<lparr>ap_id = ''prof1'', ap_active = True, ap_speedUpMbps = 100, ap_speedDownMbps = 100,
       ap_deviceLimit = 3\<rparr>]\<rparr>"

definition exampleOfferRow :: offer_row where
  "exampleOfferRow = \<lparr>co_id = ''offer1'', co_productId = ''prod1'', co_legacyPlanOfferId = None, co_slug = ''m'',
     co_name = ''m'', co_billingPeriod = Quarterly, co_intervalMonths = Some 3, co_trafficBytes = 900,
     co_priceCents = 3000, co_currency = ''CNY'', co_active = True, co_archivedAt = None\<rparr>"

definition exampleGroupContext :: purchase_context where
  "exampleGroupContext = noContext\<lparr>pc_purchaseMode := GroupBuy, pc_groupBuyId := Some ''gb'',
     pc_groupBuyMemberId := Some ''m1'', pc_groupBuyBonusBytes := Some 100,
     pc_groupBuyOriginalPriceCents := Some 3000, pc_groupBuyPriceCents := Some 2700,
     pc_groupBuyDiscountBasisPoints := Some 9000, pc_groupBuySettlementMode := Some BalanceRebate,
     pc_planActivationMode := Some ActInitial, pc_planEffectiveAt := Some 1709251200000\<rparr>"

theorem snapshot_round_trip_witness:
  "\<exists>s. snapshotCatalogOffer exampleOfferRow (Some exampleGroupContext) exampleSnapshotDb = Inr s
     \<and> parseCatalogOfferSnapshot (\<lambda>_. False) (Some (snapshotJson s)) = Inr (Some (snapshotJson s))"
proof -
  have "\<not> isl (snapshotCatalogOffer exampleOfferRow (Some exampleGroupContext) exampleSnapshotDb)"
    by code_simp
  then obtain s where s: "snapshotCatalogOffer exampleOfferRow (Some exampleGroupContext) exampleSnapshotDb = Inr s"
    using not_isl_obtain by blast
  have "contextOk (nvl (Some exampleGroupContext) noContext)"
    by (simp add: contextOk_def groupContext_def nonNegative_def exampleGroupContext_def)
  then show ?thesis using snapshot_round_trip [OF s] s by (simp add: exampleOfferRow_def)
qed

text \<open>What the fulfilment accepts as a group purchase has a price that is positive and at most the
  original one, and a discount between one and a hundred percent; anything else that claims to be a
  group purchase is an error, never \<open>null\<close>.\<close>

theorem parsed_group_price_bounded:
  assumes "jget (JObj kvs) ''purchaseMode'' = Some (JStr ''group_buy'')"
  shows "case parseCatalogOfferSnapshot parses (Some (JObj kvs)) of
      Inl e \<Rightarrow> True
    | Inr v \<Rightarrow> v = Some (JObj kvs) \<and> (\<exists>original price points.
        jget (JObj kvs) ''groupBuyOriginalPriceCents'' = Some (JNum original)
        \<and> jget (JObj kvs) ''groupBuyPriceCents'' = Some (JNum price)
        \<and> jget (JObj kvs) ''groupBuyDiscountBasisPoints'' = Some (JNum points)
        \<and> 0 < price \<and> price \<le> original \<and> 100 \<le> points \<and> points \<le> 10000)"
proof -
  have integerWith_elim: "\<exists>n. v = Some (JNum n) \<and> p n" if "integerWith p v" for p v
    using that by (cases "(p, v)" rule: integerWith.cases) auto
  show ?thesis
  proof (cases "parseCatalogOfferSnapshot parses (Some (JObj kvs))")
    case (Inr v)
    then have "v = Some (JObj kvs)" "groupFieldsOk (JObj kvs)"
      by (auto simp: parseCatalogOfferSnapshot_def Let_def split: if_splits)
    then show ?thesis using Inr assms unfolding groupFieldsOk_def
      by (fastforce dest: integerWith_elim)
  qed simp
qed

definition exampleGroupJson :: "(string \<times> json) list" where
  "exampleGroupJson = [(''version'', JNum 1), (''offerId'', JStr ''offer1''), (''productId'', JStr ''prod1''),
     (''accessProfileId'', JStr ''prof1''), (''trafficBytes'', JBig 900), (''productKind'', JStr ''PLAN''),
     (''billingPeriod'', JStr ''MONTHLY''), (''purchaseMode'', JStr ''group_buy''), (''groupBuyId'', JStr ''gb''),
     (''groupBuyMemberId'', JStr ''m1''), (''groupBuyBonusBytes'', JBig 100),
     (''groupBuyOriginalPriceCents'', JNum 3000), (''groupBuyPriceCents'', JNum 2700),
     (''groupBuyDiscountBasisPoints'', JNum 9000)]"

theorem parsed_group_price_bounded_witness:
  "parseCatalogOfferSnapshot (\<lambda>_. False) (Some (JObj exampleGroupJson)) = Inr (Some (JObj exampleGroupJson))
   \<and> jget (JObj exampleGroupJson) ''groupBuyPriceCents'' = Some (JNum 2700)"
proof -
  have "\<not> isl (parseCatalogOfferSnapshot (\<lambda>_. False) (Some (JObj exampleGroupJson)))" by code_simp
  moreover have "jget (JObj exampleGroupJson) ''purchaseMode'' = Some (JStr ''group_buy'')" by code_simp
  ultimately have "parseCatalogOfferSnapshot (\<lambda>_. False) (Some (JObj exampleGroupJson)) = Inr (Some (JObj exampleGroupJson))"
    using parsed_group_price_bounded [of exampleGroupJson "\<lambda>_. False"] by (auto split: sum.splits)
  then show ?thesis by (simp add: exampleGroupJson_def)
qed

end
