(* ===== verification/PlanPolicy.thy ===== *)
theory PlanPolicy imports MonthCycles OfferSnapshot begin

text \<open>
  The rules of buying and redeeming plans: \<open>commerce/plan-purchase-policy.ts\<close>,
  \<open>commerce/purchase-eligibility.ts\<close>, \<open>commerce/plan-redemption-policy.ts\<close> and
  \<open>entitlement/entitlement-lifetime.ts\<close> of \<open>apps/api/src\<close>.

  \<open>plan-redemption-policy.ts\<close> has a month arithmetic of its own, with a day it is anchored to.
  Without an anchor it is the arithmetic of \<open>entitlement.service.ts\<close>
  (\<open>redemptionAddMonths_same\<close>).
\<close>

section \<open>Permanent entitlements\<close>

definition isPermanentBillingPeriod :: "billing_period option \<Rightarrow> bool" where
  "isPermanentBillingPeriod period \<longleftrightarrow> period = Some OneTime"

definition permanentEntitlementEnd :: instant where
  "permanentEntitlementEnd = dateUTC 9999 11 31 23 59 59 999"

section \<open>Which way a purchase takes effect\<close>

definition DAY_MS :: int where
  "DAY_MS = 24 * 60 * 60 * 1000"

record current_plan =
  cur_productId :: "id option"
  cur_productName :: string
  cur_legacyPlanId :: id
  cur_startsAt :: instant
  cur_endsAt :: instant

record purchase_policy =
  pol_mode :: activation_mode
  pol_effectiveAt :: instant
  pol_currentPlan :: "current_plan option"
  pol_forfeitedDays :: int

definition standardPlanPurchaseKey :: "id \<Rightarrow> string" where
  "standardPlanPurchaseKey userId = ''standard-plan:'' @ userId"

definition decidePlanPurchasePolicy ::
  "instant \<Rightarrow> id \<Rightarrow> id \<Rightarrow> current_plan option \<Rightarrow> activation_preference option \<Rightarrow> bool \<Rightarrow> purchase_policy" where
  "decidePlanPurchasePolicy now targetProductId targetLegacyPlanId currentPlan preference forceImmediate =
     (case currentPlan of
        None \<Rightarrow> \<lparr>pol_mode = ActInitial, pol_effectiveAt = now, pol_currentPlan = None, pol_forfeitedDays = 0\<rparr>
      | Some current \<Rightarrow>
          let samePlan = (case present (cur_productId current) of
                Some p \<Rightarrow> p = targetProductId
              | None \<Rightarrow> cur_legacyPlanId current = targetLegacyPlanId)
          in if samePlan
             then \<lparr>pol_mode = ActRenewal, pol_effectiveAt = cur_endsAt current,
                   pol_currentPlan = Some current, pol_forfeitedDays = 0\<rparr>
             else
               let immediate = (forceImmediate \<or> preference = Some PreferImmediate)
               in \<lparr>pol_mode = (if immediate then ActImmediate else ActScheduled),
                   pol_effectiveAt = (if immediate then now else cur_endsAt current),
                   pol_currentPlan = Some current,
                   pol_forfeitedDays =
                     (if immediate then max 0 (ceilDiv (cur_endsAt current - now) DAY_MS) else 0)\<rparr>)"

section \<open>Who may buy\<close>

record rule_product =
  rp_kind :: product_kind
  rp_purchaseLimitPerUser :: "int option"
  rp_purchaseLimitKey :: "string option"
  rp_requiresActivePlan :: bool

text \<open>The product a legacy plan is sold as (\<open>plan.catalogProduct\<close>).\<close>

definition catalogProductOf :: "id \<Rightarrow> db \<Rightarrow> product_row option" where
  "catalogProductOf planId d = lookup cp_legacyPlanId (Some planId) (products d)"

definition countsAgainst :: "id \<Rightarrow> string \<Rightarrow> db \<Rightarrow> order_row \<Rightarrow> bool" where
  "countsAgainst userId key d o1 \<longleftrightarrow> mo_userId o1 = userId \<and> mo_status o1 = OrderApplied
     \<and> (Option.bind (Option.bind (Option.bind (mo_catalogOfferId o1) (\<lambda>i. lookup co_id i (offers d)))
              (\<lambda>offer. lookup cp_id (co_productId offer) (products d))) cp_purchaseLimitKey = Some key
        \<or> Option.bind (Option.bind (Option.bind (mo_planId o1) (\<lambda>i. lookup p_id i (plans d)))
              (\<lambda>plan. catalogProductOf (p_id plan) d)) cp_purchaseLimitKey = Some key)"

definition priorPurchases :: "id \<Rightarrow> string \<Rightarrow> db \<Rightarrow> int" where
  "priorPurchases userId key d = int (length (filter (countsAgainst userId key d) (orders d)))"

definition assertCatalogPurchaseLimit :: "id \<Rightarrow> rule_product \<Rightarrow> db \<Rightarrow> error + unit" where
  "assertCatalogPurchaseLimit userId product d =
     (case (rp_purchaseLimitPerUser product, present (rp_purchaseLimitKey product)) of
        (Some limit, Some key) \<Rightarrow>
          if limit = 0 then Inr ()
          else guardE (BadRequest ''purchase-limit'') (priorPurchases userId key d < limit)
      | _ \<Rightarrow> Inr ())"

definition activeV2Plans :: "id \<Rightarrow> instant \<Rightarrow> db \<Rightarrow> grant_row list" where
  "activeV2Plans userId now d = filter (\<lambda>g. g_userId g = userId \<and> g_kind g = GrantPlan
     \<and> g_status g = GrantActive \<and> g_startsAt g \<le> now \<and> now < g_endsAt g) (grants d)"

definition activeLegacyPlans :: "id \<Rightarrow> instant \<Rightarrow> db \<Rightarrow> subscription_row list" where
  "activeLegacyPlans userId now d = filter (\<lambda>s. s_userId s = userId \<and> s_status s = SubActive
     \<and> s_startsAt s \<le> now \<and> now < s_endsAt s) (subscriptions d)"

definition assertCatalogPurchaseEligibility :: "id \<Rightarrow> rule_product \<Rightarrow> instant \<Rightarrow> db \<Rightarrow> error + unit" where
  "assertCatalogPurchaseEligibility userId product now d =
     bindE (assertCatalogPurchaseLimit userId product d) (\<lambda>_.
       if rp_kind product = ProductTrafficPack \<and> rp_requiresActivePlan product
       then guardE (BadRequest ''plan-required'') (activeV2Plans userId now d \<noteq> [] \<or> activeLegacyPlans userId now d \<noteq> [])
       else Inr ())"

section \<open>Redeeming a plan\<close>

datatype redemption_mode = Renew | ReplacePlan

definition addUtcDays :: "instant \<Rightarrow> int \<Rightarrow> instant" where
  "addUtcDays value days = setUTCDate value (getUTCDate value + days)"

definition redemptionAddMonths :: "instant \<Rightarrow> int \<Rightarrow> int \<Rightarrow> instant" where
  "redemptionAddMonths value months anchorDay =
     (let first = setUTCDate value 1;
          result = setUTCMonth first (getUTCMonth first + months);
          lastDay = getUTCDate (dateUTC (getUTCFullYear result) (getUTCMonth result + 1) 0 0 0 0 0)
      in setUTCDate result (min anchorDay lastDay))"

record redemption_window =
  rw_renewsCurrent :: bool
  rw_forceReplace :: bool
  rw_startsAt :: instant
  rw_endsAt :: instant

record redemption_input =
  ri_mode :: redemption_mode
  ri_currentPlanId :: "id option"
  ri_targetPlanId :: id
  ri_currentStartsAt :: "instant option"
  ri_currentEndsAt :: "instant option"
  ri_redeemedAt :: instant
  ri_intervalMonths :: "int option"
  ri_durationDays :: int

definition resolvePlanRedemptionWindow :: "redemption_input \<Rightarrow> redemption_window" where
  "resolvePlanRedemptionWindow input =
     (let renewsCurrent = (ri_mode input = Renew \<and> ri_currentPlanId input = Some (ri_targetPlanId input));
          extendsCurrentTerm = (renewsCurrent \<and> (case ri_currentEndsAt input of
              None \<Rightarrow> False | Some e \<Rightarrow> ri_redeemedAt input < e));
          startsAt = (if extendsCurrentTerm then nvl (ri_currentEndsAt input) (ri_redeemedAt input)
                      else ri_redeemedAt input)
      in \<lparr>rw_renewsCurrent = renewsCurrent, rw_forceReplace = (ri_mode input = ReplacePlan),
          rw_startsAt = startsAt,
          rw_endsAt = (case ri_intervalMonths input of
              Some m \<Rightarrow> if m \<noteq> 0
                then redemptionAddMonths startsAt m
                       (if extendsCurrentTerm then nvl (map_option getUTCDate (ri_currentStartsAt input)) (getUTCDate startsAt)
                        else getUTCDate startsAt)
                else addUtcDays startsAt (ri_durationDays input)
            | None \<Rightarrow> addUtcDays startsAt (ri_durationDays input))\<rparr>)"

section \<open>What the rules guarantee\<close>

lemma instant_eqI:
  assumes "monthOf a = monthOf b" and "getUTCDate a = getUTCDate b" and "timeInDay a = timeInDay b"
  shows "a = b"
  using date_split [of a] date_split [of b] assms by simp

lemma addUtcDays_eq: "addUtcDays value n = value + n * msPerDay"
  using date_split [of "value"] by (simp add: addUtcDays_def setUTCDate_def algebra_simps)

lemma redemptionAddMonths_readings:
  assumes "fullYearMonth (monthOf value + k)" and "1 \<le> anchorDay"
  shows "monthOf (redemptionAddMonths value k anchorDay) = monthOf value + k"
    and "getUTCDate (redemptionAddMonths value k anchorDay) = min anchorDay (monthDays (monthOf value + k))"
    and "timeInDay (redemptionAddMonths value k anchorDay) = timeInDay value"
proof -
  have dim: "1 \<le> monthDays i" for i using monthDays_bounds [of i] by simp
  define first where "first = setUTCDate value 1"
  have first: "monthOf first = monthOf value" "getUTCDate first = 1" "timeInDay first = timeInDay value"
    unfolding first_def by (simp_all add: setUTCDate_readings dim)
  define result where "result = setUTCMonth first (getUTCMonth first + k)"
  have index: "12 * getUTCFullYear first + (getUTCMonth first + k) = monthOf value + k"
    using first(1) year_month [of first] by simp
  have e: "result = (monthStart (monthOf value + k) + 1 - 1) * msPerDay + timeInDay value"
    unfolding result_def setUTCMonth_def index first(2,3) by (rule refl)
  have result: "monthOf result = monthOf value + k" "timeInDay result = timeInDay value"
    unfolding e by (rule date_readings; use dim timeInDay_bounds in simp)+
  have last: "getUTCDate (dateUTC (getUTCFullYear result) (getUTCMonth result + 1) 0 0 0 0 0)
      = monthDays (monthOf value + k)"
    using fullYearMonth_year [of result] assms(1) by (simp add: lastDay_eq result)
  have r: "redemptionAddMonths value k anchorDay = setUTCDate result (min anchorDay (monthDays (monthOf value + k)))"
    by (simp add: redemptionAddMonths_def Let_def last flip: first_def result_def)
  show "monthOf (redemptionAddMonths value k anchorDay) = monthOf value + k"
    and "getUTCDate (redemptionAddMonths value k anchorDay) = min anchorDay (monthDays (monthOf value + k))"
    and "timeInDay (redemptionAddMonths value k anchorDay) = timeInDay value"
    unfolding r using assms(2) dim by (simp_all add: setUTCDate_readings result)
qed

text \<open>The month arithmetic of redemptions agrees with that of entitlements wherever it is given no
  other anchor day, and its day arithmetic adds whole days.\<close>

theorem redemptionAddMonths_same:
  assumes "fullYearMonth (monthOf value)" and "fullYearMonth (monthOf value + k)"
  shows "redemptionAddMonths value k (getUTCDate value) = addUtcMonthsClamped value k
    \<and> addUtcDays value n = value + n * msPerDay"
proof -
  have "redemptionAddMonths value k (getUTCDate value) = addUtcMonthsClamped value k"
    by (rule instant_eqI)
      (use assms getUTCDate_bounds(1) in \<open>simp_all add: redemptionAddMonths_readings addUtcMonthsClamped_readings\<close>)
  then show ?thesis by (simp add: addUtcDays_eq)
qed

theorem redemptionAddMonths_same_witness:
  "redemptionAddMonths 1706659200000 1 (getUTCDate 1706659200000) = addUtcMonthsClamped 1706659200000 1"
proof -
  have "fullYearMonth (monthOf 1706659200000)" "fullYearMonth (monthOf 1706659200000 + 1)" by code_simp+
  then show ?thesis using redemptionAddMonths_same by blast
qed

text \<open>A redeemed term never starts before the redemption nor gives away a running term: it starts
  at the later of the two when it renews the current plan, and a term of months ends later than it
  starts, on the day of the month the current term began on, or on the month's last day.\<close>

theorem redemption_window_sound:
  assumes "ri_intervalMonths input = Some m" and "0 < m"
    and "fullYearMonth (monthOf (rw_startsAt (resolvePlanRedemptionWindow input)))"
  shows "ri_redeemedAt input \<le> rw_startsAt (resolvePlanRedemptionWindow input)
    \<and> rw_startsAt (resolvePlanRedemptionWindow input) < rw_endsAt (resolvePlanRedemptionWindow input)
    \<and> monthOf (rw_endsAt (resolvePlanRedemptionWindow input))
        = monthOf (rw_startsAt (resolvePlanRedemptionWindow input)) + m
    \<and> (case (rw_renewsCurrent (resolvePlanRedemptionWindow input), ri_currentStartsAt input, ri_currentEndsAt input) of
         (True, Some s, Some e) \<Rightarrow> rw_startsAt (resolvePlanRedemptionWindow input) = max e (ri_redeemedAt input)
           \<and> (ri_redeemedAt input < e \<longrightarrow> getUTCDate (rw_endsAt (resolvePlanRedemptionWindow input))
                = min (getUTCDate s) (monthDays (monthOf (rw_endsAt (resolvePlanRedemptionWindow input)))))
       | _ \<Rightarrow> True)"
proof -
  let ?w = "resolvePlanRedemptionWindow input"
  have full: "fullYearMonth (monthOf (rw_startsAt ?w) + m)" using assms(2,3) by (simp add: fullYearMonth_def)
  obtain day where day: "rw_endsAt ?w = redemptionAddMonths (rw_startsAt ?w) m day" "1 \<le> day"
    and anchored: "\<And>s e. rw_renewsCurrent ?w \<Longrightarrow> ri_currentStartsAt input = Some s \<Longrightarrow>
      ri_currentEndsAt input = Some e \<Longrightarrow> ri_redeemedAt input < e \<Longrightarrow> day = getUTCDate s"
    using assms(1,2) getUTCDate_bounds(1)
    by (auto simp: resolvePlanRedemptionWindow_def Let_def nvl_def split: option.splits)
  note r = redemptionAddMonths_readings [OF full day(2)]
  have "rw_startsAt ?w < rw_endsAt ?w"
    by (rule utc.earlier_index) (use assms(2) r(1) day(1) in simp)
  moreover have "ri_redeemedAt input \<le> rw_startsAt ?w"
    by (auto simp: resolvePlanRedemptionWindow_def Let_def split: option.splits)
  moreover have "rw_renewsCurrent ?w \<Longrightarrow> ri_currentEndsAt input = Some e \<Longrightarrow>
      rw_startsAt ?w = max e (ri_redeemedAt input)" for e
    by (auto simp: resolvePlanRedemptionWindow_def Let_def)
  ultimately show ?thesis using r day(1) anchored by (auto split: option.splits bool.splits)
qed

theorem redemption_window_sound_witness:
  "rw_startsAt (resolvePlanRedemptionWindow \<lparr>ri_mode = Renew, ri_currentPlanId = Some ''p'', ri_targetPlanId = ''p'',
      ri_currentStartsAt = Some 1706659200000, ri_currentEndsAt = Some 1709164800000, ri_redeemedAt = 1708000000000,
      ri_intervalMonths = Some 1, ri_durationDays = 0\<rparr>)
   < rw_endsAt (resolvePlanRedemptionWindow \<lparr>ri_mode = Renew, ri_currentPlanId = Some ''p'', ri_targetPlanId = ''p'',
      ri_currentStartsAt = Some 1706659200000, ri_currentEndsAt = Some 1709164800000, ri_redeemedAt = 1708000000000,
      ri_intervalMonths = Some 1, ri_durationDays = 0\<rparr>)"
proof -
  let ?i = "\<lparr>ri_mode = Renew, ri_currentPlanId = Some ''p'', ri_targetPlanId = ''p'',
      ri_currentStartsAt = Some 1706659200000, ri_currentEndsAt = Some 1709164800000, ri_redeemedAt = 1708000000000,
      ri_intervalMonths = Some 1, ri_durationDays = 0\<rparr>"
  have "fullYearMonth (monthOf (rw_startsAt (resolvePlanRedemptionWindow ?i)))" by code_simp
  then show ?thesis using redemption_window_sound [of ?i 1] by simp
qed

text \<open>A purchase takes effect now or when the current plan ends, never earlier; only an immediate
  switch forfeits anything, and then it counts the started days that remain, exactly.\<close>

theorem purchase_policy_sound:
  assumes "case currentPlan of None \<Rightarrow> True | Some c \<Rightarrow> now < cur_endsAt c"
    and "p = decidePlanPurchasePolicy now product legacyPlan currentPlan preference forceImmediate"
  shows "now \<le> pol_effectiveAt p \<and> pol_currentPlan p = currentPlan
    \<and> (pol_mode p \<noteq> ActImmediate \<longrightarrow> pol_forfeitedDays p = 0
         \<and> (\<forall>c. currentPlan = Some c \<longrightarrow> pol_effectiveAt p = cur_endsAt c))
    \<and> (pol_mode p = ActImmediate \<longrightarrow> pol_effectiveAt p = now
         \<and> (\<exists>c. currentPlan = Some c \<and> (pol_forfeitedDays p - 1) * DAY_MS < cur_endsAt c - now
              \<and> cur_endsAt c - now \<le> pol_forfeitedDays p * DAY_MS))"
proof (cases currentPlan)
  case None
  then show ?thesis using assms(2) by (simp add: decidePlanPurchasePolicy_def)
next
  case (Some c)
  let ?left = "cur_endsAt c - now"
  have left: "0 < ?left" using assms(1) Some by simp
  have pos: "0 < DAY_MS" by (simp add: DAY_MS_def)
  have up: "?left \<le> ceilDiv ?left DAY_MS * DAY_MS" by (rule ceilDiv_upper [OF pos])
  have "0 \<le> ceilDiv ?left DAY_MS"
  proof (rule ccontr)
    assume "\<not> 0 \<le> ceilDiv ?left DAY_MS"
    then have "ceilDiv ?left DAY_MS * DAY_MS < 0" using pos by (simp add: mult_neg_pos)
    then show False using up left by simp
  qed
  then show ?thesis using assms(2) Some left up ceilDiv_lower [OF pos, of ?left]
    by (auto simp: decidePlanPurchasePolicy_def Let_def max_absorb2)
qed

lemma counts_orders: "countsAgainst userId key (d\<lparr>orders := os\<rparr>) = countsAgainst userId key d"
  by (rule ext) (simp add: countsAgainst_def catalogProductOf_def)

text \<open>The purchase limit admits a buyer exactly while fewer than the limit of the orders that
  count against its key are applied, so one more applied order never exceeds it.\<close>

theorem purchase_limit_exact:
  assumes "rp_purchaseLimitPerUser product = Some limit" and "rp_purchaseLimitKey product = Some key"
    and "0 < limit" and "key \<noteq> []"
  shows "(assertCatalogPurchaseLimit userId product d = Inr () \<longleftrightarrow> priorPurchases userId key d < limit)
    \<and> (assertCatalogPurchaseLimit userId product d = Inr () \<longrightarrow>
         priorPurchases userId key (d\<lparr>orders := orders d @ [o1]\<rparr>) \<le> limit)"
proof -
  have "assertCatalogPurchaseLimit userId product d = Inr () \<longleftrightarrow> priorPurchases userId key d < limit"
    using assms by (simp add: assertCatalogPurchaseLimit_def present_def guardE_def)
  moreover have "priorPurchases userId key (d\<lparr>orders := orders d @ [o1]\<rparr>) \<le> priorPurchases userId key d + 1"
    by (simp add: priorPurchases_def counts_orders)
  ultimately show ?thesis by linarith
qed

theorem purchase_limit_exact_witness:
  "assertCatalogPurchaseLimit ''u1'' \<lparr>rp_kind = ProductPlan, rp_purchaseLimitPerUser = Some 1,
     rp_purchaseLimitKey = Some ''trial'', rp_requiresActivePlan = False\<rparr> emptyDb = Inr ()"
proof -
  let ?p = "\<lparr>rp_kind = ProductPlan, rp_purchaseLimitPerUser = Some 1,
     rp_purchaseLimitKey = Some ''trial'', rp_requiresActivePlan = False\<rparr> :: rule_product"
  have "assertCatalogPurchaseLimit ''u1'' ?p emptyDb = Inr () \<longleftrightarrow> priorPurchases ''u1'' ''trial'' emptyDb < 1"
    using purchase_limit_exact [of ?p 1 "''trial''" "''u1''" emptyDb] by simp
  moreover have "priorPurchases ''u1'' ''trial'' emptyDb = 0" by (simp add: priorPurchases_def emptyDb_def)
  ultimately show ?thesis by simp
qed

definition exampleCurrentPlan :: current_plan where
  "exampleCurrentPlan = \<lparr>cur_productId = Some ''prod1'', cur_productName = ''S'', cur_legacyPlanId = ''plan1'',
     cur_startsAt = 0, cur_endsAt = 200000000\<rparr>"

theorem purchase_policy_sound_witness:
  "pol_forfeitedDays (decidePlanPurchasePolicy 100000000 ''prod2'' ''plan2'' (Some exampleCurrentPlan)
     (Some PreferImmediate) False) = 2"
proof -
  let ?p = "decidePlanPurchasePolicy 100000000 ''prod2'' ''plan2'' (Some exampleCurrentPlan)
     (Some PreferImmediate) False"
  have "pol_mode ?p = ActImmediate" by (simp add: decidePlanPurchasePolicy_def exampleCurrentPlan_def present_def)
  moreover have "case Some exampleCurrentPlan of None \<Rightarrow> True | Some c \<Rightarrow> 100000000 < cur_endsAt c"
    by (simp add: exampleCurrentPlan_def)
  ultimately have "(pol_forfeitedDays ?p - 1) * DAY_MS < 100000000 \<and> 100000000 \<le> pol_forfeitedDays ?p * DAY_MS"
    using purchase_policy_sound [where now = 100000000 and currentPlan = "Some exampleCurrentPlan", OF _ refl]
    by (simp add: exampleCurrentPlan_def)
  then show ?thesis by (simp add: DAY_MS_def)
qed

end
