(* ===== verification/Grants.thy ===== *)
theory Grants imports QuotaLaws PlanPolicy begin

text \<open>
  The life of an entitlement after it is granted: \<open>upgradeStandardPlan\<close>, \<open>updatePlanValidity\<close>,
  \<open>revokeGrant\<close>, \<open>revokeUserEntitlements\<close>, \<open>updateActiveProductAccessSnapshots\<close>,
  \<open>reverseOrderForFullRefund\<close> and \<open>reverseUltraForFullRefund\<close> of
  \<open>apps/api/src/entitlement/entitlement.service.ts\<close>.

  Every operation is the body of the transaction it runs in. Reasons the code writes itself are
  ASCII slugs of its (Chinese) texts.
\<close>

section \<open>Rows of the operations\<close>

definition updateGrant :: "id \<Rightarrow> (grant_row \<Rightarrow> grant_row) \<Rightarrow> db \<Rightarrow> error + db" where
  "updateGrant i f d = bindE (update_one g_id i f (grants d)) (\<lambda>gs. Inr (d\<lparr>grants := gs\<rparr>))"

definition grantSeries :: "grant_row \<Rightarrow> db \<Rightarrow> product_series option" where
  "grantSeries g d = map_option cp_series (lookup cp_id (g_productId g) (products d))"

text \<open>Groups' bonus entitlements hang on an order of the entitlement
  (\<open>groupBuyBonusFor: { is: { order: { is: { entitlementGrantId } } } }\<close>).\<close>

definition bonusOf :: "id \<Rightarrow> grant_row \<Rightarrow> db \<Rightarrow> bool" where
  "bonusOf grantId g d \<longleftrightarrow>
     (case lookup gm_bonusGrantId (Some (g_id g)) (groupMembers d) of
        None \<Rightarrow> False
      | Some m \<Rightarrow> Option.bind (Option.bind (gm_orderId m) (\<lambda>i. lookup mo_id i (orders d))) mo_grantId = Some grantId)"

definition grantBuckets :: "id \<Rightarrow> db \<Rightarrow> bucket_row list" where
  "grantBuckets grantId d = filter (\<lambda>b. qb_grantId b = grantId) (buckets d)"

section \<open>Upgrading a plan\<close>

datatype credit_basis = ActualPayment | AdminListPrice | PreviousUpgrade

text \<open>\<open>StandardUpgradeQuote\<close>; ISO dates are instants and byte counts integers.\<close>

record upgrade_quote =
  uq_userId :: id
  uq_grantId :: id
  uq_state :: string
  uq_quotedAt :: instant
  uq_expiresAt :: instant
  uq_startsAt :: instant
  uq_endsAt :: instant
  uq_sourceOrderId :: id
  uq_sourceProductName :: string
  uq_sourceProductId :: id
  uq_sourceTrafficBytes :: int
  uq_sourcePaidCents :: int
  uq_creditBasis :: "credit_basis option"
  uq_creditBasisCents :: "int option"
  uq_targetPriceCents :: int
  uq_creditCents :: int
  uq_targetRemainingCents :: int
  uq_upgradeFeeCents :: "int option"
  uq_payableCents :: int
  uq_target :: offer_snapshot

definition upgradeGrantRow :: "upgrade_quote \<Rightarrow> grant_row \<Rightarrow> grant_row" where
  "upgradeGrantRow q g = (let t = uq_target q in
     g\<lparr>g_productId := os_productId t, g_offerId := Some (os_offerId t), g_profileId := os_accessProfileId t,
       g_trafficBytes := Some (os_trafficBytes t), g_priceCents := Some (uq_targetPriceCents q),
       g_speedUp := os_speedUpMbps t, g_speedDown := os_speedDownMbps t, g_deviceLimit := os_deviceLimit t\<rparr>)"

definition upgradeSubscriptionRow :: "upgrade_quote \<Rightarrow> id \<Rightarrow> subscription_row \<Rightarrow> subscription_row" where
  "upgradeSubscriptionRow q planId s = (let t = uq_target q in
     s\<lparr>s_planId := planId, s_planOfferId := os_legacyPlanOfferId t, s_included := os_trafficBytes t,
       s_speedUp := os_speedUpMbps t, s_speedDown := os_speedDownMbps t, s_deviceLimit := os_deviceLimit t\<rparr>)"

definition upgradeStandardPlan :: "upgrade_quote \<Rightarrow> id \<Rightarrow> instant \<Rightarrow> db \<Rightarrow> error + db" where
  "upgradeStandardPlan q orderId at d =
     bindE (require (PrismaKnown ''P2025'') (List.find (\<lambda>g. g_id g = uq_grantId q \<and> g_userId g = uq_userId q
              \<and> g_status g = GrantActive) (grants d))) (\<lambda>g.
     case (List.find (bucketCurrent at) (grantBuckets (g_id g) d), present (g_subscriptionId g),
           present (os_legacyPlanId (uq_target q))) of
       (Some bucket, Some subscriptionId, Some planId) \<Rightarrow>
         if g_productId g \<noteq> uq_sourceProductId q \<or> g_endsAt g \<noteq> uq_endsAt q
         then Inl (Conflict ''upgrade-changed'')
         else
           bindE (creditQuotaBucket \<lparr>qc_bucketId = qb_id bucket,
                    qc_bytes = os_trafficBytes (uq_target q) - uq_sourceTrafficBytes q, qc_at = at,
                    qc_reason = ''upgrade-difference'', qc_idempotencyKey = ''plan-upgrade:'' @ orderId,
                    qc_actorId = None\<rparr> d) (\<lambda>(_, d1).
           bindE (updateGrant (g_id g) (upgradeGrantRow q) d1) (\<lambda>d2.
           updateSubscription subscriptionId (upgradeSubscriptionRow q planId) d2))
     | _ \<Rightarrow> Inl (Conflict ''upgrade-changed''))"

section \<open>Changing the validity of a plan\<close>

record validity_input =
  vi_endsAt :: "instant option"
  vi_expectedEndsAt :: "instant option"
  vi_reason :: string

definition overlappingPlan :: "id \<Rightarrow> grant_row \<Rightarrow> instant \<Rightarrow> db \<Rightarrow> grant_row \<Rightarrow> bool" where
  "overlappingPlan userId g endsAt d o1 \<longleftrightarrow> g_userId o1 = userId \<and> g_kind o1 = GrantPlan
     \<and> g_status o1 = GrantActive \<and> g_id o1 \<noteq> g_id g \<and> grantSeries o1 d = Some Standard
     \<and> g_startsAt o1 < endsAt \<and> g_startsAt g < g_endsAt o1"

definition cycleEnd :: "grant_row \<Rightarrow> instant \<Rightarrow> instant \<Rightarrow> instant" where
  "cycleEnd g endsAt startsAt =
     (let boundary = cb_endsAt (monthlyCycleBounds (nvl (g_resetAnchorAt g) (g_startsAt g)) endsAt startsAt)
      in if boundary < startsAt then startsAt else boundary)"

definition retimeBuckets :: "grant_row \<Rightarrow> instant \<Rightarrow> instant \<Rightarrow> db \<Rightarrow> error + db" where
  "retimeBuckets g endsAt now d =
     foldE (\<lambda>b. updateBucket (qb_id b) (\<lambda>r. r\<lparr>qb_endsAt := cycleEnd g endsAt (qb_startsAt b)\<rparr>))
       (filter (\<lambda>b. now < qb_endsAt b) (grantBuckets (g_id g) d)) d"

definition retimeSubscription :: "grant_row \<Rightarrow> instant \<Rightarrow> instant \<Rightarrow> db \<Rightarrow> error + db" where
  "retimeSubscription g endsAt now d =
     (case present (g_subscriptionId g) of
        None \<Rightarrow> Inr d
      | Some i \<Rightarrow>
          bindE (updateSubscription i (\<lambda>s. s\<lparr>s_endsAt := endsAt\<rparr>) d) (\<lambda>d1.
          foldE (\<lambda>c. updateCycle (sc_id c) (\<lambda>r. r\<lparr>sc_endsAt := cycleEnd g endsAt (sc_startsAt c)\<rparr>))
            (filter (\<lambda>c. sc_subscriptionId c = i \<and> now < sc_endsAt c) (cycles d1)) d1))"

definition retimeBonus :: "instant \<Rightarrow> instant \<Rightarrow> grant_row \<Rightarrow> db \<Rightarrow> error + db" where
  "retimeBonus before endsAt bonus d =
     bindE (updateGrant (g_id bonus) (\<lambda>g. g\<lparr>g_endsAt := endsAt\<rparr>) d) (\<lambda>d1.
     let d2 = d1\<lparr>buckets := update_many (\<lambda>b. qb_grantId b = g_id bonus \<and> qb_endsAt b = before)
                (\<lambda>b. b\<lparr>qb_endsAt := endsAt\<rparr>) (buckets d1)\<rparr>
     in case present (g_packId bonus) of
          None \<Rightarrow> Inr d2
        | Some p \<Rightarrow> updatePack p (\<lambda>r. r\<lparr>tp_expiresAt := Some endsAt\<rparr>) d2)"

definition planBonuses :: "id \<Rightarrow> id \<Rightarrow> instant \<Rightarrow> db \<Rightarrow> grant_row list" where
  "planBonuses userId grantId endsAt d = filter (\<lambda>g. g_userId g = userId \<and> g_status g = GrantActive
     \<and> g_endsAt g = endsAt \<and> bonusOf grantId g d) (grants d)"

definition retimable :: "id \<Rightarrow> id \<Rightarrow> validity_input \<Rightarrow> instant \<Rightarrow> instant \<Rightarrow> db \<Rightarrow> error + grant_row" where
  "retimable userId grantId input endsAt now d =
     bindE (require (NotFound ''plan-grant'') (List.find (\<lambda>g. g_id g = grantId \<and> g_userId g = userId
              \<and> g_kind g = GrantPlan \<and> g_status g = GrantActive) (grants d))) (\<lambda>g.
     bindE (require RangeError (vi_expectedEndsAt input)) (\<lambda>expected.
     bindE (guardE (Conflict ''validity-changed'') (g_endsAt g = expected)) (\<lambda>_.
     bindE (guardE (BadRequest ''not-current-plan'')
              (g_startsAt g \<le> now \<and> now < g_endsAt g \<and> getUTCFullYear (g_endsAt g) < 9999)) (\<lambda>_.
     bindE (guardE (Conflict ''overlapping-plan'')
              (\<not> (\<exists>o1 \<in> set (grants d). overlappingPlan userId g endsAt d o1))) (\<lambda>_. Inr g)))))"

definition updatePlanValidity ::
  "id \<Rightarrow> id \<Rightarrow> validity_input \<Rightarrow> id \<Rightarrow> instant \<Rightarrow> db \<Rightarrow> error + ((id \<times> instant) \<times> db)" where
  "updatePlanValidity userId grantId input actorId now d =
     (case vi_endsAt input of
        None \<Rightarrow> Inl (BadRequest ''validity-input'')
      | Some endsAt \<Rightarrow>
          if endsAt \<le> now \<or> blank (vi_reason input) then Inl (BadRequest ''validity-input'')
          else
            bindE (retimable userId grantId input endsAt now d) (\<lambda>g.
            bindE (updateGrant grantId (\<lambda>r. r\<lparr>g_endsAt := endsAt\<rparr>) d) (\<lambda>d1.
            bindE (retimeBuckets g endsAt now d1) (\<lambda>d2.
            bindE (retimeSubscription g endsAt now d2) (\<lambda>d3.
            bindE (foldE (retimeBonus (g_endsAt g) endsAt) (planBonuses userId grantId (g_endsAt g) d3) d3) (\<lambda>d4.
            Inr ((grantId, endsAt),
              createAudit (Some actorId) ''entitlement.validity.updated'' ''user'' (Some userId)
                (JObj [(''grantId'', JStr grantId), (''before'', JDate (g_endsAt g)), (''after'', JDate endsAt),
                       (''reason'', JStr (trim (vi_reason input)))]) d4)))))))"

section \<open>Revoking\<close>

record revoke_input =
  rv_grantId :: id
  rv_at :: instant
  rv_actorId :: "id option"
  rv_reason :: string
  rv_auditAction :: "string option"

definition unusedBytes :: "bucket_row list \<Rightarrow> int" where
  "unusedBytes rows = sum_list (map bucketRemaining rows)"

definition closeGrant :: "instant \<Rightarrow> grant_row \<Rightarrow> grant_row" where
  "closeGrant at g = g\<lparr>g_status := GrantCanceled, g_endsAt := at, g_activeSlot := None\<rparr>"

definition closeBuckets :: "id \<Rightarrow> instant \<Rightarrow> bucket_row list \<Rightarrow> bucket_row list" where
  "closeBuckets grantId at rows =
     update_many (\<lambda>b. qb_grantId b = grantId \<and> at < qb_endsAt b) (\<lambda>b. b\<lparr>qb_endsAt := at\<rparr>) rows"

definition closeSubscriptions :: "(subscription_row \<Rightarrow> bool) \<Rightarrow> instant \<Rightarrow> subscription_row list \<Rightarrow> subscription_row list" where
  "closeSubscriptions p at rows =
     update_many (\<lambda>s. p s \<and> (s_status s = SubActive \<or> s_status s = SubPaused))
       (\<lambda>s. s\<lparr>s_status := SubCanceled, s_endsAt := at\<rparr>) rows"

definition closePacks :: "(pack_row \<Rightarrow> bool) \<Rightarrow> instant \<Rightarrow> pack_row list \<Rightarrow> pack_row list" where
  "closePacks p at rows =
     update_many (\<lambda>r. p r \<and> tp_status r = PackActive)
       (\<lambda>r. r\<lparr>tp_status := PackExpired, tp_expiresAt := Some at, tp_remainingBytes := 0\<rparr>) rows"

definition revokeGrant :: "revoke_input \<Rightarrow> db \<Rightarrow> (bool \<times> int) \<times> db" where
  "revokeGrant input d =
     (case lookup g_id (rv_grantId input) (grants d) of
        None \<Rightarrow> ((False, 0), d)
      | Some g \<Rightarrow>
          if g_status g \<noteq> GrantActive then ((False, 0), d)
          else
            let unused = unusedBytes (grantBuckets (g_id g) d);
                at = rv_at input;
                d1 = d\<lparr>grants := update_many (\<lambda>r. g_id r = g_id g \<and> g_status r = GrantActive) (closeGrant at) (grants d),
                       buckets := closeBuckets (g_id g) at (buckets d),
                       subscriptions := (case present (g_subscriptionId g) of
                           None \<Rightarrow> subscriptions d
                         | Some i \<Rightarrow> closeSubscriptions (\<lambda>s. s_id s = i) at (subscriptions d)),
                       packs := (case present (g_packId g) of
                           None \<Rightarrow> packs d
                         | Some i \<Rightarrow> closePacks (\<lambda>r. tp_id r = i) at (packs d))\<rparr>
            in ((True, unused),
                createAudit (rv_actorId input) (nvl (rv_auditAction input) ''entitlement.grant.revoked'')
                  ''EntitlementGrant'' (Some (g_id g))
                  (JObj [(''reason'', JStr (rv_reason input)), (''revokedAt'', JDate at),
                         (''revokedUnusedBytes'', JBig unused)]) d1))"

definition activeGrants :: "id \<Rightarrow> db \<Rightarrow> grant_row list" where
  "activeGrants userId d = filter (\<lambda>g. g_userId g = userId \<and> g_status g = GrantActive) (grants d)"

definition revokeUserEntitlements ::
  "id \<Rightarrow> instant \<Rightarrow> id option \<Rightarrow> string \<Rightarrow> db \<Rightarrow> (nat \<times> nat \<times> nat) \<times> db" where
  "revokeUserEntitlements userId at actorId reason d =
     (let gs = activeGrants userId d;
          d1 = fold (\<lambda>g d. snd (revokeGrant \<lparr>rv_grantId = g_id g, rv_at = at, rv_actorId = actorId,
                 rv_reason = reason, rv_auditAction = Some ''entitlement.account_deleted''\<rparr> d)) gs d;
          subs = filter (\<lambda>s. s_userId s = userId \<and> (s_status s = SubActive \<or> s_status s = SubPaused)) (subscriptions d1);
          pks = filter (\<lambda>r. tp_userId r = userId \<and> tp_status r = PackActive) (packs d1)
      in ((length gs, length subs, length pks),
          d1\<lparr>subscriptions := closeSubscriptions (\<lambda>s. s_userId s = userId) at (subscriptions d1),
             packs := closePacks (\<lambda>r. tp_userId r = userId) at (packs d1)\<rparr>))"

record access_snapshot =
  as_productId :: id
  as_accessProfileId :: id
  as_speedUpMbps :: int
  as_speedDownMbps :: int
  as_deviceLimit :: int
  as_at :: instant

definition updateActiveProductAccessSnapshots :: "access_snapshot \<Rightarrow> db \<Rightarrow> nat \<times> db" where
  "updateActiveProductAccessSnapshots input d =
     (let hit = (\<lambda>g. g_productId g = as_productId input \<and> g_status g = GrantActive \<and> as_at input < g_endsAt g)
      in (length (filter hit (grants d)),
          d\<lparr>grants := update_many hit (\<lambda>g. g\<lparr>g_profileId := as_accessProfileId input,
              g_speedUp := as_speedUpMbps input, g_speedDown := as_speedDownMbps input,
              g_deviceLimit := as_deviceLimit input\<rparr>) (grants d)\<rparr>))"

section \<open>Full refunds\<close>

record reversal =
  rs_reversed :: bool
  rs_grantId :: "id option"
  rs_revokedBytes :: "int option"

definition notReversed :: reversal where
  "notReversed = \<lparr>rs_reversed = False, rs_grantId = None, rs_revokedBytes = None\<rparr>"

definition auditEntitlementRefund ::
  "id \<Rightarrow> id \<Rightarrow> id \<Rightarrow> id \<Rightarrow> instant \<Rightarrow> string \<Rightarrow> int option \<Rightarrow> db \<Rightarrow> db" where
  "auditEntitlementRefund actorId orderId refundId grantId reversedAt action revokedBytes d =
     createAudit (Some actorId) action ''EntitlementGrant'' (Some grantId)
       (JObj ([(''orderId'', JStr orderId), (''refundId'', JStr refundId), (''reversedAt'', JDate reversedAt)]
          @ (case revokedBytes of None \<Rightarrow> [] | Some n \<Rightarrow> [(''revokedBytes'', JBig n)]))) d"

text \<open>A quota reset is taken back as far as it is not used.\<close>

definition takeBackReset :: "adjustment_row \<Rightarrow> bucket_row \<Rightarrow> int \<Rightarrow> id \<Rightarrow> id \<Rightarrow> db \<Rightarrow> error + db" where
  "takeBackReset a b removable actorId refundId d =
     (if removable \<le> 0 then Inr d
      else
        bindE (updateBucket (qb_id b) (\<lambda>r. r\<lparr>qb_granted := qb_granted r - removable\<rparr>) d) (\<lambda>d1.
        bindE (case present (qa_cycleId a) of
             None \<Rightarrow> Inr d1
           | Some c \<Rightarrow> updateCycle c (\<lambda>r. r\<lparr>sc_adjustment := sc_adjustment r - removable\<rparr>) d1) (\<lambda>d2.
        bindE (createAdjustment (\<lambda>i. \<lparr>qa_id = i, qa_accountId = qa_accountId a, qa_cycleId = qa_cycleId a,
               qa_packId = None, qa_bucketId = Some (qb_id b), qa_actorId = Some actorId,
               qa_idempotencyKey = Some (''refund-entitlement:'' @ refundId), qa_mode = Delta,
               qa_delta = - removable, qa_before = bucketRemaining b, qa_after = bucketRemaining b - removable,
               qa_reason = ''full-refund-reset '' @ refundId\<rparr>) d2) (\<lambda>(_, d3). Inr d3))))"

definition reverseReset ::
  "order_row \<Rightarrow> grant_row \<Rightarrow> id \<Rightarrow> id \<Rightarrow> instant \<Rightarrow> db \<Rightarrow> error + (reversal \<times> db)" where
  "reverseReset o1 g actorId refundId reversedAt d =
     (case lookup qa_idempotencyKey (Some (''plan-reset:'' @ mo_id o1)) (adjustments d) of
        None \<Rightarrow> Inr (notReversed, d)
      | Some a \<Rightarrow>
          (case Option.bind (present (qa_bucketId a)) (\<lambda>i. lookup qb_id i (buckets d)) of
             None \<Rightarrow> Inr (notReversed, d)
           | Some b \<Rightarrow>
               let remaining = bucketRemaining b;
                   removable = (if remaining < qa_delta a then remaining else qa_delta a)
               in bindE (takeBackReset a b removable actorId refundId d) (\<lambda>d1.
                  Inr (\<lparr>rs_reversed = (0 < removable), rs_grantId = Some (g_id g), rs_revokedBytes = Some removable\<rparr>,
                       auditEntitlementRefund actorId (mo_id o1) refundId (g_id g) reversedAt
                         ''PLAN_RESET_ENTITLEMENT_REVERSED'' (Some removable) d1))))"

definition cancelWholeGrant :: "grant_row \<Rightarrow> instant \<Rightarrow> db \<Rightarrow> error + db" where
  "cancelWholeGrant g reversedAt d =
     (let d1 = d\<lparr>grants := update_many (\<lambda>r. g_id r = g_id g \<and> g_status r = GrantActive) (closeGrant reversedAt) (grants d),
                 buckets := closeBuckets (g_id g) reversedAt (buckets d)\<rparr>
      in case present (g_packId g) of
           None \<Rightarrow> Inr d1
         | Some p \<Rightarrow> updatePack p (\<lambda>r. r\<lparr>tp_status := PackExpired, tp_expiresAt := Some reversedAt,
                        tp_remainingBytes := 0\<rparr>) d1)"

definition contractualEnd :: "order_row \<Rightarrow> grant_row \<Rightarrow> instant" where
  "contractualEnd o1 g =
     (let months = nvl (mo_intervalMonths o1) 0; days = nvl (mo_durationDays o1) 0
      in if 0 < months then addUtcMonthsClamped (g_endsAt g) (- months)
         else g_endsAt g - days * 24 * 60 * 60 * 1000)"

definition shortenGrant :: "order_row \<Rightarrow> grant_row \<Rightarrow> instant \<Rightarrow> db \<Rightarrow> error + db" where
  "shortenGrant o1 g reversedAt d =
     (let endsAt = (if reversedAt < contractualEnd o1 g then contractualEnd o1 g else reversedAt);
          canceled = (endsAt \<le> reversedAt)
      in bindE (updateGrant (g_id g) (\<lambda>r. r\<lparr>g_endsAt := endsAt,
             g_status := (if canceled then GrantCanceled else GrantActive)\<rparr>) d) (\<lambda>d1.
         let d2 = d1\<lparr>buckets := closeBuckets (g_id g) endsAt (buckets d1)\<rparr>
         in case present (g_subscriptionId g) of
              None \<Rightarrow> Inr d2
            | Some i \<Rightarrow> updateSubscription i (\<lambda>s. s\<lparr>s_endsAt := endsAt,
                 s_status := (if canceled then SubCanceled else SubActive)\<rparr>) d2))"

definition orderProduct :: "order_row \<Rightarrow> db \<Rightarrow> product_row option" where
  "orderProduct o1 d = Option.bind (Option.bind (mo_catalogOfferId o1) (\<lambda>i. lookup co_id i (offers d)))
     (\<lambda>offer. lookup cp_id (co_productId offer) (products d))"

definition reverseOrderForFullRefund ::
  "id \<Rightarrow> id \<Rightarrow> id \<Rightarrow> instant \<Rightarrow> db \<Rightarrow> error + (reversal \<times> db)" where
  "reverseOrderForFullRefund orderId actorId refundId reversedAt d =
     (case lookup mo_id orderId (orders d) of
        None \<Rightarrow> Inr (notReversed, d)
      | Some o1 \<Rightarrow>
          (case Option.bind (mo_grantId o1) (\<lambda>i. lookup g_id i (grants d)) of
             None \<Rightarrow> Inr (notReversed, d)
           | Some g \<Rightarrow>
               if g_status g \<noteq> GrantActive then Inr (notReversed, d)
               else if mo_note o1 = Some ''PLAN_QUOTA_RESET''
                 then reverseReset o1 g actorId refundId reversedAt d
               else
                 bindE (if g_kind g = GrantTrafficPack \<or> map_option cp_series (orderProduct o1 d) = Some Ultra
                        then cancelWholeGrant g reversedAt d
                        else shortenGrant o1 g reversedAt d) (\<lambda>d1.
                 Inr (\<lparr>rs_reversed = True, rs_grantId = Some (g_id g), rs_revokedBytes = None\<rparr>,
                      auditEntitlementRefund actorId orderId refundId (g_id g) reversedAt
                        ''ORDER_ENTITLEMENT_REVERSED'' None d1))))"

definition reverseUltraForFullRefund ::
  "id \<Rightarrow> id \<Rightarrow> id \<Rightarrow> instant \<Rightarrow> db \<Rightarrow> error + (reversal \<times> db)" where
  "reverseUltraForFullRefund orderId actorId refundId reversedAt d =
     reverseOrderForFullRefund orderId actorId refundId reversedAt d"

end
