(* ===== verification/GrantLaws.thy ===== *)
theory GrantLaws imports Grants begin

text \<open>
  What revoking, retiming, upgrading and refunding of entitlements guarantee (the operations of
  \<open>Grants\<close>).
\<close>

section \<open>Revoking\<close>

definition revokedBy :: "id \<Rightarrow> instant \<Rightarrow> grant_row list \<Rightarrow> grant_row list" where
  "revokedBy i at gs = update_many (\<lambda>r. g_id r = i \<and> g_status r = GrantActive) (closeGrant at) gs"

lemma closeGrant_simps [simp]:
  "g_id (closeGrant at g) = g_id g" "g_userId (closeGrant at g) = g_userId g"
  "g_status (closeGrant at g) = GrantCanceled" "g_endsAt (closeGrant at g) = at"
  by (simp_all add: closeGrant_def)

lemma revokedBy_ids [simp]: "map g_id (revokedBy i at gs) = map g_id gs"
  by (simp add: revokedBy_def map_update_many)

lemma revokedBy_none: "g \<in> set (revokedBy i at gs) \<Longrightarrow> g_id g = i \<Longrightarrow> g_status g \<noteq> GrantActive"
  unfolding revokedBy_def by (elim update_many_memE) simp_all

lemma revokedBy_keeps: "g \<in> set (revokedBy i at gs) \<Longrightarrow> g_status g = GrantActive \<Longrightarrow> g \<in> set gs"
  unfolding revokedBy_def by (elim update_many_memE) simp_all

lemma revokedBy_from:
  "g \<in> set (revokedBy i at gs) \<Longrightarrow> \<exists>g0 \<in> set gs. g_id g0 = g_id g \<and> g_userId g0 = g_userId g"
  unfolding revokedBy_def by (elim update_many_memE) auto

lemma revokedBy_idle: "\<forall>g \<in> set gs. g_id g = i \<longrightarrow> g_status g \<noteq> GrantActive \<Longrightarrow> revokedBy i at gs = gs"
  unfolding revokedBy_def by (intro update_many_idle) auto

lemma revokedBy_others:
  "(\<And>g. g \<in> set gs \<Longrightarrow> g_id g = i \<Longrightarrow> \<not> p g) \<Longrightarrow> (\<And>g. p (closeGrant at g) = p g) \<Longrightarrow>
   filter p (revokedBy i at gs) = filter p gs"
  by (induction gs) (auto simp: revokedBy_def)

lemma revokeGrant_none:
  "\<forall>g \<in> set (grants d). g_id g = rv_grantId input \<longrightarrow> g_status g \<noteq> GrantActive \<Longrightarrow> revokeGrant input d = ((False, 0), d)"
  by (cases "lookup g_id (rv_grantId input) (grants d)") (auto simp: revokeGrant_def dest!: lookup_SomeD)

lemma revokeGrant_some:
  assumes "lookup g_id (rv_grantId input) (grants d) = Some g" and "g_status g = GrantActive"
  shows "fst (revokeGrant input d) = (True, unusedBytes (grantBuckets (rv_grantId input) d))"
    and "grants (snd (revokeGrant input d)) = revokedBy (rv_grantId input) (rv_at input) (grants d)"
    and "buckets (snd (revokeGrant input d)) = closeBuckets (rv_grantId input) (rv_at input) (buckets d)"
proof -
  have "g_id g = rv_grantId input" using lookup_SomeD [OF assms(1)] by simp
  then show "fst (revokeGrant input d) = (True, unusedBytes (grantBuckets (rv_grantId input) d))"
    "grants (snd (revokeGrant input d)) = revokedBy (rv_grantId input) (rv_at input) (grants d)"
    "buckets (snd (revokeGrant input d)) = closeBuckets (rv_grantId input) (rv_at input) (buckets d)"
    using assms by (simp_all add: revokeGrant_def Let_def revokedBy_def)
qed

text \<open>Either nothing of that id is active, or the row found is.\<close>

lemma revokeGrant_cases:
  assumes "distinct (map g_id (grants d))"
  obtains (idle) "\<forall>g \<in> set (grants d). g_id g = rv_grantId input \<longrightarrow> g_status g \<noteq> GrantActive"
  | (found) g where "lookup g_id (rv_grantId input) (grants d) = Some g" "g_status g = GrantActive"
proof (cases "\<exists>g \<in> set (grants d). g_id g = rv_grantId input \<and> g_status g = GrantActive")
  case True
  then obtain g where "g \<in> set (grants d)" "g_id g = rv_grantId input" "g_status g = GrantActive" by blast
  then show ?thesis using found lookup_mem [OF assms, of g] by simp
next
  case False
  then show ?thesis using idle by blast
qed

lemma revokeGrant_grants:
  assumes "distinct (map g_id (grants d))"
  shows "grants (snd (revokeGrant input d)) = revokedBy (rv_grantId input) (rv_at input) (grants d)"
  using assms by (cases rule: revokeGrant_cases [where input = input])
    (simp_all add: revokeGrant_none revokeGrant_some revokedBy_idle)

lemma closeBuckets_ends: "b \<in> set (closeBuckets i at rows) \<Longrightarrow> qb_grantId b = i \<Longrightarrow> qb_endsAt b \<le> at"
  unfolding closeBuckets_def by (elim update_many_memE) auto

lemma closeBuckets_others: "filter (\<lambda>b. qb_grantId b \<noteq> i) (closeBuckets i at rows) = filter (\<lambda>b. qb_grantId b \<noteq> i) rows"
  by (induction rows) (auto simp: closeBuckets_def)

lemma closeBuckets_usage:
  "map (\<lambda>b. (qb_id b, qb_granted b, qb_consumed b)) (closeBuckets i at rows)
     = map (\<lambda>b. (qb_id b, qb_granted b, qb_consumed b)) rows"
  by (simp add: closeBuckets_def map_update_many)

text \<open>C14: a revoked entitlement is over: it is no longer active, none of its periods runs past the
  revocation, what was used stays on record, the unused bytes are reported, no other entitlement is
  touched, and revoking it again does nothing.\<close>

theorem revokeGrant_final:
  assumes "revokeGrant input d = ((revoked, unused), d')" and "distinct (map g_id (grants d))"
  shows "(\<forall>g \<in> set (grants d'). g_id g = rv_grantId input \<longrightarrow> g_status g \<noteq> GrantActive)
    \<and> (revoked \<longrightarrow> (\<forall>b \<in> set (buckets d'). qb_grantId b = rv_grantId input \<longrightarrow> qb_endsAt b \<le> rv_at input)
         \<and> unused = unusedBytes (grantBuckets (rv_grantId input) d))
    \<and> map (\<lambda>b. (qb_id b, qb_granted b, qb_consumed b)) (buckets d')
        = map (\<lambda>b. (qb_id b, qb_granted b, qb_consumed b)) (buckets d)
    \<and> filter (\<lambda>g. g_id g \<noteq> rv_grantId input) (grants d') = filter (\<lambda>g. g_id g \<noteq> rv_grantId input) (grants d)
    \<and> filter (\<lambda>b. qb_grantId b \<noteq> rv_grantId input) (buckets d')
        = filter (\<lambda>b. qb_grantId b \<noteq> rv_grantId input) (buckets d)
    \<and> revokeGrant input d' = ((False, 0), d')"
proof -
  let ?i = "rv_grantId input" and ?at = "rv_at input"
  have gs: "grants d' = revokedBy ?i ?at (grants d)" using revokeGrant_grants [OF assms(2), of input] assms(1) by simp
  have bs: "if revoked then buckets d' = closeBuckets ?i ?at (buckets d) \<and> unused = unusedBytes (grantBuckets ?i d)
      else buckets d' = buckets d"
    using assms(2) by (cases rule: revokeGrant_cases [where input = input])
      (use assms(1) in \<open>auto simp: revokeGrant_none dest: revokeGrant_some\<close>)
  have none: "\<forall>g \<in> set (grants d'). g_id g = ?i \<longrightarrow> g_status g \<noteq> GrantActive"
    using revokedBy_none gs by auto
  have "revokeGrant input d' = ((False, 0), d')" using none by (rule revokeGrant_none)
  moreover have "filter (\<lambda>g. g_id g \<noteq> ?i) (grants d') = filter (\<lambda>g. g_id g \<noteq> ?i) (grants d)"
    unfolding gs by (rule revokedBy_others) simp_all
  ultimately show ?thesis using none bs closeBuckets_ends closeBuckets_usage closeBuckets_others
    by (cases revoked) auto
qed

definition exampleRevoke :: revoke_input where
  "exampleRevoke = \<lparr>rv_grantId = ''g1'', rv_at = 1709300000000, rv_actorId = None, rv_reason = ''r'',
     rv_auditAction = None\<rparr>"

theorem revokeGrant_final_witness:
  "\<not> (\<exists>b \<in> set (buckets (snd (revokeGrant exampleRevoke exampleQuotaUser))). qb_grantId b = ''g1'' \<and>
     1709300000000 < qb_endsAt b)"
proof -
  obtain r u d' where run: "revokeGrant exampleRevoke exampleQuotaUser = ((r, u), d')" by (metis surj_pair)
  have "fst (fst (revokeGrant exampleRevoke exampleQuotaUser))" by code_simp
  then have "r" using run by simp
  moreover have "distinct (map g_id (grants exampleQuotaUser))" by (simp add: exampleQuotaUser_def exampleQuotaDb_def)
  ultimately show ?thesis using revokeGrant_final [OF run] run by (force simp: exampleRevoke_def)
qed

section \<open>Deleting an account\<close>

definition revokeAll :: "instant \<Rightarrow> id option \<Rightarrow> string \<Rightarrow> grant_row list \<Rightarrow> db \<Rightarrow> db" where
  "revokeAll at actorId reason gs d =
     fold (\<lambda>g d. snd (revokeGrant \<lparr>rv_grantId = g_id g, rv_at = at, rv_actorId = actorId,
        rv_reason = reason, rv_auditAction = Some ''entitlement.account_deleted''\<rparr> d)) gs d"

lemma revokeAll_grants:
  "distinct (map g_id (grants d)) \<Longrightarrow>
   grants (revokeAll at actorId reason gs d) = fold (\<lambda>g. revokedBy (g_id g) at) gs (grants d)"
proof (induction gs arbitrary: d)
  case (Cons g gs)
  let ?in = "\<lparr>rv_grantId = g_id g, rv_at = at, rv_actorId = actorId, rv_reason = reason,
      rv_auditAction = Some ''entitlement.account_deleted''\<rparr>"
  have "grants (snd (revokeGrant ?in d)) = revokedBy (g_id g) at (grants d)"
    using revokeGrant_grants [OF Cons.prems, of ?in] by simp
  then show ?case using Cons.IH [of "snd (revokeGrant ?in d)"] Cons.prems by (simp add: revokeAll_def)
qed (simp add: revokeAll_def)

lemma fold_revoked_keeps:
  "g \<in> set (fold (\<lambda>x. revokedBy (g_id x) at) xs gs) \<Longrightarrow> g_status g = GrantActive \<Longrightarrow>
   g \<in> set gs \<and> g_id g \<notin> g_id ` set xs"
proof (induction xs arbitrary: gs)
  case (Cons x xs)
  have "g \<in> set (revokedBy (g_id x) at gs)" "g_id g \<notin> g_id ` set xs"
    using Cons.IH [of "revokedBy (g_id x) at gs"] Cons.prems by simp_all
  then show ?case using revokedBy_keeps revokedBy_none Cons.prems(2) by auto
qed simp

lemma fold_revoked_others:
  "(\<And>x g. x \<in> set xs \<Longrightarrow> g \<in> set gs \<Longrightarrow> g_id g = g_id x \<Longrightarrow> g_userId g = u) \<Longrightarrow>
   filter (\<lambda>g. g_userId g \<noteq> u) (fold (\<lambda>x. revokedBy (g_id x) at) xs gs) = filter (\<lambda>g. g_userId g \<noteq> u) gs"
proof (induction xs arbitrary: gs)
  case (Cons x xs)
  have first: "filter (\<lambda>g. g_userId g \<noteq> u) (revokedBy (g_id x) at gs) = filter (\<lambda>g. g_userId g \<noteq> u) gs"
    by (rule revokedBy_others) (use Cons.prems in auto)
  have "filter (\<lambda>g. g_userId g \<noteq> u) (fold (\<lambda>x. revokedBy (g_id x) at) xs (revokedBy (g_id x) at gs))
      = filter (\<lambda>g. g_userId g \<noteq> u) (revokedBy (g_id x) at gs)"
  proof (rule Cons.IH)
    fix y g
    assume y: "y \<in> set xs" and g: "g \<in> set (revokedBy (g_id x) at gs)" "g_id g = g_id y"
    then obtain g0 where "g0 \<in> set gs" "g_id g0 = g_id g" "g_userId g0 = g_userId g"
      using revokedBy_from by blast
    then show "g_userId g = u" using Cons.prems [of y g0] y g by simp
  qed
  then show ?case using first by simp
qed simp

lemma revokeUserEntitlements_clears:
  assumes "distinct (map g_id (grants d))"
    and "d' = snd (revokeUserEntitlements userId at actorId reason d)"
  shows "activeGrants userId d' = []
    \<and> (\<forall>s \<in> set (subscriptions d'). s_userId s = userId \<longrightarrow> s_status s \<noteq> SubActive \<and> s_status s \<noteq> SubPaused)
    \<and> (\<forall>p \<in> set (packs d'). tp_userId p = userId \<longrightarrow> tp_status p \<noteq> PackActive)
    \<and> filter (\<lambda>g. g_userId g \<noteq> userId) (grants d') = filter (\<lambda>g. g_userId g \<noteq> userId) (grants d)"
proof -
  let ?gs = "activeGrants userId d"
  let ?d1 = "revokeAll at actorId reason ?gs d"
  have d': "d' = ?d1\<lparr>subscriptions := closeSubscriptions (\<lambda>s. s_userId s = userId) at (subscriptions ?d1),
             packs := closePacks (\<lambda>r. tp_userId r = userId) at (packs ?d1)\<rparr>"
    using assms(2) by (simp add: revokeUserEntitlements_def revokeAll_def Let_def)
  then have gs: "grants d' = fold (\<lambda>g. revokedBy (g_id g) at) ?gs (grants d)"
    by (simp add: revokeAll_grants [OF assms(1)])
  have "g \<notin> set (activeGrants userId d')" for g
    using fold_revoked_keeps [of g at ?gs "grants d"] gs by (auto simp: activeGrants_def)
  then have none: "activeGrants userId d' = []" by (metis last_in_set)
  have "g_userId g = userId" if "x \<in> set ?gs" "g \<in> set (grants d)" "g_id g = g_id x" for x g
  proof -
    have "x \<in> set (grants d)" "g_userId x = userId" using that(1) by (auto simp: activeGrants_def)
    then show ?thesis using that lookup_mem [OF assms(1), of x] lookup_mem [OF assms(1), of g] by simp
  qed
  then have "filter (\<lambda>g. g_userId g \<noteq> userId) (grants d') = filter (\<lambda>g. g_userId g \<noteq> userId) (grants d)"
    unfolding gs by (rule fold_revoked_others)
  moreover have "s_status s \<noteq> SubActive \<and> s_status s \<noteq> SubPaused"
    if "s \<in> set (subscriptions d')" "s_userId s = userId" for s
    using that unfolding d' closeSubscriptions_def by (simp, elim update_many_memE) auto
  moreover have "tp_status p \<noteq> PackActive" if "p \<in> set (packs d')" "tp_userId p = userId" for p
    using that unfolding d' closePacks_def by (simp, elim update_many_memE) auto
  ultimately show ?thesis using none by blast
qed

text \<open>Deleting an account leaves it nothing: no active entitlement, no active or paused
  subscription and no active pack of that member, while every entitlement of anybody else stays as
  it is.\<close>

theorem revokeUserEntitlements_leaves_nothing:
  assumes "distinct (map g_id (grants d))"
    and "d' = snd (revokeUserEntitlements userId at actorId reason d)"
  shows "activeGrants userId d' = []
    \<and> (\<forall>s \<in> set (subscriptions d'). s_userId s = userId \<longrightarrow> s_status s \<noteq> SubActive \<and> s_status s \<noteq> SubPaused)
    \<and> (\<forall>p \<in> set (packs d'). tp_userId p = userId \<longrightarrow> tp_status p \<noteq> PackActive)
    \<and> filter (\<lambda>g. g_userId g \<noteq> userId) (grants d') = filter (\<lambda>g. g_userId g \<noteq> userId) (grants d)"
  by (rule revokeUserEntitlements_clears [OF assms])

theorem revokeUserEntitlements_leaves_nothing_witness:
  "activeGrants ''u1'' (snd (revokeUserEntitlements ''u1'' 1709300000000 None ''r'' exampleQuotaUser)) = []"
proof -
  have "distinct (map g_id (grants exampleQuotaUser))" by (simp add: exampleQuotaUser_def exampleQuotaDb_def)
  then show ?thesis using revokeUserEntitlements_leaves_nothing by blast
qed

section \<open>Loops of updates by key\<close>

text \<open>A loop that updates each row of a list once is one update of the table.\<close>

lemma lookup_filter:
  "distinct (map key rows) \<Longrightarrow> r \<in> set rows \<Longrightarrow> lookup key (key r) (filter p rows) = (if p r then Some r else None)"
  by (induction rows) (auto simp: table_simps image_iff)

definition updateEach :: "('r \<Rightarrow> 'k) \<Rightarrow> ('r \<Rightarrow> 'r \<Rightarrow> 'r) \<Rightarrow> 'r list \<Rightarrow> 'r list \<Rightarrow> 'r list" where
  "updateEach key f xs rows = map (\<lambda>r. case lookup key (key r) xs of None \<Rightarrow> r | Some x \<Rightarrow> f x r) rows"

lemma updateEach_Cons:
  assumes "key x \<notin> set (map key xs)" and "\<And>y r. key (f y r) = key r"
  shows "updateEach key f xs (update_many (\<lambda>r. key r = key x) (f x) rows) = updateEach key f (x # xs) rows"
proof -
  have "lookup key (key x) xs = None" using assms(1) by (simp add: table_simps)
  then show ?thesis using assms(2) by (induction rows) (auto simp: updateEach_def)
qed

lemma foldE_updateBucket:
  assumes "foldE (\<lambda>b. updateBucket (qb_id b) (f b)) xs d = Inr d'" and "distinct (map qb_id xs)"
    and "\<And>b r. qb_id (f b r) = qb_id r"
  shows "d' = d\<lparr>buckets := updateEach qb_id f xs (buckets d)\<rparr>"
  using assms(1,2)
proof (induction xs arbitrary: d)
  case Nil
  then show ?case by (simp add: updateEach_def)
next
  case (Cons x xs)
  then obtain m where m: "updateBucket (qb_id x) (f x) d = Inr m"
      "foldE (\<lambda>b. updateBucket (qb_id b) (f b)) xs m = Inr d'" by (auto simp: err_simps)
  have "m = d\<lparr>buckets := update_many (\<lambda>r. qb_id r = qb_id x) (f x) (buckets d)\<rparr>"
    using m(1) by (simp add: updateBucket_eq_Inr)
  moreover have "updateEach qb_id f xs (update_many (\<lambda>r. qb_id r = qb_id x) (f x) (buckets d))
      = updateEach qb_id f (x # xs) (buckets d)"
    by (rule updateEach_Cons) (use Cons.prems(2) assms(3) in auto)
  ultimately show ?case using Cons.IH [OF m(2)] Cons.prems(2) by simp
qed

lemma updateEach_filter:
  assumes "distinct (map key rows)"
  shows "updateEach key f (filter p rows) rows = update_many p (\<lambda>r. f r r) rows"
  unfolding updateEach_def update_many_def by (rule map_cong) (simp_all add: lookup_filter [OF assms])

lemma retimeBuckets_rows:
  assumes "retimeBuckets g endsAt now d = Inr d'" and "distinct (map qb_id (buckets d))"
  shows "d' = d\<lparr>buckets := update_many (\<lambda>b. qb_grantId b = g_id g \<and> now < qb_endsAt b)
      (\<lambda>b. b\<lparr>qb_endsAt := cycleEnd g endsAt (qb_startsAt b)\<rparr>) (buckets d)\<rparr>"
proof -
  let ?xs = "filter (\<lambda>b. qb_grantId b = g_id g \<and> now < qb_endsAt b) (buckets d)"
  have "filter (\<lambda>b. now < qb_endsAt b) (grantBuckets (g_id g) d) = ?xs"
    by (simp add: grantBuckets_def conj_commute)
  then have run: "foldE (\<lambda>b. updateBucket (qb_id b) (\<lambda>r. r\<lparr>qb_endsAt := cycleEnd g endsAt (qb_startsAt b)\<rparr>)) ?xs d = Inr d'"
    using assms(1) by (simp add: retimeBuckets_def)
  have "distinct (map qb_id ?xs)" using assms(2) by (simp add: distinct_map_filter)
  from foldE_updateBucket [OF run this] show ?thesis by (simp add: updateEach_filter [OF assms(2)])
qed

section \<open>Retiming a plan\<close>

definition usageFace :: "bucket_row \<Rightarrow> id \<times> id \<times> instant \<times> int \<times> int" where
  "usageFace b = (qb_id b, qb_grantId b, qb_startsAt b, qb_granted b, qb_consumed b)"

text \<open>Rows whose end moves to \<open>e\<close>, and nothing else of them.\<close>

definition movesTo :: "instant \<Rightarrow> id set \<Rightarrow> db \<Rightarrow> db \<Rightarrow> bool" where
  "movesTo e ids d d' \<longleftrightarrow> products d' = products d
     \<and> list_all2 (\<lambda>g h. h = g \<or> h = g\<lparr>g_endsAt := e\<rparr> \<and> g_id g \<in> ids) (grants d) (grants d')
     \<and> list_all2 (\<lambda>b c. c = b \<or> c = b\<lparr>qb_endsAt := e\<rparr>) (buckets d) (buckets d')"

lemma movesTo_refl: "movesTo e ids d d"
  by (simp add: movesTo_def list_all2_same)

lemma movesTo_same:
  "products d' = products d \<Longrightarrow> grants d' = grants d \<Longrightarrow> buckets d' = buckets d \<Longrightarrow> movesTo e ids d d'"
  by (simp add: movesTo_def list_all2_same)

lemma movesTo_trans [trans]: "movesTo e ids d d' \<Longrightarrow> movesTo e ids d' d'' \<Longrightarrow> movesTo e ids d d''"
proof -
  have g: "list_all2 (\<lambda>g h. h = g \<or> h = g\<lparr>g_endsAt := e\<rparr> \<and> g_id g \<in> ids) xs zs"
    if "list_all2 (\<lambda>g h. h = g \<or> h = g\<lparr>g_endsAt := e\<rparr> \<and> g_id g \<in> ids) xs ys"
      "list_all2 (\<lambda>g h. h = g \<or> h = g\<lparr>g_endsAt := e\<rparr> \<and> g_id g \<in> ids) ys zs" for xs ys zs :: "grant_row list"
    by (rule list_all2_trans [OF _ that]) auto
  have b: "list_all2 (\<lambda>b c. c = b \<or> c = b\<lparr>qb_endsAt := e\<rparr>) xs zs"
    if "list_all2 (\<lambda>b c. c = b \<or> c = b\<lparr>qb_endsAt := e\<rparr>) xs ys"
      "list_all2 (\<lambda>b c. c = b \<or> c = b\<lparr>qb_endsAt := e\<rparr>) ys zs" for xs ys zs :: "bucket_row list"
    by (rule list_all2_trans [OF _ that]) auto
  show "movesTo e ids d d' \<Longrightarrow> movesTo e ids d' d'' \<Longrightarrow> movesTo e ids d d''"
    unfolding movesTo_def using g b by auto
qed

lemma list_all2_update_many: "(\<And>x. R x x) \<Longrightarrow> (\<And>x. p x \<Longrightarrow> R x (f x)) \<Longrightarrow> list_all2 R xs (update_many p f xs)"
  by (induction xs) auto

lemma updateGrant_eq_Inr:
  "updateGrant i f d = Inr d' \<longleftrightarrow> i \<in> set (map g_id (grants d))
     \<and> d' = d\<lparr>grants := update_many (\<lambda>r. g_id r = i) f (grants d)\<rparr>"
  by (auto simp: updateGrant_def err_simps)

lemma updateGrant_moves:
  "updateGrant i (\<lambda>g. g\<lparr>g_endsAt := e\<rparr>) d = Inr d' \<Longrightarrow> i \<in> ids \<Longrightarrow> movesTo e ids d d'"
  by (auto simp: updateGrant_eq_Inr movesTo_def list_all2_same intro!: list_all2_update_many)

lemma retimeBonus_moves:
  assumes "retimeBonus before e bonus d = Inr d'" and "g_id bonus \<in> ids"
  shows "movesTo e ids d d'"
proof -
  obtain d1 where d1: "updateGrant (g_id bonus) (\<lambda>g. g\<lparr>g_endsAt := e\<rparr>) d = Inr d1"
      "products d' = products d1" "grants d' = grants d1"
      "buckets d' = update_many (\<lambda>b. qb_grantId b = g_id bonus \<and> qb_endsAt b = before)
                (\<lambda>b. b\<lparr>qb_endsAt := e\<rparr>) (buckets d1)"
    using assms(1) by (auto simp: retimeBonus_def updatePack_def err_simps Let_def split: option.splits)
  have "movesTo e ids d d1" by (rule updateGrant_moves [OF d1(1) assms(2)])
  also have "movesTo e ids d1 d'"
    using d1 by (auto simp: movesTo_def list_all2_same intro!: list_all2_update_many)
  finally show ?thesis .
qed

lemma retimeBonuses_moves:
  "foldE (retimeBonus before e) bs d = Inr d' \<Longrightarrow> g_id ` set bs \<subseteq> ids \<Longrightarrow> movesTo e ids d d'"
proof (induction bs arbitrary: d)
  case (Cons b bs)
  then obtain m where m: "retimeBonus before e b d = Inr m" "foldE (retimeBonus before e) bs m = Inr d'"
    by (auto simp: err_simps)
  have "movesTo e ids d m" using retimeBonus_moves [OF m(1)] Cons.prems(2) by simp
  also have "movesTo e ids m d'" using Cons.IH [OF m(2)] Cons.prems(2) by simp
  finally show ?case .
qed (simp add: movesTo_refl)

lemma retimeSubscription_frame:
  assumes "retimeSubscription g e now d = Inr d'"
  shows "products d' = products d \<and> grants d' = grants d \<and> buckets d' = buckets d"
proof -
  have frame: "products x = products d \<and> grants x = grants d \<and> buckets x = buckets d"
    if "foldE (\<lambda>c. updateCycle (sc_id c) (f c)) cs m = Inr x"
      "products m = products d" "grants m = grants d" "buckets m = buckets d" for f cs m x
    by (rule foldE_keeps [where Q = "\<lambda>y. products y = products d \<and> grants y = grants d \<and> buckets y = buckets d", OF that(1)])
      (use that in \<open>auto simp: updateCycle_def err_simps\<close>)
  show ?thesis using assms
    by (auto simp: retimeSubscription_def updateSubscription_def err_simps split: option.splits dest!: frame)
qed

lemma updatePlanValidity_stages:
  assumes "updatePlanValidity userId grantId input actor now d = Inr (r, d')"
  obtains e g d1 d2 d3 d4 where "vi_endsAt input = Some e" "now < e"
    "retimable userId grantId input e now d = Inr g" "updateGrant grantId (\<lambda>r. r\<lparr>g_endsAt := e\<rparr>) d = Inr d1"
    "retimeBuckets g e now d1 = Inr d2" "retimeSubscription g e now d2 = Inr d3"
    "foldE (retimeBonus (g_endsAt g) e) (planBonuses userId grantId (g_endsAt g) d3) d3 = Inr d4"
    "products d' = products d4" "grants d' = grants d4" "buckets d' = buckets d4"
  using assms by (fastforce simp: updatePlanValidity_def err_simps not_le split: option.splits if_splits)

lemma retimable_facts:
  assumes "retimable userId grantId input e now d = Inr g"
  shows "g \<in> set (grants d)" and "g_id g = grantId" and "g_startsAt g \<le> now" and "now < g_endsAt g"
    and "getUTCFullYear (g_endsAt g) < 9999" and "\<And>x. x \<in> set (grants d) \<Longrightarrow> \<not> overlappingPlan userId g e d x"
  using assms by (auto simp: retimable_def err_simps find_Some_iff)

lemma cycleEnd_le: "startsAt \<le> e \<Longrightarrow> cycleEnd g e startsAt \<le> e"
  by (simp add: cycleEnd_def monthlyCycleBounds_offset Let_def)

lemma list_all2_backE:
  assumes "list_all2 R xs ys" and "y \<in> set ys"
  obtains x where "x \<in> set xs" "R x y"
  using assms by (metis in_set_conv_nth list_all2_conv_all_nth)

lemma list_all2_frontE:
  assumes "list_all2 R xs ys" and "x \<in> set xs"
  obtains y where "y \<in> set ys" "R x y"
  using assms by (metis in_set_conv_nth list_all2_conv_all_nth)

lemma movesTo_usage:
  assumes "movesTo e ids d d'"
  shows "map usageFace (buckets d') = map usageFace (buckets d)"
proof -
  have "list_all2 (\<lambda>x y. usageFace y = usageFace x) (buckets d) (buckets d')"
    using assms unfolding movesTo_def by (auto elim!: list_all2_mono simp: usageFace_def)
  then show ?thesis by (simp add: list_all2_conv_all_nth list_eq_iff_nth_eq)
qed

text \<open>The bonuses of the plan end with it, so no other plan that ended later is moved.\<close>

lemma bonus_ended:
  assumes "x \<in> set (planBonuses userId grantId before d3)" and "grants d3 = grants d1"
    and "grants d1 = update_many (\<lambda>r. g_id r = grantId) (\<lambda>r. r\<lparr>g_endsAt := e\<rparr>) (grants d)"
    and "distinct (map g_id (grants d))" and "y \<in> set (grants d)" and "g_id y = g_id x" and "g_id y \<noteq> grantId"
  shows "g_endsAt y = before"
proof -
  have "x \<in> set (grants d1)" "g_endsAt x = before" using assms(1,2) by (simp_all add: planBonuses_def)
  then have "x \<in> set (grants d)" using assms(3,6,7) by (auto elim: update_many_memE)
  then have "x = y" using lookup_mem [OF assms(4)] assms(5,6) by (metis option.inject)
  then show ?thesis using \<open>g_endsAt x = before\<close> by simp
qed

lemma moved_no_overlap:
  assumes g: "retimable userId grantId input e now d = Inr g"
    and d3: "grants d3 = update_many (\<lambda>r. g_id r = grantId) (\<lambda>r. r\<lparr>g_endsAt := e\<rparr>) (grants d)"
      "products d3 = products d" "distinct (map g_id (grants d))"
    and moved: "movesTo e (g_id ` set (planBonuses userId grantId (g_endsAt g) d3)) d3 d4"
    and x: "x \<in> set (grants d4)"
  shows "\<not> overlappingPlan userId (g\<lparr>g_endsAt := e\<rparr>) e d4 x"
proof
  assume over: "overlappingPlan userId (g\<lparr>g_endsAt := e\<rparr>) e d4 x"
  let ?ids = "g_id ` set (planBonuses userId grantId (g_endsAt g) d3)"
  note gf = retimable_facts [OF g]
  obtain y where y: "y \<in> set (grants d3)" "x = y \<or> x = y\<lparr>g_endsAt := e\<rparr> \<and> g_id y \<in> ?ids"
    using moved x by (auto simp: movesTo_def elim: list_all2_backE)
  have id: "g_id y \<noteq> grantId" using over y(2) gf(2) by (auto simp: overlappingPlan_def)
  then have mem: "y \<in> set (grants d)" using y(1) d3(1) by (auto elim: update_many_memE)
  have prods: "products d4 = products d" using moved d3 by (simp add: movesTo_def)
  have "g_startsAt g < g_endsAt y"
  proof (cases "x = y")
    case False
    then obtain z where "z \<in> set (planBonuses userId grantId (g_endsAt g) d3)" "g_id y = g_id z" using y(2) by auto
    then have "g_endsAt y = g_endsAt g" using bonus_ended [OF _ refl d3(1,3) mem _ id] by simp
    then show ?thesis using gf(3,4) by simp
  qed (use over in \<open>simp add: overlappingPlan_def\<close>)
  then have "overlappingPlan userId g e d y"
    using over y(2) by (auto simp: overlappingPlan_def grantSeries_def prods)
  then show False using gf(6) mem by blast
qed

text \<open>C15: changing the validity of a plan gives it exactly the chosen end, creates no overlap with
  another active standard plan of the member, lets no running period outlive the plan, and changes
  neither what was granted nor what was used in any period.\<close>

theorem updatePlanValidity_sound:
  assumes "updatePlanValidity userId grantId input actor now d = Inr (r, d')"
    and "distinct (map g_id (grants d))" and "distinct (map qb_id (buckets d))"
  shows "\<exists>e. vi_endsAt input = Some e
    \<and> (\<exists>g \<in> set (grants d'). g_id g = grantId \<and> g_endsAt g = e
         \<and> (\<forall>x \<in> set (grants d'). \<not> overlappingPlan userId g e d' x))
    \<and> map usageFace (buckets d') = map usageFace (buckets d)
    \<and> (\<forall>b \<in> set (buckets d'). qb_grantId b = grantId \<and> now < qb_endsAt b \<and> qb_startsAt b \<le> e \<longrightarrow> qb_endsAt b \<le> e)"
proof -
  obtain e g d1 d2 d3 d4 where e: "vi_endsAt input = Some e" "now < e"
    and g: "retimable userId grantId input e now d = Inr g"
    and run: "updateGrant grantId (\<lambda>r. r\<lparr>g_endsAt := e\<rparr>) d = Inr d1" "retimeBuckets g e now d1 = Inr d2"
      "retimeSubscription g e now d2 = Inr d3"
      "foldE (retimeBonus (g_endsAt g) e) (planBonuses userId grantId (g_endsAt g) d3) d3 = Inr d4"
      "products d' = products d4" "grants d' = grants d4" "buckets d' = buckets d4"
    by (rule updatePlanValidity_stages [OF assms(1)])
  note gf = retimable_facts [OF g]
  let ?ids = "g_id ` set (planBonuses userId grantId (g_endsAt g) d3)"
  have d1: "grants d1 = update_many (\<lambda>r. g_id r = grantId) (\<lambda>r. r\<lparr>g_endsAt := e\<rparr>) (grants d)"
      "buckets d1 = buckets d" "products d1 = products d"
    using run(1) by (auto simp: updateGrant_eq_Inr)
  let ?live = "\<lambda>b. qb_grantId b = g_id g \<and> now < qb_endsAt b"
  let ?cut = "\<lambda>b. b\<lparr>qb_endsAt := cycleEnd g e (qb_startsAt b)\<rparr>"
  have d2: "d2 = d1\<lparr>buckets := update_many ?live ?cut (buckets d)\<rparr>"
    using retimeBuckets_rows [OF run(2)] assms(3) d1(2) by simp
  note d3 = retimeSubscription_frame [OF run(3)]
  have moved: "movesTo e ?ids d3 d4" by (rule retimeBonuses_moves [OF run(4)]) simp
  have "map usageFace (buckets d4) = map usageFace (buckets d)"
    using movesTo_usage [OF moved] d3 d2 by (simp add: map_update_many usageFace_def)
  moreover have "qb_endsAt b \<le> e"
    if b: "b \<in> set (buckets d4)" "qb_grantId b = grantId" "now < qb_endsAt b" "qb_startsAt b \<le> e" for b
  proof -
    obtain c where c: "c \<in> set (buckets d3)" "b = c \<or> b = c\<lparr>qb_endsAt := e\<rparr>"
      using moved b(1) by (auto simp: movesTo_def elim: list_all2_backE)
    show ?thesis
    proof (cases "b = c")
      case True
      have "c \<in> set (update_many ?live ?cut (buckets d))" using c(1) d3 d2 by simp
      then show ?thesis using True b(2-4) gf(2) cycleEnd_le [of _ e g] by (elim update_many_memE) auto
    qed (use c(2) in simp)
  qed
  moreover have "\<not> overlappingPlan userId (g\<lparr>g_endsAt := e\<rparr>) e d' x" if "x \<in> set (grants d4)" for x
    using moved_no_overlap [OF g _ _ assms(2) moved that] d1 d2 d3 run(5)
    by (simp add: overlappingPlan_def grantSeries_def)
  moreover have "\<exists>h \<in> set (grants d4). g_id h = grantId \<and> g_endsAt h = e \<and> g_startsAt h = g_startsAt g"
  proof -
    have "g\<lparr>g_endsAt := e\<rparr> \<in> set (grants d3)" using gf(1,2) d1(1) d3 d2 by (auto simp: set_update_many)
    then obtain h where "h \<in> set (grants d4)" "h = g\<lparr>g_endsAt := e\<rparr>"
      using moved by (auto simp: movesTo_def elim!: list_all2_frontE)
    then show ?thesis using gf(2) by (intro bexI [of _ h]) simp_all
  qed
  ultimately show ?thesis using run(6,7) e(1) gf(2) by (fastforce simp: overlappingPlan_def)
qed

definition exampleValidity :: validity_input where
  "exampleValidity = \<lparr>vi_endsAt = Some 1711929600000, vi_expectedEndsAt = Some 1714521600000, vi_reason = ''r''\<rparr>"

lemma not_blank_r: "\<not> blank ''r''"
  by code_simp

text \<open>The loops over a plan's own periods never fail.\<close>

lemma foldE_updateBucket_total:
  "qb_id ` set xs \<subseteq> qb_id ` set (buckets d) \<Longrightarrow> (\<And>b r. qb_id (f b r) = qb_id r) \<Longrightarrow>
   \<exists>d'. foldE (\<lambda>b. updateBucket (qb_id b) (f b)) xs d = Inr d' \<and> groupMembers d' = groupMembers d"
proof (induction xs arbitrary: d)
  case (Cons x xs)
  let ?m = "d\<lparr>buckets := update_many (\<lambda>r. qb_id r = qb_id x) (f x) (buckets d)\<rparr>"
  have step: "updateBucket (qb_id x) (f x) d = Inr ?m" using Cons.prems(1) by (simp add: updateBucket_eq_Inr)
  have "map qb_id (update_many (\<lambda>r. qb_id r = qb_id x) (f x) (buckets d)) = map qb_id (buckets d)"
    by (rule map_update_many) (rule Cons.prems(2))
  then have "qb_id ` set (buckets ?m) = qb_id ` set (buckets d)"
    unfolding list.set_map [symmetric] by simp
  then show ?case using Cons.IH [of ?m] Cons.prems step by auto
qed simp

lemma updatePlanValidity_runs:
  assumes "vi_endsAt input = Some e" and "now < e" and "\<not> blank (vi_reason input)"
    and "retimable userId grantId input e now d = Inr g" and "g_subscriptionId g = None" and "groupMembers d = []"
  shows "\<exists>r d'. updatePlanValidity userId grantId input actor now d = Inr (r, d')"
proof -
  let ?d1 = "d\<lparr>grants := update_many (\<lambda>r. g_id r = grantId) (\<lambda>r. r\<lparr>g_endsAt := e\<rparr>) (grants d)\<rparr>"
  have d1: "updateGrant grantId (\<lambda>r. r\<lparr>g_endsAt := e\<rparr>) d = Inr ?d1"
    using retimable_facts(1,2) [OF assms(4)] by (auto simp: updateGrant_eq_Inr)
  obtain d2 where d2: "retimeBuckets g e now ?d1 = Inr d2" "groupMembers d2 = groupMembers d"
    using foldE_updateBucket_total [of "filter (\<lambda>b. now < qb_endsAt b) (grantBuckets (g_id g) ?d1)" ?d1
        "\<lambda>b r. r\<lparr>qb_endsAt := cycleEnd g e (qb_startsAt b)\<rparr>"]
    by (auto simp: retimeBuckets_def grantBuckets_def)
  have "planBonuses userId grantId (g_endsAt g) d2 = []"
    using d2(2) assms(6) by (simp add: planBonuses_def bonusOf_def)
  moreover have "retimeSubscription g e now d2 = Inr d2" using assms(5) by (simp add: retimeSubscription_def present_def)
  ultimately show ?thesis using assms(1-4) d1 d2(1) by (simp add: updatePlanValidity_def)
qed

theorem updatePlanValidity_sound_witness:
  "\<exists>r d'. updatePlanValidity ''u1'' ''g1'' exampleValidity ''admin'' 1709300000000 exampleQuotaUser = Inr (r, d')
     \<and> map usageFace (buckets d') = map usageFace (buckets exampleQuotaUser)"
proof -
  have "retimable ''u1'' ''g1'' exampleValidity 1711929600000 1709300000000 exampleQuotaUser = Inr exampleGrant"
    by code_simp
  moreover have "vi_endsAt exampleValidity = Some 1711929600000" "\<not> blank (vi_reason exampleValidity)"
      "g_subscriptionId exampleGrant = None" "groupMembers exampleQuotaUser = []"
    using not_blank_r
    by (simp_all add: exampleValidity_def exampleGrant_def exampleQuotaUser_def exampleQuotaDb_def emptyDb_def)
  ultimately obtain r d' where run:
      "updatePlanValidity ''u1'' ''g1'' exampleValidity ''admin'' 1709300000000 exampleQuotaUser = Inr (r, d')"
    using updatePlanValidity_runs [of exampleValidity 1711929600000 1709300000000] by fastforce
  have "distinct (map g_id (grants exampleQuotaUser))" "distinct (map qb_id (buckets exampleQuotaUser))"
    by (simp_all add: exampleQuotaUser_def exampleQuotaDb_def newBucket_def)
  then show ?thesis using updatePlanValidity_sound [OF run] run by blast
qed

text \<open>A permanent entitlement cannot be retimed: its end lies in the year 9999, which the
  operation refuses whatever the input.\<close>

theorem permanent_not_retimable:
  assumes "\<forall>g \<in> set (grants d). g_id g = grantId \<longrightarrow> g_endsAt g = permanentEntitlementEnd"
  shows "isl (updatePlanValidity userId grantId input actor now d)"
proof (cases "updatePlanValidity userId grantId input actor now d")
  case (Inr res)
  then obtain e g where "retimable userId grantId input e now d = Inr g"
    by (cases res) (auto elim: updatePlanValidity_stages)
  from retimable_facts [OF this] have "getUTCFullYear permanentEntitlementEnd < 9999" using assms by auto
  moreover have "getUTCFullYear permanentEntitlementEnd = 9999" by code_simp
  ultimately show ?thesis by simp
qed simp

theorem permanent_not_retimable_witness:
  "isl (updatePlanValidity ''u1'' ''g1'' exampleValidity ''admin'' 1709300000000
     (exampleQuotaUser\<lparr>grants := [exampleGrant\<lparr>g_endsAt := permanentEntitlementEnd\<rparr>]\<rparr>))"
  by (rule permanent_not_retimable) simp

section \<open>Refunds\<close>

text \<open>The contractual end of a renewal by months: where the plan ended before, exactly when the month the renewal
  ended in has that day, and otherwise as many days earlier as that month is short of it.\<close>

lemma contractualEnd_renewal:
  assumes "mo_intervalMonths o1 = Some m" and "0 < m" and "fullYearMonth (monthOf before)"
    and "g_endsAt g = redemptionAddMonths before m anchorDay" and "1 \<le> anchorDay"
    and "getUTCDate before = min anchorDay (monthDays (monthOf before))"
  shows "contractualEnd o1 g
    = before - max 0 (getUTCDate before - monthDays (monthOf before + m)) * msPerDay"
proof -
  let ?e = "redemptionAddMonths before m anchorDay" and ?c = "contractualEnd o1 g"
  have full: "fullYearMonth (monthOf before + m)" using assms(2,3) by (simp add: fullYearMonth_def)
  note e = redemptionAddMonths_readings [OF full assms(5)]
  have c: "?c = addUtcMonthsClamped ?e (- m)" using assms(1,2,4) by (simp add: contractualEnd_def)
  have fe: "fullYearMonth (monthOf ?e)" "fullYearMonth (monthOf ?e + - m)" using e(1) full assms(3) by simp_all
  have r: "monthOf ?c = monthOf before" "timeInDay ?c = timeInDay before"
      "getUTCDate ?c = min (getUTCDate before) (monthDays (monthOf before + m))"
    unfolding c using addUtcMonthsClamped_readings [OF fe] e assms(6) by simp_all
  have "getUTCDate ?c = getUTCDate before - max 0 (getUTCDate before - monthDays (monthOf before + m))"
    using r(3) by linarith
  then have "?c = (monthStart (monthOf before)
      + (getUTCDate before - max 0 (getUTCDate before - monthDays (monthOf before + m))) - 1) * msPerDay + timeInDay before"
    using date_split [of ?c] r(1,2) by simp
  then show ?thesis using date_split [of before] by (simp add: algebra_simps)
qed

definition exampleOrder :: order_row where
  "exampleOrder = \<lparr>mo_id = ''o1'', mo_userId = ''u1'', mo_planId = None, mo_planOfferId = None,
     mo_packProductId = None, mo_catalogOfferId = Some ''offer1'',
     mo_status = OrderApplied, mo_kind = OrderRenewal, mo_source = SourceWallet, mo_amountCents = 3000,
     mo_basePriceCents = Some 3000, mo_discountCents = 0, mo_durationDays = None, mo_trafficBytes = Some 1000,
     mo_entitlementExpiresAt = Some 1714521600000, mo_billingPeriod = None, mo_intervalMonths = Some 1, mo_profileId = Some ''prof1'',
     mo_speedUp = Some 100, mo_speedDown = Some 100, mo_deviceLimit = Some 3, mo_multiplier = Some 10000,
     mo_requiresActivePlan = Some False, mo_quotaCadence = Some MonthlyReset, mo_resetAnchorAt = None,
     mo_upgradeFromProductId = None, mo_upgradeFromPriceCents = None, mo_planUpgrade = None,
     mo_grantId = Some ''g1'', mo_idempotencyKey = None, mo_note = None, mo_createdAt = 1706745600000,
     mo_processedAt = Some 1706745600000\<rparr>"

lemma shortenGrant_rows:
  assumes "shortenGrant o1 g at d = Inr d'" and "e = max (contractualEnd o1 g) at"
  shows "grants d' = update_many (\<lambda>r. g_id r = g_id g)
      (\<lambda>r. r\<lparr>g_endsAt := e, g_status := (if e \<le> at then GrantCanceled else GrantActive)\<rparr>) (grants d)
    \<and> buckets d' = closeBuckets (g_id g) e (buckets d)"
proof -
  have "(if at < contractualEnd o1 g then contractualEnd o1 g else at) = e" using assms(2) by simp
  then show ?thesis using assms(1)
    by (auto simp: shortenGrant_def err_simps Let_def updateGrant_eq_Inr updateSubscription_def split: option.splits)
qed

text \<open>C16: the full refund of a renewal by months takes the renewal back: the entitlement ends again where it ended before,
  exactly when the month the renewal ended in has that day, and otherwise earlier by as many days as that
  month is short of it; but never before the instant of the refund, and an entitlement that ends there is canceled. Its
  periods end with it, what was granted and used in them stays on record, and no other entitlement or
  period changes.\<close>

theorem refund_takes_renewal_back:
  assumes run: "reverseOrderForFullRefund orderId actor refundId at d = Inr (r, d')"
    and o1: "lookup mo_id orderId (orders d) = Some o1" "mo_grantId o1 = Some i" "mo_note o1 \<noteq> Some ''PLAN_QUOTA_RESET''"
    and g: "lookup g_id i (grants d) = Some g" "g_status g = GrantActive" "g_kind g \<noteq> GrantTrafficPack"
      "map_option cp_series (orderProduct o1 d) \<noteq> Some Ultra"
    and renewal: "mo_intervalMonths o1 = Some m" "0 < m" "fullYearMonth (monthOf before)"
      "g_endsAt g = redemptionAddMonths before m anchorDay" "1 \<le> anchorDay"
      "getUTCDate before = min anchorDay (monthDays (monthOf before))"
    and e: "e = max (before - max 0 (getUTCDate before - monthDays (monthOf before + m)) * msPerDay) at"
  shows "rs_reversed r \<and> lookup g_id i (grants d')
        = Some (g\<lparr>g_endsAt := e, g_status := (if e \<le> at then GrantCanceled else GrantActive)\<rparr>)
    \<and> (\<forall>j. j \<noteq> i \<longrightarrow> lookup g_id j (grants d') = lookup g_id j (grants d))
    \<and> (\<forall>b \<in> set (buckets d'). qb_grantId b = i \<longrightarrow> qb_endsAt b \<le> e)
    \<and> map (\<lambda>b. (qb_id b, qb_granted b, qb_consumed b)) (buckets d') = map (\<lambda>b. (qb_id b, qb_granted b, qb_consumed b)) (buckets d)
    \<and> filter (\<lambda>b. qb_grantId b \<noteq> i) (buckets d') = filter (\<lambda>b. qb_grantId b \<noteq> i) (buckets d)"
proof -
  have i: "g_id g = i" using lookup_SomeD [OF g(1)] by simp
  have e': "e = max (contractualEnd o1 g) at" using e contractualEnd_renewal [OF renewal] by simp
  have "\<exists>d1. shortenGrant o1 g at d = Inr d1 \<and> rs_reversed r \<and> grants d' = grants d1 \<and> buckets d' = buckets d1"
    using run o1 g by (auto simp: reverseOrderForFullRefund_def err_simps auditEntitlementRefund_def simp del: map_option_eq_Some)
  then obtain d1 where d1: "shortenGrant o1 g at d = Inr d1" "rs_reversed r" "grants d' = grants d1" "buckets d' = buckets d1"
    by blast
  note rows = shortenGrant_rows [OF d1(1) e', unfolded i]
  have "lookup g_id j (grants d') = (if j = i then Some (g\<lparr>g_endsAt := e, g_status := (if e \<le> at then GrantCanceled else GrantActive)\<rparr>)
      else lookup g_id j (grants d))" for j
    using rows g(1) d1(3) by (simp add: lookup_update_key)
  moreover have "qb_endsAt b \<le> e" if "b \<in> set (buckets d')" "qb_grantId b = i" for b
    using that closeBuckets_ends [of b i e] rows d1(4) by simp
  ultimately show ?thesis using rows d1(2,4) closeBuckets_usage closeBuckets_others by auto
qed

text \<open>The plan that began on January 31 and ends on March 31 is renewed to April 30 and refunded to
  March 30.\<close>

definition exampleRenewed :: db where
  "exampleRenewed = exampleQuotaUser\<lparr>orders := [exampleOrder],
     grants := [exampleGrant\<lparr>g_endsAt := redemptionAddMonths 1711843200000 1 31\<rparr>]\<rparr>"

theorem refund_takes_renewal_back_witness:
  "\<exists>r d'. reverseOrderForFullRefund ''o1'' ''admin'' ''r1'' 1709300000000 exampleRenewed = Inr (r, d')
     \<and> map_option g_endsAt (lookup g_id ''g1'' (grants d')) = Some (1711843200000 - msPerDay)"
proof -
  let ?g = "exampleGrant\<lparr>g_endsAt := redemptionAddMonths 1711843200000 1 31\<rparr>"
  have "\<not> isl (reverseOrderForFullRefund ''o1'' ''admin'' ''r1'' 1709300000000 exampleRenewed)" by code_simp
  then obtain r d' where run: "reverseOrderForFullRefund ''o1'' ''admin'' ''r1'' 1709300000000 exampleRenewed = Inr (r, d')"
    using not_isl_obtain by fastforce
  have db: "lookup mo_id ''o1'' (orders exampleRenewed) = Some exampleOrder" "lookup g_id ''g1'' (grants exampleRenewed) = Some ?g"
    by (simp_all add: exampleRenewed_def exampleOrder_def exampleGrant_def)
  have rows: "mo_grantId exampleOrder = Some ''g1''" "mo_note exampleOrder \<noteq> Some ''PLAN_QUOTA_RESET''"
    "mo_intervalMonths exampleOrder = Some 1" "g_status ?g = GrantActive" "g_kind ?g \<noteq> GrantTrafficPack"
    "g_endsAt ?g = redemptionAddMonths 1711843200000 1 31"
    by (simp_all add: exampleOrder_def exampleGrant_def)
  have series: "map_option cp_series (orderProduct exampleOrder exampleRenewed) \<noteq> Some Ultra" by code_simp
  have "fullYearMonth (monthOf 1711843200000)" "getUTCDate 1711843200000 = min 31 (monthDays (monthOf 1711843200000))"
      and short: "max 0 (getUTCDate 1711843200000 - monthDays (monthOf 1711843200000 + 1)) = 1" by code_simp+
  from refund_takes_renewal_back [OF run db(1) rows(1,2) db(2) rows(4,5) series rows(3) _ this(1) rows(6) _ this(2) refl]
  show ?thesis unfolding short using run by (auto simp: msPerDay_def)
qed

text \<open>A refunded reset.\<close>

lemma takeBackReset_adjusts:
  assumes "takeBackReset a b removable actor refundId d = Inr d'" and "lookup qb_id (qb_id b) (buckets d) = Some b"
    and "removable \<le> bucketRemaining b"
  shows "adjusts d d'"
    and "grantedOf d' (qb_id b) = Some (qb_granted b - max 0 removable)"
    and "0 < removable \<Longrightarrow> creditKeySpent d' (''refund-entitlement:'' @ refundId)
           \<and> \<not> creditKeySpent d (''refund-entitlement:'' @ refundId)"
proof -
  have "adjusts d d' \<and> grantedOf d' (qb_id b) = Some (qb_granted b - max 0 removable)
    \<and> (0 < removable \<longrightarrow> creditKeySpent d' (''refund-entitlement:'' @ refundId)
         \<and> \<not> creditKeySpent d (''refund-entitlement:'' @ refundId))"
  proof (cases "removable \<le> 0")
    case True
    then show ?thesis using assms(1,2) by (simp add: takeBackReset_def adjusts_refl grantedOf_def)
  next
    case False
    let ?row = "\<lambda>i. \<lparr>qa_id = i, qa_accountId = qa_accountId a, qa_cycleId = qa_cycleId a,
               qa_packId = None, qa_bucketId = Some (qb_id b), qa_actorId = Some actor,
               qa_idempotencyKey = Some (''refund-entitlement:'' @ refundId), qa_mode = Delta,
               qa_delta = - removable, qa_before = bucketRemaining b, qa_after = bucketRemaining b - removable,
               qa_reason = ''full-refund-reset '' @ refundId\<rparr>"
    obtain d1 d2 i where s: "updateBucket (qb_id b) (\<lambda>r. r\<lparr>qb_granted := qb_granted r - removable\<rparr>) d = Inr d1"
      "(case present (qa_cycleId a) of None \<Rightarrow> Inr d1
        | Some c \<Rightarrow> updateCycle c (\<lambda>r. r\<lparr>sc_adjustment := sc_adjustment r - removable\<rparr>) d1) = Inr d2"
      "createAdjustment ?row d2 = Inr (i, d')"
      using assms(1) False by (auto simp: takeBackReset_def err_simps)
    note f = updateBucket_rows [OF s(1)] mirrored_frame [OF s(2)] createAdjustment_rows [OF s(3)]
    have mem: "b \<in> set (buckets d)" using lookup_SomeD [OF assms(2)] by simp
    have "adjusts d d1"
    proof (rule updateBucket_adjusts [OF s(1) assms(2)])
      assume "bucketsWithin (buckets d)"
      then have "bucketRemaining b = qb_granted b - qb_consumed b"
        using bucketsWithin_le [OF _ mem] by (simp add: bucketRemaining_def positivePart_le)
      then show "qb_consumed b \<le> qb_granted (b\<lparr>qb_granted := qb_granted b - removable\<rparr>)" using assms(3) by simp
    qed (simp add: bucketFace_def)
    also have "adjusts d1 d2" using s(2) by (auto intro: adjusts_refl updateCycle_adjusts split: option.splits)
    also have "adjusts d2 d'" by (rule createAdjustment_adjusts [OF s(3)]) (use assms(3) in \<open>simp add: booked_def\<close>)
    finally have "adjusts d d'" .
    moreover have "grantedOf d' (qb_id b) = Some (qb_granted b - max 0 removable)"
      using f assms(2) False by (simp add: grantedOf_def lookup_update_key)
    moreover have "\<not> creditKeySpent d (''refund-entitlement:'' @ refundId)"
      using s(3) f by (auto simp: createAdjustment_def err_simps adjustmentClash_def creditKeySpent_def)
    ultimately show ?thesis using f by (auto simp: creditKeySpent_def)
  qed
  then show "adjusts d d'" "grantedOf d' (qb_id b) = Some (qb_granted b - max 0 removable)"
    "0 < removable \<Longrightarrow> creditKeySpent d' (''refund-entitlement:'' @ refundId)
           \<and> \<not> creditKeySpent d (''refund-entitlement:'' @ refundId)" by blast+
qed

lemma reverseReset_cases:
  assumes "reverseReset o1 g actor refundId at d = Inr (r, d')"
  obtains (none) "r = notReversed" "d' = d"
  | (taken) a b d1 where "lookup qa_idempotencyKey (Some (''plan-reset:'' @ mo_id o1)) (adjustments d) = Some a"
      "qa_bucketId a = Some (qb_id b)" "lookup qb_id (qb_id b) (buckets d) = Some b"
      "takeBackReset a b (min (bucketRemaining b) (qa_delta a)) actor refundId d = Inr d1"
      "r = \<lparr>rs_reversed = (0 < min (bucketRemaining b) (qa_delta a)), rs_grantId = Some (g_id g),
            rs_revokedBytes = Some (min (bucketRemaining b) (qa_delta a))\<rparr>"
      "buckets d' = buckets d1" "adjustments d' = adjustments d1"
proof (cases "lookup qa_idempotencyKey (Some (''plan-reset:'' @ mo_id o1)) (adjustments d)")
  case None
  then show ?thesis using assms none by (simp add: reverseReset_def)
next
  case (Some a)
  show ?thesis
  proof (cases "Option.bind (present (qa_bucketId a)) (\<lambda>i. lookup qb_id i (buckets d))")
    case None
    then show ?thesis using assms none Some by (simp add: reverseReset_def)
  next
    case (Some b)
    have m: "(if bucketRemaining b < qa_delta a then bucketRemaining b else qa_delta a)
        = min (bucketRemaining b) (qa_delta a)" by simp
    obtain i where i: "qa_bucketId a = Some i" "lookup qb_id i (buckets d) = Some b"
      using Some by (auto simp: bind_eq_Some_conv)
    then have "qb_id b = i" using lookup_SomeD by fastforce
    then show ?thesis using taken [of a b] assms i Some \<open>lookup qa_idempotencyKey _ _ = Some a\<close>
      by (auto simp: reverseReset_def m err_simps Let_def auditEntitlementRefund_def)
  qed
qed

lemma reverse_is_reset:
  assumes "reverseOrderForFullRefund orderId actor refundId at d = Inr (r, d')"
    and "lookup mo_id orderId (orders d) = Some o1" and "mo_note o1 = Some ''PLAN_QUOTA_RESET''"
  shows "r = notReversed \<and> d' = d \<or> (\<exists>g. reverseReset o1 g actor refundId at d = Inr (r, d'))"
  using assms by (auto simp: reverseOrderForFullRefund_def split: option.splits if_splits)

text \<open>Refunding a bought quota reset takes back the bytes it had added as far as they are unused,
  books the change, and leaves no period consumed beyond its grant; the same refund takes bytes back
  at most once.\<close>

theorem reset_refund_bounded:
  assumes "reverseOrderForFullRefund orderId actor refundId at d = Inr (r, d')"
    and "lookup mo_id orderId (orders d) = Some o1" and "mo_note o1 = Some ''PLAN_QUOTA_RESET''"
    and "bucketsWithin (buckets d)"
  shows "bucketsWithin (buckets d') \<and> map bucketFace (buckets d') = map bucketFace (buckets d)
    \<and> (\<forall>n. rs_revokedBytes r = Some n \<longrightarrow> (\<exists>a b.
         lookup qa_idempotencyKey (Some (''plan-reset:'' @ mo_id o1)) (adjustments d) = Some a
         \<and> qa_bucketId a = Some (qb_id b) \<and> lookup qb_id (qb_id b) (buckets d) = Some b
         \<and> n = min (bucketRemaining b) (qa_delta a) \<and> grantedOf d' (qb_id b) = Some (qb_granted b - max 0 n)))
    \<and> (creditKeySpent d (''refund-entitlement:'' @ refundId) \<longrightarrow> \<not> rs_reversed r \<and> buckets d' = buckets d)
    \<and> (rs_reversed r \<longrightarrow> creditKeySpent d' (''refund-entitlement:'' @ refundId))"
proof -
  consider "r = notReversed" "d' = d" | g where "reverseReset o1 g actor refundId at d = Inr (r, d')"
    using reverse_is_reset [OF assms(1-3)] by blast
  then show ?thesis
  proof cases
    case 1
    then show ?thesis using assms(4) by (simp add: notReversed_def)
  next
    case 2
    then show ?thesis
    proof (cases rule: reverseReset_cases)
      case none
      then show ?thesis using assms(4) by (simp add: notReversed_def)
    next
      case (taken a b d1)
      note t = takeBackReset_adjusts [OF taken(4,3)]
      have "grantedOf d' i = grantedOf d1 i" "creditKeySpent d' k = creditKeySpent d1 k" for i k
        using taken(6,7) by (simp_all add: grantedOf_def creditKeySpent_def)
      moreover have "buckets d1 = buckets d" if "\<not> 0 < min (bucketRemaining b) (qa_delta a)"
        using taken(4) that by (simp add: takeBackReset_def)
      ultimately show ?thesis using t taken assms(4) by (auto simp: adjusts_def)
    qed
  qed
qed

definition exampleResetDb :: db where
  "exampleResetDb = exampleQuotaUser\<lparr>orders := [exampleOrder\<lparr>mo_note := Some ''PLAN_QUOTA_RESET''\<rparr>],
     adjustments := [\<lparr>qa_id = ''a1'', qa_accountId = ''acc1'', qa_cycleId = None, qa_packId = None,
       qa_bucketId = Some ''b1'', qa_actorId = None, qa_idempotencyKey = Some ''plan-reset:o1'', qa_mode = Delta,
       qa_delta = 800, qa_before = 0, qa_after = 800, qa_reason = ''reset''\<rparr>]\<rparr>"

theorem reset_refund_bounded_witness:
  "\<exists>r d'. reverseOrderForFullRefund ''o1'' ''admin'' ''rf1'' 1709300000000 exampleResetDb = Inr (r, d')
     \<and> bucketsWithin (buckets d')"
proof -
  let ?run = "reverseOrderForFullRefund ''o1'' ''admin'' ''rf1'' 1709300000000 exampleResetDb"
  have "\<not> isl ?run" by code_simp
  then obtain r d' where run: "?run = Inr (r, d')" by (cases ?run) auto
  have "lookup mo_id ''o1'' (orders exampleResetDb) = Some (exampleOrder\<lparr>mo_note := Some ''PLAN_QUOTA_RESET''\<rparr>)"
    by (simp add: exampleResetDb_def exampleOrder_def)
  moreover have "bucketsWithin (buckets exampleResetDb)" using exampleQuotaUser_within by (simp add: exampleResetDb_def)
  ultimately show ?thesis using reset_refund_bounded [OF run] run by simp
qed

section \<open>Upgrades\<close>

lemma creditQuotaBucket_grants:
  assumes "creditQuotaBucket c d = Inr (r, d')"
  shows "grants d' = grants d"
proof (cases "creditKeySpent d (qc_idempotencyKey c)")
  case True
  then show ?thesis using creditQuotaBucket_replay [OF assms] by simp
next
  case False
  show ?thesis
    by (rule creditQuotaBucket_stages [OF assms False])
      (auto dest!: updateBucket_rows updateCycle_rows createAdjustment_rows split: option.splits)
qed

lemma upgradeGrantRow_simps [simp]:
  "g_id (upgradeGrantRow q g) = g_id g" "g_userId (upgradeGrantRow q g) = g_userId g"
  "g_status (upgradeGrantRow q g) = g_status g" "g_startsAt (upgradeGrantRow q g) = g_startsAt g"
  "g_endsAt (upgradeGrantRow q g) = g_endsAt g" "g_resetAnchorAt (upgradeGrantRow q g) = g_resetAnchorAt g"
  "g_multiplier (upgradeGrantRow q g) = g_multiplier g" "g_productId (upgradeGrantRow q g) = os_productId (uq_target q)"
  by (simp_all add: upgradeGrantRow_def Let_def)

lemma upgradeStandardPlan_stages:
  assumes "upgradeStandardPlan q orderId at d = Inr d'"
  obtains g b r d1 d2 where "g \<in> set (grants d)" "g_id g = uq_grantId q" "g_status g = GrantActive"
    "b \<in> set (buckets d)" "qb_grantId b = g_id g" "bucketCurrent at b"
    "creditQuotaBucket \<lparr>qc_bucketId = qb_id b,
        qc_bytes = os_trafficBytes (uq_target q) - uq_sourceTrafficBytes q, qc_at = at,
        qc_reason = ''upgrade-difference'', qc_idempotencyKey = ''plan-upgrade:'' @ orderId,
        qc_actorId = None\<rparr> d = Inr (r, d1)"
    "updateGrant (g_id g) (upgradeGrantRow q) d1 = Inr d2" "grants d' = grants d2" "buckets d' = buckets d2"
proof -
  obtain g where g: "List.find (\<lambda>g. g_id g = uq_grantId q \<and> g_userId g = uq_userId q \<and> g_status g = GrantActive) (grants d)
      = Some g"
    using assms by (auto simp: upgradeStandardPlan_def err_simps)
  obtain b where b: "List.find (bucketCurrent at) (grantBuckets (g_id g) d) = Some b"
    using assms g by (auto simp: upgradeStandardPlan_def err_simps split: option.splits)
  have "b \<in> set (grantBuckets (g_id g) d)" "bucketCurrent at b" using b by (auto simp: find_Some_iff)
  then have "b \<in> set (buckets d)" "qb_grantId b = g_id g" "bucketCurrent at b" by (simp_all add: grantBuckets_def)
  moreover have "g \<in> set (grants d)" "g_id g = uq_grantId q" "g_status g = GrantActive"
    using g by (auto simp: find_Some_iff)
  ultimately show thesis
    using that [of g b] assms g b
    by (auto simp: upgradeStandardPlan_def err_simps updateSubscription_def split: option.splits if_splits)
qed

lemma upgraded_again:
  assumes "\<forall>g \<in> set (grants d). g_id g = uq_grantId q \<and> g_status g = GrantActive \<longrightarrow> g_productId g \<noteq> uq_sourceProductId q"
  shows "\<not> (\<exists>x. upgradeStandardPlan q orderId at d = Inr x)"
  using assms by (auto simp: upgradeStandardPlan_def err_simps find_Some_iff split: option.splits)

text \<open>Upgrading a plan adds exactly the difference of the two allowances to the running period,
  once per order, leaves all consumption and the plan's start, end and reset day as they were, touches
  no other entitlement, and cannot be applied a second time.\<close>

theorem upgradeStandardPlan_exact:
  assumes "upgradeStandardPlan q orderId at d = Inr d'"
    and "distinct (map g_id (grants d))" and "\<not> creditKeySpent d (''plan-upgrade:'' @ orderId)"
    and "os_productId (uq_target q) \<noteq> uq_sourceProductId q"
  shows "\<exists>g b. lookup g_id (uq_grantId q) (grants d) = Some g \<and> qb_grantId b = g_id g \<and> bucketCurrent at b
    \<and> uq_sourceTrafficBytes q < os_trafficBytes (uq_target q)
    \<and> grantedOf d' (qb_id b) = map_option (\<lambda>n. n + (os_trafficBytes (uq_target q) - uq_sourceTrafficBytes q)) (grantedOf d (qb_id b))
    \<and> map bucketFace (buckets d') = map bucketFace (buckets d)
    \<and> lookup g_id (uq_grantId q) (grants d') = Some (upgradeGrantRow q g)
    \<and> (\<forall>i. i \<noteq> uq_grantId q \<longrightarrow> lookup g_id i (grants d') = lookup g_id i (grants d))
    \<and> \<not> (\<exists>x. upgradeStandardPlan q orderId2 at2 d' = Inr x)"
proof -
  let ?n = "os_trafficBytes (uq_target q) - uq_sourceTrafficBytes q"
  let ?c = "\<lambda>b. \<lparr>qc_bucketId = qb_id b, qc_bytes = ?n, qc_at = at, qc_reason = ''upgrade-difference'',
        qc_idempotencyKey = ''plan-upgrade:'' @ orderId, qc_actorId = None\<rparr>"
  obtain g b r d1 d2 where g: "g \<in> set (grants d)" "g_id g = uq_grantId q" "qb_grantId b = g_id g" "bucketCurrent at b"
    and credit: "creditQuotaBucket (?c b) d = Inr (r, d1)"
    and up: "updateGrant (g_id g) (upgradeGrantRow q) d1 = Inr d2" "grants d' = grants d2" "buckets d' = buckets d2"
    by (rule upgradeStandardPlan_stages [OF assms(1)])
  have gs: "grants d' = update_many (\<lambda>r. g_id r = uq_grantId q) (upgradeGrantRow q) (grants d)"
      and bs: "buckets d' = buckets d1"
    using up creditQuotaBucket_grants [OF credit] g(2) by (auto simp: updateGrant_eq_Inr)
  have row: "lookup g_id (uq_grantId q) (grants d) = Some g" using lookup_mem [OF assms(2) g(1)] g(2) by simp
  have "0 < ?n" using creditQuotaBucket_fresh [OF credit] assms(3) by auto
  moreover have "grantedOf d' (qb_id b) = map_option (\<lambda>n. n + ?n) (grantedOf d (qb_id b))"
    using quota.pays [OF credit, of "qb_id b"] assms(3) bs by (simp add: grantedOf_def)
  moreover have "map bucketFace (buckets d') = map bucketFace (buckets d)"
    using creditQuotaBucket_adjusts [OF credit] bs by (simp add: adjusts_def)
  moreover have "\<not> (\<exists>x. upgradeStandardPlan q orderId2 at2 d' = Inr x)"
    by (rule upgraded_again) (use gs assms(4) in \<open>auto elim: update_many_memE\<close>)
  ultimately show ?thesis using g row gs
    by (intro exI [of _ g] exI [of _ b]) (simp add: lookup_update_key)
qed

definition exampleTarget :: offer_snapshot where
  "exampleTarget = \<lparr>os_version = 2, os_offerId = ''offer2'', os_offerSlug = ''l'', os_offerName = ''L'',
     os_productId = ''prod2'', os_productSlug = ''l'', os_productName = ''L'', os_productKind = ProductPlan,
     os_productSeries = Standard, os_quotaCadence = MonthlyReset, os_billingPeriod = Quarterly,
     os_intervalMonths = Some 3, os_legacyDurationDays = None, os_trafficBytes = 1500, os_currency = ''CNY'',
     os_accessProfileId = ''prof2'', os_speedUpMbps = 200, os_speedDownMbps = 200, os_deviceLimit = 5,
     os_multiplier = 10000, os_requiresActivePlan = False, os_purchaseLimitPerUser = None,
     os_purchaseLimitKey = None, os_legacyPlanId = Some ''plan2'', os_legacyPlanOfferId = None,
     os_legacyTrafficPackProductId = None, os_context = noContext\<rparr>"

definition exampleQuote :: upgrade_quote where
  "exampleQuote = \<lparr>uq_userId = ''u1'', uq_grantId = ''g1'', uq_state = ''s'', uq_quotedAt = 1709251200000,
     uq_expiresAt = 1709252100000, uq_startsAt = 1706745600000, uq_endsAt = 1714521600000,
     uq_sourceOrderId = ''o1'', uq_sourceProductName = ''S'', uq_sourceProductId = ''prod1'',
     uq_sourceTrafficBytes = 1000, uq_sourcePaidCents = 3000, uq_creditBasis = Some ActualPayment,
     uq_creditBasisCents = Some 3000, uq_targetPriceCents = 5000, uq_creditCents = 2000,
     uq_targetRemainingCents = 3300, uq_upgradeFeeCents = Some 500, uq_payableCents = 1800,
     uq_target = exampleTarget\<rparr>"

definition exampleUpgradeDb :: db where
  "exampleUpgradeDb = exampleMirrorDb\<lparr>subscriptions := [\<lparr>s_id = ''s1'', s_userId = ''u1'', s_planId = ''plan1'',
     s_nodeId = ''n1'', s_accountId = None, s_planOfferId = None, s_status = SubActive, s_startsAt = 1706745600000,
     s_endsAt = 1714521600000, s_included = 1000, s_bonus = 0, s_consumed = 0, s_speedUp = 100, s_speedDown = 100,
     s_deviceLimit = 3\<rparr>]\<rparr>"

theorem upgradeStandardPlan_exact_witness:
  "\<exists>d'. upgradeStandardPlan exampleQuote ''o9'' 1709251200000 exampleUpgradeDb = Inr d'
     \<and> map bucketFace (buckets d') = map bucketFace (buckets exampleUpgradeDb)"
proof -
  have "\<not> isl (upgradeStandardPlan exampleQuote ''o9'' 1709251200000 exampleUpgradeDb)" by code_simp
  then obtain d' where run: "upgradeStandardPlan exampleQuote ''o9'' 1709251200000 exampleUpgradeDb = Inr d'"
    using not_isl_obtain by blast
  have "distinct (map g_id (grants exampleUpgradeDb))" "\<not> creditKeySpent exampleUpgradeDb (''plan-upgrade:'' @ ''o9'')"
      "os_productId (uq_target exampleQuote) \<noteq> uq_sourceProductId exampleQuote"
    by (simp_all add: exampleUpgradeDb_def exampleMirrorDb_def exampleQuotaUser_def exampleQuotaDb_def emptyDb_def
        creditKeySpent_def exampleQuote_def exampleTarget_def)
  then show ?thesis using upgradeStandardPlan_exact [OF run] run by blast
qed

end
