(* ===== verification/GrantOrders.thy ===== *)
theory GrantOrders imports GrantLaws begin

text \<open>
  Turning a paid order into an entitlement: \<open>grantFromOrder\<close> of
  \<open>apps/api/src/entitlement/entitlement.service.ts\<close>, which grants a new entitlement, renews,
  restarts or upgrades an existing one, and opens its current period.

  The function is split where the code computes a group of local variables: the terms
  (\<open>order_terms\<close>), the entitlement it continues (\<open>continued\<close>), the row it writes
  (\<open>termsRow\<close>) and the period (\<open>grantPeriod\<close>).
\<close>

section \<open>The terms of an order\<close>

record grant_input =
  gi_orderId :: id
  gi_subscriptionId :: "id option"
  gi_trafficPackId :: "id option"
  gi_replacePlan :: bool
  gi_startsAt :: "instant option"
  gi_preserveExistingPlan :: bool

record order_terms =
  ot_profileId :: id
  ot_speedUp :: int
  ot_speedDown :: int
  ot_deviceLimit :: "int option"

definition orderKind :: "order_row \<Rightarrow> grant_kind" where
  "orderKind o1 = (if mo_kind o1 = OrderTrafficPack then GrantTrafficPack else GrantPlan)"

definition orderCadence :: "order_row \<Rightarrow> product_row \<Rightarrow> quota_cadence" where
  "orderCadence o1 product = nvl (mo_quotaCadence o1) (cp_quotaCadence product)"

text \<open>A pack that needs a plan takes the plan's profile and limits.\<close>

definition planTerms :: "order_row \<Rightarrow> db \<Rightarrow> error + order_terms" where
  "planTerms o1 d =
     (let now = nvl (mo_processedAt o1) (mo_createdAt o1)
      in case first_row (order_desc g_endsAt (activeV2Plans (mo_userId o1) now d)) of
           Some g \<Rightarrow> Inr \<lparr>ot_profileId = g_profileId g, ot_speedUp = g_speedUp g, ot_speedDown = g_speedDown g,
                         ot_deviceLimit = Some (g_deviceLimit g)\<rparr>
         | None \<Rightarrow>
             (case first_row (order_desc s_endsAt (activeLegacyPlans (mo_userId o1) now d)) of
                None \<Rightarrow> Inl (BadRequest ''plan-required'')
              | Some s \<Rightarrow>
                  bindE (require (PrismaKnown ''inconsistent'') (lookup p_id (s_planId s) (plans d))) (\<lambda>plan.
                  bindE (require (BadRequest ''plan-required'')
                      (present (orElse (p_accessProfileId plan)
                         (Option.bind (catalogProductOf (p_id plan) d) cp_accessProfileId)))) (\<lambda>profileId.
                  Inr \<lparr>ot_profileId = profileId, ot_speedUp = s_speedUp s, ot_speedDown = s_speedDown s,
                       ot_deviceLimit = Some (s_deviceLimit s)\<rparr>))))"

definition orderTerms :: "order_row \<Rightarrow> product_row \<Rightarrow> db \<Rightarrow> error + order_terms" where
  "orderTerms o1 product d =
     (let needsPlan = nvl (mo_requiresActivePlan o1) (cp_requiresActivePlan product)
      in bindE (if orderKind o1 = GrantTrafficPack \<and> needsPlan then planTerms o1 d
                else Inr \<lparr>ot_profileId = nvl (orElse (mo_profileId o1) (cp_accessProfileId product)) [],
                          ot_speedUp = nvl (mo_speedUp o1) (cp_speedUpMbps product),
                          ot_speedDown = nvl (mo_speedDown o1) (cp_speedDownMbps product),
                          ot_deviceLimit = mo_deviceLimit o1\<rparr>) (\<lambda>terms.
         bindE (guardE (BadRequest ''profile-missing'') (ot_profileId terms \<noteq> [])) (\<lambda>_. Inr terms)))"

section \<open>The entitlement an order continues\<close>

text \<open>A plan order cancels the member's other plans. With a subscription the filter is
  \<open>legacySubscriptionId: { not }\<close>, which in SQL leaves out rows without one.\<close>

definition supersededPlan :: "id \<Rightarrow> id option \<Rightarrow> grant_row \<Rightarrow> bool" where
  "supersededPlan userId subscriptionId g \<longleftrightarrow> g_userId g = userId \<and> g_kind g = GrantPlan
     \<and> g_status g = GrantActive
     \<and> (case present subscriptionId of None \<Rightarrow> True
        | Some s \<Rightarrow> g_subscriptionId g \<noteq> None \<and> g_subscriptionId g \<noteq> Some s)"

definition supersedePlans :: "grant_input \<Rightarrow> order_row \<Rightarrow> id \<Rightarrow> int \<Rightarrow> instant \<Rightarrow> db \<Rightarrow> error + db" where
  "supersedePlans input o1 accountId multiplier startsAt d =
     (if orderKind o1 = GrantPlan \<and> \<not> gi_preserveExistingPlan input
      then bindE (update_one aa_id accountId (\<lambda>a. a\<lparr>aa_multiplier := multiplier\<rparr>) (accounts d)) (\<lambda>rows.
             Inr (d\<lparr>accounts := rows,
               grants := update_many (supersededPlan (mo_userId o1) (gi_subscriptionId input))
                 (\<lambda>g. g\<lparr>g_status := GrantCanceled, g_endsAt := startsAt\<rparr>) (grants d)\<rparr>))
      else Inr d)"

definition linkedGrant :: "grant_input \<Rightarrow> db \<Rightarrow> grant_row option" where
  "linkedGrant input d =
     (case present (gi_subscriptionId input) of
        Some s \<Rightarrow> lookup g_subscriptionId (Some s) (grants d)
      | None \<Rightarrow>
          (case present (gi_trafficPackId input) of
             Some p \<Rightarrow> lookup g_packId (Some p) (grants d)
           | None \<Rightarrow> None))"

definition continued :: "grant_input \<Rightarrow> order_row \<Rightarrow> bool \<Rightarrow> db \<Rightarrow> grant_row option" where
  "continued input o1 ultra d =
     orElse (linkedGrant input d)
       (if ultra then List.find (\<lambda>g. g_userId g = mo_userId o1 \<and> g_activeSlot g = Some ''ULTRA''
                        \<and> g_status g = GrantActive) (grants d)
        else None)"

definition restartsPlan :: "grant_input \<Rightarrow> order_row \<Rightarrow> product_row \<Rightarrow> instant \<Rightarrow> grant_row option \<Rightarrow> bool" where
  "restartsPlan input o1 product startsAt existing \<longleftrightarrow> orderKind o1 = GrantPlan
     \<and> (case existing of None \<Rightarrow> False
        | Some g \<Rightarrow> g_productId g \<noteq> cp_id product \<or> gi_replacePlan input \<or> g_endsAt g \<le> startsAt)"

definition cutCurrentPeriods :: "grant_input \<Rightarrow> id \<Rightarrow> instant \<Rightarrow> db \<Rightarrow> db" where
  "cutCurrentPeriods input grantId startsAt d =
     d\<lparr>buckets := update_many (\<lambda>b. qb_grantId b = grantId \<and> qb_startsAt b < startsAt \<and> startsAt < qb_endsAt b)
          (\<lambda>b. b\<lparr>qb_endsAt := startsAt\<rparr>) (buckets d),
       cycles := (case present (gi_subscriptionId input) of
            None \<Rightarrow> cycles d
          | Some s \<Rightarrow> update_many (\<lambda>c. sc_subscriptionId c = s \<and> sc_startsAt c < startsAt \<and> startsAt < sc_endsAt c)
               (\<lambda>c. c\<lparr>sc_endsAt := startsAt\<rparr>) (cycles d))\<rparr>"

section \<open>Writing the entitlement\<close>

text \<open>The columns that creation and update both set.\<close>

record granted_terms =
  gt_productId :: id
  gt_offerId :: id
  gt_endsAt :: instant
  gt_profileId :: id
  gt_speedUp :: int
  gt_speedDown :: int
  gt_deviceLimit :: int
  gt_multiplier :: int
  gt_cadence :: quota_cadence
  gt_resetAnchorAt :: "instant option"
  gt_priceCents :: int
  gt_trafficBytes :: int
  gt_activeSlot :: "string option"

definition termsRow :: "granted_terms \<Rightarrow> grant_row \<Rightarrow> grant_row" where
  "termsRow t g = g\<lparr>g_productId := gt_productId t, g_offerId := Some (gt_offerId t), g_endsAt := gt_endsAt t,
     g_profileId := gt_profileId t, g_speedUp := gt_speedUp t, g_speedDown := gt_speedDown t,
     g_deviceLimit := gt_deviceLimit t, g_multiplier := gt_multiplier t, g_quotaCadence := Some (gt_cadence t),
     g_resetAnchorAt := gt_resetAnchorAt t, g_priceCents := Some (gt_priceCents t),
     g_trafficBytes := Some (gt_trafficBytes t), g_activeSlot := gt_activeSlot t\<rparr>"

definition grantClash :: "grant_row \<Rightarrow> grant_row \<Rightarrow> bool" where
  "grantClash a b \<longleftrightarrow> (g_subscriptionId a = g_subscriptionId b \<and> g_subscriptionId a \<noteq> None)
     \<or> (g_packId a = g_packId b \<and> g_packId a \<noteq> None)
     \<or> (g_userId a = g_userId b \<and> g_activeSlot a = g_activeSlot b \<and> g_activeSlot a \<noteq> None)"

definition continueGrant :: "granted_terms \<Rightarrow> instant option \<Rightarrow> grant_row \<Rightarrow> grant_row" where
  "continueGrant t restartAt g = termsRow t (g\<lparr>g_status := GrantActive, g_startsAt := nvl restartAt (g_startsAt g)\<rparr>)"

definition newGrant :: "grant_input \<Rightarrow> order_row \<Rightarrow> id \<Rightarrow> instant \<Rightarrow> id \<Rightarrow> instant \<Rightarrow> grant_row" where
  "newGrant input o1 accountId startsAt i createdAt =
     \<lparr>g_id = i, g_userId = mo_userId o1, g_accountId = accountId, g_productId = [], g_offerId = None,
      g_subscriptionId = gi_subscriptionId input, g_packId = gi_trafficPackId input, g_kind = orderKind o1,
      g_status = GrantActive, g_startsAt = startsAt, g_endsAt = startsAt, g_profileId = [], g_speedUp = 0,
      g_speedDown = 0, g_deviceLimit = 0, g_multiplier = 0, g_quotaCadence = None, g_resetAnchorAt = None,
      g_priceCents = None, g_trafficBytes = None, g_activeSlot = None, g_createdAt = createdAt\<rparr>"

definition writeGrant ::
  "grant_input \<Rightarrow> order_row \<Rightarrow> id \<Rightarrow> granted_terms \<Rightarrow> instant \<Rightarrow> bool \<Rightarrow> grant_row option \<Rightarrow> db \<Rightarrow> error + (grant_row \<times> db)" where
  "writeGrant input o1 accountId t startsAt restarts existing d =
     (case existing of
        Some e \<Rightarrow>
          let row = continueGrant t (if restarts then Some startsAt else None) e
          in if \<exists>x \<in> set (grants d). g_id x \<noteq> g_id e \<and> grantClash x row then Inl (PrismaKnown ''P2002'')
             else bindE (update_one g_id (g_id e)
                    (continueGrant t (if restarts then Some startsAt else None)) (grants d)) (\<lambda>gs.
                  Inr (row, d\<lparr>grants := gs\<rparr>))
      | None \<Rightarrow>
          let row = termsRow t (newGrant input o1 accountId startsAt (freshId d) (db_now d))
          in bindE (insert_unique grantClash row (grants d)) (\<lambda>gs. Inr (row, (drawId d)\<lparr>grants := gs\<rparr>)))"

text \<open>\<open>quotaBucket.upsert\<close>\<close>

definition grantPeriod ::
  "id \<Rightarrow> quota_cadence \<Rightarrow> cycle_bounds \<Rightarrow> int \<Rightarrow> int \<Rightarrow> bool \<Rightarrow> int \<Rightarrow> db \<Rightarrow> db" where
  "grantPeriod grantId cadence b trafficBytes multiplier restarts upgradeBytes d =
     (if (grantId, cb_startsAt b) \<in> bucketKey ` set (buckets d)
      then d\<lparr>buckets := update_many (\<lambda>r. bucketKey r = (grantId, cb_startsAt b))
             (\<lambda>r. if restarts then r\<lparr>qb_endsAt := cb_endsAt b, qb_kind := PlanCycle, qb_granted := trafficBytes,
                       qb_consumed := 0, qb_multiplier := multiplier\<rparr>
                  else r\<lparr>qb_endsAt := cb_endsAt b,
                       qb_granted := qb_granted r + (if 0 < upgradeBytes then upgradeBytes else 0)\<rparr>) (buckets d)\<rparr>
      else (drawId d)\<lparr>buckets := buckets d @ [newBucket (freshId d) grantId
             (if cadence = MonthlyReset then PlanCycle else TrafficPackBucket)
             (cb_startsAt b) (cb_endsAt b) trafficBytes multiplier (db_now d)]\<rparr>)"

definition finishOrder :: "id \<Rightarrow> id \<Rightarrow> instant option \<Rightarrow> db \<Rightarrow> error + db" where
  "finishOrder orderId grantId anchor d =
     bindE (update_one mo_id orderId (\<lambda>o1. o1\<lparr>mo_grantId := Some grantId, mo_resetAnchorAt := anchor\<rparr>) (orders d))
       (\<lambda>rows. Inr (d\<lparr>orders := rows\<rparr>))"

section \<open>What an order comes to\<close>

definition orderStart :: "grant_input \<Rightarrow> order_row \<Rightarrow> instant" where
  "orderStart input o1 = nvl (gi_startsAt input) (nvl (mo_processedAt o1) (mo_createdAt o1))"

definition orderMultiplier :: "order_row \<Rightarrow> product_row \<Rightarrow> int" where
  "orderMultiplier o1 product = nvl (mo_multiplier o1) (cp_defaultMultiplier product)"

definition orderBytes :: "order_row \<Rightarrow> offer_row \<Rightarrow> int" where
  "orderBytes o1 offer = nvl (mo_trafficBytes o1) (co_trafficBytes offer)"

definition orderAnchor :: "bool \<Rightarrow> instant \<Rightarrow> grant_row option \<Rightarrow> instant" where
  "orderAnchor restarts startsAt existing =
     (case existing of
        None \<Rightarrow> startsAt
      | Some e \<Rightarrow> if restarts then startsAt else nvl (g_resetAnchorAt e) (g_startsAt e))"

definition upgradeBytes :: "bool \<Rightarrow> grant_row option \<Rightarrow> int \<Rightarrow> int" where
  "upgradeBytes ultra existing trafficBytes =
     (case Option.bind existing g_trafficBytes of Some n \<Rightarrow> if ultra then trafficBytes - n else 0 | None \<Rightarrow> 0)"

definition ultraSourceOk :: "bool \<Rightarrow> order_row \<Rightarrow> grant_row option \<Rightarrow> bool" where
  "ultraSourceOk ultra o1 existing =
     (case existing of
        None \<Rightarrow> True
      | Some e \<Rightarrow> \<not> ultra \<or> (mo_upgradeFromProductId o1 = Some (g_productId e)
                       \<and> mo_upgradeFromPriceCents o1 = g_priceCents e))"

definition orderGrantTerms ::
  "order_row \<Rightarrow> offer_row \<Rightarrow> product_row \<Rightarrow> instant \<Rightarrow> order_terms \<Rightarrow> profile_row \<Rightarrow> instant \<Rightarrow> granted_terms" where
  "orderGrantTerms o1 offer product expiresAt terms profile anchor =
     \<lparr>gt_productId = cp_id product, gt_offerId = co_id offer, gt_endsAt = expiresAt,
      gt_profileId = ot_profileId terms, gt_speedUp = ot_speedUp terms, gt_speedDown = ot_speedDown terms,
      gt_deviceLimit = nvl (ot_deviceLimit terms) (ap_deviceLimit profile),
      gt_multiplier = orderMultiplier o1 product, gt_cadence = orderCadence o1 product,
      gt_resetAnchorAt = (if orderCadence o1 product = MonthlyReset then Some anchor else None),
      gt_priceCents = nvl (mo_basePriceCents o1) (mo_amountCents o1), gt_trafficBytes = orderBytes o1 offer,
      gt_activeSlot = (if cp_series product = Ultra then Some ''ULTRA'' else None)\<rparr>"

definition periodBounds :: "quota_cadence \<Rightarrow> instant \<Rightarrow> instant \<Rightarrow> instant \<Rightarrow> cycle_bounds" where
  "periodBounds cadence anchor expiresAt startsAt =
     (if cadence = MonthlyReset then monthlyCycleBounds anchor expiresAt startsAt
      else \<lparr>cb_startsAt = startsAt, cb_endsAt = expiresAt\<rparr>)"

definition cutContinued :: "grant_input \<Rightarrow> bool \<Rightarrow> instant \<Rightarrow> grant_row option \<Rightarrow> db \<Rightarrow> db" where
  "cutContinued input restarts startsAt existing d =
     (case existing of
        None \<Rightarrow> d
      | Some e \<Rightarrow> if restarts then cutCurrentPeriods input (g_id e) startsAt d else d)"

text \<open>The part after the terms are known.\<close>

definition applyOrder ::
  "grant_input \<Rightarrow> order_row \<Rightarrow> offer_row \<Rightarrow> product_row \<Rightarrow> instant \<Rightarrow> id \<Rightarrow> order_terms \<Rightarrow> profile_row \<Rightarrow> db
   \<Rightarrow> error + (grant_row \<times> db)" where
  "applyOrder input o1 offer product expiresAt accountId terms profile d =
     (let ultra = (cp_series product = Ultra);
          startsAt = orderStart input o1
      in bindE (supersedePlans input o1 accountId (orderMultiplier o1 product) startsAt d) (\<lambda>d1.
         let existing = continued input o1 ultra d1;
             restarts = restartsPlan input o1 product startsAt existing;
             anchor = orderAnchor restarts startsAt existing;
             added = upgradeBytes ultra existing (orderBytes o1 offer)
         in bindE (guardE (Conflict ''ultra-source-changed'') (ultraSourceOk ultra o1 existing)) (\<lambda>_.
            bindE (writeGrant input o1 accountId (orderGrantTerms o1 offer product expiresAt terms profile anchor)
                startsAt restarts existing (cutContinued input restarts startsAt existing d1)) (\<lambda>(g, d2).
            bindE (guardE (BadRequest ''ultra-downgrade'') (0 \<le> added)) (\<lambda>_.
            bindE (finishOrder (mo_id o1) (g_id g) (if orderCadence o1 product = MonthlyReset then Some anchor else None)
                (grantPeriod (g_id g) (orderCadence o1 product)
                   (periodBounds (orderCadence o1 product) anchor expiresAt startsAt)
                   (orderBytes o1 offer) (orderMultiplier o1 product) restarts added d2)) (\<lambda>d3.
            Inr (g, d3)))))))"

definition grantFromOrder :: "grant_input \<Rightarrow> db \<Rightarrow> error + (grant_row \<times> db)" where
  "grantFromOrder input d =
     (case lookup mo_id (gi_orderId input) (orders d) of
        None \<Rightarrow> Inl (BadRequest ''no-catalog-offer'')
      | Some o1 \<Rightarrow>
          (case Option.bind (mo_catalogOfferId o1) (\<lambda>i. lookup co_id i (offers d)) of
             None \<Rightarrow> Inl (BadRequest ''no-catalog-offer'')
           | Some offer \<Rightarrow>
               bindE (require (PrismaKnown ''inconsistent'') (lookup cp_id (co_productId offer) (products d))) (\<lambda>product.
               bindE (require (BadRequest ''no-catalog-offer'') (present (cp_accessProfileId product))) (\<lambda>_.
               bindE (require (BadRequest ''expiry-required'') (mo_entitlementExpiresAt o1)) (\<lambda>expiresAt.
               bindE (ensureAccessAccount (mo_userId o1) d) (\<lambda>(account, d1).
               bindE (orderTerms o1 product d1) (\<lambda>terms.
               bindE (require (PrismaKnown ''P2025'') (lookup ap_id (ot_profileId terms) (profiles d1))) (\<lambda>profile.
               applyOrder input o1 offer product expiresAt (aa_id account) terms profile d1))))))))"

end
