(* ===== verification/GrantOrderLaws.thy ===== *)
theory GrantOrderLaws imports GrantOrders begin

text \<open>
  What a paid order grants (\<open>grantFromOrder\<close> of \<open>GrantOrders\<close>): the composed shape of its
  steps, and from it what is delivered, what is left alone, how a plan restarts and how an Ultra
  entitlement is upgraded.
\<close>

section \<open>What an order grants\<close>

lemma applyOrder_stages:
  assumes "applyOrder input o1 offer product expiresAt accountId terms profile d = Inr (g, d')"
  obtains d1 existing restarts anchor d2 where
    "supersedePlans input o1 accountId (orderMultiplier o1 product) (orderStart input o1) d = Inr d1"
    "existing = continued input o1 (cp_series product = Ultra) d1"
    "restarts = restartsPlan input o1 product (orderStart input o1) existing"
    "anchor = orderAnchor restarts (orderStart input o1) existing"
    "ultraSourceOk (cp_series product = Ultra) o1 existing"
    "writeGrant input o1 accountId (orderGrantTerms o1 offer product expiresAt terms profile anchor)
       (orderStart input o1) restarts existing (cutContinued input restarts (orderStart input o1) existing d1) = Inr (g, d2)"
    "0 \<le> upgradeBytes (cp_series product = Ultra) existing (orderBytes o1 offer)"
    "finishOrder (mo_id o1) (g_id g) (if orderCadence o1 product = MonthlyReset then Some anchor else None)
       (grantPeriod (g_id g) (orderCadence o1 product)
          (periodBounds (orderCadence o1 product) anchor expiresAt (orderStart input o1))
          (orderBytes o1 offer) (orderMultiplier o1 product) restarts
          (upgradeBytes (cp_series product = Ultra) existing (orderBytes o1 offer)) d2) = Inr d'"
  using assms by (fastforce simp: applyOrder_def Let_def err_simps)

lemma grantFromOrder_stages:
  assumes "grantFromOrder input d = Inr (g, d')"
  obtains o1 :: order_row and offer :: offer_row and product :: product_row and expiresAt
    and account :: account_row and d1 and terms :: order_terms and profile :: profile_row where
    "lookup mo_id (gi_orderId input) (orders d) = Some o1" "mo_entitlementExpiresAt o1 = Some expiresAt"
    "Option.bind (mo_catalogOfferId o1) (\<lambda>i. lookup co_id i (offers d)) = Some offer"
    "orderProduct o1 d = Some product" "ensureAccessAccount (mo_userId o1) d = Inr (account, d1)"
    "orderTerms o1 product d1 = Inr terms"
    "applyOrder input o1 offer product expiresAt (aa_id account) terms profile d1 = Inr (g, d')"
  using assms by (fastforce simp: grantFromOrder_def orderProduct_def err_simps bind_eq_Some_conv split: option.splits)

lemma writeGrant_grants:
  assumes "writeGrant input o1 accountId t startsAt restarts existing d = Inr (g, d')"
  shows "buckets d' = buckets d \<and> orders d' = orders d \<and> g_status g = GrantActive \<and> g_endsAt g = gt_endsAt t
    \<and> g_productId g = gt_productId t \<and> g_trafficBytes g = Some (gt_trafficBytes t)
    \<and> g_quotaCadence g = Some (gt_cadence t)
    \<and> (case existing of
         None \<Rightarrow> grants d' = grants d @ [g] \<and> g_id g = freshId d \<and> g_userId g = mo_userId o1
           \<and> g_subscriptionId g = gi_subscriptionId input \<and> g_startsAt g = startsAt
       | Some e \<Rightarrow> grants d' = update_many (\<lambda>r. g_id r = g_id e)
             (continueGrant t (if restarts then Some startsAt else None)) (grants d)
           \<and> g = continueGrant t (if restarts then Some startsAt else None) e
           \<and> g_id g = g_id e \<and> g_userId g = g_userId e \<and> g_subscriptionId g = g_subscriptionId e)"
  using assms
  by (auto simp: writeGrant_def err_simps Let_def termsRow_def continueGrant_def newGrant_def split: option.splits if_splits)

lemma ensureAccessAccount_frame:
  "ensureAccessAccount u d = Inr (a, d') \<Longrightarrow> grants d' = grants d \<and> buckets d' = buckets d \<and> orders d' = orders d
     \<and> cycles d' = cycles d"
  by (auto simp: ensureAccessAccount_def err_simps Let_def split: option.splits)

definition supersededGrants :: "grant_input \<Rightarrow> order_row \<Rightarrow> instant \<Rightarrow> grant_row list \<Rightarrow> grant_row list" where
  "supersededGrants input o1 startsAt gs =
     (if orderKind o1 = GrantPlan \<and> \<not> gi_preserveExistingPlan input
      then update_many (supersededPlan (mo_userId o1) (gi_subscriptionId input))
             (\<lambda>g. g\<lparr>g_status := GrantCanceled, g_endsAt := startsAt\<rparr>) gs
      else gs)"

lemma supersedePlans_rows:
  "supersedePlans input o1 a m startsAt d = Inr d' \<Longrightarrow> grants d' = supersededGrants input o1 startsAt (grants d)
     \<and> buckets d' = buckets d \<and> orders d' = orders d \<and> cycles d' = cycles d"
  by (auto simp: supersedePlans_def supersededGrants_def err_simps split: if_splits)

lemma continued_mem: "continued input o1 ultra d = Some e \<Longrightarrow> e \<in> set (grants d)"
  by (auto simp: continued_def linkedGrant_def orElse_def find_Some_iff
      split: option.splits if_splits dest: lookup_SomeD)

lemma continued_source:
  "continued input o1 ultra d = Some e \<Longrightarrow> present (gi_subscriptionId input) = Some s \<Longrightarrow>
   g_subscriptionId e = Some s \<or> g_status e = GrantActive"
  by (auto simp: continued_def linkedGrant_def orElse_def find_Some_iff present_def
      split: option.splits if_splits dest: lookup_SomeD)

lemma continued_cong: "grants d' = grants d \<Longrightarrow> continued input o1 ultra d' = continued input o1 ultra d"
  unfolding continued_def linkedGrant_def by (erule ssubst) (rule refl)

definition cutBuckets :: "bool \<Rightarrow> instant \<Rightarrow> grant_row option \<Rightarrow> bucket_row list \<Rightarrow> bucket_row list" where
  "cutBuckets restarts startsAt existing bs =
     (case existing of None \<Rightarrow> bs
      | Some e \<Rightarrow> if restarts then update_many (\<lambda>b. qb_grantId b = g_id e \<and> qb_startsAt b < startsAt \<and> startsAt < qb_endsAt b)
          (\<lambda>b. b\<lparr>qb_endsAt := startsAt\<rparr>) bs else bs)"

lemma cutContinued_rows [simp]:
  "grants (cutContinued input r t existing d) = grants d" "orders (cutContinued input r t existing d) = orders d"
  "buckets (cutContinued input r t existing d) = cutBuckets r t existing (buckets d)"
  "freshId (cutContinued input r t existing d) = freshId d"
  by (simp_all add: cutContinued_def cutCurrentPeriods_def cutBuckets_def freshId_def split: option.splits)

lemma grantPeriod_rows [simp]:
  "grants (grantPeriod i c b n m r u d) = grants d" "orders (grantPeriod i c b n m r u d) = orders d"
  by (simp_all add: grantPeriod_def)

lemma finishOrder_rows:
  "finishOrder oid gid anchor d = Inr d' \<Longrightarrow> grants d' = grants d \<and> buckets d' = buckets d
     \<and> orders d' = update_many (\<lambda>r. mo_id r = oid) (\<lambda>r. r\<lparr>mo_grantId := Some gid, mo_resetAnchorAt := anchor\<rparr>) (orders d)"
  by (auto simp: finishOrder_def err_simps)

text \<open>What is left of an order once its steps are composed.\<close>

lemma grantFromOrder_shape:
  assumes "grantFromOrder input d = Inr (g, d')"
  obtains o1 :: order_row and offer :: offer_row and product :: product_row and expiresAt and accountId
    and d1 and existing and restarts and d2 and t where
    "lookup mo_id (gi_orderId input) (orders d) = Some o1" "mo_entitlementExpiresAt o1 = Some expiresAt"
    "orderProduct o1 d = Some product"
    "grants d1 = supersededGrants input o1 (orderStart input o1) (grants d)" "buckets d1 = buckets d"
    "existing = continued input o1 (cp_series product = Ultra) d1"
    "restarts = restartsPlan input o1 product (orderStart input o1) existing"
    "ultraSourceOk (cp_series product = Ultra) o1 existing"
    "0 \<le> upgradeBytes (cp_series product = Ultra) existing (orderBytes o1 offer)"
    "Option.bind (mo_catalogOfferId o1) (\<lambda>i. lookup co_id i (offers d)) = Some offer"
    "gt_endsAt t = expiresAt" "gt_productId t = cp_id product" "gt_cadence t = orderCadence o1 product"
    "gt_trafficBytes t = orderBytes o1 offer"
    "writeGrant input o1 accountId t (orderStart input o1) restarts existing
       (cutContinued input restarts (orderStart input o1) existing d1) = Inr (g, d2)"
    "grants d' = grants d2"
    "buckets d' = buckets (grantPeriod (g_id g) (orderCadence o1 product)
          (periodBounds (orderCadence o1 product) (orderAnchor restarts (orderStart input o1) existing) expiresAt (orderStart input o1))
          (orderBytes o1 offer) (orderMultiplier o1 product) restarts
          (upgradeBytes (cp_series product = Ultra) existing (orderBytes o1 offer)) d2)"
    "orders d' = update_many (\<lambda>r. mo_id r = mo_id o1) (\<lambda>r. r\<lparr>mo_grantId := Some (g_id g),
       mo_resetAnchorAt := gt_resetAnchorAt t\<rparr>) (orders d)"
proof -
  from grantFromOrder_stages [OF assms] obtain o1 :: order_row and offer :: offer_row and product :: product_row
    and expiresAt and account :: account_row and d0 and terms :: order_terms and profile :: profile_row where
    o: "lookup mo_id (gi_orderId input) (orders d) = Some o1" "mo_entitlementExpiresAt o1 = Some expiresAt"
    "Option.bind (mo_catalogOfferId o1) (\<lambda>i. lookup co_id i (offers d)) = Some offer"
    "orderProduct o1 d = Some product" and acc: "ensureAccessAccount (mo_userId o1) d = Inr (account, d0)"
    and app: "applyOrder input o1 offer product expiresAt (aa_id account) terms profile d0 = Inr (g, d')" .
  note f0 = ensureAccessAccount_frame [OF acc]
  from applyOrder_stages [OF app] obtain d1 existing restarts anchor d2 where
    st: "supersedePlans input o1 (aa_id account) (orderMultiplier o1 product) (orderStart input o1) d0 = Inr d1"
    "existing = continued input o1 (cp_series product = Ultra) d1"
    "restarts = restartsPlan input o1 product (orderStart input o1) existing"
    "anchor = orderAnchor restarts (orderStart input o1) existing"
    "ultraSourceOk (cp_series product = Ultra) o1 existing"
    "writeGrant input o1 (aa_id account) (orderGrantTerms o1 offer product expiresAt terms profile anchor)
       (orderStart input o1) restarts existing (cutContinued input restarts (orderStart input o1) existing d1) = Inr (g, d2)"
    "0 \<le> upgradeBytes (cp_series product = Ultra) existing (orderBytes o1 offer)"
    and fin: "finishOrder (mo_id o1) (g_id g) (if orderCadence o1 product = MonthlyReset then Some anchor else None)
       (grantPeriod (g_id g) (orderCadence o1 product)
          (periodBounds (orderCadence o1 product) anchor expiresAt (orderStart input o1))
          (orderBytes o1 offer) (orderMultiplier o1 product) restarts
          (upgradeBytes (cp_series product = Ultra) existing (orderBytes o1 offer)) d2) = Inr d'" .
  note f1 = supersedePlans_rows [OF st(1)] and f2 = writeGrant_grants [OF st(6)] and f3 = finishOrder_rows [OF fin]
  show thesis
    by (rule that [OF o(1,2,4) _ _ st(2,3,5,7) o(3) _ _ _ _ st(6)])
      (use f0 f1 f2 f3 st(4) in \<open>simp_all add: orderGrantTerms_def\<close>)
qed

lemma cutBuckets_others:
  "(\<And>e. existing = Some e \<Longrightarrow> i = g_id e) \<Longrightarrow>
   filter (\<lambda>b. qb_grantId b \<noteq> i) (cutBuckets r t existing bs) = filter (\<lambda>b. qb_grantId b \<noteq> i) bs"
  by (auto simp: cutBuckets_def intro!: filter_update_many_idle split: option.splits)

lemma grantPeriod_others:
  "filter (\<lambda>b. qb_grantId b \<noteq> i) (buckets (grantPeriod i c p n m r u d)) = filter (\<lambda>b. qb_grantId b \<noteq> i) (buckets d)"
  by (cases r) (auto simp: grantPeriod_def newBucket_def bucketKey_def intro!: filter_update_many_idle)

lemma grantPeriod_opens:
  "\<exists>b \<in> set (buckets (grantPeriod i c p n m r u d)). qb_grantId b = i \<and> qb_startsAt b = cb_startsAt p
     \<and> qb_endsAt b = cb_endsAt p \<and> (r \<or> i \<notin> qb_grantId ` set (buckets d) \<longrightarrow> qb_granted b = n \<and> qb_consumed b = 0)"
proof (cases "(i, cb_startsAt p) \<in> bucketKey ` set (buckets d)")
  case True
  then obtain b where b: "b \<in> set (buckets d)" "bucketKey b = (i, cb_startsAt p)" by auto
  let ?f = "\<lambda>x. if r then x\<lparr>qb_endsAt := cb_endsAt p, qb_kind := PlanCycle, qb_granted := n, qb_consumed := 0,
        qb_multiplier := m\<rparr> else x\<lparr>qb_endsAt := cb_endsAt p, qb_granted := qb_granted x + (if 0 < u then u else 0)\<rparr>"
  have "?f b \<in> set (buckets (grantPeriod i c p n m r u d))"
    using True b by (force simp: grantPeriod_def set_update_many)
  then show ?thesis by (rule rev_bexI) (use b in \<open>auto simp: bucketKey_def\<close>)
next
  case False
  then show ?thesis by (simp add: grantPeriod_def newBucket_def)
qed

lemma grantPeriod_restart_before:
  "b \<in> set (buckets (grantPeriod i c p n m r u d)) \<Longrightarrow> qb_startsAt b \<noteq> cb_startsAt p \<Longrightarrow> b \<in> set (buckets d)"
  unfolding grantPeriod_def newBucket_def bucketKey_def
  by (auto split: if_splits elim!: update_many_memE)

lemma grantPeriod_tops_up:
  "b \<in> set (buckets d) \<Longrightarrow> bucketKey b = (i, cb_startsAt p) \<Longrightarrow> 0 \<le> u \<Longrightarrow>
   b\<lparr>qb_endsAt := cb_endsAt p, qb_granted := qb_granted b + u\<rparr> \<in> set (buckets (grantPeriod i c p n m False u d))"
  by (force simp: grantPeriod_def set_update_many)

lemma cutBuckets_owner: "map qb_grantId (cutBuckets r t existing bs) = map qb_grantId bs"
  by (auto simp: cutBuckets_def map_update_many split: option.splits)

lemma superseded_keeps_linked:
  assumes "present (gi_subscriptionId input) = Some s" and "lookup g_subscriptionId (Some s) gs = Some e"
  shows "lookup g_subscriptionId (Some s) (supersededGrants input o1 t gs) = Some e"
proof -
  have "g_subscriptionId e = Some s" using lookup_SomeD [OF assms(2)] by simp
  then have "\<not> supersededPlan (mo_userId o1) (gi_subscriptionId input) e"
    using assms(1) by (cases "gi_subscriptionId input") (auto simp: supersededPlan_def present_def split: if_splits)
  then show ?thesis using assms(2) by (simp add: supersededGrants_def lookup_update_many)
qed

lemma cutBuckets_ends:
  "b \<in> set (cutBuckets True t (Some e) bs) \<Longrightarrow> qb_grantId b = g_id e \<Longrightarrow> qb_startsAt b < t \<Longrightarrow> qb_endsAt b \<le> t"
  unfolding cutBuckets_def by (auto elim!: update_many_memE)

lemma writeGrant_other_members:
  assumes "writeGrant input o1 accountId t startsAt restarts existing d = Inr (g, d')"
  shows "filter (\<lambda>h. g_userId h \<noteq> mo_userId o1 \<and> g_id h \<noteq> g_id g) (grants d')
    = filter (\<lambda>h. g_userId h \<noteq> mo_userId o1 \<and> g_id h \<noteq> g_id g) (grants d)"
  using writeGrant_grants [OF assms] by (cases existing)
    (auto simp: continueGrant_def termsRow_def intro!: filter_update_many_idle)

lemma writeGrant_mem:
  assumes "writeGrant input o1 accountId t startsAt restarts existing d = Inr (g, d')"
    and "\<And>e. existing = Some e \<Longrightarrow> e \<in> set (grants d)"
  shows "g \<in> set (grants d')"
  using writeGrant_grants [OF assms(1)] assms(2) by (cases existing) (auto simp: set_update_many)

lemma superseded_other_members:
  "filter (\<lambda>h. g_userId h \<noteq> mo_userId o1 \<and> P h) (supersededGrants input o1 t gs)
     = filter (\<lambda>h. g_userId h \<noteq> mo_userId o1 \<and> P h) gs"
  by (auto simp: supersededGrants_def supersededPlan_def intro!: filter_update_many_idle)

section \<open>An example shop\<close>

definition exampleProduct :: product_row where
  "exampleProduct = \<lparr>cp_id = ''prod2'', cp_legacyPlanId = Some ''plan2'', cp_legacyTrafficPackProductId = None,
     cp_slug = ''l'', cp_kind = ProductPlan, cp_series = Standard, cp_status = ProductActive, cp_name = ''L'',
     cp_quotaCadence = OneTimeQuota, cp_accessProfileId = Some ''prof2'', cp_speedUpMbps = 200,
     cp_speedDownMbps = 200, cp_defaultMultiplier = 10000, cp_purchaseLimitPerUser = None,
     cp_purchaseLimitKey = None, cp_requiresActivePlan = False,
     cp_referralEligible = True\<rparr>"

definition exampleShopOffer :: offer_row where
  "exampleShopOffer = \<lparr>co_id = ''offer2'', co_productId = ''prod2'', co_legacyPlanOfferId = None, co_slug = ''l'',
     co_name = ''l'', co_billingPeriod = Quarterly, co_intervalMonths = Some 3, co_trafficBytes = 1500,
     co_priceCents = 5000, co_currency = ''CNY'', co_active = True, co_archivedAt = None\<rparr>"

definition exampleShopOrder :: order_row where
  "exampleShopOrder = exampleOrder\<lparr>mo_id := ''o2'', mo_catalogOfferId := Some ''offer2'', mo_trafficBytes := Some 1500,
     mo_profileId := Some ''prof2'', mo_quotaCadence := Some OneTimeQuota, mo_grantId := None,
     mo_processedAt := Some 1709300000000\<rparr>"

definition exampleShop :: db where
  "exampleShop = exampleMirrorDb\<lparr>
     profiles := [\<lparr>ap_id = ''prof2'', ap_active = True, ap_speedUpMbps = 200, ap_speedDownMbps = 200, ap_deviceLimit = 5\<rparr>],
     products := [exampleProduct], offers := [exampleShopOffer], orders := [exampleShopOrder]\<rparr>"

definition exampleBuy :: "id option \<Rightarrow> grant_input" where
  "exampleBuy s = \<lparr>gi_orderId = ''o2'', gi_subscriptionId = s, gi_trafficPackId = None, gi_replacePlan = False,
     gi_startsAt = None, gi_preserveExistingPlan = False\<rparr>"

lemma exampleShop_facts:
  "lookup mo_id (gi_orderId (exampleBuy s)) (orders exampleShop) = Some exampleShopOrder"
  "orderProduct exampleShopOrder exampleShop = Some exampleProduct"
  "Option.bind (mo_catalogOfferId exampleShopOrder) (\<lambda>i. lookup co_id i (offers exampleShop)) = Some exampleShopOffer"
  "orderStart (exampleBuy s) exampleShopOrder = 1709300000000" "gi_subscriptionId (exampleBuy s) = s"
  "orderBytes exampleShopOrder exampleShopOffer = 1500" "mo_userId exampleShopOrder = ''u1''"
  "orderKind exampleShopOrder = GrantPlan" "\<not> gi_preserveExistingPlan (exampleBuy s)"
  by (simp_all add: exampleBuy_def exampleShop_def exampleShopOrder_def exampleOrder_def orderProduct_def
      exampleShopOffer_def exampleProduct_def orderStart_def orderBytes_def orderKind_def)

lemma exampleShop_runs:
  "s = None \<or> s = Some ''s1'' \<or> s = Some ''s2'' \<Longrightarrow> \<exists>g d'. grantFromOrder (exampleBuy s) exampleShop = Inr (g, d')"
proof -
  have "\<not> isl (grantFromOrder (exampleBuy None) exampleShop)" "\<not> isl (grantFromOrder (exampleBuy (Some ''s1'')) exampleShop)"
    "\<not> isl (grantFromOrder (exampleBuy (Some ''s2'')) exampleShop)" by code_simp+
  then show "s = None \<or> s = Some ''s1'' \<or> s = Some ''s2'' \<Longrightarrow> ?thesis" using not_isl_obtain by fastforce
qed

lemma filter_update_idle_on:
  "(\<And>r. r \<in> set rs \<Longrightarrow> p r \<Longrightarrow> \<not> q r \<and> \<not> q (f r)) \<Longrightarrow> filter q (update_many p f rs) = filter q rs"
  by (induction rs) auto

lemma linkedGrant_owner:
  assumes "grants d1 = supersededGrants input o1 t (grants d)" and "linkedGrant input d1 = Some e"
  shows "\<exists>h. linkedGrant input d = Some h \<and> g_userId e = g_userId h"
proof -
  let ?f = "\<lambda>g. g\<lparr>g_status := GrantCanceled, g_endsAt := t\<rparr>"
  have "\<exists>h. lookup key k (grants d) = Some h \<and> g_userId x = g_userId h"
    if "lookup key k (grants d1) = Some x" "\<And>r. key (?f r) = key r" for key :: "grant_row \<Rightarrow> id option" and k x
    using that lookup_update_many [of "supersededPlan (mo_userId o1) (gi_subscriptionId input)" key ?f k "grants d"]
    by (cases "lookup key k (grants d)") (auto simp: assms(1) supersededGrants_def split: if_splits)
  note same = this
  show ?thesis
  proof (cases "present (gi_subscriptionId input)")
    case (Some s)
    show ?thesis using same [of g_subscriptionId "Some s" e] assms(2) unfolding linkedGrant_def Some option.case by simp
  next
    case None
    note sub = None
    show ?thesis
    proof (cases "present (gi_trafficPackId input)")
      case (Some p)
      show ?thesis using same [of g_packId "Some p" e] assms(2) unfolding linkedGrant_def sub Some option.case by simp
    qed (use assms(2) in \<open>simp add: linkedGrant_def sub\<close>)
  qed
qed

lemma continued_owner:
  assumes "grants d1 = supersededGrants input o1 t (grants d)" and "continued input o1 ultra d1 = Some e"
    and "\<forall>h. linkedGrant input d = Some h \<longrightarrow> g_userId h = mo_userId o1"
  shows "g_userId e = mo_userId o1"
  using assms(2,3) linkedGrant_owner [OF assms(1)]
  by (auto simp: continued_def orElse_def find_Some_iff split: option.splits if_splits)

lemma writeGrant_members_kept:
  assumes "writeGrant input o1 accountId t startsAt restarts existing d = Inr (g, d')"
    and "\<And>e. existing = Some e \<Longrightarrow> e \<in> set (grants d) \<and> g_userId e = mo_userId o1" and "distinct (map g_id (grants d))"
  shows "g_userId g = mo_userId o1
    \<and> filter (\<lambda>h. g_userId h \<noteq> mo_userId o1) (grants d') = filter (\<lambda>h. g_userId h \<noteq> mo_userId o1) (grants d)"
proof (cases existing)
  case None
  then show ?thesis using writeGrant_grants [OF assms(1)] by simp
next
  case (Some e)
  let ?f = "continueGrant t (if restarts then Some startsAt else None)"
  have e: "e \<in> set (grants d)" "g_userId e = mo_userId o1" using assms(2) [OF Some] by simp_all
  have "r = e" if "r \<in> set (grants d)" "g_id r = g_id e" for r
    using e(1) assms(3) that by (auto simp: distinct_map inj_on_def)
  then have "filter (\<lambda>h. g_userId h \<noteq> mo_userId o1) (update_many (\<lambda>r. g_id r = g_id e) ?f (grants d))
      = filter (\<lambda>h. g_userId h \<noteq> mo_userId o1) (grants d)"
    using e(2) by (intro filter_update_idle_on) (auto simp: continueGrant_def termsRow_def)
  then show ?thesis using writeGrant_grants [OF assms(1)] Some e(2) by (simp add: continueGrant_def termsRow_def)
qed

lemma superseded_keeps:
  "map g_id (supersededGrants input o1 t gs) = map g_id gs"
  "filter (\<lambda>h. g_userId h \<noteq> mo_userId o1) (supersededGrants input o1 t gs) = filter (\<lambda>h. g_userId h \<noteq> mo_userId o1) gs"
  by (auto simp: supersededGrants_def supersededPlan_def map_update_many intro!: filter_update_many_idle)

text \<open>C17: a paid order delivers: the member who ordered holds an active entitlement to the product bought, until
  the expiry the order names, linked from the order and with an opened quota period; the periods of every other
  entitlement and the entitlements of every other member are as before. It is assumed that the subscription or
  pack the order is for, when it already has an entitlement, is that member's.\<close>

theorem grantFromOrder_delivers:
  assumes "grantFromOrder input d = Inr (g, d')"
    and "lookup mo_id (gi_orderId input) (orders d) = Some o1" and "orderProduct o1 d = Some product"
    and "\<forall>h. linkedGrant input d = Some h \<longrightarrow> g_userId h = mo_userId o1" and "distinct (map g_id (grants d))"
  shows "g \<in> set (grants d') \<and> g_userId g = mo_userId o1 \<and> g_status g = GrantActive
    \<and> mo_entitlementExpiresAt o1 = Some (g_endsAt g) \<and> g_productId g = cp_id product
    \<and> map_option mo_grantId (lookup mo_id (gi_orderId input) (orders d')) = Some (Some (g_id g))
    \<and> (\<exists>b \<in> set (buckets d'). qb_grantId b = g_id g)
    \<and> filter (\<lambda>b. qb_grantId b \<noteq> g_id g) (buckets d') = filter (\<lambda>b. qb_grantId b \<noteq> g_id g) (buckets d)
    \<and> filter (\<lambda>h. g_userId h \<noteq> mo_userId o1) (grants d') = filter (\<lambda>h. g_userId h \<noteq> mo_userId o1) (grants d)"
  using assms(1)
proof (cases rule: grantFromOrder_shape)
  case (1 o2 offer product' expiresAt accountId d1 existing restarts d2 t)
  have same: "o2 = o1" "product' = product" using 1(1,3) assms(2,3) by simp_all
  have old: "e \<in> set (grants d1) \<and> g_userId e = mo_userId o1" if "existing = Some e" for e
    using continued_mem continued_owner [OF 1(4) [unfolded same] _ assms(4)] 1(6) that unfolding same by metis
  have "distinct (map g_id (grants (cutContinued input restarts (orderStart input o1) existing d1)))"
    using assms(5) by (simp add: 1(4) superseded_keeps(1))
  from writeGrant_members_kept [OF 1(15) [unfolded same] _ this] old
  have members: "g_userId g = mo_userId o1"
    "filter (\<lambda>h. g_userId h \<noteq> mo_userId o1) (grants d') = filter (\<lambda>h. g_userId h \<noteq> mo_userId o1) (grants d)"
    by (simp_all add: 1(4,16) same superseded_keeps(2))
  have "g \<in> set (grants d')" using writeGrant_mem [OF 1(15)] 1(16) old by simp
  moreover have "map_option mo_grantId (lookup mo_id (gi_orderId input) (orders d')) = Some (Some (g_id g))"
    using 1(1,18) lookup_SomeD [OF 1(1)] by (simp add: lookup_update_key)
  moreover have "\<exists>b \<in> set (buckets d'). qb_grantId b = g_id g" unfolding 1(17) using grantPeriod_opens by blast
  moreover have "filter (\<lambda>b. qb_grantId b \<noteq> g_id g) (buckets d') = filter (\<lambda>b. qb_grantId b \<noteq> g_id g) (buckets d)"
    using writeGrant_grants [OF 1(15)] 1(5) unfolding 1(17) grantPeriod_others
    by (auto intro!: cutBuckets_others)
  ultimately show ?thesis using writeGrant_grants [OF 1(15)] 1(2,11,12) same members by simp
qed

theorem grantFromOrder_delivers_witness:
  "\<exists>g d'. grantFromOrder (exampleBuy None) exampleShop = Inr (g, d') \<and> g \<in> set (grants d') \<and> g_userId g = ''u1''
     \<and> g_productId g = ''prod2''"
proof -
  obtain g d' where run: "grantFromOrder (exampleBuy None) exampleShop = Inr (g, d')" using exampleShop_runs by blast
  have "\<forall>h. linkedGrant (exampleBuy None) exampleShop = Some h \<longrightarrow> g_userId h = mo_userId exampleShopOrder"
    by (simp add: linkedGrant_def exampleBuy_def present_def)
  moreover have "distinct (map g_id (grants exampleShop))" by code_simp
  ultimately show ?thesis using grantFromOrder_delivers [OF run exampleShop_facts(1,2)] exampleShop_facts(7) run
    by (simp add: exampleProduct_def)
qed

text \<open>The first period of a new entitlement holds exactly the bytes the order bought, none of them
  used.\<close>

theorem grantFromOrder_new_allowance:
  assumes "grantFromOrder input d = Inr (g, d')"
    and "lookup mo_id (gi_orderId input) (orders d) = Some o1"
    and "Option.bind (mo_catalogOfferId o1) (\<lambda>i. lookup co_id i (offers d)) = Some offer"
    and "g_id g \<notin> g_id ` set (grants d)" and "qb_grantId ` set (buckets d) \<subseteq> g_id ` set (grants d)"
  shows "\<exists>b \<in> set (buckets d'). qb_grantId b = g_id g \<and> qb_granted b = orderBytes o1 offer \<and> qb_consumed b = 0"
  using assms(1)
proof (cases rule: grantFromOrder_shape)
  case (1 o2 offer' product expiresAt accountId d1 existing restarts d2 t)
  have same: "o2 = o1" "offer' = offer" using 1(1,10) assms(2,3) by simp_all
  have "map qb_grantId (buckets d2) = map qb_grantId (buckets d)"
    using writeGrant_grants [OF 1(15)] 1(5) by (simp add: cutBuckets_owner)
  then have "qb_grantId ` set (buckets d2) = qb_grantId ` set (buckets d)" by (metis list.set_map)
  then have "g_id g \<notin> qb_grantId ` set (buckets d2)" using assms(4,5) by blast
  then show ?thesis unfolding 1(17) same using grantPeriod_opens [where r = restarts] by metis
qed

theorem grantFromOrder_new_allowance_witness:
  "\<exists>g d'. grantFromOrder (exampleBuy (Some ''s2'')) exampleShop = Inr (g, d')
     \<and> (\<exists>b \<in> set (buckets d'). qb_grantId b = g_id g \<and> qb_granted b = 1500 \<and> qb_consumed b = 0)"
proof -
  obtain g d' where run: "grantFromOrder (exampleBuy (Some ''s2'')) exampleShop = Inr (g, d')"
    using exampleShop_runs by blast
  have "case grantFromOrder (exampleBuy (Some ''s2'')) exampleShop of Inr (g, _) \<Rightarrow> g_id g \<noteq> ''g1'' | Inl _ \<Rightarrow> False"
    by code_simp
  then have "g_id g \<notin> g_id ` set (grants exampleShop)"
    unfolding run by (simp add: exampleShop_def exampleMirrorDb_def exampleGrant_def)
  moreover have "qb_grantId ` set (buckets exampleShop) \<subseteq> g_id ` set (grants exampleShop)"
    by (simp add: exampleShop_def exampleMirrorDb_def exampleQuotaUser_def newBucket_def exampleGrant_def)
  ultimately show ?thesis
    using grantFromOrder_new_allowance [OF run exampleShop_facts(1,3)] run exampleShop_facts(6) by metis
qed



text \<open>C19: after a plan order with a subscription that takes effect at once, so that does not leave the running
  plan in place as one reserved for later does, every active plan entitlement of the member that is linked to a
  subscription is linked to that one: one plan is replaced by the other, never doubled.\<close>

theorem one_linked_plan:
  assumes "grantFromOrder input d = Inr (g, d')"
    and "lookup mo_id (gi_orderId input) (orders d) = Some o1" and "orderKind o1 = GrantPlan"
    and "\<not> gi_preserveExistingPlan input" and "present (gi_subscriptionId input) = Some s"
    and "h \<in> set (grants d')" and "g_userId h = mo_userId o1" and "g_kind h = GrantPlan"
    and "g_status h = GrantActive" and "g_subscriptionId h = Some s'"
    and "distinct (map g_id (grants d))"
  shows "s' = s"
  using assms(1)
proof (cases rule: grantFromOrder_shape)
  case (1 o2 offer product expiresAt accountId d1 existing restarts d2 t)
  have same: "o2 = o1" using 1(1) assms(2) by simp
  have gs: "grants d1 = update_many (supersededPlan (mo_userId o1) (Some s))
      (\<lambda>g. g\<lparr>g_status := GrantCanceled, g_endsAt := orderStart input o1\<rparr>) (grants d)"
    using 1(4) same assms(3,4,5) by (simp add: supersededGrants_def)
  have sub: "gi_subscriptionId input = Some s" "s \<noteq> []" using assms(5) by simp_all
  have old: "s' = s" if "x \<in> set (grants d1)" "g_userId x = mo_userId o1" "g_kind x = GrantPlan"
      "g_status x = GrantActive" "g_subscriptionId x = Some s'" for x
    using that unfolding gs
    by (elim update_many_memE) (auto simp: supersededPlan_def present_def sub split: option.splits)
  note w = writeGrant_grants [OF 1(15)]
  show ?thesis
  proof (cases existing)
    case None
    then show ?thesis using w old assms(6-10) 1(16) sub by auto
  next
    case (Some e)
    show ?thesis
    proof (cases "g_id h = g_id e")
      case False
      then show ?thesis using w Some old assms(6-10) 1(16)
        by (auto simp: continueGrant_def termsRow_def elim!: update_many_memE)
    next
      case True
      have "map g_id (grants d1) = map g_id (grants d)" unfolding gs by (rule map_update_many) simp
      then have ids: "distinct (map g_id (grants d1))" using assms(11) by simp
      have e: "e \<in> set (grants d1)" using continued_mem 1(6) Some by metis
      let ?r = "if restarts then Some (orderStart input o1) else None"
      obtain x where x: "x \<in> set (grants d1)" "g_id x = g_id e" "h = continueGrant t ?r x"
        using w Some assms(6) 1(16) True
        by (auto simp: continueGrant_def termsRow_def same elim!: update_many_memE)
      then have "x = e" using lookup_mem [OF ids e] lookup_mem [OF ids x(1)] by simp
      then have h: "g_userId e = mo_userId o1" "g_kind e = GrantPlan" "g_subscriptionId e = Some s'"
        using x(3) assms(7,8,10) by (simp_all add: continueGrant_def termsRow_def)
      then show ?thesis using continued_source [of input o1 _ d1 e s] 1(6) Some old [OF e] same assms(5) by auto
    qed
  qed
qed

theorem one_linked_plan_witness:
  "\<exists>g d'. grantFromOrder (exampleBuy (Some ''s2'')) exampleShop = Inr (g, d') \<and>
     \<not> (\<exists>h \<in> set (grants d'). g_userId h = ''u1'' \<and> g_kind h = GrantPlan \<and> g_status h = GrantActive
          \<and> g_subscriptionId h = Some ''s1'')"
proof -
  obtain g d' where run: "grantFromOrder (exampleBuy (Some ''s2'')) exampleShop = Inr (g, d')"
    using exampleShop_runs by blast
  have "present (gi_subscriptionId (exampleBuy (Some ''s2''))) = Some ''s2''" by (simp add: exampleBuy_def)
  moreover have "distinct (map g_id (grants exampleShop))" by (simp add: exampleShop_def exampleMirrorDb_def)
  ultimately have "''s1'' = ''s2''" if "h \<in> set (grants d')" "g_userId h = mo_userId exampleShopOrder"
      "g_kind h = GrantPlan" "g_status h = GrantActive" "g_subscriptionId h = Some ''s1''" for h
    using one_linked_plan [OF run exampleShop_facts(1,8,9) _ that] by blast
  then show ?thesis using run by (auto simp: exampleShop_facts(7))
qed

text \<open>C20: an Ultra upgrade keeps the entitlement and tops its running period up by exactly the
  difference of the two allowances, usage untouched; it goes through only from the product and price
  the order was made for, and never downwards.\<close>

theorem ultra_upgrade_exact:
  assumes "grantFromOrder input d = Inr (g, d')"
    and "lookup mo_id (gi_orderId input) (orders d) = Some o1" and "orderProduct o1 d = Some product"
    and "Option.bind (mo_catalogOfferId o1) (\<lambda>i. lookup co_id i (offers d)) = Some offer"
    and "cp_series product = Ultra" and "orderKind o1 = GrantTrafficPack"
    and "continued input o1 True d = Some e" and "g_trafficBytes e = Some n"
    and "b \<in> set (buckets d)" and "qb_grantId b = g_id e"
    and "qb_startsAt b = cb_startsAt (periodBounds (orderCadence o1 product) (nvl (g_resetAnchorAt e) (g_startsAt e))
           (g_endsAt g) (orderStart input o1))"
  shows "mo_upgradeFromProductId o1 = Some (g_productId e) \<and> mo_upgradeFromPriceCents o1 = g_priceCents e
    \<and> n \<le> orderBytes o1 offer \<and> g_id g = g_id e \<and> g_productId g = cp_id product
    \<and> (\<exists>c \<in> set (buckets d'). qb_id c = qb_id b \<and> qb_granted c = qb_granted b + (orderBytes o1 offer - n)
          \<and> qb_consumed c = qb_consumed b)"
  using assms(1)
proof (cases rule: grantFromOrder_shape)
  case (1 o2 offer' product' expiresAt accountId d1 existing restarts d2 t)
  have same: "o2 = o1" "offer' = offer" "product' = product" using 1(1,3,10) assms(2,3,4) by simp_all
  have "grants d1 = grants d" using 1(4) same assms(6) by (simp add: supersededGrants_def)
  then have "continued input o1 True d1 = continued input o1 True d" by (rule continued_cong)
  then have ex: "existing = Some e" using 1(6) same assms(5,7) by simp
  have r: "restarts = False" using 1(7) same assms(6) by (auto simp: restartsPlan_def)
  note w = writeGrant_grants [OF 1(15)]
  have w': "buckets d2 = buckets d" "g_id g = g_id e" "g_endsAt g = expiresAt" "g_productId g = cp_id product"
    using w ex r 1(5,11,12) same by (simp_all add: cutBuckets_def continueGrant_def termsRow_def)
  let ?p = "periodBounds (orderCadence o1 product) (nvl (g_resetAnchorAt e) (g_startsAt e)) expiresAt (orderStart input o1)"
  have up: "upgradeBytes (cp_series product = Ultra) existing (orderBytes o1 offer) = orderBytes o1 offer - n"
    using ex assms(5,8) by (simp add: upgradeBytes_def)
  have bs: "buckets d' = buckets (grantPeriod (g_id e) (orderCadence o1 product) ?p (orderBytes o1 offer)
      (orderMultiplier o1 product) False (orderBytes o1 offer - n) d2)"
    using 1(17) r same ex up w'(2) by (simp add: orderAnchor_def)
  have key: "bucketKey b = (g_id e, cb_startsAt ?p)" using assms(10,11) w'(3) by (simp add: bucketKey_def)
  have "n \<le> orderBytes o1 offer" using 1(9) same up by simp
  moreover have "b\<lparr>qb_endsAt := cb_endsAt ?p, qb_granted := qb_granted b + (orderBytes o1 offer - n)\<rparr> \<in> set (buckets d')"
    unfolding bs by (rule grantPeriod_tops_up) (use key assms(9) w'(1) calculation in simp_all)
  then have "\<exists>c \<in> set (buckets d'). qb_id c = qb_id b \<and> qb_granted c = qb_granted b + (orderBytes o1 offer - n)
      \<and> qb_consumed c = qb_consumed b" by (rule rev_bexI) simp
  ultimately show ?thesis using 1(8) same ex assms(5) w' by (simp add: ultraSourceOk_def)
qed

definition exampleUltraShop :: db where
  "exampleUltraShop = exampleShop\<lparr>
     grants := [exampleGrant\<lparr>g_kind := GrantTrafficPack, g_activeSlot := Some ''ULTRA'', g_quotaCadence := Some OneTimeQuota\<rparr>],
     products := [exampleProduct\<lparr>cp_series := Ultra, cp_kind := ProductTrafficPack\<rparr>],
     orders := [exampleShopOrder\<lparr>mo_kind := OrderTrafficPack, mo_upgradeFromProductId := Some ''prod1'',
       mo_upgradeFromPriceCents := Some 3000, mo_processedAt := Some 1709251200000\<rparr>]\<rparr>"

theorem ultra_upgrade_exact_witness:
  "\<exists>g d'. grantFromOrder (exampleBuy None) exampleUltraShop = Inr (g, d') \<and> g_id g = ''g1''
     \<and> (\<exists>c \<in> set (buckets d'). qb_id c = ''b1'' \<and> qb_granted c = 1500 \<and> qb_consumed c = 300)"
proof -
  let ?o = "exampleShopOrder\<lparr>mo_kind := OrderTrafficPack, mo_upgradeFromProductId := Some ''prod1'',
       mo_upgradeFromPriceCents := Some 3000, mo_processedAt := Some 1709251200000\<rparr>"
  let ?p = "exampleProduct\<lparr>cp_series := Ultra, cp_kind := ProductTrafficPack\<rparr>"
  let ?e = "exampleGrant\<lparr>g_kind := GrantTrafficPack, g_activeSlot := Some ''ULTRA'', g_quotaCadence := Some OneTimeQuota\<rparr>"
  let ?b = "(newBucket ''b1'' ''g1'' PlanCycle 1709251200000 1711929600000 1000 10000 0)\<lparr>qb_consumed := 300\<rparr>"
  note defs = exampleUltraShop_def exampleShop_def exampleShopOrder_def exampleOrder_def exampleProduct_def
    exampleShopOffer_def exampleBuy_def
  have "\<not> isl (grantFromOrder (exampleBuy None) exampleUltraShop)" by code_simp
  then obtain g d' where run: "grantFromOrder (exampleBuy None) exampleUltraShop = Inr (g, d')"
    using not_isl_obtain by fastforce
  have "lookup mo_id (gi_orderId (exampleBuy None)) (orders exampleUltraShop) = Some ?o"
    "orderProduct ?o exampleUltraShop = Some ?p"
    "Option.bind (mo_catalogOfferId ?o) (\<lambda>i. lookup co_id i (offers exampleUltraShop)) = Some exampleShopOffer"
    by (simp_all add: defs orderProduct_def)
  moreover have "continued (exampleBuy None) ?o True exampleUltraShop = Some ?e"
    by (simp add: continued_def linkedGrant_def present_def defs exampleGrant_def)
  moreover have "?b \<in> set (buckets exampleUltraShop)" "qb_grantId ?b = g_id ?e"
    by (simp_all add: exampleUltraShop_def exampleShop_def exampleMirrorDb_def exampleQuotaUser_def newBucket_def exampleGrant_def)
  moreover have "orderCadence ?o ?p = OneTimeQuota" "orderStart (exampleBuy None) ?o = 1709251200000"
    by (simp_all add: orderCadence_def orderStart_def defs)
  moreover have "orderKind ?o = GrantTrafficPack" "g_trafficBytes ?e = Some 1000" "orderBytes ?o exampleShopOffer = 1500"
    by (simp_all add: orderKind_def orderBytes_def exampleGrant_def defs)
  moreover have "qb_startsAt ?b = 1709251200000" "qb_granted ?b = 1000" "qb_consumed ?b = 300" "qb_id ?b = ''b1''"
    by (simp_all add: newBucket_def)
  ultimately show ?thesis
    using ultra_upgrade_exact [OF run, of ?o ?p exampleShopOffer ?e 1000 ?b] run
    by (simp add: periodBounds_def exampleGrant_def)
qed

end
