(* ===== verification/SecretCipher.thy ===== *)
theory SecretCipher imports JsText begin

text \<open>
  \<open>apps/api/src/security/secret-cipher.service.ts\<close>: secrets and signed quotes as
  \<open>enc:v1:iv:tag:ciphertext\<close>, the parts in base64url.

  A string is the list of its UTF-8 bytes, which is also what a \<open>Buffer\<close> holds. AES-256-GCM of
  \<open>node:crypto\<close> is a pair of parameters: \<open>seal key iv text\<close> gives the tag and the ciphertext,
  \<open>opens key iv tag ciphertext\<close> gives the text, or nothing where the library throws. The random
  initialisation vector is an argument.
\<close>

section \<open>base64url\<close>

definition b64Alphabet :: string where
  "b64Alphabet = ''ABCDEFGHIJKLMNOPQRSTUVWXYZabcdefghijklmnopqrstuvwxyz0123456789-_''"

definition b64Char :: "nat \<Rightarrow> char" where
  "b64Char n = b64Alphabet ! n"

text \<open>The decoder reads both alphabets.\<close>

definition b64Value :: "char \<Rightarrow> nat option" where
  "b64Value c = (if c = CHR ''+'' then Some 62 else if c = CHR ''/'' then Some 63
     else map_of (zip b64Alphabet [0..<64]) c)"

fun toSextets :: "nat list \<Rightarrow> nat list" where
  "toSextets (a # b # c # rest) =
     [a div 4, a mod 4 * 16 + b div 16, b mod 16 * 4 + c div 64, c mod 64] @ toSextets rest"
| "toSextets [a, b] = [a div 4, a mod 4 * 16 + b div 16, b mod 16 * 4]"
| "toSextets [a] = [a div 4, a mod 4 * 16]"
| "toSextets [] = []"

fun fromSextets :: "nat list \<Rightarrow> nat list" where
  "fromSextets (x # y # z # w # rest) =
     [x * 4 + y div 16, y mod 16 * 16 + z div 4, z mod 4 * 64 + w] @ fromSextets rest"
| "fromSextets [x, y, z] = [x * 4 + y div 16, y mod 16 * 16 + z div 4]"
| "fromSextets [x, y] = [x * 4 + y div 16]"
| "fromSextets _ = []"

definition toBase64Url :: "string \<Rightarrow> string" where
  "toBase64Url bytes = map b64Char (toSextets (map of_char bytes))"

text \<open>Characters outside the alphabets are skipped and padding ends the text.\<close>

definition fromBase64 :: "string \<Rightarrow> string" where
  "fromBase64 s = map char_of (fromSextets (List.map_filter b64Value (takeWhile (\<lambda>c. c \<noteq> CHR ''='') s)))"

lemma b64_digit:
  "n < 64 \<Longrightarrow> b64Value (b64Char n) = Some n \<and> b64Char n \<noteq> CHR '':'' \<and> b64Char n \<noteq> CHR ''=''"
proof -
  have "\<forall>n \<in> set [0..<64]. b64Value (b64Char n) = Some n \<and> b64Char n \<noteq> CHR '':'' \<and> b64Char n \<noteq> CHR ''=''"
    by code_simp
  then show "n < 64 \<Longrightarrow> ?thesis" by simp
qed

lemma toSextets_bound:
  "\<forall>n \<in> set bs. n < 256 \<Longrightarrow> \<forall>n \<in> set (toSextets bs). n < 64"
proof (induction bs rule: toSextets.induct)
  case (1 a b c rest)
  have "b div 16 < 16" "a mod 4 < 4" "c div 64 < 4" "b mod 16 < 16" using 1(2) by (simp_all add: div_less_iff_less_mult)
  then show ?case using 1 by (auto simp del: mod_less_divisor)
next
  case (2 a b)
  have "b div 16 < 16" "a mod 4 < 4" "b mod 16 < 16" using 2 by (simp_all add: div_less_iff_less_mult)
  then show ?case using 2 by (auto simp del: mod_less_divisor)
next
  case (3 a)
  have "a mod 4 < 4" by simp
  then have "a mod 4 * 16 < 64" by linarith
  then show ?case using 3 by auto
qed simp

lemma fromSextets_toSextets:
  "\<forall>n \<in> set bs. n < 256 \<Longrightarrow> fromSextets (toSextets bs) = bs"
proof (induction bs rule: toSextets.induct)
  case (1 a b c rest)
  have "b div 16 < 16" "c div 64 < 4" using 1(2) by (simp_all add: div_less_iff_less_mult)
  then show ?case using 1 by simp
next
  case (2 a b)
  have "b div 16 < 16" using 2 by (simp add: div_less_iff_less_mult)
  then show ?case by simp
qed simp_all

lemma base64_roundtrip: "fromBase64 (toBase64Url bytes) = bytes"
proof -
  let ?bs = "map of_char bytes :: nat list"
  have b: "\<forall>n \<in> set ?bs. n < 256" by auto
  note s = toSextets_bound [OF b]
  have pad: "takeWhile (\<lambda>c. c \<noteq> CHR ''='') (map b64Char (toSextets ?bs)) = map b64Char (toSextets ?bs)"
    using s b64_digit by (auto simp: takeWhile_eq_all_conv)
  have digits: "List.map_filter b64Value (map b64Char ns) = ns" if "\<forall>n \<in> set ns. n < 64" for ns
    using that b64_digit by (induction ns) (auto simp: map_filter_simps)
  show ?thesis
    unfolding fromBase64_def toBase64Url_def pad digits [OF s] fromSextets_toSextets [OF b] by (simp add: comp_def)
qed

lemma toBase64Url_plain: "CHR '':'' \<notin> set (toBase64Url bytes)"
proof -
  have b: "\<forall>n \<in> set (map of_char bytes :: nat list). n < 256" by auto
  show ?thesis using toSextets_bound [OF b] b64_digit by (force simp: toBase64Url_def)
qed

lemma toBase64Url_Nil [simp]: "toBase64Url bytes = [] \<longleftrightarrow> bytes = []"
proof -
  have "toSextets ns = [] \<longleftrightarrow> ns = []" for ns by (induction ns rule: toSextets.induct) auto
  then show ?thesis by (simp add: toBase64Url_def)
qed

section \<open>Splitting at colons\<close>

fun splitColon :: "string \<Rightarrow> string list" where
  "splitColon [] = [[]]"
| "splitColon (c # s) =
     (if c = CHR '':'' then [] # splitColon s
      else (case splitColon s of [] \<Rightarrow> [[c]] | p # ps \<Rightarrow> (c # p) # ps))"

fun joinColon :: "string list \<Rightarrow> string" where
  "joinColon [] = []"
| "joinColon [p] = p"
| "joinColon (p # q # ps) = p @ '':'' @ joinColon (q # ps)"

lemma splitColon_plain: "CHR '':'' \<notin> set p \<Longrightarrow> splitColon p = [p]"
  by (induction p) auto

lemma splitColon_append: "CHR '':'' \<notin> set p \<Longrightarrow> splitColon (p @ CHR '':'' # s) = p # splitColon s"
  by (induction p) auto

section \<open>The service\<close>

definition cipherPrefix :: string where
  "cipherPrefix = ''enc:v1:''"

definition hasPrefix :: "string \<Rightarrow> string \<Rightarrow> bool" where
  "hasPrefix p s \<longleftrightarrow> take (length p) s = p"

text \<open>\<open>onModuleInit\<close>: the key of the environment, if there is one.\<close>

definition cipherKey :: "string option \<Rightarrow> bool \<Rightarrow> error + string option" where
  "cipherKey configured production =
     bindE (case map_option trim configured of
         None \<Rightarrow> Inr None
       | Some encoded \<Rightarrow>
           if encoded = [] then Inr None
           else bindE (guardE (PlainError ''key-length'') (length (fromBase64 encoded) = 32))
                  (\<lambda>_. Inr (Some (fromBase64 encoded)))) (\<lambda>key.
     bindE (guardE (PlainError ''key-required'') (\<not> (production \<and> key = None))) (\<lambda>_. Inr key))"

definition cipherEnabled :: "string option \<Rightarrow> bool" where
  "cipherEnabled key \<longleftrightarrow> key \<noteq> None"

definition cipherEncrypt ::
  "(string \<Rightarrow> string \<Rightarrow> string \<Rightarrow> string \<times> string) \<Rightarrow> string option \<Rightarrow> string \<Rightarrow> string \<Rightarrow> string" where
  "cipherEncrypt seal key iv value =
     (case key of
        None \<Rightarrow> value
      | Some k \<Rightarrow>
          if value = [] \<or> hasPrefix cipherPrefix value then value
          else (case seal k iv value of (tag, encrypted) \<Rightarrow>
            joinColon [butlast cipherPrefix, toBase64Url iv, toBase64Url tag, toBase64Url encrypted]))"

definition cipherDecrypt ::
  "(string \<Rightarrow> string \<Rightarrow> string \<Rightarrow> string \<Rightarrow> string option) \<Rightarrow> string option \<Rightarrow> string option
     \<Rightarrow> error + string option" where
  "cipherDecrypt opens key value =
     (case value of
        None \<Rightarrow> Inr None
      | Some s \<Rightarrow>
          if s = [] \<or> \<not> hasPrefix cipherPrefix s then Inr (Some s)
          else (case key of
              None \<Rightarrow> Inl (PlainError ''cipher-disabled'')
            | Some k \<Rightarrow>
                (case drop 2 (splitColon s) of
                   ivValue # tagValue # encryptedValue # _ \<Rightarrow>
                     if ivValue = [] \<or> tagValue = [] \<or> encryptedValue = [] then Inl (PlainError ''cipher-format'')
                     else bindE (require (PlainError ''cipher-auth'')
                         (opens k (fromBase64 ivValue) (fromBase64 tagValue) (fromBase64 encryptedValue)))
                       (\<lambda>text. Inr (Some text))
                 | _ \<Rightarrow> Inl (PlainError ''cipher-format''))))"

section \<open>What it guarantees\<close>

definition gcmLaw ::
  "(string \<Rightarrow> string \<Rightarrow> string \<Rightarrow> string \<times> string) \<Rightarrow>
   (string \<Rightarrow> string \<Rightarrow> string \<Rightarrow> string \<Rightarrow> string option) \<Rightarrow> string \<Rightarrow> string \<Rightarrow> string \<Rightarrow> bool" where
  "gcmLaw seal opens k iv text \<longleftrightarrow>
     (case seal k iv text of (tag, encrypted) \<Rightarrow>
        tag \<noteq> [] \<and> encrypted \<noteq> [] \<and> opens k iv tag encrypted = Some text)"

lemma encrypted_split:
  assumes "seal k iv v = (tag, encrypted)" and "v \<noteq> []" and "\<not> hasPrefix cipherPrefix v"
  defines "s \<equiv> cipherEncrypt seal (Some k) iv v"
  shows "hasPrefix cipherPrefix s"
    and "splitColon s = [''enc'', ''v1'', toBase64Url iv, toBase64Url tag, toBase64Url encrypted]"
proof -
  have s: "s = ''enc'' @ CHR '':'' # (''v1'' @ CHR '':'' # (toBase64Url iv @ CHR '':''
      # (toBase64Url tag @ CHR '':'' # toBase64Url encrypted)))"
    using assms by (simp add: s_def cipherEncrypt_def cipherPrefix_def)
  show "hasPrefix cipherPrefix s" unfolding s by (simp add: hasPrefix_def cipherPrefix_def)
  have "splitColon (''enc'' @ CHR '':'' # t) = ''enc'' # splitColon t"
    "splitColon (''v1'' @ CHR '':'' # t) = ''v1'' # splitColon t" for t
    by (rule splitColon_append; simp)+
  then show "splitColon s = [''enc'', ''v1'', toBase64Url iv, toBase64Url tag, toBase64Url encrypted]"
    unfolding s by (simp only: splitColon_append [OF toBase64Url_plain] splitColon_plain [OF toBase64Url_plain])
qed

lemma cipher_decrypts:
  assumes "gcmLaw seal opens k iv v" and "iv \<noteq> []" and "v \<noteq> []" and "\<not> hasPrefix cipherPrefix v"
  shows "cipherDecrypt opens (Some k) (Some (cipherEncrypt seal (Some k) iv v)) = Inr (Some v)"
proof -
  obtain tag encrypted where seal: "seal k iv v = (tag, encrypted)" by fastforce
  note s = encrypted_split [of seal k iv v tag encrypted, OF seal assms(3,4)]
  have "cipherEncrypt seal (Some k) iv v \<noteq> []" using s(2) by auto
  then show ?thesis
    using s assms seal by (simp add: cipherDecrypt_def gcmLaw_def base64_roundtrip)
qed

text \<open>What the service encrypts it decrypts to the same text, whatever key and initialisation
  vector it used and also without a key, and encrypting what is encrypted already changes nothing; only
  a text that itself starts like a ciphertext is exempt.\<close>

theorem cipher_roundtrip:
  assumes "\<And>k. key = Some k \<Longrightarrow> gcmLaw seal opens k iv v" and "iv \<noteq> []" and "\<not> hasPrefix cipherPrefix v"
  shows "cipherDecrypt opens key (Some (cipherEncrypt seal key iv v)) = Inr (Some v)
    \<and> cipherEncrypt seal key iv' (cipherEncrypt seal key iv v) = cipherEncrypt seal key (if key = None \<or> v = [] then iv' else iv) v"
proof (cases "key = None \<or> v = []")
  case True
  then show ?thesis using assms(3) by (auto simp: cipherDecrypt_def cipherEncrypt_def split: option.split)
next
  case False
  then obtain k where k: "key = Some k" "v \<noteq> []" by auto
  obtain tag encrypted where seal: "seal k iv v = (tag, encrypted)" by fastforce
  have "hasPrefix cipherPrefix (cipherEncrypt seal key iv v)"
    using encrypted_split(1) [of seal k iv v tag encrypted, OF seal k(2) assms(3)] k(1) by simp
  then have "cipherEncrypt seal key iv' (cipherEncrypt seal key iv v) = cipherEncrypt seal key iv v"
    using k(1) unfolding cipherEncrypt_def [of seal key iv'] by simp
  then show ?thesis
    using cipher_decrypts [OF assms(1) [OF k(1)] assms(2) k(2) assms(3)] k by simp
qed

text \<open>A toy cipher with the law: the text backwards under the key, tagged with the key.\<close>

definition exampleSeal :: "string \<Rightarrow> string \<Rightarrow> string \<Rightarrow> string \<times> string" where
  "exampleSeal k iv text = (''t'' @ k, rev text)"

definition exampleOpens :: "string \<Rightarrow> string \<Rightarrow> string \<Rightarrow> string \<Rightarrow> string option" where
  "exampleOpens k iv tag encrypted = (if tag = ''t'' @ k then Some (rev encrypted) else None)"

lemma exampleGcm: "text \<noteq> [] \<Longrightarrow> gcmLaw exampleSeal exampleOpens k iv text"
  by (simp add: gcmLaw_def exampleSeal_def exampleOpens_def)

theorem cipher_roundtrip_witness:
  "cipherDecrypt exampleOpens (Some ''key'') (Some (cipherEncrypt exampleSeal (Some ''key'') ''iv'' ''secret''))
     = Inr (Some ''secret'')"
proof -
  have "\<not> hasPrefix cipherPrefix ''secret''" by code_simp
  then show ?thesis
    using cipher_roundtrip [where key = "Some ''key''" and iv = "''iv''" and v = "''secret''"
      and seal = exampleSeal and opens = exampleOpens and iv' = "''jv''"] exampleGcm by simp
qed

end
