(* ===== verification/PlanUpgrade.thy ===== *)
theory PlanUpgrade imports Grants SecretCipher begin

text \<open>
  Quoting the upgrade of a standard plan: \<open>apps/api/src/commerce/standard-plan-upgrade.ts\<close>.
  What an accepted quote does to the entitlement is \<open>upgradeStandardPlan\<close> (\<open>Grants\<close>).

  Parameters: \<open>fingerprint\<close> is \<open>upgradeFingerprint\<close> (SHA-256 of the JSON text), \<open>stringify\<close> and
  \<open>parse\<close> are the JSON text of a value and back (\<open>parse\<close> gives nothing where \<open>JSON.parse\<close> throws),
  the key, the cipher functions and the initialisation vector are those of \<open>SecretCipher\<close>.

  A token comes back as JSON of an unchecked type, so \<open>assertCurrent\<close> reads JSON fields.
\<close>

section \<open>The value of what is left\<close>

definition upgradeNote :: string where
  "upgradeNote = ''STANDARD_PLAN_UPGRADE:''"

definition standardUpgradeFeeCents :: int where
  "standardUpgradeFeeCents = 500"

definition remainingValue :: "int \<Rightarrow> instant \<Rightarrow> instant \<Rightarrow> instant \<Rightarrow> error + int" where
  "remainingValue cents startsAt endsAt at =
     (if \<not> isSafeInteger cents \<or> cents < 0 \<or> endsAt \<le> startsAt \<or> at < startsAt \<or> endsAt \<le> at
      then Inl (BadRequest ''plan-price'')
      else
        let duration = endsAt - startsAt; remaining = endsAt - at
        in Inr (bigDiv (cents * remaining + bigDiv duration 2) duration))"

section \<open>Reading the member's plan\<close>

record upgrade_state =
  us_grant :: grant_row
  us_product :: product_row
  us_offer :: offer_row
  us_bucket :: bucket_row
  us_original :: order_row
  us_purchases :: "order_row list"
  us_state :: string
  us_complimentary :: bool
  us_valueCents :: int

text \<open>\<open>grants\<close>: the standard plans that are active and not over, in the future ones too.\<close>

definition standardPlans :: "id \<Rightarrow> instant \<Rightarrow> db \<Rightarrow> grant_row list" where
  "standardPlans userId now d = filter (\<lambda>g. g_userId g = userId \<and> g_kind g = GrantPlan
     \<and> g_status g = GrantActive \<and> now < g_endsAt g \<and> grantSeries g d = Some Standard) (grants d)"

definition byAge :: "order_row list \<Rightarrow> order_row list" where
  "byAge rows = sort_key (\<lambda>o1. (mo_createdAt o1, map of_char (mo_id o1) :: nat list)) rows"

definition planOrders :: "id \<Rightarrow> db \<Rightarrow> order_row list" where
  "planOrders grantId d = byAge (filter (\<lambda>o1. mo_grantId o1 = Some grantId) (orders d))"

text \<open>\<open>o.refunds.some(r => r.status !== 'VOID') || o.epayPaymentAttempt?.refundAttempt\<close>\<close>

definition refundTouched :: "db \<Rightarrow> order_row \<Rightarrow> bool" where
  "refundTouched d o1 \<longleftrightarrow> (\<exists>r \<in> set (refunds d). rf_orderId r = mo_id o1 \<and> rf_status r \<noteq> RefundVoid)
     \<or> (case lookup ea_orderId (Some (mo_id o1)) (epayAttempts d) of
          None \<Rightarrow> False
        | Some a \<Rightarrow> lookup er_paymentAttemptId (ea_id a) (epayRefunds d) \<noteq> None)"

definition conflictingSubscription :: "id \<Rightarrow> id \<Rightarrow> instant \<Rightarrow> db \<Rightarrow> subscription_row \<Rightarrow> bool" where
  "conflictingSubscription userId legacyId now d s \<longleftrightarrow> s_userId s = userId
     \<and> (s_status s = SubActive \<or> s_status s = SubPaused) \<and> now < s_endsAt s \<and> s_id s \<noteq> legacyId
     \<and> map_option cp_series (catalogProductOf (s_planId s) d) = Some Standard"

definition noteStarts :: "string \<Rightarrow> order_row \<Rightarrow> bool" where
  "noteStarts p o1 \<longleftrightarrow> (case mo_note o1 of None \<Rightarrow> False | Some n \<Rightarrow> hasPrefix p n)"

text \<open>The audit row that vouches for dates changed by an early activation.\<close>

fun jpath :: "json \<Rightarrow> string list \<Rightarrow> json option" where
  "jpath v [] = Some v"
| "jpath v (k # ks) = (case jget v k of None \<Rightarrow> None | Some w \<Rightarrow> jpath w ks)"

definition activationAudited :: "id \<Rightarrow> grant_row \<Rightarrow> order_row \<Rightarrow> int \<Rightarrow> db \<Rightarrow> bool" where
  "activationAudited userId g o1 months d \<longleftrightarrow>
     (case mo_entitlementExpiresAt o1 of
        None \<Rightarrow> False
      | Some expires \<Rightarrow>
          \<exists>a \<in> set (audits d). al_action a = ''entitlement.scheduled.activated'' \<and> al_targetType a = ''user''
            \<and> al_targetId a = Some userId
            \<and> jpath (al_metadata a) [''result'', ''grantId''] = Some (JStr (g_id g))
            \<and> jpath (al_metadata a) [''result'', ''orderId''] = Some (JStr (mo_id o1))
            \<and> jpath (al_metadata a) [''result'', ''startsAt''] = Some (JDate (g_startsAt g))
            \<and> jpath (al_metadata a) [''result'', ''endsAt''] = Some (JDate (g_endsAt g))
            \<and> jpath (al_metadata a) [''result'', ''intervalMonths''] = Some (JNum months)
            \<and> jpath (al_metadata a) [''originalEndsAt''] = Some (JDate expires))"

definition purchasedEnd :: "instant \<Rightarrow> int \<Rightarrow> instant" where
  "purchasedEnd startsAt months =
     (let day = getUTCDate startsAt;
          first = setUTCDate startsAt 1;
          expectedEnd = setUTCMonth first (getUTCMonth first + months);
          lastDay = getUTCDate (dateUTC (getUTCFullYear expectedEnd) (getUTCMonth expectedEnd + 1) 0 0 0 0 0)
      in setUTCDate expectedEnd (min day lastDay))"

definition stateJson :: "grant_row \<Rightarrow> bucket_row \<Rightarrow> order_row list \<Rightarrow> bool \<Rightarrow> int \<Rightarrow> json" where
  "stateJson g b purchases complimentary valueCents = JObj ([
     (''id'', JStr (g_id g)), (''product'', JStr (g_productId g)), (''offer'', jopt JStr (g_offerId g)),
     (''start'', JDate (g_startsAt g)), (''end'', JDate (g_endsAt g)), (''anchor'', jopt JDate (g_resetAnchorAt g)),
     (''quota'', jopt JBig (g_trafficBytes g)), (''profile'', JStr (g_profileId g)),
     (''up'', JNum (g_speedUp g)), (''down'', JNum (g_speedDown g)), (''devices'', JNum (g_deviceLimit g))]
     @ (if complimentary then [(''adminListPrice'', JNum valueCents)] else [])
     @ [(''bucket'', JArr [JStr (qb_id b), JDate (qb_startsAt b), JDate (qb_endsAt b), JBig (qb_granted b)]),
        (''orders'', JArr (map (\<lambda>o1. JArr [JStr (mo_id o1), JNum (mo_amountCents o1),
            JStr (if mo_status o1 = OrderApplied then ''APPLIED'' else if mo_status o1 = OrderVoid then ''VOID'' else ''PENDING''),
            jopt JStr (mo_note o1), jopt JDate (mo_entitlementExpiresAt o1),
            nvl (mo_planUpgrade o1) JNull]) purchases))])"

text \<open>The steps of \<open>read\<close>, in the order of their refusals. First the plan, then the order it was
  bought with, then that its dates are those it was bought with.\<close>

definition readPlan ::
  "id \<Rightarrow> instant \<Rightarrow> db \<Rightarrow> error + (grant_row \<times> offer_row \<times> bucket_row)" where
  "readPlan userId now d =
     (case lookup u_id userId (users d) of
        None \<Rightarrow> Inl (BadRequest ''account'')
      | Some user \<Rightarrow>
          if u_deletedAt user \<noteq> None \<or> u_status user \<noteq> UserActive then Inl (BadRequest ''account'')
          else (case standardPlans userId now d of
              [g] \<Rightarrow>
                if now < g_startsAt g then Inl (Conflict ''plan-not-unique'')
                else (case (grantOffer g d, present (g_subscriptionId g), g_trafficBytes g) of
                    (Some offer, Some legacyId, Some bytes) \<Rightarrow>
                      if co_billingPeriod offer \<notin> {Monthly, Quarterly, Yearly}
                         \<or> g_quotaCadence g \<noteq> Some MonthlyReset \<or> bytes = 0
                      then Inl (Conflict ''plan-not-upgradable'')
                      else (case filter (bucketCurrent now) (grantBuckets (g_id g) d) of
                          [b] \<Rightarrow>
                            if \<exists>s \<in> set (subscriptions d). conflictingSubscription userId legacyId now d s
                            then Inl (Conflict ''other-subscription'')
                            else Inr (g, offer, b)
                        | _ \<Rightarrow> Inl (Conflict ''period-not-ready''))
                  | _ \<Rightarrow> Inl (Conflict ''plan-not-upgradable''))
            | _ \<Rightarrow> Inl (Conflict ''plan-not-unique'')))"

definition isPurchase :: "order_row \<Rightarrow> bool" where
  "isPurchase o1 \<longleftrightarrow> mo_status o1 = OrderApplied \<and> mo_note o1 \<noteq> Some ''PLAN_QUOTA_RESET''"

definition complimentaryOrder :: "order_row \<Rightarrow> bool" where
  "complimentaryOrder o1 \<longleftrightarrow> mo_source o1 = SourceAdmin \<and> mo_amountCents o1 = 0"

definition originalValue :: "order_row \<Rightarrow> int option" where
  "originalValue o1 = (if complimentaryOrder o1 then mo_basePriceCents o1 else Some (mo_amountCents o1))"

definition readOriginal ::
  "grant_row \<Rightarrow> offer_row \<Rightarrow> db \<Rightarrow> error + (order_row \<times> order_row list \<times> int \<times> int)" where
  "readOriginal g offer d =
     (let os = planOrders (g_id g) d
      in if \<exists>o1 \<in> set os. refundTouched d o1 then Inl (Conflict ''refund-record'')
         else
           let purchases = filter isPurchase os
           in case filter (\<lambda>o1. \<not> noteStarts upgradeNote o1) purchases of
                [original] \<Rightarrow>
                  (case (originalValue original, mo_intervalMonths original) of
                     (Some valueCents, Some months) \<Rightarrow>
                       if \<not> complimentaryOrder original \<and> mo_source original \<notin> {SourcePayment, SourceWallet}
                          \<or> \<not> isSafeInteger valueCents \<or> valueCents \<le> 0 \<or> Some months \<noteq> co_intervalMonths offer
                       then Inl (Conflict ''value-unverified'')
                       else Inr (original, purchases, valueCents, months)
                   | _ \<Rightarrow> Inl (Conflict ''value-unverified''))
              | _ \<Rightarrow> Inl (Conflict ''several-orders''))"

definition checkDates :: "id \<Rightarrow> grant_row \<Rightarrow> order_row \<Rightarrow> int \<Rightarrow> db \<Rightarrow> error + unit" where
  "checkDates userId g original months d =
     (let moved = (mo_entitlementExpiresAt original \<noteq> Some (g_endsAt g));
          earlyActivationVerified = (moved \<and> activationAudited userId g original months d);
          anchor = nvl (mo_processedAt original) (mo_createdAt original)
      in bindE (guardE (Conflict ''value-unverified'') (moved \<longrightarrow> earlyActivationVerified)) (\<lambda>_.
         bindE (guardE (Conflict ''group-buy'') (lookup gm_orderId (Some (mo_id original)) (groupMembers d) = None)) (\<lambda>_.
         bindE (guardE (Conflict ''interval-mismatch'') (purchasedEnd (g_startsAt g) months = g_endsAt g)) (\<lambda>_.
         guardE (Conflict ''start-adjusted'')
           (\<bar>anchor - g_startsAt g\<bar> \<le> 60000 \<or> earlyActivationVerified
            \<or> noteStarts ''PLAN_ACTIVATION:scheduled_switch'' original)))))"

definition readUpgrade :: "(json \<Rightarrow> string) \<Rightarrow> id \<Rightarrow> instant \<Rightarrow> db \<Rightarrow> error + upgrade_state" where
  "readUpgrade fingerprint userId now d =
     bindE (readPlan userId now d) (\<lambda>(g, offer, b).
     bindE (readOriginal g offer d) (\<lambda>(original, purchases, valueCents, months).
     bindE (checkDates userId g original months d) (\<lambda>_.
     bindE (require (PrismaKnown ''inconsistent'') (lookup cp_id (g_productId g) (products d))) (\<lambda>product.
     Inr \<lparr>us_grant = g, us_product = product, us_offer = offer, us_bucket = b, us_original = original,
          us_purchases = purchases,
          us_state = fingerprint (stateJson g b purchases (complimentaryOrder original) valueCents),
          us_complimentary = complimentaryOrder original, us_valueCents = valueCents\<rparr>))))"

section \<open>Quoting\<close>

fun basisName :: "credit_basis \<Rightarrow> string" where
  "basisName ActualPayment = ''actual_payment''"
| "basisName AdminListPrice = ''admin_list_price''"
| "basisName PreviousUpgrade = ''previous_upgrade''"

definition quotePurpose :: string where
  "quotePurpose = ''standard-plan-upgrade-v1''"

definition quoteJson :: "upgrade_quote \<Rightarrow> json" where
  "quoteJson q = JObj [
     (''purpose'', JStr quotePurpose), (''userId'', JStr (uq_userId q)), (''grantId'', JStr (uq_grantId q)),
     (''state'', JStr (uq_state q)), (''quotedAt'', JDate (uq_quotedAt q)), (''expiresAt'', JDate (uq_expiresAt q)),
     (''startsAt'', JDate (uq_startsAt q)), (''endsAt'', JDate (uq_endsAt q)),
     (''sourceOrderId'', JStr (uq_sourceOrderId q)), (''sourceProductName'', JStr (uq_sourceProductName q)),
     (''sourceProductId'', JStr (uq_sourceProductId q)), (''sourceTrafficBytes'', JBig (uq_sourceTrafficBytes q)),
     (''sourcePaidCents'', JNum (uq_sourcePaidCents q)),
     (''creditBasis'', jopt (JStr \<circ> basisName) (uq_creditBasis q)),
     (''creditBasisCents'', jopt JNum (uq_creditBasisCents q)),
     (''targetPriceCents'', JNum (uq_targetPriceCents q)), (''creditCents'', JNum (uq_creditCents q)),
     (''targetRemainingCents'', JNum (uq_targetRemainingCents q)),
     (''upgradeFeeCents'', jopt JNum (uq_upgradeFeeCents q)), (''payableCents'', JNum (uq_payableCents q)),
     (''target'', snapshotJson (uq_target q))]"

definition reducesLimit :: "int \<Rightarrow> int \<Rightarrow> bool" where
  "reducesLimit old new \<longleftrightarrow> new \<noteq> 0 \<and> (old = 0 \<or> new < old)"

definition higherOffer :: "upgrade_state \<Rightarrow> offer_row \<Rightarrow> product_row \<Rightarrow> bool" where
  "higherOffer st offer product \<longleftrightarrow> co_active offer \<and> co_archivedAt offer = None
     \<and> cp_status product = ProductActive \<and> cp_kind product = ProductPlan \<and> cp_series product = Standard
     \<and> cp_id product \<noteq> g_productId (us_grant st) \<and> co_billingPeriod offer = co_billingPeriod (us_offer st)
     \<and> co_intervalMonths offer = co_intervalMonths (us_offer st) \<and> present (cp_legacyPlanId product) \<noteq> None
     \<and> co_priceCents (us_offer st) < co_priceCents offer
     \<and> nvl (g_trafficBytes (us_grant st)) 0 < co_trafficBytes offer"

definition targetOffer :: "upgrade_state \<Rightarrow> id \<Rightarrow> db \<Rightarrow> error + (offer_row \<times> offer_snapshot)" where
  "targetOffer st offerId d =
     (case lookup co_id offerId (offers d) of
        None \<Rightarrow> Inl (BadRequest ''pick-higher-plan'')
      | Some offer \<Rightarrow>
          bindE (require (PrismaKnown ''inconsistent'') (lookup cp_id (co_productId offer) (products d))) (\<lambda>product.
          bindE (guardE (BadRequest ''pick-higher-plan'') (higherOffer st offer product)) (\<lambda>_.
          bindE (snapshotCatalogOffer offer None d) (\<lambda>target.
          bindE (guardE (BadRequest ''lower-limits'')
                   (\<not> (reducesLimit (g_speedUp (us_grant st)) (os_speedUpMbps target)
                      \<or> reducesLimit (g_speedDown (us_grant st)) (os_speedDownMbps target)
                      \<or> reducesLimit (g_deviceLimit (us_grant st)) (os_deviceLimit target)))) (\<lambda>_.
          Inr (offer, target))))))"

text \<open>What the plan is still worth: of the last upgrade's target, or else of the purchase. A snapshot
  without the price fails the price check, one without the date BigInt's.\<close>

fun priorCredit :: "json option \<Rightarrow> json option \<Rightarrow> instant \<Rightarrow> instant \<Rightarrow> error + (credit_basis \<times> int \<times> int)" where
  "priorCredit (Some (JNum basis)) (Some (JDate quotedAt)) endsAt now =
     bindE (remainingValue basis quotedAt endsAt now) (\<lambda>left. Inr (PreviousUpgrade, basis, left))"
| "priorCredit (Some (JNum basis)) _ endsAt now =
     Inl (if \<not> isSafeInteger basis \<or> basis < 0 \<or> endsAt \<le> now then BadRequest ''plan-price'' else RangeError)"
| "priorCredit _ _ endsAt now = Inl (BadRequest ''plan-price'')"

definition upgradeCredit :: "upgrade_state \<Rightarrow> instant \<Rightarrow> error + (credit_basis \<times> int \<times> int)" where
  "upgradeCredit st now =
     (let g = us_grant st in
      bindE (remainingValue (us_valueCents st) (g_startsAt g) (g_endsAt g) now) (\<lambda>cents.
      let ups = filter (noteStarts upgradeNote) (us_purchases st) in
      if ups = [] then Inr (if us_complimentary st then AdminListPrice else ActualPayment, us_valueCents st, cents)
      else
        bindE (require (Conflict ''upgrade-snapshot'') (mo_planUpgrade (last ups))) (\<lambda>prior.
        bindE (guardE (Conflict ''upgrade-snapshot'') (jget prior ''purpose'' = Some (JStr quotePurpose))) (\<lambda>_.
        priorCredit (jget prior ''targetRemainingCents'') (jget prior ''quotedAt'') (g_endsAt g) now))))"

definition newQuote :: "upgrade_state \<Rightarrow> id \<Rightarrow> id \<Rightarrow> instant \<Rightarrow> db \<Rightarrow> error + upgrade_quote" where
  "newQuote st userId offerId now d =
     bindE (targetOffer st offerId d) (\<lambda>(offer, target).
     bindE (upgradeCredit st now) (\<lambda>(basis, basisCents, creditCents).
     let g = us_grant st in
     bindE (remainingValue (co_priceCents offer) (g_startsAt g) (g_endsAt g) now) (\<lambda>targetRemainingCents.
     let differenceCents = targetRemainingCents - creditCents in
     bindE (guardE (BadRequest ''nothing-to-pay'') (0 < differenceCents)) (\<lambda>_.
     Inr \<lparr>uq_userId = userId, uq_grantId = g_id g, uq_state = us_state st, uq_quotedAt = now,
          uq_expiresAt = min (now + 15 * 60000) (min (qb_endsAt (us_bucket st)) (g_endsAt g)),
          uq_startsAt = g_startsAt g, uq_endsAt = g_endsAt g, uq_sourceOrderId = mo_id (us_original st),
          uq_sourceProductName = cp_name (us_product st), uq_sourceProductId = g_productId g,
          uq_sourceTrafficBytes = nvl (g_trafficBytes g) 0, uq_sourcePaidCents = mo_amountCents (us_original st),
          uq_creditBasis = Some basis, uq_creditBasisCents = Some basisCents,
          uq_targetPriceCents = co_priceCents offer, uq_creditCents = creditCents,
          uq_targetRemainingCents = targetRemainingCents, uq_upgradeFeeCents = Some standardUpgradeFeeCents,
          uq_payableCents = differenceCents + standardUpgradeFeeCents, uq_target = target\<rparr>))))"

section \<open>The token\<close>

text \<open>The cipher a \<open>StandardPlanUpgrade\<close> is made with, and the JSON text of a value.\<close>

record quote_codec =
  qk_key :: "string option"
  qk_seal :: "string \<Rightarrow> string \<Rightarrow> string \<Rightarrow> string \<times> string"
  qk_opens :: "string \<Rightarrow> string \<Rightarrow> string \<Rightarrow> string \<Rightarrow> string option"
  qk_stringify :: "json \<Rightarrow> string"
  qk_parse :: "string \<Rightarrow> json option"

definition issueToken :: "quote_codec \<Rightarrow> string \<Rightarrow> json \<Rightarrow> string" where
  "issueToken k iv q = cipherEncrypt (qk_seal k) (qk_key k) iv (qk_stringify k q)"

text \<open>\<open>decode\<close>: whatever goes wrong inside is the same refusal.\<close>

definition decodeToken :: "quote_codec \<Rightarrow> string \<Rightarrow> error + json" where
  "decodeToken k token =
     (if \<not> cipherEnabled (qk_key k) \<or> \<not> hasPrefix cipherPrefix token then Inl (BadRequest ''quote-token'')
      else (case cipherDecrypt (qk_opens k) (qk_key k) (Some token) of
          Inr (Some text) \<Rightarrow>
            (case qk_parse k text of
               Some q \<Rightarrow> if jget q ''purpose'' = Some (JStr quotePurpose) then Inr q
                         else Inl (BadRequest ''quote-token'')
             | None \<Rightarrow> Inl (BadRequest ''quote-token''))
        | _ \<Rightarrow> Inl (BadRequest ''quote-token'')))"

text \<open>\<open>new Date(v) <= now\<close>; what is no date compares as false.\<close>

fun dateAtMost :: "json option \<Rightarrow> instant \<Rightarrow> bool" where
  "dateAtMost (Some (JDate t)) now = (t \<le> now)"
| "dateAtMost (Some JNull) now = (0 \<le> now)"
| "dateAtMost (Some (JBool b)) now = ((if b then 1 else 0) \<le> now)"
| "dateAtMost (Some (JNum n)) now = (\<bar>n\<bar> \<le> 8640000000000000 \<and> n \<le> now)"
| "dateAtMost _ now = False"

definition assertCurrent ::
  "json \<Rightarrow> upgrade_state \<Rightarrow> id \<Rightarrow> id \<Rightarrow> instant \<Rightarrow> bool \<Rightarrow> error + unit" where
  "assertCurrent q st userId offerId now checkExpiry =
     (if jget q ''userId'' = Some (JStr userId) \<and> \<not> given (jget q ''target'') then Inl (PlainError ''type-error'')
      else guardE (Conflict ''quote-changed'')
       (\<not> (jget q ''userId'' \<noteq> Some (JStr userId) \<or> jpath q [''target'', ''offerId''] \<noteq> Some (JStr offerId)
          \<or> jget q ''state'' \<noteq> Some (JStr (us_state st)) \<or> jget q ''grantId'' \<noteq> Some (JStr (g_id (us_grant st)))
          \<or> (checkExpiry \<and> dateAtMost (jget q ''expiresAt'') now) \<or> dateAtMost (jget q ''endsAt'') now)))"

text \<open>\<open>quote\<close>: data, token and the bytes left; \<open>if (token)\<close> is the test for a non-empty token.\<close>

definition quoteUpgrade ::
  "quote_codec \<Rightarrow> (json \<Rightarrow> string) \<Rightarrow> string \<Rightarrow> id \<Rightarrow> id \<Rightarrow> string option \<Rightarrow> instant \<Rightarrow> db
     \<Rightarrow> error + (json \<times> string \<times> int)" where
  "quoteUpgrade k fingerprint iv userId offerId token now d =
     bindE (guardE (Conflict ''cipher-not-configured'') (cipherEnabled (qk_key k))) (\<lambda>_.
     bindE (readUpgrade fingerprint userId now d) (\<lambda>st.
     let remaining = qb_granted (us_bucket st) - qb_consumed (us_bucket st)
     in case present token of
          Some t \<Rightarrow>
            bindE (decodeToken k t) (\<lambda>q.
            bindE (assertCurrent q st userId offerId now True) (\<lambda>_. Inr (q, t, remaining)))
        | None \<Rightarrow>
            bindE (newQuote st userId offerId now d) (\<lambda>q.
            Inr (quoteJson q, issueToken k iv (quoteJson q), remaining))))"

end
