(* ===== verification/PlanActivation.thy ===== *)
theory PlanActivation imports PlanUpgrade begin

text \<open>
  Starting a reserved plan early: \<open>apps/api/src/entitlement/scheduled-plan-activation.ts\<close>. The plan
  keeps the order that paid for it and changes its dates only.

  The SHA-256 fingerprints are parameters of the values they are taken of, and so is the
  \<open>updatedAt\<close> column the client maintains. The transaction body takes the instant \<open>new Date()\<close>
  gives inside it.
\<close>

section \<open>What a state is recognised by\<close>

record order_evidence =
  oe_order :: order_row
  oe_refunds :: "refund_row list"
  oe_attempt :: "epay_row option"
  oe_refundAttempt :: "epay_refund_row option"

record grant_evidence =
  ge_id :: id
  ge_updatedAt :: instant
  ge_startsAt :: instant
  ge_endsAt :: instant
  ge_orders :: "order_evidence list"

record activation_evidence =
  ae_grants :: "grant_evidence list"
  ae_targetBuckets :: "bucket_row list"
  ae_bonuses :: "(grant_row \<times> bucket_row list) list"
  ae_cycles :: "cycle_row list"

record activation_input =
  ai_expectedState :: string
  ai_reason :: string

record activation_env =
  ev_state :: "activation_evidence \<Rightarrow> string"
  ev_key :: "id \<Rightarrow> string \<Rightarrow> string"
  ev_request :: "id \<Rightarrow> activation_input \<Rightarrow> string"
  ev_updatedAt :: "id \<Rightarrow> instant"

definition orderEvidence :: "db \<Rightarrow> order_row \<Rightarrow> order_evidence" where
  "orderEvidence d o1 = (let attempt = lookup ea_orderId (Some (mo_id o1)) (epayAttempts d) in
     \<lparr>oe_order = o1, oe_refunds = filter (\<lambda>r. rf_orderId r = mo_id o1) (refunds d), oe_attempt = attempt,
      oe_refundAttempt = Option.bind attempt (\<lambda>a. lookup er_paymentAttemptId (ea_id a) (epayRefunds d))\<rparr>)"

definition grantEvidence :: "activation_env \<Rightarrow> db \<Rightarrow> grant_row \<Rightarrow> grant_evidence" where
  "grantEvidence env d g = \<lparr>ge_id = g_id g, ge_updatedAt = ev_updatedAt env (g_id g), ge_startsAt = g_startsAt g,
     ge_endsAt = g_endsAt g,
     ge_orders = map (orderEvidence d) (filter (\<lambda>o1. mo_grantId o1 = Some (g_id g)) (orders d))\<rparr>"

section \<open>Reading\<close>

record activation_state =
  av_target :: grant_row
  av_product :: product_row
  av_current :: "grant_row option"
  av_order :: order_row
  av_months :: int
  av_bucket :: bucket_row
  av_bonuses :: "(grant_row \<times> bucket_row list) list"
  av_endsAt :: instant
  av_bucketEnd :: instant
  av_expectedState :: string

definition byId :: "('r \<Rightarrow> id) \<Rightarrow> 'r list \<Rightarrow> 'r list" where
  "byId key rows = sort_key (\<lambda>r. map of_char (key r) :: nat list) rows"

definition reservedPlans :: "id \<Rightarrow> instant \<Rightarrow> db \<Rightarrow> grant_row list" where
  "reservedPlans userId now d = byId g_id (standardPlans userId now d)"

definition allocated :: "db \<Rightarrow> id list \<Rightarrow> bool" where
  "allocated d ids \<longleftrightarrow> (\<exists>r \<in> set (rollups d). \<exists>a \<in> set (ur_allocations r). fst a \<in> set ids)"

definition bonusesOf :: "id \<Rightarrow> id \<Rightarrow> db \<Rightarrow> grant_row list" where
  "bonusesOf userId grantId d = filter (\<lambda>g. g_userId g = userId \<and> g_status g = GrantActive \<and> bonusOf grantId g d) (grants d)"

definition untouched :: "bucket_row list \<Rightarrow> bool" where
  "untouched bs \<longleftrightarrow> length bs = 1 \<and> (\<forall>b \<in> set bs. qb_consumed b = 0)"

definition freshCycles :: "cycle_row list \<Rightarrow> bool" where
  "freshCycles cs \<longleftrightarrow> length cs = 1 \<and> (\<forall>c \<in> set cs. sc_consumed c = 0 \<and> sc_overage c = 0)"

definition subscriptionCycles :: "grant_row \<Rightarrow> db \<Rightarrow> cycle_row list" where
  "subscriptionCycles g d = (case present (g_subscriptionId g) of
     None \<Rightarrow> [] | Some i \<Rightarrow> filter (\<lambda>c. sc_subscriptionId c = i) (cycles d))"

text \<open>The reservation to start, and the plan that runs, among all standard plans not over.\<close>

definition pickReservation ::
  "id \<Rightarrow> id \<Rightarrow> instant \<Rightarrow> db \<Rightarrow> error + (grant_row \<times> grant_row list)" where
  "pickReservation userId grantId now d =
     bindE (guardE (NotFound ''user'')
       (case lookup u_id userId (users d) of None \<Rightarrow> False | Some u \<Rightarrow> u_deletedAt u = None)) (\<lambda>_.
     let gs = reservedPlans userId now d in
     bindE (require (NotFound ''reservation'') (List.find (\<lambda>g. g_id g = grantId) gs)) (\<lambda>target.
     bindE (guardE (NotFound ''reservation'') (now < g_startsAt target)) (\<lambda>_.
     bindE (guardE (Conflict ''several-plans'')
              (length (filter (\<lambda>g. now < g_startsAt g) gs) = 1 \<and> length (filter (\<lambda>g. g_startsAt g \<le> now) gs) \<le> 1)) (\<lambda>_.
     Inr (target, gs)))))"

definition reservationOrder :: "grant_row \<Rightarrow> db \<Rightarrow> error + (order_row \<times> int)" where
  "reservationOrder target d =
     (case filter (\<lambda>o1. mo_grantId o1 = Some (g_id target) \<and> mo_status o1 = OrderApplied) (orders d) of
        [o1] \<Rightarrow>
          (case mo_intervalMonths o1 of
             None \<Rightarrow> Inl (Conflict ''order-unclear'')
           | Some months \<Rightarrow>
               if mo_source o1 \<in> {SourcePayment, SourceWallet, SourceCdk} \<and> months \<in> {1, 3, 12}
                  \<and> g_quotaCadence target = Some MonthlyReset
               then Inr (o1, months) else Inl (Conflict ''order-unclear''))
      | _ \<Rightarrow> Inl (Conflict ''order-unclear''))"

definition reservationBucket :: "grant_row \<Rightarrow> db \<Rightarrow> error + bucket_row" where
  "reservationBucket target d =
     (case grantBuckets (g_id target) d of
        [b] \<Rightarrow>
          if qb_consumed b \<noteq> 0 \<or> allocated d [qb_id b] \<or> (\<exists>a \<in> set (adjustments d). qa_bucketId a = Some (qb_id b))
          then Inl (Conflict ''reservation-used'') else Inr b
      | _ \<Rightarrow> Inl (Conflict ''reservation-used''))"

definition reservationBonuses ::
  "id \<Rightarrow> grant_row \<Rightarrow> instant \<Rightarrow> db \<Rightarrow> error + (grant_row \<times> bucket_row list) list" where
  "reservationBonuses userId target now d =
     (let bonuses = map (\<lambda>g. (g, byId qb_id (grantBuckets (g_id g) d))) (byId g_id (bonusesOf userId (g_id target) d))
      in if (\<exists>(g, bs) \<in> set bonuses. g_startsAt g \<le> now \<or> \<not> untouched bs)
            \<or> allocated d (concat (map (\<lambda>(g, bs). map qb_id bs) bonuses))
         then Inl (Conflict ''bonus-used'') else Inr bonuses)"

definition readActivation ::
  "activation_env \<Rightarrow> id \<Rightarrow> id \<Rightarrow> instant \<Rightarrow> db \<Rightarrow> error + activation_state" where
  "readActivation env userId grantId now d =
     bindE (pickReservation userId grantId now d) (\<lambda>(target, gs).
     bindE (reservationOrder target d) (\<lambda>(o1, months).
     bindE (reservationBucket target d) (\<lambda>bucket.
     bindE (guardE (Conflict ''refund-record'')
       (\<not> (\<exists>g \<in> set gs. \<exists>o2 \<in> set (orders d). mo_grantId o2 = Some (g_id g) \<and> refundTouched d o2))) (\<lambda>_.
     let cs = subscriptionCycles target d in
     bindE (guardE (Conflict ''reservation-cycles'') (present (g_subscriptionId target) = None \<or> freshCycles cs)) (\<lambda>_.
     bindE (reservationBonuses userId target now d) (\<lambda>bonuses.
     bindE (require (PrismaKnown ''inconsistent'') (lookup cp_id (g_productId target) (products d))) (\<lambda>product.
     Inr \<lparr>av_target = target, av_product = product, av_current = List.find (\<lambda>g. g_startsAt g \<le> now) gs,
          av_order = o1, av_months = months, av_bucket = bucket, av_bonuses = bonuses,
          av_endsAt = addUtcMonthsClamped now months, av_bucketEnd = addUtcMonthsClamped now 1,
          av_expectedState = ev_state env \<lparr>ae_grants = map (grantEvidence env d) gs, ae_targetBuckets = [bucket],
            ae_bonuses = bonuses, ae_cycles = cs\<rparr>\<rparr>)))))))"

definition describeActivation :: "activation_state \<Rightarrow> instant \<Rightarrow> db \<Rightarrow> json" where
  "describeActivation st now d = JObj [
     (''grantId'', JStr (g_id (av_target st))), (''productName'', JStr (cp_name (av_product st))),
     (''orderId'', JStr (mo_id (av_order st))), (''expectedState'', JStr (av_expectedState st)),
     (''startsAt'', JDate now), (''endsAt'', JDate (av_endsAt st)), (''intervalMonths'', JNum (av_months st)),
     (''current'', (case av_current st of
         None \<Rightarrow> JNull
       | Some g \<Rightarrow> JObj [(''productName'', jopt (JStr \<circ> cp_name) (lookup cp_id (g_productId g) (products d))),
           (''endsAt'', JDate (g_endsAt g)),
           (''remainingBytes'', JNum (unusedBytes (filter (bucketCurrent now) (grantBuckets (g_id g) d))))])),
     (''message'', JStr ''original-order-kept'')]"

definition previewActivation :: "activation_env \<Rightarrow> id \<Rightarrow> id \<Rightarrow> instant \<Rightarrow> db \<Rightarrow> error + json" where
  "previewActivation env userId grantId now d =
     bindE (readActivation env userId grantId now d) (\<lambda>st. Inr (describeActivation st now d))"

definition rethrowTimeout :: "error \<Rightarrow> error" where
  "rethrowTimeout e = (if e = PrismaKnown ''P2028'' then ServiceUnavailable ''plan-operation-timeout'' else e)"

section \<open>Confirming\<close>

text \<open>\<open>s.length\<close> counts UTF-16 units: one for each UTF-8 lead byte, two for the leads of four bytes.\<close>

definition utf16Length :: "string \<Rightarrow> nat" where
  "utf16Length s = length (filter (\<lambda>c. of_char c < (128 :: nat) \<or> (192 :: nat) \<le> of_char c) s)
     + length (filter (\<lambda>c. (240 :: nat) \<le> of_char c) s)"

definition expireBonus :: "instant \<Rightarrow> grant_row \<Rightarrow> db \<Rightarrow> error + db" where
  "expireBonus now bonus d =
     bindE (updateGrant (g_id bonus) (\<lambda>g. g\<lparr>g_status := GrantCanceled, g_endsAt := now\<rparr>) d) (\<lambda>d1.
     case present (g_packId bonus) of
       None \<Rightarrow> Inr d1
     | Some p \<Rightarrow> updatePack p (\<lambda>r. r\<lparr>tp_expiresAt := Some now, tp_status := PackExpired\<rparr>) d1)"

definition retireCurrent :: "id \<Rightarrow> grant_row \<Rightarrow> instant \<Rightarrow> db \<Rightarrow> error + db" where
  "retireCurrent userId current now d =
     bindE (foldE (expireBonus now) (bonusesOf userId (g_id current) d) d) (\<lambda>d1.
     bindE (updateGrant (g_id current) (closeGrant now) d1) (\<lambda>d2.
     case present (g_subscriptionId current) of
       None \<Rightarrow> Inr d2
     | Some i \<Rightarrow> updateSubscription i (\<lambda>s. s\<lparr>s_status := SubCanceled, s_endsAt := now\<rparr>) d2))"

definition startGrant :: "instant \<Rightarrow> instant \<Rightarrow> grant_row \<Rightarrow> grant_row" where
  "startGrant now endsAt g = g\<lparr>g_startsAt := now, g_endsAt := endsAt, g_resetAnchorAt := Some now\<rparr>"

definition startReserved :: "activation_state \<Rightarrow> instant \<Rightarrow> db \<Rightarrow> error + db" where
  "startReserved st now d =
     bindE (updateGrant (g_id (av_target st)) (startGrant now (av_endsAt st)) d) (\<lambda>d1.
     bindE (updateBucket (qb_id (av_bucket st)) (\<lambda>b. b\<lparr>qb_startsAt := now, qb_endsAt := av_bucketEnd st\<rparr>) d1) (\<lambda>d2.
     case present (g_subscriptionId (av_target st)) of
       None \<Rightarrow> Inr d2
     | Some i \<Rightarrow>
         bindE (updateSubscription i (\<lambda>s. s\<lparr>s_startsAt := now, s_endsAt := av_endsAt st\<rparr>) d2) (\<lambda>d3.
         let cs = filter (\<lambda>c. sc_subscriptionId c = i) (cycles d3) in
         bindE (guardE (Conflict ''reservation-cycles'') (freshCycles cs)) (\<lambda>_.
         updateCycle (sc_id (hd cs)) (\<lambda>c. c\<lparr>sc_startsAt := now, sc_endsAt := av_bucketEnd st\<rparr>) d3))))"

definition startBonus :: "instant \<Rightarrow> instant \<Rightarrow> grant_row \<Rightarrow> db \<Rightarrow> error + db" where
  "startBonus now endsAt bonus d =
     bindE (updateGrant (g_id bonus) (\<lambda>g. g\<lparr>g_startsAt := now, g_endsAt := endsAt\<rparr>) d) (\<lambda>d1.
     let d2 = d1\<lparr>buckets := update_many (\<lambda>b. qb_grantId b = g_id bonus)
                (\<lambda>b. b\<lparr>qb_startsAt := now, qb_endsAt := endsAt\<rparr>) (buckets d1)\<rparr>
     in case present (g_packId bonus) of
          None \<Rightarrow> Inr d2
        | Some p \<Rightarrow> updatePack p (\<lambda>r. r\<lparr>tp_expiresAt := Some endsAt\<rparr>) d2)"

text \<open>\<open>auditLog.create\<close> with an id of its own; the id is the table's key.\<close>

definition auditActivation ::
  "id \<Rightarrow> string \<Rightarrow> activation_state \<Rightarrow> json \<Rightarrow> id \<Rightarrow> string \<Rightarrow> id \<Rightarrow> db \<Rightarrow> error + db" where
  "auditActivation auditId requestHash st result userId reason actorId d =
     bindE (insert_unique (\<lambda>a b. al_id a = al_id b)
       \<lparr>al_id = auditId, al_actorId = Some actorId, al_action = ''entitlement.scheduled.activated'',
        al_targetType = ''user'', al_targetId = Some userId,
        al_metadata = JObj [(''requestHash'', JStr requestHash), (''reason'', JStr (trim reason)), (''result'', result),
          (''originalStartsAt'', JDate (g_startsAt (av_target st))), (''originalEndsAt'', JDate (g_endsAt (av_target st)))]\<rparr>
       (audits d)) (\<lambda>rows. Inr (d\<lparr>audits := rows\<rparr>))"

definition activationAuditId :: "activation_env \<Rightarrow> id \<Rightarrow> string \<Rightarrow> id" where
  "activationAuditId env userId key = ''activation_'' @ ev_key env userId key"

definition activate ::
  "activation_env \<Rightarrow> id \<Rightarrow> id \<Rightarrow> activation_input \<Rightarrow> id \<Rightarrow> string \<Rightarrow> instant \<Rightarrow> db \<Rightarrow> error + (json \<times> db)" where
  "activate env userId grantId input actorId key now d =
     bindE (readActivation env userId grantId now d) (\<lambda>st.
     bindE (guardE (Conflict ''state-changed'') (av_expectedState st = ai_expectedState input)) (\<lambda>_.
     bindE (case av_current st of None \<Rightarrow> Inr d | Some g \<Rightarrow> retireCurrent userId g now d) (\<lambda>d1.
     bindE (startReserved st now d1) (\<lambda>d2.
     bindE (foldE (startBonus now (av_endsAt st)) (map fst (av_bonuses st)) d2) (\<lambda>d3.
     let result = describeActivation st now d in
     bindE (auditActivation (activationAuditId env userId key) (ev_request env grantId input) st result
              userId (ai_reason input) actorId d3) (\<lambda>d4.
     Inr (result, d4)))))))"

text \<open>The transaction: the audit row of the key answers a request that was carried out before.\<close>

definition confirmOnce ::
  "activation_env \<Rightarrow> id \<Rightarrow> id \<Rightarrow> activation_input \<Rightarrow> id \<Rightarrow> string \<Rightarrow> instant \<Rightarrow> db \<Rightarrow> error + (json \<times> db)" where
  "confirmOnce env userId grantId input actorId key now d =
     (case lookup al_id (activationAuditId env userId key) (audits d) of
        Some a \<Rightarrow>
          if jget (al_metadata a) ''requestHash'' \<noteq> Some (JStr (ev_request env grantId input))
          then Inl (Conflict ''key-reused'')
          else Inr (nvl (jget (al_metadata a) ''result'') JNull, d)
      | None \<Rightarrow> activate env userId grantId input actorId key now d)"

text \<open>Attempt \<open>i\<close> runs at \<open>clock i\<close> on the database \<open>world i\<close>; \<open>verdict i\<close> is the error the engine
  stops it with, if any (a write conflict or the timeout of the transaction).\<close>

fun confirmLoop ::
  "nat \<Rightarrow> (nat \<Rightarrow> db \<Rightarrow> error + 'a) \<Rightarrow> (nat \<Rightarrow> db) \<Rightarrow> (nat \<Rightarrow> error option) \<Rightarrow> nat \<Rightarrow> error + 'a" where
  "confirmLoop 0 transaction world verdict attempt = Inl (Conflict ''activation-conflict'')"
| "confirmLoop (Suc n) transaction world verdict attempt =
     (case (case transaction attempt (world attempt) of
              Inl e \<Rightarrow> Inl e
            | Inr x \<Rightarrow> (case verdict attempt of Some e \<Rightarrow> Inl e | None \<Rightarrow> Inr x)) of
        Inr x \<Rightarrow> Inr x
      | Inl e \<Rightarrow>
          if e = PrismaKnown ''P2028'' then Inl (rethrowTimeout e)
          else if \<not> retryable e then Inl e
          else if attempt = 2 then Inl (Conflict ''plan-busy'')
          else confirmLoop n transaction world verdict (attempt + 1))"

definition confirmActivation ::
  "activation_env \<Rightarrow> id \<Rightarrow> id \<Rightarrow> activation_input \<Rightarrow> id \<Rightarrow> string \<Rightarrow> (nat \<Rightarrow> instant) \<Rightarrow> (nat \<Rightarrow> db)
     \<Rightarrow> (nat \<Rightarrow> error option) \<Rightarrow> error + (json \<times> db)" where
  "confirmActivation env userId grantId input actorId key clock world verdict =
     (if blank key \<or> 120 < utf16Length key \<or> blank (ai_reason input) \<or> ai_expectedState input = []
      then Inl (BadRequest ''activation-input'')
      else confirmLoop 3 (\<lambda>i. confirmOnce env userId grantId input actorId key (clock i)) world verdict 0)"

end
