(* ===== verification/PlanUpgradeLaws.thy ===== *)
theory PlanUpgradeLaws imports PlanUpgrade GrantLaws begin

text \<open>
  What the quotes of \<open>PlanUpgrade\<close> promise: fair prices, a token that holds exactly while the plan stays
  as it was quoted, and an upgrade that can then be carried out.
\<close>

section \<open>Prices\<close>

lemma remainingValue_eq:
  "remainingValue cents s e t = Inr v \<longleftrightarrow>
     isSafeInteger cents \<and> 0 \<le> cents \<and> s \<le> t \<and> t < e \<and> v = (cents * (e - t) + (e - s) div 2) div (e - s)"
proof -
  have "bigDiv (cents * (e - t) + bigDiv (e - s) 2) (e - s) = (cents * (e - t) + (e - s) div 2) div (e - s)"
    if "0 \<le> cents" "s \<le> t" "t < e"
    using that by (simp add: bigDiv_nonneg)
  then show ?thesis unfolding remainingValue_def Let_def by auto
qed

lemma half_bounds: "0 < d \<Longrightarrow> 0 \<le> d div 2 \<and> d div 2 < d" for d :: int
  by presburger

lemma rounded_bounds:
  fixes n d :: int
  assumes "0 < d"
  shows "2 * d * ((n + d div 2) div d) \<le> 2 * n + d" and "2 * n - d \<le> 2 * d * ((n + d div 2) div d)"
proof -
  have a: "n + d div 2 = d * ((n + d div 2) div d) + (n + d div 2) mod d" by simp
  have b: "0 \<le> (n + d div 2) mod d" "(n + d div 2) mod d < d" using assms by simp_all
  have c: "2 * (d div 2) \<le> d" "d \<le> 2 * (d div 2) + 1" by simp_all
  have e: "2 * d * ((n + d div 2) div d) = 2 * (d * ((n + d div 2) div d))" by simp
  show "2 * d * ((n + d div 2) div d) \<le> 2 * n + d" unfolding e using a b c by linarith
  show "2 * n - d \<le> 2 * d * ((n + d div 2) div d)" unfolding e using a b c by linarith
qed


lemma remainingValue_mono:
  assumes "remainingValue cents s e t = Inr v" and "remainingValue cents s e t' = Inr v'" and "t \<le> t'"
  shows "v' \<le> v"
proof -
  have "cents * (e - t') + (e - s) div 2 \<le> cents * (e - t) + (e - s) div 2"
    using assms by (auto simp: remainingValue_eq intro!: mult_left_mono)
  then show ?thesis using assms by (auto simp: remainingValue_eq intro!: zdiv_mono1)
qed

lemma remainingValue_bounds:
  assumes "remainingValue cents s e t = Inr v"
  shows "0 \<le> v \<and> v \<le> cents"
proof -
  note r = assms [unfolded remainingValue_eq]
  have "0 \<le> v" using r by (auto intro!: pos_imp_zdiv_nonneg_iff [THEN iffD2])
  moreover have "v \<le> cents"
  proof -
    have "cents * (e - t) \<le> cents * (e - s)" using r by (intro mult_left_mono) auto
    moreover have pos: "0 < e - s" using r by simp
    ultimately have lt: "cents * (e - t) + (e - s) div 2 < (e - s) * (cents + 1)"
      using half_bounds [OF pos] by (simp add: distrib_left mult.commute)
    have v: "v = (cents * (e - t) + (e - s) div 2) div (e - s)" using r by blast
    have "(e - s) * v \<le> cents * (e - t) + (e - s) div 2" unfolding v by (rule quotient_bounds(1) [OF pos])
    then have "(e - s) * v < (e - s) * (cents + 1)" using lt by (rule order.strict_trans1)
    then have "v < cents + 1" using mult_less_cancel_left_pos [OF pos] by blast
    then show ?thesis by simp
  qed
  ultimately show ?thesis by simp
qed

text \<open>C25: what is left of a price is fair: it lies between nothing and the whole price, differs from the
  exact share of the remaining time by half a cent at most, is the whole price at the start, and never
  grows as time passes.\<close>

theorem remainingValue_fair:
  assumes "remainingValue cents s e t = Inr v" and "remainingValue cents s e t' = Inr v'" and "t \<le> t'"
  shows "0 \<le> v' \<and> v' \<le> v \<and> v \<le> cents \<and> \<bar>2 * (e - s) * v - 2 * cents * (e - t)\<bar> \<le> e - s \<and> (t \<noteq> s \<or> v = cents)"
proof -
  note r = assms(1) [unfolded remainingValue_eq]
  let ?n = "cents * (e - t)"
  have d: "0 < e - s" using r by simp
  have v: "v = (?n + (e - s) div 2) div (e - s)" using r by simp
  have "\<bar>2 * (e - s) * v - 2 * ?n\<bar> \<le> e - s" using rounded_bounds [OF d, of ?n] unfolding v by linarith
  moreover have "v = cents" if "t = s"
  proof -
    have "(?n + (e - s) div 2) div (e - s) = cents"
      by (rule int_div_pos_eq [of _ _ _ "(e - s) div 2"]) (use half_bounds [OF d] that in \<open>simp_all add: mult.commute\<close>)
    then show ?thesis using v by simp
  qed
  ultimately show ?thesis
    using remainingValue_bounds [OF assms(1)] remainingValue_bounds [OF assms(2)] remainingValue_mono [OF assms]
    by (auto simp: mult.assoc)
qed

theorem remainingValue_fair_witness:
  "remainingValue 3000 1706745600000 1714521600000 1709251200000 = Inr 2033
     \<and> remainingValue 3000 1706745600000 1714521600000 1709337600000 = Inr 2000 \<and> (2000 :: int) \<le> 2033"
proof -
  have "remainingValue 3000 1706745600000 1714521600000 1709251200000 = Inr 2033"
    "remainingValue 3000 1706745600000 1714521600000 1709337600000 = Inr 2000" by code_simp+
  then show ?thesis using remainingValue_fair by fastforce
qed

section \<open>What a quote says\<close>

lemma readPlan_shape:
  assumes "readPlan userId now d = Inr (g, offer, b)"
  obtains user legacyId bytes where "lookup u_id userId (users d) = Some user" "standardPlans userId now d = [g]"
    "g_startsAt g \<le> now" "grantOffer g d = Some offer" "present (g_subscriptionId g) = Some legacyId"
    "g_trafficBytes g = Some bytes" "filter (bucketCurrent now) (grantBuckets (g_id g) d) = [b]"
  using assms
  by (auto simp: readPlan_def split: option.splits if_splits list.splits)

lemma readUpgrade_shape:
  assumes "readUpgrade fp userId now d = Inr st"
  obtains months where "readPlan userId now d = Inr (us_grant st, us_offer st, us_bucket st)"
    "readOriginal (us_grant st) (us_offer st) d = Inr (us_original st, us_purchases st, us_valueCents st, months)"
    "checkDates userId (us_grant st) (us_original st) months d = Inr ()"
    "lookup cp_id (g_productId (us_grant st)) (products d) = Some (us_product st)"
    "us_complimentary st = complimentaryOrder (us_original st)"
    "us_state st = fp (stateJson (us_grant st) (us_bucket st) (us_purchases st) (us_complimentary st) (us_valueCents st))"
  using assms by (auto simp: readUpgrade_def err_simps)

lemma snapshot_facts:
  assumes "snapshotCatalogOffer offer ctx d = Inr s" and "lookup cp_id (co_productId offer) (products d) = Some p"
  shows "os_offerId s = co_id offer \<and> os_productId s = cp_id p \<and> os_trafficBytes s = co_trafficBytes offer
    \<and> os_legacyPlanId s = cp_legacyPlanId p"
  using assms by (auto simp: snapshotCatalogOffer_def err_simps)

lemma targetOffer_shape:
  assumes "targetOffer st offerId d = Inr (offer, target)"
  obtains product where "lookup co_id offerId (offers d) = Some offer"
    "lookup cp_id (co_productId offer) (products d) = Some product" "higherOffer st offer product"
    "snapshotCatalogOffer offer None d = Inr target"
  using assms by (auto simp: targetOffer_def err_simps split: option.splits)

lemma priorCredit_bounds:
  "priorCredit v w e now = Inr (basis, basisCents, cents) \<Longrightarrow> 0 \<le> cents \<and> cents \<le> basisCents"
  by (induction v w e now rule: priorCredit.induct) (auto simp: err_simps dest: remainingValue_bounds)

lemma upgradeCredit_bounds:
  assumes "upgradeCredit st now = Inr (basis, basisCents, cents)"
  shows "0 \<le> cents \<and> cents \<le> basisCents"
  using assms
  by (auto simp: upgradeCredit_def err_simps Let_def dest: remainingValue_bounds priorCredit_bounds split: if_splits)

lemma newQuote_shape:
  assumes "newQuote st userId offerId now d = Inr q"
  obtains offer basis basisCents where "targetOffer st offerId d = Inr (offer, uq_target q)"
    "upgradeCredit st now = Inr (basis, basisCents, uq_creditCents q)"
    "remainingValue (co_priceCents offer) (g_startsAt (us_grant st)) (g_endsAt (us_grant st)) now = Inr (uq_targetRemainingCents q)"
    "uq_creditCents q < uq_targetRemainingCents q" "uq_creditBasis q = Some basis" "uq_creditBasisCents q = Some basisCents"
    "uq_targetPriceCents q = co_priceCents offer"
    "uq_payableCents q = uq_targetRemainingCents q - uq_creditCents q + standardUpgradeFeeCents"
    "uq_userId q = userId" "uq_grantId q = g_id (us_grant st)" "uq_state q = us_state st" "uq_quotedAt q = now"
    "uq_expiresAt q = min (now + 15 * 60000) (min (qb_endsAt (us_bucket st)) (g_endsAt (us_grant st)))"
    "uq_endsAt q = g_endsAt (us_grant st)" "uq_sourceProductId q = g_productId (us_grant st)"
    "uq_sourceTrafficBytes q = nvl (g_trafficBytes (us_grant st)) 0"
  using assms by (auto simp: newQuote_def err_simps Let_def)

text \<open>A new quote is within the rules: the credit lies between nothing and the value it is based on,
  the plan costs the rest of the target's price that the credit does not cover, plus the fee, so more
  than the fee and at most the full price and the fee; it is for a plan of more bytes that is not the
  present one, and it can be accepted for some time, a quarter of an hour at most and never longer than
  the running period or the plan.\<close>

theorem quote_terms:
  assumes "readUpgrade fp userId now d = Inr st" and "newQuote st userId offerId now d = Inr q"
  shows "0 \<le> uq_creditCents q \<and> uq_creditCents q \<le> nvl (uq_creditBasisCents q) 0
    \<and> uq_targetRemainingCents q \<le> uq_targetPriceCents q
    \<and> uq_payableCents q = uq_targetRemainingCents q - uq_creditCents q + standardUpgradeFeeCents
    \<and> standardUpgradeFeeCents < uq_payableCents q \<and> uq_payableCents q \<le> uq_targetPriceCents q + standardUpgradeFeeCents
    \<and> uq_sourceTrafficBytes q < os_trafficBytes (uq_target q) \<and> os_productId (uq_target q) \<noteq> uq_sourceProductId q
    \<and> now < uq_expiresAt q \<and> uq_expiresAt q \<le> now + 900000 \<and> uq_expiresAt q \<le> uq_endsAt q
    \<and> uq_expiresAt q \<le> qb_endsAt (us_bucket st)"
  using assms(2)
proof (cases rule: newQuote_shape)
  case (1 offer basis basisCents)
  obtain product where t: "higherOffer st offer product" "snapshotCatalogOffer offer None d = Inr (uq_target q)"
      "lookup cp_id (co_productId offer) (products d) = Some product"
    using targetOffer_shape [OF 1(1)] by metis
  have target: "os_trafficBytes (uq_target q) = co_trafficBytes offer" "os_productId (uq_target q) = cp_id product"
    using snapshot_facts [OF t(2,3)] by simp_all
  obtain months where plan: "readPlan userId now d = Inr (us_grant st, us_offer st, us_bucket st)"
    using readUpgrade_shape [OF assms(1)] by metis
  have "now < g_endsAt (us_grant st) \<and> now < qb_endsAt (us_bucket st)"
  proof -
    obtain s where s: "standardPlans userId now d = [us_grant st]"
        "filter (bucketCurrent now) (grantBuckets (g_id (us_grant st)) d) = [us_bucket st]"
      using readPlan_shape [OF plan] by metis
    have "us_grant st \<in> set (standardPlans userId now d)"
        "us_bucket st \<in> set (filter (bucketCurrent now) (grantBuckets (g_id (us_grant st)) d))"
      unfolding s by simp_all
    then show ?thesis by (simp add: standardPlans_def bucketCurrent_def)
  qed
  then show ?thesis
    using 1 t(1) target upgradeCredit_bounds [OF 1(2)] remainingValue_bounds [OF 1(3)]
    by (simp add: higherOffer_def min.coboundedI2 min.coboundedI1)
qed

section \<open>The token holds while the plan stays\<close>

definition codecLaw :: "quote_codec \<Rightarrow> string \<Rightarrow> json \<Rightarrow> bool" where
  "codecLaw k iv v \<longleftrightarrow> iv \<noteq> [] \<and> qk_stringify k v \<noteq> [] \<and> \<not> hasPrefix cipherPrefix (qk_stringify k v)
     \<and> qk_parse k (qk_stringify k v) = Some v
     \<and> (case qk_key k of None \<Rightarrow> False | Some key \<Rightarrow> gcmLaw (qk_seal k) (qk_opens k) key iv (qk_stringify k v))"

lemma issued_token:
  assumes "codecLaw k iv v" and "jget v ''purpose'' = Some (JStr quotePurpose)"
  shows "present (Some (issueToken k iv v)) = Some (issueToken k iv v)" and "decodeToken k (issueToken k iv v) = Inr v"
proof -
  obtain key where key: "qk_key k = Some key" "gcmLaw (qk_seal k) (qk_opens k) key iv (qk_stringify k v)"
    using assms(1) by (auto simp: codecLaw_def split: option.splits)
  have plain: "iv \<noteq> []" "qk_stringify k v \<noteq> []" "\<not> hasPrefix cipherPrefix (qk_stringify k v)"
      "qk_parse k (qk_stringify k v) = Some v"
    using assms(1) by (simp_all add: codecLaw_def)
  obtain tag encrypted where seal: "qk_seal k key iv (qk_stringify k v) = (tag, encrypted)" by fastforce
  have t: "issueToken k iv v = cipherEncrypt (qk_seal k) (Some key) iv (qk_stringify k v)"
    by (simp add: issueToken_def key(1))
  have p: "hasPrefix cipherPrefix (issueToken k iv v)"
    unfolding t by (rule encrypted_split(1) [of "qk_seal k" key iv _ tag encrypted, OF seal plain(2,3)])
  then show "present (Some (issueToken k iv v)) = Some (issueToken k iv v)"
    by (auto simp: hasPrefix_def cipherPrefix_def)
  have "cipherDecrypt (qk_opens k) (qk_key k) (Some (issueToken k iv v)) = Inr (Some (qk_stringify k v))"
    unfolding t key(1) by (rule cipher_decrypts [OF key(2) plain(1-3)])
  then show "decodeToken k (issueToken k iv v) = Inr v"
    using p plain(4) assms(2) by (simp add: decodeToken_def cipherEnabled_def key(1))
qed

lemma quoteJson_fields:
  "jget (quoteJson q) ''purpose'' = Some (JStr quotePurpose)" "jget (quoteJson q) ''userId'' = Some (JStr (uq_userId q))"
  "jget (quoteJson q) ''grantId'' = Some (JStr (uq_grantId q))" "jget (quoteJson q) ''state'' = Some (JStr (uq_state q))"
  "jget (quoteJson q) ''expiresAt'' = Some (JDate (uq_expiresAt q))" "jget (quoteJson q) ''endsAt'' = Some (JDate (uq_endsAt q))"
  "jget (quoteJson q) ''quotedAt'' = Some (JDate (uq_quotedAt q))"
  "jget (quoteJson q) ''targetRemainingCents'' = Some (JNum (uq_targetRemainingCents q))"
  "jget (quoteJson q) ''target'' = Some (snapshotJson (uq_target q))"
  "jget (snapshotJson s) ''offerId'' = Some (JStr (os_offerId s))" "given (Some (snapshotJson s))"
  by (simp_all add: quoteJson_def snapshotJson_def given_def)

text \<open>C26: the token of a quote stands for the quote: given back for the same offer, at any later time and
  whatever else has changed, it is accepted with the quoted data exactly when the plan is the quoted one,
  its fingerprint is what it was and the quote has not expired, and is refused as changed otherwise.\<close>

theorem quote_token_holds:
  assumes "readUpgrade fp userId now d = Inr st" and "newQuote st userId offerId now d = Inr q"
    and "codecLaw k iv (quoteJson q)" and "readUpgrade fp userId now' d' = Inr st'"
  shows "quoteUpgrade k fp iv userId offerId None now d =
      Inr (quoteJson q, issueToken k iv (quoteJson q), qb_granted (us_bucket st) - qb_consumed (us_bucket st))
    \<and> quoteUpgrade k fp iv' userId offerId (Some (issueToken k iv (quoteJson q))) now' d' =
      (if us_state st' = us_state st \<and> g_id (us_grant st') = g_id (us_grant st) \<and> now' < uq_expiresAt q
       then Inr (quoteJson q, issueToken k iv (quoteJson q), qb_granted (us_bucket st') - qb_consumed (us_bucket st'))
       else Inl (Conflict ''quote-changed''))"
proof -
  have enabled: "cipherEnabled (qk_key k)"
    using assms(3) by (auto simp: codecLaw_def cipherEnabled_def split: option.splits)
  have issued: "quoteUpgrade k fp iv userId offerId None now d =
      Inr (quoteJson q, issueToken k iv (quoteJson q), qb_granted (us_bucket st) - qb_consumed (us_bucket st))"
    using enabled assms(1,2) by (simp add: quoteUpgrade_def present_def)
  obtain offer where q: "targetOffer st offerId d = Inr (offer, uq_target q)" "uq_userId q = userId"
      "uq_grantId q = g_id (us_grant st)" "uq_state q = us_state st" "uq_endsAt q = g_endsAt (us_grant st)"
      "uq_expiresAt q = min (now + 15 * 60000) (min (qb_endsAt (us_bucket st)) (g_endsAt (us_grant st)))"
    using newQuote_shape [OF assms(2)] by metis
  have target: "os_offerId (uq_target q) = offerId"
    using targetOffer_shape [OF q(1)] snapshot_facts by (metis lookup_SomeD)
  have "uq_expiresAt q \<le> uq_endsAt q" unfolding q by simp
  then have "assertCurrent (quoteJson q) st' userId offerId now' True
      = guardE (Conflict ''quote-changed'')
          (us_state st' = us_state st \<and> g_id (us_grant st') = g_id (us_grant st) \<and> now' < uq_expiresAt q)"
    by (auto simp: assertCurrent_def quoteJson_fields target q(2-4) intro!: arg_cong2 [of _ _ _ _ guardE])
  then show ?thesis
    using enabled assms(4) issued
    unfolding quoteUpgrade_def [where token = "Some (issueToken k iv (quoteJson q))"] Let_def
      issued_token(1) [OF assms(3) quoteJson_fields(1)]
    by (auto simp: issued_token(2) [OF assms(3) quoteJson_fields(1)] guardE_def)
qed

section \<open>A quote can be honoured\<close>

lemma bindE_pair_ex: "\<exists>x y. m = Inr (x, y) \<Longrightarrow> \<exists>r z. bindE m (\<lambda>(x, y). Inr (f x y, y)) = Inr (r, z)"
  by auto

lemma creditQuotaBucket_succeeds:
  assumes "0 < qc_bytes c" and "\<not> creditKeySpent d (qc_idempotencyKey c)"
    and "lookup qb_id (qc_bucketId c) (buckets d) = Some b" and "lookup g_id (qb_grantId b) (grants d) = Some g"
    and "grantLive (qc_at c) g" and "bucketCurrent (qc_at c) b"
  shows "\<exists>r d'. creditQuotaBucket c d = Inr (r, d')"
proof -
  have key: "lookup qa_idempotencyKey (Some (qc_idempotencyKey c)) (adjustments d) = None"
    using assms(2) by (simp add: key_row)
  have id: "qb_id b = qc_bucketId c" using lookup_SomeD [OF assms(3)] by simp
  obtain d1 where d1: "updateBucket (qb_id b) (\<lambda>b. b\<lparr>qb_granted := qb_granted b + qc_bytes c\<rparr>) d = Inr d1"
    using update_one_found [OF assms(3)] by (auto simp: updateBucket_def id)
  note r1 = updateBucket_rows [OF d1]
  define m where "m = mirrorCycleId g (qc_at c) d"
  have "\<exists>d2. (case m of None \<Rightarrow> Inr d1
      | Some k \<Rightarrow> updateCycle k (\<lambda>r. r\<lparr>sc_adjustment := sc_adjustment r + qc_bytes c\<rparr>) d1) = Inr d2"
  proof (cases m)
    case (Some k)
    then have "k \<in> sc_id ` set (cycles d1)"
      using r1 by (auto simp: m_def mirrorCycleId_def currentCycle_def order_desc_def
          dest!: first_row_SomeD split: option.splits if_splits)
    then show ?thesis using Some by (simp add: updateCycle_def update_one_def)
  qed simp
  then obtain d2 where d2: "(case m of None \<Rightarrow> Inr d1
      | Some k \<Rightarrow> updateCycle k (\<lambda>r. r\<lparr>sc_adjustment := sc_adjustment r + qc_bytes c\<rparr>) d1) = Inr d2" by blast
  have "adjustments d2 = adjustments d" using mirrored_frame [OF d2] r1 by simp
  then have adj: "\<exists>i d3. createAdjustment row d2 = Inr (i, d3)" if "qa_idempotencyKey (row (freshId d2)) = Some (qc_idempotencyKey c)" for row
    using that assms(2) by (auto simp: createAdjustment_def insert_unique_def adjustmentClash_def creditKeySpent_def image_iff)
  then show ?thesis
    using assms key d1 d2
    by (simp add: creditQuotaBucket_def bucketGrant_def Let_def m_def [symmetric], intro bindE_pair_ex adj) simp
qed

lemma creditQuotaBucket_subscriptions:
  assumes "creditQuotaBucket c d = Inr (r, d')"
  shows "subscriptions d' = subscriptions d"
proof (cases "creditKeySpent d (qc_idempotencyKey c)")
  case True
  then show ?thesis using creditQuotaBucket_replay [OF assms] by simp
next
  case False
  show ?thesis
    by (rule creditQuotaBucket_stages [OF assms False])
      (auto simp: updateBucket_def updateCycle_def createAdjustment_def err_simps split: option.splits)
qed

lemma find_unique:
  assumes "distinct (map key rows)" and "x \<in> set rows" and "P x" and "\<And>y. P y \<Longrightarrow> key y = key x"
  shows "List.find P rows = Some x"
proof (cases "List.find P rows")
  case None
  then show ?thesis using assms(2,3) by (simp add: find_None_iff)
next
  case (Some y)
  then have y: "y \<in> set rows" "P y" by (auto simp: find_Some_iff)
  then have "lookup key (key x) rows = Some y" using lookup_mem [OF assms(1) y(1)] assms(4) [OF y(2)] by simp
  then show ?thesis using lookup_mem [OF assms(1,2)] Some by simp
qed

lemma readUpgrade_plan:
  assumes "readUpgrade fp userId now d = Inr st"
  shows "us_grant st \<in> set (grants d)" and "g_userId (us_grant st) = userId" and "g_status (us_grant st) = GrantActive"
    and "g_startsAt (us_grant st) \<le> now" and "now < g_endsAt (us_grant st)" and "us_bucket st \<in> set (buckets d)"
    and "qb_grantId (us_bucket st) = g_id (us_grant st)" and "bucketCurrent now (us_bucket st)"
    and "\<exists>i. present (g_subscriptionId (us_grant st)) = Some i"
proof -
  obtain months where plan: "readPlan userId now d = Inr (us_grant st, us_offer st, us_bucket st)"
    using readUpgrade_shape [OF assms] by metis
  obtain legacyId where s: "standardPlans userId now d = [us_grant st]" "g_startsAt (us_grant st) \<le> now"
      "filter (bucketCurrent now) (grantBuckets (g_id (us_grant st)) d) = [us_bucket st]"
      "present (g_subscriptionId (us_grant st)) = Some legacyId"
    using readPlan_shape [OF plan] by metis
  have "us_grant st \<in> set (standardPlans userId now d)" using s(1) by simp
  then show "us_grant st \<in> set (grants d)" and "g_userId (us_grant st) = userId"
    and "g_status (us_grant st) = GrantActive" and "now < g_endsAt (us_grant st)"
    by (simp_all add: standardPlans_def)
  have "us_bucket st \<in> set (filter (bucketCurrent now) (grantBuckets (g_id (us_grant st)) d))" using s(3) by simp
  then show "us_bucket st \<in> set (buckets d)" and "qb_grantId (us_bucket st) = g_id (us_grant st)"
    and "bucketCurrent now (us_bucket st)" by (simp_all add: grantBuckets_def)
  show "g_startsAt (us_grant st) \<le> now" "\<exists>i. present (g_subscriptionId (us_grant st)) = Some i"
    using s(2,4) by blast+
qed

lemma find_mem: "List.find P rows = Some r \<Longrightarrow> r \<in> set rows \<and> P r"
  by (induction rows) (auto split: if_splits)

lemma find_grantBucket:
  assumes "b0 \<in> set (buckets d)" and "qb_grantId b0 = i" and "bucketCurrent at b0"
  obtains b where "List.find (bucketCurrent at) (grantBuckets i d) = Some b" "b \<in> set (buckets d)" "qb_grantId b = i"
    "bucketCurrent at b"
proof (cases "List.find (bucketCurrent at) (grantBuckets i d)")
  case None
  then show thesis using assms by (auto simp: find_None_iff grantBuckets_def)
next
  case (Some b)
  then show thesis using that find_mem [OF Some] by (simp add: grantBuckets_def)
qed

lemma upgradeStandardPlan_succeeds:
  assumes ids: "distinct (map g_id (grants d))" "distinct (map qb_id (buckets d))"
    and g: "g \<in> set (grants d)" "g_id g = uq_grantId q" "g_userId g = uq_userId q" "grantLive at g"
      "g_productId g = uq_sourceProductId q" "g_endsAt g = uq_endsAt q"
    and b0: "b0 \<in> set (buckets d)" "qb_grantId b0 = g_id g" "bucketCurrent at b0"
    and more: "uq_sourceTrafficBytes q < os_trafficBytes (uq_target q)" "\<not> creditKeySpent d (''plan-upgrade:'' @ orderId)"
    and refs: "present (g_subscriptionId g) = Some subscriptionId" "subscriptionId \<in> s_id ` set (subscriptions d)"
      "present (os_legacyPlanId (uq_target q)) = Some planId"
  shows "\<exists>b d'. upgradeStandardPlan q orderId at d = Inr d' \<and> qb_grantId b = uq_grantId q \<and> bucketCurrent at b
    \<and> grantedOf d' (qb_id b) = map_option (\<lambda>n. n + (os_trafficBytes (uq_target q) - uq_sourceTrafficBytes q))
        (grantedOf d (qb_id b))
    \<and> lookup g_id (uq_grantId q) (grants d') = Some (upgradeGrantRow q g)"
proof -
  let ?n = "os_trafficBytes (uq_target q) - uq_sourceTrafficBytes q"
  have find: "List.find (\<lambda>g. g_id g = uq_grantId q \<and> g_userId g = uq_userId q \<and> g_status g = GrantActive) (grants d) = Some g"
    by (rule find_unique [OF ids(1) g(1)]) (use g in \<open>auto simp: grantLive_def\<close>)
  obtain b where b: "List.find (bucketCurrent at) (grantBuckets (g_id g) d) = Some b" "b \<in> set (buckets d)"
      "qb_grantId b = g_id g" "bucketCurrent at b"
    by (rule find_grantBucket [OF b0])
  let ?c = "\<lparr>qc_bucketId = qb_id b, qc_bytes = ?n, qc_at = at,
        qc_reason = ''upgrade-difference'', qc_idempotencyKey = ''plan-upgrade:'' @ orderId, qc_actorId = None\<rparr>"
  have "\<exists>r d1. creditQuotaBucket ?c d = Inr (r, d1)"
    using creditQuotaBucket_succeeds [of ?c d b g] more b g lookup_mem [OF ids(2) b(2)] lookup_mem [OF ids(1) g(1)]
    by simp
  then obtain r d1 where credit: "creditQuotaBucket ?c d = Inr (r, d1)" by blast
  note frame = creditQuotaBucket_grants [OF credit] creditQuotaBucket_subscriptions [OF credit]
  let ?d2 = "d1\<lparr>grants := update_many (\<lambda>r. g_id r = g_id g) (upgradeGrantRow q) (grants d1)\<rparr>"
  have up: "updateGrant (g_id g) (upgradeGrantRow q) d1 = Inr ?d2" using g(1) frame by (simp add: updateGrant_eq_Inr)
  have "\<exists>d'. updateSubscription subscriptionId (upgradeSubscriptionRow q planId) ?d2 = Inr d'
      \<and> grants d' = grants ?d2 \<and> buckets d' = buckets d1"
    using refs(2) frame(2) by (auto simp: updateSubscription_def update_one_def)
  then obtain d' where d': "updateSubscription subscriptionId (upgradeSubscriptionRow q planId) ?d2 = Inr d'"
      "grants d' = grants ?d2" "buckets d' = buckets d1" by blast
  have "upgradeStandardPlan q orderId at d = Inr d'"
    unfolding upgradeStandardPlan_def find require_simps bindE_Inr b(1) refs(1,3) using credit up d'(1) g(5,6) by simp
  moreover have "grantedOf d' (qb_id b) = map_option (\<lambda>n. n + ?n) (grantedOf d (qb_id b))"
    using quota.pays [OF credit, of "qb_id b"] more(2) d'(3) by (simp add: grantedOf_def)
  moreover have "lookup g_id (uq_grantId q) (grants d') = Some (upgradeGrantRow q g)"
    using d'(2) frame(1) lookup_mem [OF ids(1) g(1)] g(2) by (simp add: lookup_update_key)
  ultimately show ?thesis using b g(2) by (intro exI [of _ b] exI [of _ d']) simp
qed

text \<open>C27: a quote can be honoured: until it expires, an order not credited before upgrades the plan by
  exactly the quoted difference, and the plan is then the target of the quote.\<close>

theorem quote_can_be_honoured:
  assumes "readUpgrade fp userId now d = Inr st" and "newQuote st userId offerId now d = Inr q"
    and "now \<le> at" and "at < uq_expiresAt q" and "\<not> creditKeySpent d (''plan-upgrade:'' @ orderId)"
    and "distinct (map g_id (grants d))" and "distinct (map qb_id (buckets d))"
    and "g_subscriptionId (us_grant st) \<in> Some ` s_id ` set (subscriptions d)"
  shows "\<exists>b d'. upgradeStandardPlan q orderId at d = Inr d' \<and> qb_grantId b = uq_grantId q \<and> bucketCurrent at b
    \<and> grantedOf d' (qb_id b) = map_option (\<lambda>n. n + (os_trafficBytes (uq_target q) - uq_sourceTrafficBytes q))
        (grantedOf d (qb_id b))
    \<and> lookup g_id (uq_grantId q) (grants d') = Some (upgradeGrantRow q (us_grant st))"
  using assms(2)
proof (cases rule: newQuote_shape)
  case (1 offer basis basisCents)
  let ?g = "us_grant st"
  note g = readUpgrade_plan [OF assms(1)]
  obtain product where t: "lookup cp_id (co_productId offer) (products d) = Some product" "higherOffer st offer product"
      "snapshotCatalogOffer offer None d = Inr (uq_target q)"
    using targetOffer_shape [OF 1(1)] by metis
  have more: "uq_sourceTrafficBytes q < os_trafficBytes (uq_target q)"
    using snapshot_facts [OF t(3,1)] t(2) 1(16) by (simp add: higherOffer_def)
  obtain planId where planId: "present (os_legacyPlanId (uq_target q)) = Some planId"
    using snapshot_facts [OF t(3,1)] t(2) by (auto simp: higherOffer_def)
  obtain subscriptionId where sub: "present (g_subscriptionId ?g) = Some subscriptionId"
      "subscriptionId \<in> s_id ` set (subscriptions d)"
    using g(9) assms(8) by auto
  have "bucketCurrent at (us_bucket st)" "grantLive at ?g"
    using g assms(3,4) 1(13) by (auto simp: bucketCurrent_def grantLive_def)
  then show ?thesis
    using upgradeStandardPlan_succeeds [OF assms(6,7) g(1) _ _ _ _ _ g(6,7) _ more assms(5) sub planId] g 1 by simp
qed

section \<open>An example upgrade\<close>

definition exampleMonthlyProduct :: "id \<Rightarrow> id \<Rightarrow> id \<Rightarrow> product_row" where
  "exampleMonthlyProduct i planId profileId = \<lparr>cp_id = i, cp_legacyPlanId = Some planId,
     cp_legacyTrafficPackProductId = None, cp_slug = i, cp_kind = ProductPlan, cp_series = Standard,
     cp_status = ProductActive, cp_name = i, cp_quotaCadence = MonthlyReset, cp_accessProfileId = Some profileId,
     cp_speedUpMbps = 200, cp_speedDownMbps = 200, cp_defaultMultiplier = 10000, cp_purchaseLimitPerUser = None,
     cp_purchaseLimitKey = None, cp_requiresActivePlan = False,
     cp_referralEligible = True\<rparr>"

definition exampleLargeOffer :: offer_row where
  "exampleLargeOffer = exampleOffer\<lparr>co_id := ''offer2'', co_productId := ''prod2'', co_trafficBytes := 1500, co_priceCents := 5000\<rparr>"

definition examplePaidOrder :: order_row where
  "examplePaidOrder = exampleOrder\<lparr>mo_intervalMonths := Some 3\<rparr>"

definition exampleSale :: db where
  "exampleSale = exampleUpgradeDb\<lparr>
     profiles := [\<lparr>ap_id = ''prof2'', ap_active = True, ap_speedUpMbps = 200, ap_speedDownMbps = 200, ap_deviceLimit = 5\<rparr>],
     products := [exampleMonthlyProduct ''prod1'' ''plan1'' ''prof1'', exampleMonthlyProduct ''prod2'' ''plan2'' ''prof2''],
     offers := [exampleOffer, exampleLargeOffer], orders := [examplePaidOrder],
     buckets := take 1 (buckets exampleUpgradeDb)\<rparr>"

definition exampleFingerprint :: "json \<Rightarrow> string" where
  "exampleFingerprint v = ''f''"

definition exampleState :: upgrade_state where
  "exampleState = \<lparr>us_grant = exampleGrant\<lparr>g_subscriptionId := Some ''s1''\<rparr>,
     us_product = exampleMonthlyProduct ''prod1'' ''plan1'' ''prof1'', us_offer = exampleOffer,
     us_bucket = (newBucket ''b1'' ''g1'' PlanCycle 1709251200000 1711929600000 1000 10000 0)\<lparr>qb_consumed := 300\<rparr>,
     us_original = examplePaidOrder, us_purchases = [examplePaidOrder], us_state = ''f'',
     us_complimentary = False, us_valueCents = 3000\<rparr>"

lemma exampleSale_reads: "readUpgrade exampleFingerprint ''u1'' 1709251200000 exampleSale = Inr exampleState"
proof -
  have "readPlan ''u1'' 1709251200000 exampleSale = Inr (us_grant exampleState, exampleOffer, us_bucket exampleState)"
    by code_simp
  moreover have "readOriginal (us_grant exampleState) exampleOffer exampleSale
      = Inr (examplePaidOrder, [examplePaidOrder], 3000, 3)" by code_simp
  moreover have "checkDates ''u1'' (us_grant exampleState) examplePaidOrder 3 exampleSale = Inr ()"
  proof -
    have "purchasedEnd 1706745600000 3 = 1714521600000" by code_simp
    moreover have "g_startsAt (us_grant exampleState) = 1706745600000" "g_endsAt (us_grant exampleState) = 1714521600000"
        "mo_entitlementExpiresAt examplePaidOrder = Some 1714521600000" "groupMembers exampleSale = []"
        "mo_processedAt examplePaidOrder = Some 1706745600000" by code_simp+
    ultimately show ?thesis by (simp add: checkDates_def)
  qed
  moreover have "lookup cp_id (g_productId (us_grant exampleState)) (products exampleSale) = Some (us_product exampleState)"
    by code_simp
  moreover have "complimentaryOrder examplePaidOrder = False" by code_simp
  ultimately show ?thesis by (simp add: readUpgrade_def exampleState_def exampleFingerprint_def)
qed

lemma exampleSale_quote:
  "\<exists>q. newQuote exampleState ''u1'' ''offer2'' 1709251200000 exampleSale = Inr q \<and> 1709251300000 < uq_expiresAt q
     \<and> uq_payableCents q = 1856 \<and> uq_grantId q = ''g1''"
proof -
  have "case newQuote exampleState ''u1'' ''offer2'' 1709251200000 exampleSale of
       Inl _ \<Rightarrow> False
     | Inr q \<Rightarrow> 1709251300000 < uq_expiresAt q \<and> uq_payableCents q = 1856 \<and> uq_grantId q = ''g1''"
    by code_simp
  then show ?thesis by (auto split: sum.splits)
qed

theorem quote_terms_witness:
  "\<exists>q. newQuote exampleState ''u1'' ''offer2'' 1709251200000 exampleSale = Inr q
     \<and> standardUpgradeFeeCents < uq_payableCents q \<and> 1709251200000 < uq_expiresAt q"
proof -
  obtain q where "newQuote exampleState ''u1'' ''offer2'' 1709251200000 exampleSale = Inr q"
    using exampleSale_quote by blast
  then show ?thesis using quote_terms [OF exampleSale_reads] by blast
qed

definition exampleCodec :: quote_codec where
  "exampleCodec = \<lparr>qk_key = Some ''key'', qk_seal = exampleSeal, qk_opens = exampleOpens,
     qk_stringify = (\<lambda>v. ''q''), qk_parse = (\<lambda>s. Some (quoteJson (case newQuote exampleState ''u1'' ''offer2''
        1709251200000 exampleSale of Inr q \<Rightarrow> q | Inl _ \<Rightarrow> exampleQuote)))\<rparr>"

theorem quote_token_holds_witness:
  "\<exists>q. newQuote exampleState ''u1'' ''offer2'' 1709251200000 exampleSale = Inr q
     \<and> quoteUpgrade exampleCodec exampleFingerprint ''iw'' ''u1'' ''offer2''
         (Some (issueToken exampleCodec ''iv'' (quoteJson q))) 1709251200000 exampleSale
       = Inr (quoteJson q, issueToken exampleCodec ''iv'' (quoteJson q), 700)"
proof -
  obtain q where q: "newQuote exampleState ''u1'' ''offer2'' 1709251200000 exampleSale = Inr q"
      "1709251300000 < uq_expiresAt q"
    using exampleSale_quote by blast
  have "codecLaw exampleCodec ''iv'' (quoteJson q)"
    using q(1) exampleGcm by (simp add: codecLaw_def exampleCodec_def hasPrefix_def cipherPrefix_def)
  moreover have "qb_granted (us_bucket exampleState) - qb_consumed (us_bucket exampleState) = 700"
    by (simp add: exampleState_def newBucket_def)
  ultimately show ?thesis
    using quote_token_holds [OF exampleSale_reads q(1) _ exampleSale_reads, of exampleCodec "''iv''" "''iw''"] q by simp
qed

theorem quote_can_be_honoured_witness:
  "\<exists>q d'. newQuote exampleState ''u1'' ''offer2'' 1709251200000 exampleSale = Inr q
     \<and> upgradeStandardPlan q ''o9'' 1709251300000 exampleSale = Inr d'
     \<and> lookup g_id ''g1'' (grants d') = Some (upgradeGrantRow q (us_grant exampleState))"
proof -
  obtain q where q: "newQuote exampleState ''u1'' ''offer2'' 1709251200000 exampleSale = Inr q"
      "1709251300000 < uq_expiresAt q" "uq_grantId q = ''g1''"
    using exampleSale_quote by blast
  have "\<not> creditKeySpent exampleSale (''plan-upgrade:'' @ ''o9'')" "distinct (map g_id (grants exampleSale))"
      "distinct (map qb_id (buckets exampleSale))"
      "g_subscriptionId (us_grant exampleState) \<in> Some ` s_id ` set (subscriptions exampleSale)"
    by code_simp+
  note run = quote_can_be_honoured [OF exampleSale_reads q(1) _ q(2) this, unfolded q(3)]
  have "(1709251200000 :: int) \<le> 1709251300000" by simp
  then show ?thesis using run q(1) by blast
qed

end
