(* ===== verification/PlanActivationLaws.thy ===== *)
theory PlanActivationLaws imports PlanActivation PlanUpgradeLaws begin

text \<open>
  What starting a reserved plan guarantees: the reservation becomes the member's only standard plan and
  runs its full interval from now, nothing of what was paid changes, a key is carried out once, and
  the plan stays upgradable.
\<close>

section \<open>What the writes leave alone\<close>

text \<open>The rows of purchases, and of everything the reading of a plan refers to.\<close>

definition keepsPurchases :: "db \<Rightarrow> db \<Rightarrow> bool" where
  "keepsPurchases d d' \<longleftrightarrow> orders d' = orders d \<and> payments d' = payments d \<and> refunds d' = refunds d
     \<and> walletLedger d' = walletLedger d \<and> walletTxns d' = walletTxns d \<and> users d' = users d \<and> products d' = products d
     \<and> groupMembers d' = groupMembers d \<and> audits d' = audits d"

definition planRows :: "db \<Rightarrow> grant_row list" where
  "planRows d = filter (\<lambda>g. g_kind g = GrantPlan) (grants d)"

definition grantFaces :: "db \<Rightarrow> (id \<times> grant_kind) list" where
  "grantFaces d = map (\<lambda>g. (g_id g, g_kind g)) (grants d)"

lemma keepsPurchases_refl [simp]: "keepsPurchases d d"
  by (simp add: keepsPurchases_def)

lemma keepsPurchases_trans: "keepsPurchases d e \<Longrightarrow> keepsPurchases e f \<Longrightarrow> keepsPurchases d f"
  by (simp add: keepsPurchases_def)

lemma keepsPurchases_series: "keepsPurchases d d' \<Longrightarrow> grantSeries g d' = grantSeries g d"
  by (simp add: keepsPurchases_def grantSeries_def)

lemma standardPlans_planRows:
  "standardPlans userId now d = filter (\<lambda>g. g_userId g = userId \<and> g_status g = GrantActive \<and> now < g_endsAt g
     \<and> grantSeries g d = Some Standard) (planRows d)"
  by (simp add: standardPlans_def planRows_def) (rule filter_cong, auto)

lemma filter_update_many_off:
  "(\<And>r. r \<in> set rs \<Longrightarrow> p r \<Longrightarrow> \<not> q r \<and> \<not> q (f r)) \<Longrightarrow> filter q (update_many p f rs) = filter q rs"
  by (induction rs) auto

lemma filter_update_many_keep:
  "(\<And>r. q (f r) = q r) \<Longrightarrow> filter q (update_many p f rs) = update_many p f (filter q rs)"
  by (induction rs) auto

lemma filter_single:
  assumes "distinct xs" and "t \<in> set xs" and "\<And>r. r \<in> set xs \<Longrightarrow> Q (h r) \<longleftrightarrow> r = t"
  shows "filter Q (map h xs) = [h t]"
proof -
  have "filter (\<lambda>r. Q (h r)) xs = filter (\<lambda>r. r = t) xs" by (rule filter_cong) (use assms(3) in auto)
  then have "filter Q (map h xs) = map h (filter (\<lambda>r. r = t) xs)" by (simp add: filter_map comp_def)
  moreover have "filter (\<lambda>r. r = t) xs = [t]" using assms(1,2)
    by (induction xs) (auto simp: filter_empty_conv)
  ultimately show ?thesis by simp
qed

lemma expireBonus_rows:
  assumes "expireBonus now b d = Inr d'"
  shows "keepsPurchases d d'" and "buckets d' = buckets d" and "subscriptions d' = subscriptions d"
    and "grants d' = update_many (\<lambda>r. g_id r = g_id b) (\<lambda>g. g\<lparr>g_status := GrantCanceled, g_endsAt := now\<rparr>) (grants d)"
  using assms
  by (auto simp: expireBonus_def err_simps updateGrant_eq_Inr updatePack_def keepsPurchases_def split: option.splits)

lemma startBonus_rows:
  assumes "startBonus now e b d = Inr d'"
  shows "keepsPurchases d d'" and "subscriptions d' = subscriptions d"
    and "buckets d' = update_many (\<lambda>r. qb_grantId r = g_id b) (\<lambda>r. r\<lparr>qb_startsAt := now, qb_endsAt := e\<rparr>) (buckets d)"
    and "grants d' = update_many (\<lambda>r. g_id r = g_id b) (\<lambda>g. g\<lparr>g_startsAt := now, g_endsAt := e\<rparr>) (grants d)"
  using assms
  by (auto simp: startBonus_def err_simps updateGrant_eq_Inr updatePack_def keepsPurchases_def Let_def split: option.splits)

text \<open>Steps on bonus entitlements leave the plans alone.\<close>

definition onlyBonuses :: "db \<Rightarrow> db \<Rightarrow> bool" where
  "onlyBonuses d d' \<longleftrightarrow> keepsPurchases d d' \<and> grantFaces d' = grantFaces d \<and> planRows d' = planRows d"

lemma bonus_not_plan:
  assumes "grantFaces e = grantFaces d" and "distinct (map g_id (grants d))" and "b \<in> set (grants d)"
    and "g_kind b \<noteq> GrantPlan" and "r \<in> set (grants e)" and "g_id r = g_id b"
  shows "g_kind r \<noteq> GrantPlan"
proof -
  have "(g_id r, g_kind r) \<in> set (grantFaces e)" using assms(5) by (auto simp: grantFaces_def)
  then have "(g_id r, g_kind r) \<in> set (grantFaces d)" unfolding assms(1) .
  then obtain r0 where r0: "r0 \<in> set (grants d)" "g_id r0 = g_id r" "g_kind r0 = g_kind r" by (auto simp: grantFaces_def)
  have "lookup g_id (g_id b) (grants d) = Some r0" using lookup_mem [OF assms(2) r0(1)] unfolding r0(2) assms(6) .
  then have "r0 = b" using lookup_mem [OF assms(2,3)] by simp
  then show ?thesis using r0 assms(4) by simp
qed

lemma onlyBonuses_step:
  assumes "onlyBonuses s e" and "grantFaces s = grantFaces d" and "distinct (map g_id (grants d))"
    and "b \<in> set (grants d)" and "g_kind b \<noteq> GrantPlan"
    and "keepsPurchases e e'" and "grants e' = update_many (\<lambda>r. g_id r = g_id b) f (grants e)"
    and "\<And>r. g_id (f r) = g_id r \<and> g_kind (f r) = g_kind r"
  shows "onlyBonuses s e'"
proof -
  have faces: "grantFaces e = grantFaces d" using assms(1,2) by (simp add: onlyBonuses_def)
  have "grantFaces e' = grantFaces e" unfolding grantFaces_def assms(7) by (rule map_update_many) (simp add: assms(8))
  moreover have "planRows e' = planRows e" unfolding planRows_def assms(7)
    by (rule filter_update_many_off) (use bonus_not_plan [OF faces assms(3-5)] assms(8) in auto)
  ultimately show ?thesis
    using assms(1,6) by (auto simp: onlyBonuses_def intro: keepsPurchases_trans)
qed

lemma foldE_bonuses:
  assumes "foldE step bs s = Inr s'" and "grantFaces s = grantFaces d" and "distinct (map g_id (grants d))"
    and "\<And>b. b \<in> set bs \<Longrightarrow> b \<in> set (grants d) \<and> g_kind b \<noteq> GrantPlan"
    and "\<And>b e e'. step b e = Inr e' \<Longrightarrow> keepsPurchases e e'
      \<and> grants e' = update_many (\<lambda>r. g_id r = g_id b) f (grants e)"
    and "\<And>r. g_id (f r) = g_id r \<and> g_kind (f r) = g_kind r"
  shows "onlyBonuses s s'"
proof (rule foldE_keeps [OF assms(1)])
  show "onlyBonuses s s" by (simp add: onlyBonuses_def)
  show "onlyBonuses s e'" if "b \<in> set bs" "onlyBonuses s e" "step b e = Inr e'" for b e e'
    using onlyBonuses_step [OF that(2) assms(2,3)] assms(4) [OF that(1)] assms(5) [OF that(3)] assms(6) by blast
qed

section \<open>The stages of an activation\<close>

lemma retireCurrent_rows:
  assumes "retireCurrent userId g now d = Inr d'" and "distinct (map g_id (grants d))"
    and "\<And>b. b \<in> set (grants d) \<Longrightarrow> bonusOf (g_id g) b d \<Longrightarrow> g_kind b \<noteq> GrantPlan"
  shows "keepsPurchases d d'" and "planRows d' = update_many (\<lambda>r. g_id r = g_id g) (closeGrant now) (planRows d)"
    and "grantFaces d' = grantFaces d" and "buckets d' = buckets d"
proof -
  obtain d1 d2 where s: "foldE (expireBonus now) (bonusesOf userId (g_id g) d) d = Inr d1"
      "updateGrant (g_id g) (closeGrant now) d1 = Inr d2"
      "keepsPurchases d2 d'" "grants d' = grants d2" "buckets d' = buckets d2"
    using assms(1)
    by (auto simp: retireCurrent_def err_simps updateSubscription_def keepsPurchases_def split: option.splits)
  have b: "onlyBonuses d d1"
    by (rule foldE_bonuses [OF s(1) refl assms(2), where f = "\<lambda>g. g\<lparr>g_status := GrantCanceled, g_endsAt := now\<rparr>"])
      (use assms(3) in \<open>auto simp: bonusesOf_def dest: expireBonus_rows\<close>)
  have bs: "buckets d1 = buckets d"
    by (rule foldE_keeps [OF s(1), where Q = "\<lambda>e. buckets e = buckets d"]) (auto dest: expireBonus_rows)
  have d2: "d2 = d1\<lparr>grants := update_many (\<lambda>r. g_id r = g_id g) (closeGrant now) (grants d1)\<rparr>"
    using s(2) by (simp add: updateGrant_eq_Inr)
  have "keepsPurchases d1 d2" unfolding d2 by (simp add: keepsPurchases_def)
  then show "keepsPurchases d d'" using b s(3) by (auto simp: onlyBonuses_def intro: keepsPurchases_trans)
  have "planRows d' = update_many (\<lambda>r. g_id r = g_id g) (closeGrant now) (planRows d1)"
    unfolding planRows_def s(4) d2 by (simp add: filter_update_many_keep closeGrant_def)
  then show "planRows d' = update_many (\<lambda>r. g_id r = g_id g) (closeGrant now) (planRows d)"
    using b by (simp add: onlyBonuses_def)
  have "grantFaces d2 = grantFaces d1" unfolding d2 grantFaces_def by (simp add: map_update_many closeGrant_def)
  then show "grantFaces d' = grantFaces d" using b s(4) by (simp add: onlyBonuses_def grantFaces_def)
  show "buckets d' = buckets d" using bs s(5) d2 by simp
qed

lemma startReserved_rows:
  assumes "startReserved st now d = Inr d'"
  shows "keepsPurchases d d'"
    and "planRows d' = update_many (\<lambda>r. g_id r = g_id (av_target st)) (startGrant now (av_endsAt st)) (planRows d)"
    and "grants d' = update_many (\<lambda>r. g_id r = g_id (av_target st)) (startGrant now (av_endsAt st)) (grants d)"
    and "buckets d' = update_many (\<lambda>b. qb_id b = qb_id (av_bucket st))
          (\<lambda>b. b\<lparr>qb_startsAt := now, qb_endsAt := av_bucketEnd st\<rparr>) (buckets d)"
proof -
  show k: "keepsPurchases d d'"
    and g: "grants d' = update_many (\<lambda>r. g_id r = g_id (av_target st)) (startGrant now (av_endsAt st)) (grants d)"
    and "buckets d' = update_many (\<lambda>b. qb_id b = qb_id (av_bucket st))
          (\<lambda>b. b\<lparr>qb_startsAt := now, qb_endsAt := av_bucketEnd st\<rparr>) (buckets d)"
    using assms
    by (auto simp: startReserved_def err_simps updateGrant_eq_Inr updateBucket_def updateSubscription_def
        updateCycle_def keepsPurchases_def Let_def split: option.splits)
  show "planRows d' = update_many (\<lambda>r. g_id r = g_id (av_target st)) (startGrant now (av_endsAt st)) (planRows d)"
    unfolding planRows_def g by (simp add: filter_update_many_keep startGrant_def)
qed

lemma readActivation_shape:
  assumes "readActivation env userId grantId now d = Inr st"
  obtains gs where "pickReservation userId grantId now d = Inr (av_target st, gs)"
    "reservationOrder (av_target st) d = Inr (av_order st, av_months st)"
    "reservationBucket (av_target st) d = Inr (av_bucket st)"
    "reservationBonuses userId (av_target st) now d = Inr (av_bonuses st)"
    "av_current st = List.find (\<lambda>g. g_startsAt g \<le> now) gs" "av_endsAt st = addUtcMonthsClamped now (av_months st)"
    "av_bucketEnd st = addUtcMonthsClamped now 1"
  using assms by (auto simp: readActivation_def err_simps Let_def)

lemma activate_stages:
  assumes "activate env userId grantId input actorId key now d = Inr (result, d')"
  obtains st d1 d2 d3 where "readActivation env userId grantId now d = Inr st"
    "(case av_current st of None \<Rightarrow> Inr d | Some g \<Rightarrow> retireCurrent userId g now d) = Inr d1"
    "startReserved st now d1 = Inr d2"
    "foldE (startBonus now (av_endsAt st)) (map fst (av_bonuses st)) d2 = Inr d3"
    "result = describeActivation st now d"
    "auditActivation (activationAuditId env userId key) (ev_request env grantId input) st result
       userId (ai_reason input) actorId d3 = Inr d'"
  using assms by (auto simp: activate_def err_simps Let_def)

lemma auditActivation_rows:
  assumes "auditActivation i h st result userId reason actorId d = Inr d'"
  shows "grants d' = grants d" and "buckets d' = buckets d" and "orders d' = orders d" and "payments d' = payments d"
    and "products d' = products d" and "groupMembers d' = groupMembers d" and "walletLedger d' = walletLedger d"
    and "users d' = users d"
  using assms by (auto simp: auditActivation_def err_simps)

section \<open>One plan before and after\<close>

lemma length_one_eq: "length xs \<le> 1 \<Longrightarrow> x \<in> set xs \<Longrightarrow> y \<in> set xs \<Longrightarrow> x = y"
  by (cases xs) auto

lemma pickReservation_plans:
  assumes "pickReservation userId grantId now d = Inr (t, gs)"
  shows "t \<in> set (standardPlans userId now d)" and "g_id t = grantId" and "now < g_startsAt t"
    and "x \<in> set (standardPlans userId now d) \<Longrightarrow> x = t \<or> List.find (\<lambda>g. g_startsAt g \<le> now) gs = Some x"
    and "List.find (\<lambda>g. g_startsAt g \<le> now) gs = Some c \<Longrightarrow> c \<in> set (standardPlans userId now d) \<and> g_startsAt c \<le> now"
proof -
  have gs: "gs = reservedPlans userId now d" and find: "List.find (\<lambda>g. g_id g = grantId) gs = Some t"
    and future: "now < g_startsAt t" and one: "length (filter (\<lambda>g. now < g_startsAt g) gs) = 1"
    and cur: "length (filter (\<lambda>g. g_startsAt g \<le> now) gs) \<le> 1"
    using assms by (auto simp: pickReservation_def err_simps Let_def)
  have set_gs: "set gs = set (standardPlans userId now d)" by (simp add: gs reservedPlans_def byId_def)
  note t = find_mem [OF find]
  show "t \<in> set (standardPlans userId now d)" "g_id t = grantId" "now < g_startsAt t" using t set_gs future by auto
  show "List.find (\<lambda>g. g_startsAt g \<le> now) gs = Some c \<Longrightarrow> c \<in> set (standardPlans userId now d) \<and> g_startsAt c \<le> now"
    using find_mem [of "\<lambda>g. g_startsAt g \<le> now" gs c] set_gs by simp
  assume x: "x \<in> set (standardPlans userId now d)"
  show "x = t \<or> List.find (\<lambda>g. g_startsAt g \<le> now) gs = Some x"
  proof (cases "now < g_startsAt x")
    case True
    have "x = t" by (rule length_one_eq [of "filter (\<lambda>g. now < g_startsAt g) gs"])
      (use one x True t future set_gs in auto)
    then show ?thesis ..
  next
    case False
    then have x': "x \<in> set (filter (\<lambda>g. g_startsAt g \<le> now) gs)" using x set_gs by auto
    then obtain c where c: "List.find (\<lambda>g. g_startsAt g \<le> now) gs = Some c"
      by (cases "List.find (\<lambda>g. g_startsAt g \<le> now) gs") (auto simp: find_None_iff)
    then have "c \<in> set (filter (\<lambda>g. g_startsAt g \<le> now) gs)" using find_mem [OF c] by simp
    then show ?thesis using c length_one_eq [OF cur x'] by simp
  qed
qed

lemma reservationOrder_mem:
  assumes "reservationOrder t d = Inr (o1, months)"
  shows "o1 \<in> set (orders d)" and "mo_grantId o1 = Some (g_id t)" and "mo_intervalMonths o1 = Some months"
    and "months \<in> {1, 3, 12}"
proof -
  let ?os = "filter (\<lambda>o1. mo_grantId o1 = Some (g_id t) \<and> mo_status o1 = OrderApplied) (orders d)"
  obtain r where r: "?os = [r]" using assms by (auto simp: reservationOrder_def split: list.splits)
  have "r \<in> set ?os" by (simp add: r)
  moreover have "r = o1" "mo_intervalMonths o1 = Some months" "months \<in> {1, 3, 12}"
    using assms r by (auto simp: reservationOrder_def split: option.splits if_splits)
  ultimately show "o1 \<in> set (orders d)" "mo_grantId o1 = Some (g_id t)" "mo_intervalMonths o1 = Some months"
    "months \<in> {1, 3, 12}" by auto
qed

lemma reservationBonuses_grants:
  assumes "reservationBonuses userId t now d = Inr bs"
  shows "map fst bs = byId g_id (bonusesOf userId (g_id t) d)"
proof -
  have "bs = map (\<lambda>g. (g, byId qb_id (grantBuckets (g_id g) d))) (byId g_id (bonusesOf userId (g_id t) d))"
    using assms unfolding reservationBonuses_def Let_def by (simp split: if_splits)
  then show ?thesis by (simp add: comp_def)
qed

text \<open>The plan rows after the activation.\<close>

definition switched :: "activation_state \<Rightarrow> instant \<Rightarrow> grant_row \<Rightarrow> grant_row" where
  "switched st now g =
     (if g_id g = g_id (av_target st) then startGrant now (av_endsAt st) g
      else if map_option g_id (av_current st) = Some (g_id g) then closeGrant now g else g)"

lemma update_many_as_map: "update_many p f rs = map (\<lambda>r. if p r then f r else r) rs"
  by (simp add: update_many_def)

lemma activate_rows:
  assumes run: "activate env userId grantId input actorId key now d = Inr (result, d')"
    and ids: "distinct (map g_id (grants d))"
    and bonus: "\<And>i b. b \<in> set (grants d) \<Longrightarrow> bonusOf i b d \<Longrightarrow> g_kind b \<noteq> GrantPlan"
    and st: "readActivation env userId grantId now d = Inr st"
  obtains d3 where "keepsPurchases d d3" "planRows d3 = map (switched st now) (planRows d)"
    "auditActivation (activationAuditId env userId key) (ev_request env grantId input) st (describeActivation st now d)
       userId (ai_reason input) actorId d3 = Inr d'"
    "grantBuckets grantId d3 = update_many (\<lambda>b. qb_id b = qb_id (av_bucket st))
       (\<lambda>b. b\<lparr>qb_startsAt := now, qb_endsAt := av_bucketEnd st\<rparr>) (grantBuckets grantId d)"
proof -
  obtain st' d1 d2 d3 where s: "readActivation env userId grantId now d = Inr st'"
    "(case av_current st' of None \<Rightarrow> Inr d | Some g \<Rightarrow> retireCurrent userId g now d) = Inr d1"
    "startReserved st' now d1 = Inr d2"
    "foldE (startBonus now (av_endsAt st')) (map fst (av_bonuses st')) d2 = Inr d3"
    "result = describeActivation st' now d"
    "auditActivation (activationAuditId env userId key) (ev_request env grantId input) st' result
       userId (ai_reason input) actorId d3 = Inr d'"
    by (rule activate_stages [OF run])
  have same: "st' = st" using s(1) st by simp
  note s = s [unfolded same]
  obtain gs where pick: "pickReservation userId grantId now d = Inr (av_target st, gs)"
    and bonuses: "reservationBonuses userId (av_target st) now d = Inr (av_bonuses st)"
    and cur: "av_current st = List.find (\<lambda>g. g_startsAt g \<le> now) gs"
    using readActivation_shape [OF st] by metis
  note t = pickReservation_plans(1-3) [OF pick]
  have tc: "g_id c \<noteq> g_id (av_target st)" if "av_current st = Some c" for c
  proof
    assume id: "g_id c = g_id (av_target st)"
    have c: "c \<in> set (grants d)" "g_startsAt c \<le> now" "av_target st \<in> set (grants d)"
      using pickReservation_plans(5) [OF pick] that cur t(1) by (auto simp: standardPlans_def)
    then have "c = av_target st" using lookup_mem [OF ids c(1)] lookup_mem [OF ids c(3)] unfolding id by simp
    then show False using c(2) t(3) by simp
  qed
  have r1: "keepsPurchases d d1" "grantFaces d1 = grantFaces d" "buckets d1 = buckets d"
      "planRows d1 = map (\<lambda>g. if map_option g_id (av_current st) = Some (g_id g) then closeGrant now g else g) (planRows d)"
    using s(2) retireCurrent_rows [OF _ ids] bonus
    by (auto simp: update_many_as_map eq_commute [of "g_id (the (av_current st))"] split: option.splits)
  note r2 = startReserved_rows [OF s(3)]
  have plan2: "planRows d2 = map (switched st now) (planRows d)"
    unfolding r2(2) r1(4) update_many_as_map using tc by (auto simp: switched_def closeGrant_def)
  have faces2: "grantFaces d2 = grantFaces d"
    unfolding grantFaces_def r2(3) using r1(2) by (simp add: map_update_many startGrant_def grantFaces_def)
  have b: "b \<in> set (grants d) \<and> bonusOf (g_id (av_target st)) b d" if "b \<in> set (map fst (av_bonuses st))" for b
    using that unfolding reservationBonuses_grants [OF bonuses] by (simp add: byId_def bonusesOf_def)
  have b3: "onlyBonuses d2 d3"
    by (rule foldE_bonuses [OF s(4) faces2 ids, where f = "\<lambda>g. g\<lparr>g_startsAt := now, g_endsAt := av_endsAt st\<rparr>"])
      (use b bonus in \<open>auto dest: startBonus_rows\<close>)
  have target: "av_target st \<in> set (grants d)" "g_kind (av_target st) = GrantPlan"
    using t(1) by (simp_all add: standardPlans_def)
  have other: "g_id b \<noteq> grantId" if "b \<in> set (map fst (av_bonuses st))" for b
    using bonus_not_plan [OF refl ids, of b "av_target st"] b [OF that] bonus target t(2) by auto
  have "grantBuckets grantId d3 = grantBuckets grantId d2"
  proof (rule foldE_keeps [OF s(4), where Q = "\<lambda>e. grantBuckets grantId e = grantBuckets grantId d2"])
    fix b e e'
    assume b: "b \<in> set (map fst (av_bonuses st))" "grantBuckets grantId e = grantBuckets grantId d2"
      and run: "startBonus now (av_endsAt st) b e = Inr e'"
    have "grantBuckets grantId e' = grantBuckets grantId e"
      unfolding grantBuckets_def startBonus_rows(3) [OF run]
      by (rule filter_update_many_off) (use other [OF b(1)] in auto)
    then show "grantBuckets grantId e' = grantBuckets grantId d2" using b(2) by simp
  qed simp
  then have "grantBuckets grantId d3 = update_many (\<lambda>b. qb_id b = qb_id (av_bucket st))
       (\<lambda>b. b\<lparr>qb_startsAt := now, qb_endsAt := av_bucketEnd st\<rparr>) (grantBuckets grantId d)"
    using r1(3) r2(4) by (simp add: grantBuckets_def filter_update_many_keep)
  moreover have "keepsPurchases d d3" "planRows d3 = map (switched st now) (planRows d)"
    using r1(1) r2(1) b3 plan2 by (auto simp: onlyBonuses_def intro: keepsPurchases_trans)
  ultimately show thesis using that s(5,6) by simp
qed

lemma reservationBucket_only: "reservationBucket t d = Inr b \<Longrightarrow> grantBuckets (g_id t) d = [b]"
  by (auto simp: reservationBucket_def split: list.splits if_splits)

lemma switched_simps [simp]:
  "g_id (switched st now g) = g_id g" "g_userId (switched st now g) = g_userId g"
  "g_productId (switched st now g) = g_productId g"
  by (simp_all add: switched_def startGrant_def closeGrant_def)

lemma same_row: "distinct (map g_id rs) \<Longrightarrow> r \<in> set rs \<Longrightarrow> x \<in> set rs \<Longrightarrow> g_id r = g_id x \<Longrightarrow> r = x"
  by (induction rs) (auto simp: image_iff)

lemma only_reserved_left:
  assumes ids: "distinct (map g_id (grants d))" and pick: "pickReservation userId grantId now d = Inr (av_target st, gs)"
    and cur: "av_current st = List.find (\<lambda>g. g_startsAt g \<le> now) gs" and ends: "now < av_endsAt st"
  defines "Q \<equiv> \<lambda>g. g_userId g = userId \<and> g_status g = GrantActive \<and> now < g_endsAt g \<and> grantSeries g d = Some Standard"
  shows "filter Q (map (switched st now) (planRows d)) = [switched st now (av_target st)]"
proof (rule filter_single)
  note t = pickReservation_plans [OF pick]
  show "distinct (planRows d)" using ids by (simp add: planRows_def distinct_map)
  show target: "av_target st \<in> set (planRows d)" using t(1) by (auto simp: standardPlans_planRows)
  fix r assume r: "r \<in> set (planRows d)"
  have series: "grantSeries (switched st now r) d = grantSeries r d" by (simp add: grantSeries_def)
  show "Q (switched st now r) \<longleftrightarrow> r = av_target st"
  proof (cases "r = av_target st")
    case True
    then have "Q r" using t(1) by (simp add: Q_def standardPlans_def)
    then show ?thesis using True ends series by (simp add: Q_def switched_def startGrant_def)
  next
    case False
    have id: "g_id r \<noteq> g_id (av_target st)"
      using same_row [OF ids] r target False by (auto simp: planRows_def)
    have "\<not> Q (switched st now r)"
    proof
      assume q: "Q (switched st now r)"
      have live: "map_option g_id (av_current st) \<noteq> Some (g_id r)"
      proof
        assume "map_option g_id (av_current st) = Some (g_id r)"
        then have "switched st now r = closeGrant now r" using id by (simp add: switched_def)
        then show False using q by (simp add: Q_def closeGrant_def)
      qed
      then have "switched st now r = r" using id unfolding switched_def by (simp only: if_False)
      then have "Q r" using q by simp
      then have "r \<in> set (standardPlans userId now d)" using r by (simp add: standardPlans_planRows Q_def)
      then show False using t(4) [of r] False cur live by auto
    qed
    then show ?thesis using False by simp
  qed
qed

text \<open>C28: starting a reservation switches plans: afterwards the member's only standard plan is the
  reserved one, running its full purchased interval from now on, with its one quota period restarted at
  now for a month, while all orders, payments and wallet postings stay what they were.\<close>

theorem activation_switches_plans:
  assumes run: "activate env userId grantId input actorId key now d = Inr (result, d')"
    and ids: "distinct (map g_id (grants d))" and year: "fullYearMonth (monthOf now)"
    and bonus: "\<And>i b. b \<in> set (grants d) \<Longrightarrow> bonusOf i b d \<Longrightarrow> g_kind b \<noteq> GrantPlan"
  shows "\<exists>g o1 months b. lookup g_id grantId (grants d) = Some g \<and> now < g_startsAt g
    \<and> o1 \<in> set (orders d) \<and> mo_grantId o1 = Some grantId \<and> mo_intervalMonths o1 = Some months
    \<and> standardPlans userId now d' = [startGrant now (addUtcMonthsClamped now months) g]
    \<and> grantBuckets grantId d = [b]
    \<and> grantBuckets grantId d' = [b\<lparr>qb_startsAt := now, qb_endsAt := addUtcMonthsClamped now 1\<rparr>]
    \<and> orders d' = orders d \<and> payments d' = payments d \<and> walletLedger d' = walletLedger d"
proof -
  obtain st where st: "readActivation env userId grantId now d = Inr st" using activate_stages [OF run] by metis
  obtain gs where pick: "pickReservation userId grantId now d = Inr (av_target st, gs)"
    and order: "reservationOrder (av_target st) d = Inr (av_order st, av_months st)"
    and bucket: "reservationBucket (av_target st) d = Inr (av_bucket st)"
    and cur: "av_current st = List.find (\<lambda>g. g_startsAt g \<le> now) gs"
    and ends: "av_endsAt st = addUtcMonthsClamped now (av_months st)" "av_bucketEnd st = addUtcMonthsClamped now 1"
    using readActivation_shape [OF st] by metis
  note t = pickReservation_plans [OF pick] and o1 = reservationOrder_mem [OF order]
  obtain d3 where d3: "keepsPurchases d d3" "planRows d3 = map (switched st now) (planRows d)"
      "auditActivation (activationAuditId env userId key) (ev_request env grantId input) st (describeActivation st now d)
         userId (ai_reason input) actorId d3 = Inr d'"
      "grantBuckets grantId d3 = update_many (\<lambda>b. qb_id b = qb_id (av_bucket st))
         (\<lambda>b. b\<lparr>qb_startsAt := now, qb_endsAt := av_bucketEnd st\<rparr>) (grantBuckets grantId d)"
    by (rule activate_rows [OF run ids bonus st])
  note a = auditActivation_rows [OF d3(3)]
  have target: "av_target st \<in> set (grants d)" "g_kind (av_target st) = GrantPlan" using t(1) by (auto simp: standardPlans_def)
  have "now < av_endsAt st" unfolding ends using utc.add_future [OF year] o1(4) by auto
  note only = only_reserved_left [OF ids pick cur this]
  have series: "grantSeries g d' = grantSeries g d" for g using a(5) d3(1) by (simp add: grantSeries_def keepsPurchases_def)
  have plan: "standardPlans userId now d' = [switched st now (av_target st)]"
    using only a(1) d3(2) unfolding standardPlans_planRows series by (simp add: planRows_def)
  have "grantBuckets grantId d = [av_bucket st]" using reservationBucket_only [OF bucket] t(2) by simp
  moreover have "grantBuckets grantId d' = grantBuckets grantId d3" using a(2) by (simp add: grantBuckets_def)
  ultimately show ?thesis
    using plan d3 a o1 t ends target lookup_mem [OF ids target(1)]
    by (intro exI [of _ "av_target st"] exI [of _ "av_order st"] exI [of _ "av_months st"] exI [of _ "av_bucket st"])
      (simp add: switched_def keepsPurchases_def)
qed

text \<open>C29: a confirmation is carried out once per key: asked again with the same key, by whomever and whenever,
  it answers what it answered the first time and changes nothing, and the key cannot be used for another
  request.\<close>

theorem activation_confirmed_once:
  assumes "confirmOnce env userId grantId input actorId key now d = Inr (result, d')"
  shows "confirmOnce env userId grantId input actor2 key now2 d' = Inr (result, d')
    \<and> (ev_request env grantId2 input2 = ev_request env grantId input
       \<or> confirmOnce env userId grantId2 input2 actor3 key now3 d' = Inl (Conflict ''key-reused''))"
proof -
  let ?i = "activationAuditId env userId key" and ?h = "ev_request env grantId input"
  have "\<exists>a. lookup al_id ?i (audits d') = Some a \<and> jget (al_metadata a) ''requestHash'' = Some (JStr ?h)
      \<and> nvl (jget (al_metadata a) ''result'') JNull = result"
  proof (cases "lookup al_id ?i (audits d)")
    case None
    then have run: "activate env userId grantId input actorId key now d = Inr (result, d')"
      using assms by (simp add: confirmOnce_def)
    obtain st d3 where a: "auditActivation ?i ?h st result userId (ai_reason input) actorId d3 = Inr d'"
      using activate_stages [OF run] by metis
    have "?i \<notin> al_id ` set (audits d3)" using a by (auto simp: auditActivation_def err_simps)
    then have "lookup al_id ?i (audits d3) = None" unfolding lookup_None_iff by simp
    then show ?thesis using a by (auto simp: auditActivation_def err_simps lookup_append)
  next
    case (Some a)
    then show ?thesis using assms by (auto simp: confirmOnce_def split: if_splits)
  qed
  then obtain a where a: "lookup al_id ?i (audits d') = Some a" "jget (al_metadata a) ''requestHash'' = Some (JStr ?h)"
      "nvl (jget (al_metadata a) ''result'') JNull = result" by blast
  show ?thesis unfolding confirmOnce_def a(1) option.case using a(2,3) by auto
qed

lemma purchasedEnd_same:
  assumes "fullYearMonth (monthOf t)" and "fullYearMonth (monthOf t + months)"
  shows "purchasedEnd t months = addUtcMonthsClamped t months"
  using redemptionAddMonths_same [OF assms] by (simp add: purchasedEnd_def redemptionAddMonths_def Let_def)

text \<open>An early start keeps the way to an upgrade open: the dates it gives the plan pass the checks an
  upgrade quote makes on them, since the audit row it leaves vouches for them, unless the plan belongs to a
  group purchase.\<close>

theorem activated_plan_stays_upgradable:
  assumes run: "activate env userId grantId input actorId key now d = Inr (result, d')"
    and ids: "distinct (map g_id (grants d))" and year: "fullYearMonth (monthOf now)"
    and bonus: "\<And>i b. b \<in> set (grants d) \<Longrightarrow> bonusOf i b d \<Longrightarrow> g_kind b \<noteq> GrantPlan"
    and st: "readActivation env userId grantId now d = Inr st"
    and order: "mo_entitlementExpiresAt (av_order st) = Some (g_endsAt (av_target st))"
      "av_endsAt st \<noteq> g_endsAt (av_target st)"
    and group: "lookup gm_orderId (Some (mo_id (av_order st))) (groupMembers d) = None"
  shows "checkDates userId (startGrant now (av_endsAt st) (av_target st)) (av_order st) (av_months st) d' = Inr ()"
proof -
  obtain d3 where d3: "keepsPurchases d d3"
      "auditActivation (activationAuditId env userId key) (ev_request env grantId input) st (describeActivation st now d)
         userId (ai_reason input) actorId d3 = Inr d'"
    by (rule activate_rows [OF run ids bonus st])
  obtain gs where ord: "reservationOrder (av_target st) d = Inr (av_order st, av_months st)"
    and ends: "av_endsAt st = addUtcMonthsClamped now (av_months st)"
    using readActivation_shape [OF st] by metis
  let ?g = "startGrant now (av_endsAt st) (av_target st)"
  have "activationAudited userId ?g (av_order st) (av_months st) d'"
    using d3(2) order(1)
    by (auto simp: activationAudited_def auditActivation_def err_simps describeActivation_def startGrant_def)
  moreover have "fullYearMonth (monthOf now + av_months st)"
    using reservationOrder_mem(4) [OF ord] year by (auto simp: fullYearMonth_def)
  then have "purchasedEnd now (av_months st) = av_endsAt st" unfolding ends by (rule purchasedEnd_same [OF year])
  moreover have "groupMembers d' = groupMembers d"
    using auditActivation_rows(6) [OF d3(2)] d3(1) by (simp add: keepsPurchases_def)
  ultimately show ?thesis using order group by (simp add: checkDates_def Let_def startGrant_def)
qed

section \<open>An example reservation\<close>

definition exampleEnv :: activation_env where
  "exampleEnv = \<lparr>ev_state = (\<lambda>e. ''s''), ev_key = (\<lambda>u k. k), ev_request = (\<lambda>g i. g @ ai_reason i), ev_updatedAt = (\<lambda>i. 0)\<rparr>"

definition exampleReserved :: grant_row where
  "exampleReserved = exampleGrant\<lparr>g_id := ''g2'', g_startsAt := 1714521600000, g_endsAt := 1722470400000\<rparr>"

definition exampleReservedOrder :: order_row where
  "exampleReservedOrder = exampleOrder\<lparr>mo_id := ''o2'', mo_grantId := Some ''g2'', mo_intervalMonths := Some 3,
     mo_entitlementExpiresAt := Some 1722470400000\<rparr>"

definition exampleReservation :: db where
  "exampleReservation = emptyDb\<lparr>
     users := [\<lparr>u_id = ''u1'', u_status = UserActive, u_balanceCents = 0, u_deletedAt = None\<rparr>],
     grants := [exampleGrant, exampleReserved], products := [exampleMonthlyProduct ''prod1'' ''plan1'' ''prof1''],
     offers := [exampleOffer], orders := [exampleReservedOrder],
     buckets := [newBucket ''b2'' ''g2'' PlanCycle 1714521600000 1717200000000 1000 10000 0]\<rparr>"

definition exampleConfirmation :: activation_input where
  "exampleConfirmation = \<lparr>ai_expectedState = ''s'', ai_reason = ''early''\<rparr>"

definition exampleActivation :: activation_state where
  "exampleActivation = \<lparr>av_target = exampleReserved, av_product = exampleMonthlyProduct ''prod1'' ''plan1'' ''prof1'',
     av_current = Some exampleGrant, av_order = exampleReservedOrder, av_months = 3,
     av_bucket = newBucket ''b2'' ''g2'' PlanCycle 1714521600000 1717200000000 1000 10000 0, av_bonuses = [],
     av_endsAt = addUtcMonthsClamped 1709251200000 3, av_bucketEnd = addUtcMonthsClamped 1709251200000 1,
     av_expectedState = ''s''\<rparr>"

lemma exampleReservation_reads:
  "readActivation exampleEnv ''u1'' ''g2'' 1709251200000 exampleReservation = Inr exampleActivation"
proof -
  let ?d = exampleReservation
  have pick: "pickReservation ''u1'' ''g2'' 1709251200000 ?d = Inr (exampleReserved, [exampleGrant, exampleReserved])"
    by code_simp
  have order: "reservationOrder exampleReserved ?d = Inr (exampleReservedOrder, 3)" by code_simp
  have bucket: "reservationBucket exampleReserved ?d = Inr (av_bucket exampleActivation)" by code_simp
  have clean: "\<not> (\<exists>g \<in> set [exampleGrant, exampleReserved]. \<exists>o2 \<in> set (orders ?d). mo_grantId o2 = Some (g_id g) \<and> refundTouched ?d o2)"
    by code_simp
  have bonuses: "reservationBonuses ''u1'' exampleReserved 1709251200000 ?d = Inr []" by code_simp
  have rest: "present (g_subscriptionId exampleReserved) = None"
    "lookup cp_id (g_productId exampleReserved) (products ?d) = Some (av_product exampleActivation)"
    "g_startsAt exampleGrant \<le> 1709251200000" by code_simp+
  have fields: "av_product exampleActivation = exampleMonthlyProduct ''prod1'' ''plan1'' ''prof1''"
    "av_bucket exampleActivation = newBucket ''b2'' ''g2'' PlanCycle 1714521600000 1717200000000 1000 10000 0"
    by (simp_all add: exampleActivation_def)
  show ?thesis
    unfolding readActivation_def pick order bucket bindE_Inr prod.case Let_def
    using clean by (simp add: guardE_def rest bonuses exampleEnv_def) (simp add: exampleActivation_def)
qed

lemma exampleReservation_runs:
  "\<exists>r d'. activate exampleEnv ''u1'' ''g2'' exampleConfirmation ''admin'' ''k'' 1709251200000 exampleReservation = Inr (r, d')"
proof -
  let ?now = 1709251200000
  obtain d1 where d1: "retireCurrent ''u1'' exampleGrant ?now exampleReservation = Inr d1"
      "''g2'' \<in> g_id ` set (grants d1)" "buckets d1 = buckets exampleReservation" "audits d1 = []"
  proof -
    have "case retireCurrent ''u1'' exampleGrant ?now exampleReservation of Inl _ \<Rightarrow> False
      | Inr d1 \<Rightarrow> ''g2'' \<in> g_id ` set (grants d1) \<and> buckets d1 = buckets exampleReservation \<and> audits d1 = []"
      by code_simp
    then show thesis using that by (auto split: sum.splits)
  qed
  have target: "g_id (av_target exampleActivation) = ''g2''" "present (g_subscriptionId (av_target exampleActivation)) = None"
      "av_bonuses exampleActivation = []" "av_current exampleActivation = Some exampleGrant"
      "qb_id (av_bucket exampleActivation) \<in> qb_id ` set (buckets exampleReservation)"
      "av_expectedState exampleActivation = ai_expectedState exampleConfirmation"
    by (simp_all add: exampleActivation_def exampleReserved_def exampleGrant_def present_def exampleReservation_def
        newBucket_def exampleConfirmation_def)
  have "\<exists>d2. startReserved exampleActivation ?now d1 = Inr d2 \<and> audits d2 = []"
    using d1(2-4) target
    by (simp add: startReserved_def updateGrant_def update_one_def updateBucket_def)
  then obtain d2 where d2: "startReserved exampleActivation ?now d1 = Inr d2" "audits d2 = []" by blast
  then show ?thesis
    unfolding activate_def exampleReservation_reads bindE_Inr
    using d1(1) target by (simp add: auditActivation_def insert_unique_def Let_def)
qed

lemma exampleReservation_facts:
  "distinct (map g_id (grants exampleReservation))" "fullYearMonth (monthOf 1709251200000)"
  "\<not> bonusOf i b exampleReservation" "mo_entitlementExpiresAt exampleReservedOrder = Some (g_endsAt exampleReserved)"
  "lookup gm_orderId (Some (mo_id exampleReservedOrder)) (groupMembers exampleReservation) = None"
proof -
  show "fullYearMonth (monthOf 1709251200000)" by code_simp
qed (simp_all add: exampleReservation_def exampleGrant_def exampleReserved_def exampleReservedOrder_def bonusOf_def emptyDb_def)

theorem activation_switches_plans_witness:
  "\<exists>r d' g. activate exampleEnv ''u1'' ''g2'' exampleConfirmation ''admin'' ''k'' 1709251200000 exampleReservation = Inr (r, d')
     \<and> standardPlans ''u1'' 1709251200000 d' = [g] \<and> orders d' = orders exampleReservation"
proof -
  obtain r d' where run: "activate exampleEnv ''u1'' ''g2'' exampleConfirmation ''admin'' ''k'' 1709251200000 exampleReservation
      = Inr (r, d')"
    using exampleReservation_runs by blast
  show ?thesis
    using activation_switches_plans [OF run exampleReservation_facts(1,2)] exampleReservation_facts(3) run by blast
qed

theorem activation_confirmed_once_witness:
  "\<exists>r d'. confirmOnce exampleEnv ''u1'' ''g2'' exampleConfirmation ''admin'' ''k'' 1709251200000 exampleReservation = Inr (r, d')
     \<and> confirmOnce exampleEnv ''u1'' ''g2'' exampleConfirmation ''admin2'' ''k'' 1709251300000 d' = Inr (r, d')
     \<and> confirmOnce exampleEnv ''u1'' ''g3'' exampleConfirmation ''admin'' ''k'' 1709251300000 d' = Inl (Conflict ''key-reused'')"
proof -
  obtain r d' where run: "activate exampleEnv ''u1'' ''g2'' exampleConfirmation ''admin'' ''k'' 1709251200000 exampleReservation
      = Inr (r, d')"
    using exampleReservation_runs by blast
  then have once: "confirmOnce exampleEnv ''u1'' ''g2'' exampleConfirmation ''admin'' ''k'' 1709251200000 exampleReservation
      = Inr (r, d')"
    by (simp add: confirmOnce_def exampleReservation_def emptyDb_def)
  have "ev_request exampleEnv ''g3'' exampleConfirmation \<noteq> ev_request exampleEnv ''g2'' exampleConfirmation"
    by (simp add: exampleEnv_def)
  then show ?thesis using activation_confirmed_once [OF once] once by blast
qed

theorem activated_plan_stays_upgradable_witness:
  "\<exists>r d'. activate exampleEnv ''u1'' ''g2'' exampleConfirmation ''admin'' ''k'' 1709251200000 exampleReservation = Inr (r, d')
     \<and> checkDates ''u1'' (startGrant 1709251200000 (addUtcMonthsClamped 1709251200000 3) exampleReserved)
         exampleReservedOrder 3 d' = Inr ()"
proof -
  obtain r d' where run: "activate exampleEnv ''u1'' ''g2'' exampleConfirmation ''admin'' ''k'' 1709251200000 exampleReservation
      = Inr (r, d')"
    using exampleReservation_runs by blast
  have st: "av_order exampleActivation = exampleReservedOrder" "av_target exampleActivation = exampleReserved"
      "av_endsAt exampleActivation = addUtcMonthsClamped 1709251200000 3" "av_months exampleActivation = 3"
    by (simp_all add: exampleActivation_def)
  have "addUtcMonthsClamped 1709251200000 3 \<noteq> g_endsAt exampleReserved" by code_simp
  then show ?thesis
    using activated_plan_stays_upgradable [OF run exampleReservation_facts(1,2) _ exampleReservation_reads, unfolded st]
      exampleReservation_facts(3-5) run by blast
qed

end
