(* ===== verification/Metering.thy ===== *)
theory Metering imports Database JsText begin

text \<open>
  How traffic becomes charged bytes: \<open>meterV2Usage\<close> of
  \<open>apps/api/src/entitlement/entitlement.service.ts\<close>, the machine rates of
  \<open>machine-traffic-rate.ts\<close>, and the small checks the usage path makes.

  The code fills the quota buckets one at a time: it converts just enough physical bytes to fill
  the bucket at hand, keeps the sub-unit remainder, and carries what it charged beyond a bucket into the
  next. \<open>fillBuckets\<close> is the specification: charge the whole batch once and pour the result into the
  buckets in order. The two are proved equal.
\<close>

section \<open>Rates\<close>

text \<open>
  The names match \<open>/^\s*(?:\[|[)?top/\<close> in the code, with the full-width bracket and the Chinese
  word for top tier, as UTF-8 bytes.
\<close>

definition topTier :: string where
  "topTier = utf8 [0xE9, 0xA1, 0xB6, 0xE7, 0xBA, 0xA7]"

definition startsTopTier :: "string \<Rightarrow> bool" where
  "startsTopTier s = (\<exists>p \<in> set [[], ''['', utf8 [0xE3, 0x80, 0x90]]. stripPrefix (p @ topTier) s \<noteq> None)"

definition defaultMachineRate :: "string \<Rightarrow> int" where
  "defaultMachineRate label = (if startsTopTier (trimStart label) then 20000 else 10000)"

definition machineTrafficRate :: "node_row \<Rightarrow> db \<Rightarrow> int" where
  "machineTrafficRate node d =
     (case Option.bind (n_serverId node) (\<lambda>s. lookup ns_id s (servers d)) of
        Some s \<Rightarrow> ns_multiplier s
      | None \<Rightarrow> defaultMachineRate (n_label node))"

section \<open>Metering\<close>

definition multiplierScale :: int where
  "multiplierScale = 10000"

type_synonym 'g metered_bucket = "bucket_row \<times> 'g"

definition bucketFree :: "'g metered_bucket \<Rightarrow> int" where
  "bucketFree b = qb_granted (fst b) - qb_consumed (fst b)"

record 'g meter =
  m_physicalRemaining :: int
  m_pendingAccounted :: int
  m_accountedBytes :: int
  m_weighted :: int
  m_remainder :: int
  m_overflowMultiplier :: int
  m_allocations :: "('g metered_bucket \<times> int) list"

record 'g metered =
  mu_allocations :: "('g metered_bucket \<times> int) list"
  mu_accountedBytes :: int
  mu_overageBytes :: int
  mu_multiplier :: int
  mu_remainder :: int

text \<open>The second half of the loop body: physical bytes converted into the bucket's free space.\<close>

definition chargeBucket :: "int \<Rightarrow> int \<Rightarrow> 'g meter \<Rightarrow> error + (int \<times> 'g meter)" where
  "chargeBucket fallback available st =
     (if 0 < available \<and> 0 < m_physicalRemaining st
      then
        if fallback = 0 then Inl RangeError
        else
          let multiplier = fallback;
              scaledNeeded = available * multiplierScale - m_remainder st;
              physicalToFill = bigDiv (scaledNeeded + multiplier - 1) multiplier;
              meteredPhysical = (if m_physicalRemaining st < physicalToFill
                                 then m_physicalRemaining st else physicalToFill);
              scaled = meteredPhysical * multiplier + m_remainder st;
              charged = bigDiv scaled multiplierScale;
              fromCharge = (if available < charged then available else charged)
          in Inr (fromCharge, st\<lparr>
               m_overflowMultiplier := multiplier,
               m_remainder := bigMod scaled multiplierScale,
               m_physicalRemaining := m_physicalRemaining st - meteredPhysical,
               m_weighted := m_weighted st + meteredPhysical * multiplier,
               m_accountedBytes := m_accountedBytes st + charged,
               m_pendingAccounted := m_pendingAccounted st + (charged - fromCharge)\<rparr>)
      else Inr (0, st))"

definition meterBucket :: "int \<Rightarrow> 'g metered_bucket \<Rightarrow> 'g meter \<Rightarrow> error + 'g meter" where
  "meterBucket fallback bucket st =
     (let available = bucketFree bucket;
          fromPending = (if 0 < m_pendingAccounted st
                         then (if available < m_pendingAccounted st then available
                               else m_pendingAccounted st)
                         else 0)
      in bindE (chargeBucket fallback (available - fromPending)
                 (st\<lparr>m_pendingAccounted := m_pendingAccounted st - fromPending\<rparr>)) (\<lambda>(fromCharge, st1).
         let allocated = fromPending + fromCharge
         in Inr (if 0 < allocated
                 then st1\<lparr>m_allocations := m_allocations st1 @ [(bucket, allocated)]\<rparr> else st1)))"

fun meterLoop :: "int \<Rightarrow> 'g metered_bucket list \<Rightarrow> 'g meter \<Rightarrow> error + 'g meter" where
  "meterLoop fallback [] st = Inr st"
| "meterLoop fallback (bucket # rest) st =
     bindE (meterBucket fallback bucket st) (\<lambda>st1.
       if m_physicalRemaining st1 = 0 \<and> m_pendingAccounted st1 = 0 then Inr st1
       else meterLoop fallback rest st1)"

definition chargeOverflow :: "'g meter \<Rightarrow> 'g meter" where
  "chargeOverflow st =
     (if 0 < m_physicalRemaining st
      then
        let overflowMultiplier = m_overflowMultiplier st;
            scaled = m_physicalRemaining st * overflowMultiplier + m_remainder st;
            charged = bigDiv scaled multiplierScale
        in st\<lparr>m_remainder := bigMod scaled multiplierScale,
              m_weighted := m_weighted st + m_physicalRemaining st * overflowMultiplier,
              m_accountedBytes := m_accountedBytes st + charged,
              m_pendingAccounted := m_pendingAccounted st + charged\<rparr>
      else st)"

definition meterV2Usage ::
  "int \<Rightarrow> 'g metered_bucket list \<Rightarrow> int \<Rightarrow> int \<Rightarrow> error + 'g metered" where
  "meterV2Usage physicalBytes quotaBuckets fallback initialRemainder =
     bindE (meterLoop fallback quotaBuckets
       \<lparr>m_physicalRemaining = physicalBytes, m_pendingAccounted = 0, m_accountedBytes = 0,
        m_weighted = 0, m_remainder = initialRemainder, m_overflowMultiplier = fallback,
        m_allocations = []\<rparr>) (\<lambda>st0.
       let st = chargeOverflow st0
       in Inr \<lparr>mu_allocations = m_allocations st,
               mu_accountedBytes = m_accountedBytes st,
               mu_overageBytes = m_pendingAccounted st,
               mu_multiplier = (if physicalBytes = 0 then fallback
                  else bigDiv (m_weighted st + bigDiv physicalBytes 2) physicalBytes),
               mu_remainder = m_remainder st\<rparr>)"

section \<open>The specification\<close>

fun fillBuckets :: "int \<Rightarrow> 'g metered_bucket list \<Rightarrow> ('g metered_bucket \<times> int) list \<times> int" where
  "fillBuckets n [] = ([], n)"
| "fillBuckets n (b # bs) =
     (if n = 0 then ([], 0)
      else let (rest, over) = fillBuckets (n - min (bucketFree b) n) bs
           in ((b, min (bucketFree b) n) # rest, over))"

lemma fillBuckets_zero [simp]: "fillBuckets 0 bs = ([], 0)"
  by (cases bs) auto

lemma fillBuckets_Cons:
  "fst (fillBuckets n (b # bs)) = (if n = 0 then []
     else (b, min (bucketFree b) n) # fst (fillBuckets (n - min (bucketFree b) n) bs))"
  "snd (fillBuckets n (b # bs)) = (if n = 0 then 0
     else snd (fillBuckets (n - min (bucketFree b) n) bs))"
  by (simp_all split: prod.split)

declare fillBuckets.simps(2) [simp del] fillBuckets_Cons [simp]

text \<open>Pouring loses nothing, respects every bucket, and spills only when all are full.\<close>

lemma fillBuckets_total: "sum_list (map snd (fst (fillBuckets n bs))) + snd (fillBuckets n bs) = n"
proof (induction bs arbitrary: n)
  case (Cons b bs)
  show ?case using Cons.IH [of "n - min (bucketFree b) n"] by simp
qed simp

lemma fillBuckets_within:
  assumes "0 \<le> n" and "\<forall>b \<in> set bs. 0 < bucketFree b" and "(b, k) \<in> set (fst (fillBuckets n bs))"
  shows "b \<in> set bs \<and> 0 < k \<and> k \<le> bucketFree b"
  using assms
proof (induction bs arbitrary: n)
  case (Cons x bs)
  show ?case
  proof (cases "(b, k) = (x, min (bucketFree x) n) \<and> n \<noteq> 0")
    case True
    then show ?thesis using Cons.prems(1,2) by auto
  next
    case False
    then have "(b, k) \<in> set (fst (fillBuckets (n - min (bucketFree x) n) bs))"
      using Cons.prems(3) by (auto split: if_splits)
    then show ?thesis using Cons.IH [of "n - min (bucketFree x) n"] Cons.prems(2) by simp
  qed
qed simp

lemma fillBuckets_overage_nonneg: "0 \<le> n \<Longrightarrow> 0 \<le> snd (fillBuckets n bs)"
  by (induction bs arbitrary: n) auto

lemma fillBuckets_spill:
  "0 < snd (fillBuckets n bs) \<Longrightarrow> fst (fillBuckets n bs) = map (\<lambda>b. (b, bucketFree b)) bs"
proof (induction bs arbitrary: n)
  case (Cons b bs)
  let ?m = "n - min (bucketFree b) n"
  have ne: "n \<noteq> 0" and spill: "0 < snd (fillBuckets ?m bs)" using Cons.prems by (auto split: if_splits)
  then have "?m \<noteq> 0" by auto
  then have "min (bucketFree b) n = bucketFree b" by (simp add: min_def split: if_splits)
  then show ?case using ne Cons.IH [OF spill] by simp
qed simp

section \<open>Metering meets it\<close>

text \<open>What is still to be charged: bytes pending from earlier buckets and physical bytes left.\<close>

definition meterDue :: "int \<Rightarrow> 'g meter \<Rightarrow> int" where
  "meterDue m st = (m_physicalRemaining st * m + m_remainder st) div 10000"

definition meterOk :: "int \<Rightarrow> 'g meter \<Rightarrow> bool" where
  "meterOk m st \<longleftrightarrow> 0 \<le> m_physicalRemaining st \<and> 0 \<le> m_pendingAccounted st
     \<and> 0 \<le> m_remainder st \<and> m_remainder st < 10000 \<and> m_overflowMultiplier st = m"

text \<open>Quantities no step changes.\<close>

definition meterSame :: "int \<Rightarrow> 'g meter \<Rightarrow> 'g meter \<Rightarrow> bool" where
  "meterSame m st st' \<longleftrightarrow>
     m_accountedBytes st' + meterDue m st' = m_accountedBytes st + meterDue m st
   \<and> (m_physicalRemaining st' * m + m_remainder st') mod 10000
       = (m_physicalRemaining st * m + m_remainder st) mod 10000
   \<and> m_weighted st' + m_physicalRemaining st' * m = m_weighted st + m_physicalRemaining st * m"

lemma meterSame_refl [simp]: "meterSame m st st"
  by (simp add: meterSame_def)

lemma meterSame_trans: "meterSame m st st' \<Longrightarrow> meterSame m st' st'' \<Longrightarrow> meterSame m st st''"
  by (simp add: meterSame_def)

lemma meterDue_nonneg: "meterOk m st \<Longrightarrow> 0 < m \<Longrightarrow> 0 \<le> meterDue m st"
  by (simp add: meterDue_def meterOk_def pos_imp_zdiv_nonneg_iff)

lemma split_charge:
  fixes p k m r :: int
  shows "(p * m + r) div 10000 = (k * m + r) div 10000 + ((p - k) * m + (k * m + r) mod 10000) div 10000"
    and "(p * m + r) mod 10000 = ((p - k) * m + (k * m + r) mod 10000) mod 10000"
proof -
  have "p * m + r = (p - k) * m + (k * m + r) mod 10000 + (k * m + r) div 10000 * 10000"
    using div_mult_mod_eq [of "k * m + r" 10000] by (simp only: left_diff_distrib)
  then show "(p * m + r) div 10000 = (k * m + r) div 10000 + ((p - k) * m + (k * m + r) mod 10000) div 10000"
    and "(p * m + r) mod 10000 = ((p - k) * m + (k * m + r) mod 10000) mod 10000"
    by (simp_all only: div_mult_self1 mod_mult_self1 zero_neq_numeral [symmetric] not_False_eq_True)
qed

text \<open>Enough physical bytes to fill a bucket charge at least its free space.\<close>

lemma fill_enough:
  fixes a m r :: int
  assumes "0 < m" and "0 < a" and "0 \<le> r" and "r < 10000"
  defines "k \<equiv> (a * 10000 - r + m - 1) div m"
  shows "0 \<le> k" and "a \<le> (k * m + r) div 10000"
proof -
  have "0 < a * 10000 - r" using assms(2,4) by linarith
  then show "0 \<le> k" unfolding k_def using assms(1) by (intro pos_imp_zdiv_nonneg_iff [THEN iffD2]) auto
  have "m * k + (a * 10000 - r + m - 1) mod m = a * 10000 - r + m - 1"
    unfolding k_def by (rule mult_div_mod_eq)
  moreover have "(a * 10000 - r + m - 1) mod m < m" using assms(1) by (rule pos_mod_bound)
  ultimately have "a * 10000 \<le> k * m + r" by (simp add: mult.commute)
  then have "a * 10000 div 10000 \<le> (k * m + r) div 10000" by (rule zdiv_mono1) simp
  then show "a \<le> (k * m + r) div 10000" by simp
qed

lemma chargeBucket_step:
  assumes "meterOk m st" and "0 < m" and "0 \<le> a" and "0 < a \<Longrightarrow> m_pendingAccounted st = 0"
  shows "\<exists>n st'. chargeBucket m a st = Inr (n, st') \<and> meterOk m st' \<and> meterSame m st st'
    \<and> m_allocations st' = m_allocations st
    \<and> n = min a (meterDue m st)
    \<and> m_pendingAccounted st' + meterDue m st' = m_pendingAccounted st + meterDue m st - n"
proof (cases "0 < a \<and> 0 < m_physicalRemaining st")
  case False
  have "meterDue m st = 0" if "m_physicalRemaining st = 0"
    using that assms(1) by (simp add: meterDue_def meterOk_def)
  then have "min a (meterDue m st) = 0"
    using False assms(1,3) meterDue_nonneg [OF assms(1,2)] by (auto simp: meterOk_def)
  then show ?thesis using False assms(1) by (auto simp: chargeBucket_def)
next
  case True
  let ?p = "m_physicalRemaining st" and ?r = "m_remainder st"
  define fillAt where "fillAt = (a * 10000 - ?r + m - 1) div m"
  define k where "k = (if ?p < fillAt then ?p else fillAt)"
  define charged where "charged = (k * m + ?r) div 10000"
  have r: "0 \<le> ?r" "?r < 10000" and p: "0 < ?p" using assms(1) True by (simp_all add: meterOk_def)
  have fill: "0 \<le> fillAt" "a \<le> (fillAt * m + ?r) div 10000"
    unfolding fillAt_def using fill_enough [OF assms(2) _ r] True by auto
  have k: "0 \<le> k" "k \<le> ?p" using fill(1) p by (auto simp: k_def)
  have nn: "0 \<le> k * m + ?r" using k(1) assms(2) r(1) by simp
  have charged: "0 \<le> charged" using nn by (simp add: charged_def pos_imp_zdiv_nonneg_iff)
  have conv: "bigDiv (a * multiplierScale - ?r + m - 1) m = fillAt"
      "bigDiv (k * m + ?r) multiplierScale = charged"
      "bigMod (k * m + ?r) multiplierScale = (k * m + ?r) mod 10000"
    using True r(2) assms(2) nn
    by (simp_all add: multiplierScale_def fillAt_def charged_def bigDiv_nonneg bigMod_nonneg)
  let ?from = "if a < charged then a else charged"
  let ?st = "st\<lparr>m_overflowMultiplier := m, m_remainder := (k * m + ?r) mod 10000,
      m_physicalRemaining := ?p - k, m_weighted := m_weighted st + k * m,
      m_accountedBytes := m_accountedBytes st + charged,
      m_pendingAccounted := m_pendingAccounted st + (charged - ?from)\<rparr>"
  have run: "chargeBucket m a st = Inr (?from, ?st)"
    unfolding chargeBucket_def Let_def conv(1) k_def [symmetric] conv(2,3)
    using True assms(2) by simp
  have due: "meterDue m st = charged + meterDue m ?st"
    using split_charge(1) [of ?p m ?r k] by (simp add: meterDue_def charged_def)
  have ok: "meterOk m ?st" using assms(1) k charged by (auto simp: meterOk_def)
  have same: "meterSame m st ?st"
    using due split_charge(2) [of ?p m ?r k] by (simp add: meterSame_def algebra_simps)
  have "?from = min a (meterDue m st)"
  proof (cases "?p < fillAt")
    case True
    then have "k = ?p" by (simp add: k_def)
    then have "meterDue m ?st = 0" using r by (simp add: meterDue_def)
    then show ?thesis using due by (simp add: min_def)
  next
    case False
    then have "a \<le> charged" using fill(2) by (simp add: k_def charged_def)
    then show ?thesis using due meterDue_nonneg [OF ok assms(2)] by (auto simp: min_def)
  qed
  then show ?thesis using run ok same due by (intro exI [of _ ?from] exI [of _ ?st]) auto
qed

lemma meterBucket_step:
  assumes "meterOk m st" and "0 < m" and "0 < bucketFree b"
  defines "n \<equiv> min (bucketFree b) (m_pendingAccounted st + meterDue m st)"
  shows "\<exists>st'. meterBucket m b st = Inr st' \<and> meterOk m st' \<and> meterSame m st st'
    \<and> m_allocations st' = m_allocations st @ (if 0 < n then [(b, n)] else [])
    \<and> m_pendingAccounted st' + meterDue m st' = m_pendingAccounted st + meterDue m st - n"
proof -
  let ?q = "m_pendingAccounted st"
  define fromPending where "fromPending = min (bucketFree b) ?q"
  let ?st = "st\<lparr>m_pendingAccounted := ?q - fromPending\<rparr>" and ?a = "bucketFree b - fromPending"
  have q: "0 \<le> ?q" using assms(1) by (simp add: meterOk_def)
  have ok: "meterOk m ?st" using assms(1) by (auto simp: meterOk_def fromPending_def)
  have same: "meterSame m st ?st" "meterDue m ?st = meterDue m st" by (simp_all add: meterSame_def meterDue_def)
  have "0 \<le> ?a" "0 < ?a \<Longrightarrow> m_pendingAccounted ?st = 0"
    using assms(3) q by (auto simp: fromPending_def min_def split: if_splits)
  then obtain k st1 where charge: "chargeBucket m ?a ?st = Inr (k, st1)" "meterOk m st1"
      "meterSame m ?st st1" "m_allocations st1 = m_allocations st"
      "k = min ?a (meterDue m ?st)"
      "m_pendingAccounted st1 + meterDue m st1 = ?q - fromPending + meterDue m ?st - k"
    using chargeBucket_step [OF ok assms(2)] by fastforce
  have due: "0 \<le> meterDue m st" by (rule meterDue_nonneg [OF assms(1,2)])
  have n: "fromPending + k = n"
    using charge(5) same(2) q due assms(3) by (auto simp: n_def fromPending_def min_def)
  have "(if 0 < ?q then (if bucketFree b < ?q then bucketFree b else ?q) else 0) = fromPending"
    using q assms(3) by (simp add: fromPending_def min_def)
  then have "meterBucket m b st = Inr (if 0 < n
      then st1\<lparr>m_allocations := m_allocations st1 @ [(b, n)]\<rparr> else st1)"
    using charge(1) n by (simp add: meterBucket_def)
  moreover have "meterOk m (st1\<lparr>m_allocations := x\<rparr>) = meterOk m st1"
    "meterSame m st (st1\<lparr>m_allocations := x\<rparr>) = meterSame m st st1"
    "meterDue m (st1\<lparr>m_allocations := x\<rparr>) = meterDue m st1" for x
    by (simp_all add: meterOk_def meterSame_def meterDue_def)
  ultimately show ?thesis
    using charge(2,4,6) meterSame_trans [OF same(1) charge(3)] same(2) n by auto
qed

lemma meterLoop_fills:
  assumes "meterOk m st" and "0 < m" and "\<forall>b \<in> set bs. 0 < bucketFree b"
  shows "\<exists>st'. meterLoop m bs st = Inr st' \<and> meterOk m st' \<and> meterSame m st st'
    \<and> m_allocations st' = m_allocations st @ fst (fillBuckets (m_pendingAccounted st + meterDue m st) bs)
    \<and> m_pendingAccounted st' + meterDue m st' = snd (fillBuckets (m_pendingAccounted st + meterDue m st) bs)"
  using assms
proof (induction bs arbitrary: st)
  case (Cons b bs)
  let ?t = "m_pendingAccounted st + meterDue m st"
  let ?n = "min (bucketFree b) ?t"
  from Cons.prems obtain st1 where st1: "meterBucket m b st = Inr st1" "meterOk m st1" "meterSame m st st1"
      "m_allocations st1 = m_allocations st @ (if 0 < ?n then [(b, ?n)] else [])"
      "m_pendingAccounted st1 + meterDue m st1 = ?t - ?n"
    using meterBucket_step [of m st b] by auto
  have free: "0 < bucketFree b" using Cons.prems(3) by simp
  have t: "0 \<le> ?t" using meterDue_nonneg [OF Cons.prems(1,2)] Cons.prems(1) by (simp add: meterOk_def)
  show ?case
  proof (cases "m_physicalRemaining st1 = 0 \<and> m_pendingAccounted st1 = 0")
    case True
    then have "m_pendingAccounted st1 + meterDue m st1 = 0" using st1(2) by (simp add: meterOk_def meterDue_def)
    then have "?t = ?n" using st1(5) by linarith
    then show ?thesis
      using True st1 t by (intro exI [of _ st1]) auto
  next
    case False
    obtain st2 where st2: "meterLoop m bs st1 = Inr st2" "meterOk m st2" "meterSame m st1 st2"
        "m_allocations st2 = m_allocations st1 @ fst (fillBuckets (?t - ?n) bs)"
        "m_pendingAccounted st2 + meterDue m st2 = snd (fillBuckets (?t - ?n) bs)"
      using Cons.IH [OF st1(2) Cons.prems(2)] Cons.prems(3) st1(5) by auto
    have run: "meterLoop m (b # bs) st = Inr st2" using False st1(1) st2(1) by auto
    have same: "meterSame m st st2" by (rule meterSame_trans [OF st1(3) st2(3)])
    show ?thesis
    proof (cases "?t = 0")
      case True
      then have "?n = 0" using free by simp
      then show ?thesis using True run same st1(4) st2 by (intro exI [of _ st2]) simp
    next
      case False
      then have "0 < ?n" using free t by simp
      then show ?thesis using False run same st1(4) st2 by (intro exI [of _ st2]) simp
    qed
  qed
qed simp

lemma chargeOverflow_settles:
  assumes "meterOk m st" and "0 < m"
  shows "m_pendingAccounted (chargeOverflow st) = m_pendingAccounted st + meterDue m st"
    and "m_accountedBytes (chargeOverflow st) = m_accountedBytes st + meterDue m st"
    and "m_remainder (chargeOverflow st) = (m_physicalRemaining st * m + m_remainder st) mod 10000"
    and "m_weighted (chargeOverflow st) = m_weighted st + m_physicalRemaining st * m"
    and "m_allocations (chargeOverflow st) = m_allocations st"
  using assms
  by (auto simp: chargeOverflow_def meterOk_def meterDue_def multiplierScale_def Let_def
      bigDiv_nonneg bigMod_nonneg)

lemma rounded_average:
  fixes p m :: int
  assumes "0 < p" and "0 < m"
  shows "bigDiv (p * m + bigDiv p 2) p = m"
proof -
  have "(p * m + p div 2) div p = m"
    by (rule int_div_pos_eq [of _ _ _ "p div 2"]) (use assms in \<open>auto simp: algebra_simps\<close>)
  then show ?thesis using assms by (simp add: bigDiv_nonneg)
qed

lemma meterV2Usage_run:
  assumes "0 \<le> physical" and "0 < m" and "0 \<le> r" and "r < 10000"
    and "\<forall>b \<in> set bs. 0 < bucketFree b"
  shows "meterV2Usage physical bs m r = Inr \<lparr>
    mu_allocations = fst (fillBuckets ((physical * m + r) div 10000) bs),
    mu_accountedBytes = (physical * m + r) div 10000,
    mu_overageBytes = snd (fillBuckets ((physical * m + r) div 10000) bs),
    mu_multiplier = m,
    mu_remainder = (physical * m + r) mod 10000\<rparr>"
proof -
  let ?st = "\<lparr>m_physicalRemaining = physical, m_pendingAccounted = 0, m_accountedBytes = 0,
      m_weighted = 0, m_remainder = r, m_overflowMultiplier = m, m_allocations = []\<rparr>"
  let ?t = "(physical * m + r) div 10000"
  have "meterOk m ?st" using assms by (simp add: meterOk_def)
  then obtain st where st: "meterLoop m bs ?st = Inr st" "meterOk m st" "meterSame m ?st st"
      "m_allocations st = fst (fillBuckets ?t bs)"
      "m_pendingAccounted st + meterDue m st = snd (fillBuckets ?t bs)"
    using meterLoop_fills [of m ?st bs] assms(2,5) by (auto simp: meterDue_def)
  have "m_accountedBytes st + meterDue m st = ?t"
    and "(m_physicalRemaining st * m + m_remainder st) mod 10000 = (physical * m + r) mod 10000"
    and "m_weighted st + m_physicalRemaining st * m = physical * m"
    using st(3) by (simp_all add: meterSame_def meterDue_def)
  then show ?thesis
    using st chargeOverflow_settles [OF st(2) assms(2)] rounded_average [of physical m] assms(1,2)
    by (simp add: meterV2Usage_def Let_def)
qed

lemma meterV2Usage_charge:
  assumes "0 \<le> physical" and "0 < m" and "0 \<le> r" and "r < 10000"
    and "\<forall>b \<in> set bs. 0 < bucketFree b"
  shows "\<exists>u. meterV2Usage physical bs m r = Inr u \<and> mu_accountedBytes u = (physical * m + r) div 10000
    \<and> mu_remainder u = (physical * m + r) mod 10000"
  by (simp add: meterV2Usage_run [OF assms])

section \<open>What metering guarantees\<close>

definition exampleBucket :: "id \<Rightarrow> int \<Rightarrow> int \<Rightarrow> bucket_row" where
  "exampleBucket i granted used = \<lparr>qb_id = i, qb_grantId = ''g'', qb_kind = PlanCycle, qb_startsAt = 0,
     qb_endsAt = 1000, qb_granted = granted, qb_consumed = used, qb_multiplier = 10000, qb_createdAt = 0\<rparr>"

text \<open>C7: metering a batch across buckets, with its partial fills and carried remainders, charges
  exactly the scaled batch once, hands the sub-unit remainder on, and allocates as if the charge were
  poured into the buckets in order; the recorded rate is the multiplier.\<close>

theorem meterV2Usage_pours_once:
  assumes "0 \<le> physical" and "0 < m" and "0 \<le> r" and "r < 10000"
    and "\<forall>b \<in> set bs. 0 < bucketFree b"
  shows "meterV2Usage physical bs m r = Inr \<lparr>
    mu_allocations = fst (fillBuckets ((physical * m + r) div 10000) bs),
    mu_accountedBytes = (physical * m + r) div 10000,
    mu_overageBytes = snd (fillBuckets ((physical * m + r) div 10000) bs),
    mu_multiplier = m,
    mu_remainder = (physical * m + r) mod 10000\<rparr>"
  by (rule meterV2Usage_run) (use assms in auto)

theorem meterV2Usage_pours_once_witness:
  "meterV2Usage 7 [(exampleBucket ''a'' 10 5, ()), (exampleBucket ''b'' 20 0, ())] 15000 3000 = Inr \<lparr>
    mu_allocations = [((exampleBucket ''a'' 10 5, ()), 5), ((exampleBucket ''b'' 20 0, ()), 5)],
    mu_accountedBytes = 10, mu_overageBytes = 0, mu_multiplier = 15000, mu_remainder = 8000\<rparr>"
  by (subst meterV2Usage_pours_once) (simp_all add: bucketFree_def exampleBucket_def)

text \<open>No byte is lost or invented by metering: the allocations and the overage add up to the
  charge, every allocation is positive and fits the free space of a bucket of the list, and there is
  overage only when every bucket was filled to its last byte.\<close>

theorem meterV2Usage_conserves:
  assumes "0 \<le> physical" and "0 < m" and "0 \<le> r" and "r < 10000"
    and "\<forall>b \<in> set bs. 0 < bucketFree b"
  shows "\<exists>u. meterV2Usage physical bs m r = Inr u
    \<and> sum_list (map snd (mu_allocations u)) + mu_overageBytes u = mu_accountedBytes u
    \<and> 0 \<le> mu_overageBytes u
    \<and> (\<forall>(b, k) \<in> set (mu_allocations u). b \<in> set bs \<and> 0 < k \<and> k \<le> bucketFree b)
    \<and> (0 < mu_overageBytes u \<longrightarrow> mu_allocations u = map (\<lambda>b. (b, bucketFree b)) bs)"
proof -
  let ?n = "(physical * m + r) div 10000"
  have n: "0 \<le> ?n" using assms(1-3) by (simp add: pos_imp_zdiv_nonneg_iff)
  have "\<forall>(b, k) \<in> set (fst (fillBuckets ?n bs)). b \<in> set bs \<and> 0 < k \<and> k \<le> bucketFree b"
    using fillBuckets_within [OF n assms(5)] by auto
  then show ?thesis
    using fillBuckets_total [of ?n bs] fillBuckets_overage_nonneg [OF n, of bs] fillBuckets_spill [of ?n bs]
    by (simp add: meterV2Usage_run [OF assms])
qed

theorem meterV2Usage_conserves_witness:
  "\<exists>u. meterV2Usage 70 [(exampleBucket ''a'' 10 5, ()), (exampleBucket ''b'' 20 0, ())] 15000 3000 = Inr u
    \<and> 0 \<le> mu_overageBytes u"
proof -
  let ?bs = "[(exampleBucket ''a'' 10 5, ()), (exampleBucket ''b'' 20 0, ())]"
  have "\<forall>b \<in> set ?bs. 0 < bucketFree b" by (simp add: bucketFree_def exampleBucket_def)
  then show ?thesis using meterV2Usage_conserves [of 70 15000 3000 ?bs] by auto
qed

text \<open>How traffic is cut into batches does not matter: metering two batches one after the other,
  the second from the remainder of the first, charges what metering their sum charges and leaves the
  same remainder, whatever buckets each batch met.\<close>

theorem meterV2Usage_batches_add:
  assumes "0 \<le> p" and "0 \<le> q" and "0 < m" and "0 \<le> r" and "r < 10000"
    and "\<forall>b \<in> set bs. 0 < bucketFree b" and "\<forall>b \<in> set cs. 0 < bucketFree b"
    and "\<forall>b \<in> set ds. 0 < bucketFree b"
  shows "\<exists>u v w. meterV2Usage p bs m r = Inr u \<and> meterV2Usage q cs m (mu_remainder u) = Inr v
    \<and> meterV2Usage (p + q) ds m r = Inr w
    \<and> mu_accountedBytes u + mu_accountedBytes v = mu_accountedBytes w
    \<and> mu_remainder v = mu_remainder w"
proof -
  note sums = split_charge [of "p + q" m r p]
  obtain u where u: "meterV2Usage p bs m r = Inr u"
      "mu_accountedBytes u = (p * m + r) div 10000" "mu_remainder u = (p * m + r) mod 10000"
    using meterV2Usage_charge [OF assms(1,3,4,5,6)] by blast
  obtain v where v: "meterV2Usage q cs m (mu_remainder u) = Inr v"
      "mu_accountedBytes v = (q * m + mu_remainder u) div 10000"
      "mu_remainder v = (q * m + mu_remainder u) mod 10000"
    using meterV2Usage_charge [OF assms(2,3) _ _ assms(7), of "mu_remainder u"] u(3) by auto
  obtain w where w: "meterV2Usage (p + q) ds m r = Inr w"
      "mu_accountedBytes w = ((p + q) * m + r) div 10000" "mu_remainder w = ((p + q) * m + r) mod 10000"
    using meterV2Usage_charge [OF _ assms(3,4,5,8), of "p + q"] assms(1,2) by auto
  have "mu_accountedBytes u + mu_accountedBytes v = mu_accountedBytes w"
    unfolding u(2) v(2) w(2) u(3) using sums(1) by (simp only: add_diff_cancel_left')
  moreover have "mu_remainder v = mu_remainder w"
    unfolding v(3) w(3) u(3) using sums(2) by (simp only: add_diff_cancel_left')
  ultimately show ?thesis using u(1) v(1) w(1) by blast
qed

theorem meterV2Usage_batches_add_witness:
  "\<exists>u v. meterV2Usage 3 [(exampleBucket ''a'' 10 5, ())] 15000 0 = Inr u
     \<and> meterV2Usage 4 ([] :: unit metered_bucket list) 15000 (mu_remainder u) = Inr v \<and> mu_accountedBytes u + mu_accountedBytes v = 10"
proof -
  have "\<forall>b \<in> set [(exampleBucket ''a'' 10 5, ())]. 0 < bucketFree b"
    by (simp add: bucketFree_def exampleBucket_def)
  moreover have "meterV2Usage 7 ([] :: unit metered_bucket list) 15000 0 = Inr \<lparr>mu_allocations = [],
      mu_accountedBytes = 10, mu_overageBytes = 10, mu_multiplier = 15000, mu_remainder = 5000\<rparr>"
    by code_simp
  ultimately show ?thesis
    using meterV2Usage_batches_add [of 3 4 15000 0 "[(exampleBucket ''a'' 10 5, ())]"
        "[] :: unit metered_bucket list" "[] :: unit metered_bucket list"] by auto
qed

end
