(* ===== verification/UsageImport.thy ===== *)
theory UsageImport imports Metering QuotaCycles "HOL-Library.Product_Lexorder" begin

text \<open>
  Importing a node's traffic counters: \<open>applyTrafficBatch\<close>, \<open>applyUserTraffic\<close>,
  \<open>consumeLegacyQuota\<close> and \<open>validateTrafficBatch\<close> of
  \<open>apps/api/src/entitlement/entitlement.service.ts\<close>.

  A batch is imported once per node and batch id. Each user's bytes are metered into the buckets of the
  entitlements that reach the node, what does not fit goes to legacy packs and the legacy
  subscription's cycle, the rest is recorded as overage, and one rollup row records it all. The
  batch arrives with its date already parsed: \<open>None\<close> is an invalid date.
\<close>

section \<open>Which entitlements reach a node\<close>

definition nodeUp :: "bool \<Rightarrow> id \<Rightarrow> db \<Rightarrow> bool" where
  "nodeUp lifecycleToo nodeId d = (case lookup n_id nodeId (nodes d) of
       None \<Rightarrow> False
     | Some n \<Rightarrow> n_active n \<and> (lifecycleToo \<longrightarrow> n_lifecycle n = LifeActive))"

text \<open>\<open>accessProfile: { active: true, nodeBindings: { some: { nodeId, node: ... } } }\<close>\<close>

definition profileServes :: "bool \<Rightarrow> id \<Rightarrow> id \<Rightarrow> db \<Rightarrow> bool" where
  "profileServes lifecycleToo profileId nodeId d =
     (case lookup ap_id profileId (profiles d) of
        None \<Rightarrow> False
      | Some p \<Rightarrow> ap_active p
          \<and> (\<exists>b \<in> set (profileNodes d). apn_profileId b = profileId \<and> apn_nodeId b = nodeId)
          \<and> nodeUp lifecycleToo nodeId d)"

definition legacyPack :: "id \<Rightarrow> instant \<Rightarrow> db \<Rightarrow> pack_row \<Rightarrow> bool" where
  "legacyPack nodeId at d p \<longleftrightarrow> (\<forall>g \<in> set (grants d). g_packId g \<noteq> Some (tp_id p))
     \<and> tp_status p = PackActive \<and> 0 < tp_remainingBytes p
     \<and> (case tp_expiresAt p of None \<Rightarrow> True | Some t \<Rightarrow> at < t)
     \<and> (case tp_profileId p of
          Some pr \<Rightarrow> profileServes False pr nodeId d
        | None \<Rightarrow> (case tp_subscriptionId p of
            None \<Rightarrow> False
          | Some i \<Rightarrow> map_option s_nodeId (lookup s_id i (subscriptions d)) = Some nodeId))"

definition planServes :: "id \<Rightarrow> id \<Rightarrow> db \<Rightarrow> bool" where
  "planServes planId nodeId d =
     (case lookup p_id planId (plans d) of
        None \<Rightarrow> False
      | Some p \<Rightarrow> (case p_accessProfileId p of
            None \<Rightarrow> False | Some pr \<Rightarrow> profileServes False pr nodeId d))"

definition legacySubscription :: "id \<Rightarrow> instant \<Rightarrow> db \<Rightarrow> subscription_row \<Rightarrow> bool" where
  "legacySubscription nodeId at d s \<longleftrightarrow> (\<forall>g \<in> set (grants d). g_subscriptionId g \<noteq> Some (s_id s))
     \<and> currentSubscription at s \<and> (s_nodeId s = nodeId \<or> planServes (s_planId s) nodeId d)"

section \<open>Legacy quota\<close>

definition packUpdate :: "int \<Rightarrow> pack_row \<Rightarrow> pack_row" where
  "packUpdate remaining p = p\<lparr>tp_remainingBytes := remaining,
     tp_status := (if remaining = 0 then PackExhausted else PackActive)\<rparr>"

fun drainPacks :: "pack_row list \<Rightarrow> int \<Rightarrow> db \<Rightarrow> error + (int \<times> db)" where
  "drainPacks [] remaining d = Inr (remaining, d)"
| "drainPacks (p # ps) remaining d =
     (if remaining = 0 then Inr (remaining, d)
      else
        let consumed = (if tp_remainingBytes p < remaining then tp_remainingBytes p else remaining)
        in bindE (update_one tp_id (tp_id p) (packUpdate (tp_remainingBytes p - consumed)) (packs d)) (\<lambda>rows.
             drainPacks ps (remaining - consumed) (d\<lparr>packs := rows\<rparr>)))"

definition consumableLegacyPacks :: "id \<Rightarrow> id \<Rightarrow> instant \<Rightarrow> db \<Rightarrow> pack_row list" where
  "consumableLegacyPacks accountId nodeId at d =
     sort_key (\<lambda>p. (nulls_last (tp_expiresAt p), tp_createdAt p))
       (filter (\<lambda>p. tp_accountId p = Some accountId \<and> legacyPack nodeId at d p) (packs d))"

text \<open>The cycle's share; the subscription mirrors the cycle.\<close>

definition drainCycle :: "subscription_row \<Rightarrow> cycle_row \<Rightarrow> int \<Rightarrow> db \<Rightarrow> error + (int \<times> db)" where
  "drainCycle s c remaining d =
     (if 0 < remaining
      then
        let consumed = (if cycleRemaining c < remaining then cycleRemaining c else remaining);
            c' = c\<lparr>sc_consumed := sc_consumed c + consumed\<rparr>
        in bindE (updateCycle (sc_id c) (\<lambda>r. r\<lparr>sc_consumed := sc_consumed r + consumed\<rparr>) d) (\<lambda>d1.
           bindE (updateSubscription (s_id s) (\<lambda>r. r\<lparr>s_included := sc_granted c' + sc_adjustment c',
                    s_bonus := 0, s_consumed := sc_consumed c'\<rparr>) d1) (\<lambda>d2.
           if 0 < remaining - consumed
           then bindE (updateCycle (sc_id c) (\<lambda>r. r\<lparr>sc_overage := sc_overage r + (remaining - consumed)\<rparr>) d2)
                  (\<lambda>d3. Inr (remaining - consumed, d3))
           else Inr (remaining - consumed, d2)))
      else Inr (remaining, d))"

record legacy_use =
  lu_remaining :: int
  lu_subscriptionId :: "id option"
  lu_cycleId :: "id option"

definition drainSubscription ::
  "subscription_row \<Rightarrow> instant \<Rightarrow> int \<Rightarrow> db \<Rightarrow> error + (legacy_use \<times> db)" where
  "drainSubscription s at remaining d =
     bindE (ensureCurrentCycleInTransaction s at d) (\<lambda>(cycle, d2).
       case cycle of
         None \<Rightarrow> Inr (\<lparr>lu_remaining = remaining, lu_subscriptionId = Some (s_id s), lu_cycleId = None\<rparr>, d2)
       | Some c \<Rightarrow>
           bindE (drainCycle s c remaining d2) (\<lambda>(left, d3).
             Inr (\<lparr>lu_remaining = left, lu_subscriptionId = Some (s_id s), lu_cycleId = Some (sc_id c)\<rparr>, d3)))"

definition consumeLegacyQuota ::
  "id \<Rightarrow> id \<Rightarrow> instant \<Rightarrow> int \<Rightarrow> db \<Rightarrow> error + (legacy_use \<times> db)" where
  "consumeLegacyQuota accountId nodeId at accountedBytes d =
     bindE (drainPacks (consumableLegacyPacks accountId nodeId at d) accountedBytes d) (\<lambda>(remaining, d1).
     case first_row (order_desc s_endsAt (filter (\<lambda>s. s_accountId s = Some accountId
            \<and> legacySubscription nodeId at d1 s) (subscriptions d1))) of
       None \<Rightarrow> Inr (\<lparr>lu_remaining = remaining, lu_subscriptionId = None, lu_cycleId = None\<rparr>, d1)
     | Some s \<Rightarrow> drainSubscription s at remaining d1)"

section \<open>One user's counters\<close>

definition requiresActivePlan :: "db \<Rightarrow> grant_row \<Rightarrow> bool" where
  "requiresActivePlan d g = (map_option cp_requiresActivePlan (lookup cp_id (g_productId g) (products d)) = Some True)"

definition v2Buckets :: "id \<Rightarrow> id \<Rightarrow> instant \<Rightarrow> db \<Rightarrow> (bucket_row \<times> grant_row) list" where
  "v2Buckets accountId nodeId at d =
     List.map_filter (\<lambda>b. map_option (Pair b)
         (case lookup g_id (qb_grantId b) (grants d) of
            None \<Rightarrow> None
          | Some g \<Rightarrow> if g_accountId g = accountId \<and> grantLive at g
                         \<and> profileServes True (g_profileId g) nodeId d
                      then Some g else None))
       (sort_key (\<lambda>b. (qb_endsAt b, qb_createdAt b)) (filter (bucketCurrent at) (buckets d)))"

definition hasActivePlan :: "id \<Rightarrow> instant \<Rightarrow> db \<Rightarrow> bool" where
  "hasActivePlan accountId at d \<longleftrightarrow>
     (\<exists>g \<in> set (grants d). g_accountId g = accountId \<and> g_kind g = GrantPlan \<and> grantLive at g)
   \<or> (\<exists>s \<in> set (subscriptions d). s_accountId s = Some accountId \<and> currentSubscription at s)"

definition usableV2Buckets :: "id \<Rightarrow> id \<Rightarrow> instant \<Rightarrow> db \<Rightarrow> (bucket_row \<times> grant_row) list" where
  "usableV2Buckets accountId nodeId at d =
     (let rows = v2Buckets accountId nodeId at d;
          hasActivePlanAt = ((\<forall>(b, g) \<in> set rows. \<not> requiresActivePlan d g) \<or> hasActivePlan accountId at d)
      in sort_key (\<lambda>(b, g). (g_kind g \<noteq> GrantPlan, qb_endsAt b, qb_createdAt b))
           (filter (\<lambda>(b, g). qb_consumed b < qb_granted b \<and> (requiresActivePlan d g \<longrightarrow> hasActivePlanAt)) rows))"

text \<open>The loop over the metered allocations: the bucket, and the legacy rows that mirror it.\<close>

definition mirrorPack :: "grant_row \<Rightarrow> int \<Rightarrow> db \<Rightarrow> error + db" where
  "mirrorPack g consumed d =
     (case g_packId g of
        None \<Rightarrow> Inr d
      | Some i \<Rightarrow>
          (case lookup tp_id i (packs d) of
             None \<Rightarrow> Inr d
           | Some p \<Rightarrow>
               let next = (if consumed < tp_remainingBytes p then tp_remainingBytes p - consumed else 0)
               in bindE (update_one tp_id i (packUpdate next) (packs d)) (\<lambda>rows. Inr (d\<lparr>packs := rows\<rparr>))))"

definition mirrorSubscription ::
  "grant_row \<Rightarrow> instant \<Rightarrow> int \<Rightarrow> db \<times> id option \<times> id option \<Rightarrow> error + (db \<times> id option \<times> id option)" where
  "mirrorSubscription g at consumed st =
     (case st of (d, subId, cycleId) \<Rightarrow>
      case g_subscriptionId g of
        None \<Rightarrow> Inr (d, subId, cycleId)
      | Some i \<Rightarrow>
          (case List.find (\<lambda>c. sc_subscriptionId c = i \<and> sc_startsAt c \<le> at \<and> at < sc_endsAt c) (cycles d) of
             None \<Rightarrow> Inr (d, Some i, cycleId)
           | Some c \<Rightarrow>
               bindE (updateCycle (sc_id c) (\<lambda>r. r\<lparr>sc_consumed := sc_consumed r + consumed\<rparr>) d) (\<lambda>d1.
               bindE (updateSubscription i (\<lambda>r. r\<lparr>s_consumed := sc_consumed c + consumed\<rparr>) d1) (\<lambda>d2.
               Inr (d2, Some i, Some (sc_id c))))))"

definition consumeBucket :: "id \<Rightarrow> int \<Rightarrow> db \<Rightarrow> error + db" where
  "consumeBucket i n d =
     bindE (update_one qb_id i (\<lambda>r. r\<lparr>qb_consumed := qb_consumed r + n\<rparr>) (buckets d)) (\<lambda>rows.
       Inr (d\<lparr>buckets := rows\<rparr>))"

definition applyAllocation ::
  "instant \<Rightarrow> (bucket_row \<times> grant_row) \<times> int \<Rightarrow> db \<times> id option \<times> id option
   \<Rightarrow> error + (db \<times> id option \<times> id option)" where
  "applyAllocation at a st =
     (case a of ((b, g), consumed) \<Rightarrow> case st of (d, subId, cycleId) \<Rightarrow>
        bindE (consumeBucket (qb_id b) consumed d) (\<lambda>d1.
        bindE (mirrorPack g consumed d1) (\<lambda>d2.
        mirrorSubscription g at consumed (d2, subId, cycleId))))"

definition setRemainder :: "id \<Rightarrow> int \<Rightarrow> db \<Rightarrow> error + db" where
  "setRemainder i r d =
     bindE (update_one aa_id i (\<lambda>a. a\<lparr>aa_remainder := r\<rparr>) (accounts d)) (\<lambda>rows. Inr (d\<lparr>accounts := rows\<rparr>))"

definition createRollup :: "rollup_row \<Rightarrow> db \<Rightarrow> error + db" where
  "createRollup r d =
     bindE (insert_unique (\<lambda>a b. ur_importBatchId a = ur_importBatchId b \<and> ur_userId a = ur_userId b) r (rollups d))
       (\<lambda>rows. Inr ((drawId d)\<lparr>rollups := rows\<rparr>))"

record counters =
  ct_tx :: int
  ct_rx :: int

text \<open>What did not fit the buckets goes to the legacy quota.\<close>

definition spillToLegacy ::
  "id \<Rightarrow> id \<Rightarrow> instant \<Rightarrow> int \<Rightarrow> db \<Rightarrow> error + (legacy_use option \<times> db)" where
  "spillToLegacy accountId nodeId at overage d =
     (if 0 < overage
      then bindE (consumeLegacyQuota accountId nodeId at overage d) (\<lambda>(l, d1). Inr (Some l, d1))
      else Inr (None, d))"

definition meteredRollup ::
  "id \<Rightarrow> id \<Rightarrow> counters \<Rightarrow> id \<Rightarrow> instant \<Rightarrow> grant_row metered \<Rightarrow> id option \<Rightarrow> id option
   \<Rightarrow> legacy_use option \<Rightarrow> id \<Rightarrow> rollup_row" where
  "meteredRollup nodeId userId c importBatchId bucketStart u subId cycleId legacy i =
     \<lparr>ur_id = i, ur_userId = userId,
      ur_subscriptionId = orElse subId (Option.bind legacy lu_subscriptionId),
      ur_cycleId = orElse cycleId (Option.bind legacy lu_cycleId),
      ur_nodeId = nodeId, ur_bucketStart = bucketStart, ur_txBytes = ct_tx c, ur_rxBytes = ct_rx c,
      ur_rawBytes = ct_tx c + ct_rx c, ur_multiplier = mu_multiplier u,
      ur_accounted = mu_accountedBytes u,
      ur_overage = nvl (map_option lu_remaining legacy) (mu_overageBytes u),
      ur_source = ''sync-v2'', ur_importBatchId = importBatchId,
      ur_allocations = map (\<lambda>((b, g), n). (qb_id b, n)) (mu_allocations u)\<rparr>"

definition applyMetered ::
  "id \<Rightarrow> id \<Rightarrow> counters \<Rightarrow> id \<Rightarrow> instant \<Rightarrow> account_row \<Rightarrow> grant_row metered \<Rightarrow> db \<Rightarrow> error + db" where
  "applyMetered nodeId userId c importBatchId bucketStart account u d =
     bindE (setRemainder (aa_id account) (mu_remainder u) d) (\<lambda>d1.
     bindE (foldE (applyAllocation bucketStart) (mu_allocations u) (d1, None, None)) (\<lambda>(d2, subId, cycleId).
     bindE (spillToLegacy (aa_id account) nodeId bucketStart (mu_overageBytes u) d2) (\<lambda>(legacy, d3).
     createRollup (meteredRollup nodeId userId c importBatchId bucketStart u subId cycleId legacy (freshId d3)) d3)))"

definition applyLegacyOnly ::
  "id \<Rightarrow> id \<Rightarrow> counters \<Rightarrow> id \<Rightarrow> instant \<Rightarrow> account_row \<Rightarrow> int \<Rightarrow> db \<Rightarrow> error + db" where
  "applyLegacyOnly nodeId userId c importBatchId bucketStart account multiplier d =
     (let scaled = (ct_tx c + ct_rx c) * multiplier + aa_remainder account;
          accounted = bigDiv scaled multiplierScale
      in bindE (setRemainder (aa_id account) (bigMod scaled multiplierScale) d) (\<lambda>d1.
         bindE (consumeLegacyQuota (aa_id account) nodeId bucketStart accounted d1) (\<lambda>(legacy, d2).
         createRollup \<lparr>ur_id = freshId d2, ur_userId = userId,
            ur_subscriptionId = lu_subscriptionId legacy, ur_cycleId = lu_cycleId legacy,
            ur_nodeId = nodeId, ur_bucketStart = bucketStart, ur_txBytes = ct_tx c, ur_rxBytes = ct_rx c,
            ur_rawBytes = ct_tx c + ct_rx c, ur_multiplier = multiplier, ur_accounted = accounted,
            ur_overage = lu_remaining legacy, ur_source = ''sync'', ur_importBatchId = importBatchId,
            ur_allocations = []\<rparr> d2)))"

definition applyUserTraffic ::
  "id \<Rightarrow> id \<Rightarrow> counters \<Rightarrow> id \<Rightarrow> instant \<Rightarrow> int \<Rightarrow> db \<Rightarrow> error + (bool \<times> db)" where
  "applyUserTraffic nodeId userId c importBatchId bucketStart nodeMultiplier d =
     (case lookup u_id userId (users d) of
        None \<Rightarrow> Inr (False, d)
      | Some user \<Rightarrow>
          bindE (ensureAccessAccount userId d) (\<lambda>(account, d1).
          let multiplier = max nodeMultiplier (nvl (aa_multiplierOverride account) 10000);
              usable = usableV2Buckets (aa_id account) nodeId bucketStart d1
          in if usable \<noteq> []
             then bindE (meterV2Usage (ct_tx c + ct_rx c) usable multiplier (aa_remainder account)) (\<lambda>u.
                  bindE (applyMetered nodeId userId c importBatchId bucketStart account u d1) (\<lambda>d2.
                  Inr (True, d2)))
             else bindE (applyLegacyOnly nodeId userId c importBatchId bucketStart account multiplier d1) (\<lambda>d2.
                  Inr (True, d2))))"

section \<open>A batch\<close>

record traffic_batch =
  tb_id :: string
  tb_claimedAt :: "instant option"
  tb_traffic :: "(id \<times> counters) list"

definition validateTrafficBatch :: "traffic_batch \<Rightarrow> error + instant" where
  "validateTrafficBatch batch =
     (if blank (tb_id batch) then Inl (BadRequest ''batch-id'')
      else case tb_claimedAt batch of
        None \<Rightarrow> Inl (BadRequest ''batch-claimedAt'')
      | Some claimedAt \<Rightarrow>
          if \<exists>(u, c) \<in> set (tb_traffic batch). \<not> isSafeInteger (ct_tx c) \<or> \<not> isSafeInteger (ct_rx c)
                \<or> ct_tx c < 0 \<or> ct_rx c < 0
          then Inl (BadRequest ''traffic-counters'') else Inr claimedAt)"

record batch_result =
  br_replayed :: bool
  br_impactedUsers :: "id list"

definition activeTraffic :: "traffic_batch \<Rightarrow> (id \<times> counters) list" where
  "activeTraffic batch = filter (\<lambda>(u, c). 0 < ct_tx c \<or> 0 < ct_rx c) (tb_traffic batch)"

definition importTransaction ::
  "id \<Rightarrow> traffic_batch \<Rightarrow> instant \<Rightarrow> db \<Rightarrow> error + (batch_result \<times> db)" where
  "importTransaction nodeId batch claimedAt d =
     (if \<exists>b \<in> set (importBatches d). ub_nodeId b = nodeId \<and> ub_externalId b = tb_id batch
      then Inr (\<lparr>br_replayed = True, br_impactedUsers = map fst (activeTraffic batch)\<rparr>, d)
      else bindE (require (PrismaKnown ''P2025'') (lookup n_id nodeId (nodes d))) (\<lambda>node.
        let importedId = freshId d;
            d1 = (drawId d)\<lparr>importBatches := importBatches d @ [\<lparr>ub_id = importedId, ub_nodeId = nodeId,
                   ub_externalId = tb_id batch, ub_claimedAt = claimedAt,
                   ub_totalTx = sum_list (map (ct_tx \<circ> snd) (tb_traffic batch)),
                   ub_totalRx = sum_list (map (ct_rx \<circ> snd) (tb_traffic batch)),
                   ub_recordCount = int (length (tb_traffic batch))\<rparr>]\<rparr>
        in bindE (foldE (\<lambda>(userId, c) (impacted, d2).
               bindE (applyUserTraffic nodeId userId c importedId claimedAt (machineTrafficRate node d) d2) (\<lambda>(hit, d3).
                 Inr (if hit then impacted @ [userId] else impacted, d3)))
             (activeTraffic batch) ([], d1)) (\<lambda>(impacted, d4).
           Inr (\<lparr>br_replayed = False, br_impactedUsers = impacted\<rparr>, d4))))"

definition applyTrafficBatch ::
  "id \<Rightarrow> traffic_batch \<Rightarrow> (nat \<Rightarrow> db) \<Rightarrow> (nat \<Rightarrow> bool) \<Rightarrow> error + (batch_result \<times> db)" where
  "applyTrafficBatch nodeId batch world refused =
     bindE (validateTrafficBatch batch) (\<lambda>claimedAt.
       serializable (importTransaction nodeId batch claimedAt) world refused)"

section \<open>What the steps leave alone\<close>

text \<open>The legacy tables: packs, cycles, subscriptions.\<close>

definition nonLegacy :: "db \<Rightarrow> db" where
  "nonLegacy d = d\<lparr>packs := [], cycles := [], subscriptions := [], db_next := 0\<rparr>"

lemma drainPacks_frame: "drainPacks ps n d = Inr (m, d') \<Longrightarrow> nonLegacy d' = nonLegacy d"
  by (induction ps n d rule: drainPacks.induct)
    (auto simp: err_simps nonLegacy_def Let_def split: if_splits)

lemma updateCycle_frame: "updateCycle i f d = Inr d' \<Longrightarrow> nonLegacy d' = nonLegacy d"
  by (auto simp: updateCycle_def err_simps nonLegacy_def)

lemma updateSubscription_frame: "updateSubscription i f d = Inr d' \<Longrightarrow> nonLegacy d' = nonLegacy d"
  by (auto simp: updateSubscription_def err_simps nonLegacy_def)

lemma drainCycle_frame: "drainCycle s c n d = Inr (m, d') \<Longrightarrow> nonLegacy d' = nonLegacy d"
  by (auto simp: drainCycle_def err_simps Let_def split: if_splits
      dest!: updateCycle_frame updateSubscription_frame)

lemma ensureCurrentCycleInTransaction_frame:
  "ensureCurrentCycleInTransaction s now d = Inr (c, d') \<Longrightarrow> nonLegacy d' = nonLegacy d"
  by (auto simp: ensureCurrentCycleInTransaction_def err_simps Let_def nonLegacy_def drawId_def
      split: option.splits if_splits)

lemma drainSubscription_frame:
  "drainSubscription s at n d = Inr (u, d') \<Longrightarrow> nonLegacy d' = nonLegacy d"
  unfolding drainSubscription_def
  by (elim bindE_InrE) (auto simp: err_simps split: option.splits
      dest!: drainCycle_frame ensureCurrentCycleInTransaction_frame)

lemma consumeLegacyQuota_frame:
  "consumeLegacyQuota acc nodeId at n d = Inr (u, d') \<Longrightarrow> nonLegacy d' = nonLegacy d"
  unfolding consumeLegacyQuota_def
  by (elim bindE_InrE) (auto split: option.splits dest!: drainPacks_frame drainSubscription_frame)

lemma mirrorPack_frame: "mirrorPack g n d = Inr d' \<Longrightarrow> nonLegacy d' = nonLegacy d"
  by (auto simp: mirrorPack_def err_simps nonLegacy_def Let_def split: option.splits)

lemma mirrorSubscription_frame:
  "mirrorSubscription g at n (d, i, j) = Inr (d', i', j') \<Longrightarrow> nonLegacy d' = nonLegacy d"
  by (auto simp: mirrorSubscription_def err_simps split: option.splits
      dest!: updateCycle_frame updateSubscription_frame)

text \<open>The buckets after a list of allocations.\<close>

definition consumeAll :: "((bucket_row \<times> 'g) \<times> int) list \<Rightarrow> bucket_row list \<Rightarrow> bucket_row list" where
  "consumeAll = fold (\<lambda>((b, g), n). update_many (\<lambda>r. qb_id r = qb_id b)
     (\<lambda>r. r\<lparr>qb_consumed := qb_consumed r + n\<rparr>))"

lemma consumeAll_simps [simp]:
  "consumeAll [] rows = rows"
  "consumeAll (((b, g), n) # as) rows = consumeAll as (update_many (\<lambda>r. qb_id r = qb_id b)
     (\<lambda>r. r\<lparr>qb_consumed := qb_consumed r + n\<rparr>) rows)"
  by (simp_all add: consumeAll_def)

lemma nonLegacy_buckets: "nonLegacy d' = nonLegacy d \<Longrightarrow> buckets d' = buckets d"
  by (drule arg_cong [where f = buckets]) (simp add: nonLegacy_def)

lemma nonLegacy_set_buckets: "nonLegacy (d\<lparr>buckets := bs\<rparr>) = (nonLegacy d)\<lparr>buckets := bs\<rparr>"
  by (simp add: nonLegacy_def)

lemma applyAllocation_frame:
  assumes "applyAllocation at ((b, g), n) (d, i, j) = Inr (d', i', j')"
  shows "nonLegacy d' = nonLegacy (d\<lparr>buckets := consumeAll [((b, g), n)] (buckets d)\<rparr>)"
  using assms
  by (auto simp: applyAllocation_def consumeBucket_def err_simps dest!: mirrorPack_frame mirrorSubscription_frame)

lemma applyAllocations_frame:
  "foldE (applyAllocation at) as (d, i, j) = Inr (d', i', j') \<Longrightarrow>
   nonLegacy d' = nonLegacy (d\<lparr>buckets := consumeAll as (buckets d)\<rparr>)"
proof (induction as arbitrary: d i j)
  case (Cons a as)
  obtain b g n where a: "a = ((b, g), n)" by (cases a) auto
  from Cons.prems obtain d1 i1 j1 where step: "applyAllocation at ((b, g), n) (d, i, j) = Inr (d1, i1, j1)"
    and rest: "foldE (applyAllocation at) as (d1, i1, j1) = Inr (d', i', j')"
    by (auto simp: a err_simps)
  note f = applyAllocation_frame [OF step]
  then have "buckets d1 = consumeAll [((b, g), n)] (buckets d)"
    using nonLegacy_buckets [of d1 "d\<lparr>buckets := consumeAll [((b, g), n)] (buckets d)\<rparr>"] by simp
  then show ?case
    using Cons.IH [OF rest] f by (simp add: a nonLegacy_set_buckets)
qed simp

section \<open>Buckets and rollups agree\<close>

definition allocatedTotal :: "rollup_row list \<Rightarrow> int" where
  "allocatedTotal rs = sum_list (map (\<lambda>r. sum_list (map snd (ur_allocations r))) rs)"

text \<open>Allocations that a table can take: distinct buckets of it, each within its free space.\<close>

definition fits :: "((bucket_row \<times> 'g) \<times> int) list \<Rightarrow> bucket_row list \<Rightarrow> bool" where
  "fits as rows \<longleftrightarrow> distinct (map (qb_id \<circ> fst \<circ> fst) as)
     \<and> (\<forall>((b, g), n) \<in> set as. b \<in> set rows \<and> 0 \<le> n \<and> n \<le> qb_granted b - qb_consumed b)"

lemma fits_step:
  assumes "fits (((b, g), n) # as) rows"
  shows "fits as (update_many (\<lambda>r. qb_id r = qb_id b) (\<lambda>r. r\<lparr>qb_consumed := qb_consumed r + n\<rparr>) rows)"
proof -
  have "b' \<in> set (update_many (\<lambda>r. qb_id r = qb_id b) (\<lambda>r. r\<lparr>qb_consumed := qb_consumed r + n\<rparr>) rows)"
    if "((b', g'), n') \<in> set as" for b' g' n'
  proof -
    have "qb_id b' \<noteq> qb_id b" and "b' \<in> set rows"
      using assms that by (force simp: fits_def)+
    then show ?thesis by (force simp: set_update_many)
  qed
  then show ?thesis using assms by (fastforce simp: fits_def)
qed

lemma consumeAll_within:
  assumes "fits as rows" and "bucketsWithin rows"
  shows "bucketsWithin (consumeAll as rows)
    \<and> consumedTotal (consumeAll as rows) = consumedTotal rows + sum_list (map snd as)"
  using assms
proof (induction as arbitrary: rows)
  case (Cons a as)
  obtain b g n where a: "a = ((b, g), n)" by (cases a) auto
  let ?rows = "update_many (\<lambda>r. qb_id r = qb_id b) (\<lambda>r. r\<lparr>qb_consumed := qb_consumed r + n\<rparr>) rows"
  have b: "b \<in> set rows" "n \<le> qb_granted b - qb_consumed b" using Cons.prems(1) by (auto simp: a fits_def)
  have d: "distinct (map qb_id rows)" using Cons.prems(2) by (simp add: bucketsWithin_def)
  then have found: "lookup qb_id (qb_id b) rows = Some b" using b(1) by (rule lookup_mem)
  have only: "r = b" if "r \<in> set rows" "qb_id r = qb_id b" for r
    using lookup_mem [OF d that(1)] that(2) found by simp
  have "qb_consumed r + n \<le> qb_granted r" if "r \<in> set rows" "qb_id r = qb_id b" for r
    using only [OF that] b(2) by simp
  then have within: "bucketsWithin ?rows"
    using Cons.prems(2) by (auto simp: bucketsWithin_def set_update_many map_update_many)
  have "consumedTotal ?rows = consumedTotal rows + n"
    using sum_list_update_key [OF d found, of qb_consumed] by (simp add: consumedTotal_def)
  moreover have "fits as ?rows" using fits_step Cons.prems(1) by (simp add: a)
  ultimately show ?case using Cons.IH [OF _ within] by (simp add: a)
qed simp

text \<open>The metered allocations fit the table they were computed from.\<close>

lemma fillBuckets_prefix: "\<exists>k. map fst (fst (fillBuckets n bs)) = take k bs"
proof (induction bs arbitrary: n)
  case (Cons b bs)
  obtain k where "map fst (fst (fillBuckets (n - min (bucketFree b) n) bs)) = take k bs" using Cons.IH by blast
  then have "map fst (fst (fillBuckets n (b # bs))) = (if n = 0 then take 0 (b # bs) else take (Suc k) (b # bs))"
    by simp
  then show ?case by metis
qed simp

lemma map_fst_map_filter:
  "map fst (List.map_filter (\<lambda>b. map_option (Pair b) (f b)) bs) = filter (\<lambda>b. f b \<noteq> None) bs"
  by (induction bs) (auto simp: List.map_filter_simps split: option.split)

lemma v2Buckets_rows:
  "distinct (map qb_id (buckets d)) \<Longrightarrow> distinct (map (qb_id \<circ> fst) (v2Buckets acc nodeId at d))"
  "(b, g) \<in> set (v2Buckets acc nodeId at d) \<Longrightarrow> b \<in> set (buckets d)"
proof -
  define f where "f b = (case lookup g_id (qb_grantId b) (grants d) of None \<Rightarrow> None
     | Some g \<Rightarrow> if g_accountId g = acc \<and> grantLive at g \<and> profileServes True (g_profileId g) nodeId d
                then Some g else None)" for b :: bucket_row
  have rows: "map fst (v2Buckets acc nodeId at d) = filter (\<lambda>b. f b \<noteq> None)
      (sort_key (\<lambda>b. (qb_endsAt b, qb_createdAt b)) (filter (bucketCurrent at) (buckets d)))"
    unfolding v2Buckets_def f_def by (rule map_fst_map_filter)
  show "distinct (map (qb_id \<circ> fst) (v2Buckets acc nodeId at d))" if "distinct (map qb_id (buckets d))"
  proof -
    have "distinct (map qb_id (filter (\<lambda>b. f b \<noteq> None)
        (sort_key (\<lambda>b. (qb_endsAt b, qb_createdAt b)) (filter (bucketCurrent at) (buckets d)))))"
      using that by (auto simp: distinct_map inj_on_def)
    then show ?thesis unfolding rows [symmetric] by (simp add: comp_def)
  qed
  show "b \<in> set (buckets d)" if "(b, g) \<in> set (v2Buckets acc nodeId at d)"
  proof -
    have "b \<in> set (map fst (v2Buckets acc nodeId at d))" using that by force
    then show ?thesis unfolding rows by simp
  qed
qed

lemma usableV2Buckets_rows:
  "distinct (map qb_id (buckets d)) \<Longrightarrow> distinct (map (qb_id \<circ> fst) (usableV2Buckets acc nodeId at d))"
  "(b, g) \<in> set (usableV2Buckets acc nodeId at d) \<Longrightarrow> b \<in> set (buckets d) \<and> 0 < bucketFree (b, g)"
proof -
  define rows where "rows = v2Buckets acc nodeId at d"
  obtain P where usable: "usableV2Buckets acc nodeId at d
      = sort_key (\<lambda>(b, g). (g_kind g \<noteq> GrantPlan, qb_endsAt b, qb_createdAt b))
          (filter (\<lambda>(b, g). qb_consumed b < qb_granted b \<and> P g) rows)"
    by (simp add: usableV2Buckets_def Let_def rows_def)
  show "distinct (map (qb_id \<circ> fst) (usableV2Buckets acc nodeId at d))" if "distinct (map qb_id (buckets d))"
    using v2Buckets_rows(1) [OF that, of acc nodeId at] by (simp add: usable rows_def [symmetric] distinct_map inj_on_def)
  show "b \<in> set (buckets d) \<and> 0 < bucketFree (b, g)" if "(b, g) \<in> set (usableV2Buckets acc nodeId at d)"
    using v2Buckets_rows(2) [of b g acc nodeId at d] that by (simp add: usable rows_def bucketFree_def)
qed

lemma metered_fits:
  assumes "meterV2Usage physical (usableV2Buckets acc nodeId at d) m r = Inr u"
    and "0 \<le> physical" "0 < m" "0 \<le> r" "r < 10000" and "distinct (map qb_id (buckets d))"
  shows "fits (mu_allocations u) (buckets d)"
    and "sum_list (map snd (mu_allocations u)) + mu_overageBytes u = mu_accountedBytes u"
    and "0 \<le> mu_overageBytes u" and "mu_accountedBytes u = (physical * m + r) div 10000"
    and "mu_remainder u = (physical * m + r) mod 10000" and "mu_multiplier u = m"
proof -
  let ?bs = "usableV2Buckets acc nodeId at d" and ?n = "(physical * m + r) div 10000"
  have free: "\<forall>b \<in> set ?bs. 0 < bucketFree b"
    using usableV2Buckets_rows(2) [of _ _ acc nodeId at d] by auto
  have n: "0 \<le> ?n" using assms(2-4) by (simp add: pos_imp_zdiv_nonneg_iff)
  have u: "u = \<lparr>mu_allocations = fst (fillBuckets ?n ?bs), mu_accountedBytes = ?n,
      mu_overageBytes = snd (fillBuckets ?n ?bs), mu_multiplier = m, mu_remainder = (physical * m + r) mod 10000\<rparr>"
    using assms(1) meterV2Usage_run [OF assms(2-5) free] by simp
  obtain k where "map fst (mu_allocations u) = take k ?bs" using fillBuckets_prefix u by auto
  then have "map (qb_id \<circ> fst \<circ> fst) (mu_allocations u) = take k (map (qb_id \<circ> fst) ?bs)"
    by (metis map_map comp_assoc take_map)
  then have "distinct (map (qb_id \<circ> fst \<circ> fst) (mu_allocations u))"
    using usableV2Buckets_rows(1) [OF assms(6)] by (simp add: distinct_take)
  moreover have "b \<in> set (buckets d) \<and> 0 \<le> k \<and> k \<le> qb_granted b - qb_consumed b"
    if "((b, g), k) \<in> set (mu_allocations u)" for b g k
    using fillBuckets_within [OF n free, of "(b, g)" k] usableV2Buckets_rows(2) [of b g acc nodeId at d] that u
    by (auto simp: bucketFree_def)
  ultimately show "fits (mu_allocations u) (buckets d)" by (auto simp: fits_def)
  show "sum_list (map snd (mu_allocations u)) + mu_overageBytes u = mu_accountedBytes u"
    using fillBuckets_total [of ?n ?bs] u by simp
  show "0 \<le> mu_overageBytes u" using fillBuckets_overage_nonneg [OF n] u by simp
  show "mu_accountedBytes u = ?n" "mu_remainder u = (physical * m + r) mod 10000" "mu_multiplier u = m"
    using u by simp_all
qed

text \<open>The legacy share is between nothing and all of it.\<close>

lemma drainPacks_bounds:
  "drainPacks ps n d = Inr (m, d') \<Longrightarrow> \<forall>p \<in> set ps. 0 < tp_remainingBytes p \<Longrightarrow> 0 \<le> n \<Longrightarrow> 0 \<le> m \<and> m \<le> n"
  by (induction ps n d rule: drainPacks.induct)
    (fastforce simp: err_simps Let_def split: if_splits)+

lemma drainCycle_bounds: "drainCycle s c n d = Inr (m, d') \<Longrightarrow> 0 \<le> n \<Longrightarrow> 0 \<le> m \<and> m \<le> n"
  by (auto simp: drainCycle_def cycleRemaining_def err_simps Let_def split: if_splits)

lemma drainSubscription_bounds:
  "drainSubscription s at n d = Inr (u, d') \<Longrightarrow> 0 \<le> n \<Longrightarrow> 0 \<le> lu_remaining u \<and> lu_remaining u \<le> n"
  by (auto simp: drainSubscription_def err_simps split: option.splits dest!: drainCycle_bounds)

lemma consumeLegacyQuota_bounds:
  assumes "consumeLegacyQuota acc nodeId at n d = Inr (u, d')" and "0 \<le> n"
  shows "0 \<le> lu_remaining u \<and> lu_remaining u \<le> n"
proof -
  have packs: "\<forall>p \<in> set (consumableLegacyPacks acc nodeId at d). 0 < tp_remainingBytes p"
    by (auto simp: consumableLegacyPacks_def legacyPack_def)
  obtain x where x: "drainPacks (consumableLegacyPacks acc nodeId at d) n d = Inr x"
    and rest: "(case x of (remaining, d1) \<Rightarrow>
       case first_row (order_desc s_endsAt (filter (\<lambda>s. s_accountId s = Some acc
              \<and> legacySubscription nodeId at d1 s) (subscriptions d1))) of
         None \<Rightarrow> Inr (\<lparr>lu_remaining = remaining, lu_subscriptionId = None, lu_cycleId = None\<rparr>, d1)
       | Some s \<Rightarrow> drainSubscription s at remaining d1) = Inr (u, d')"
    using assms(1) unfolding consumeLegacyQuota_def by (elim bindE_InrE)
  obtain m d1 where xm: "x = (m, d1)" by (cases x)
  then have d1: "drainPacks (consumableLegacyPacks acc nodeId at d) n d = Inr (m, d1)" using x by simp
  have u: "lu_remaining u = m \<or> (\<exists>s. drainSubscription s at m d1 = Inr (u, d'))"
    using rest unfolding xm by (auto split: option.splits)
  then show ?thesis
    using drainPacks_bounds [OF d1 packs assms(2)] drainSubscription_bounds by fastforce
qed

text \<open>One user's traffic: the tables it writes besides the legacy ones.\<close>

definition writesUsage :: "id \<Rightarrow> int \<Rightarrow> bucket_row list \<Rightarrow> rollup_row \<Rightarrow> db \<Rightarrow> db \<Rightarrow> bool" where
  "writesUsage accountId rem bs r d d' \<longleftrightarrow>
     accounts d' = update_many (\<lambda>a. aa_id a = accountId) (\<lambda>a. a\<lparr>aa_remainder := rem\<rparr>) (accounts d)
   \<and> buckets d' = bs \<and> rollups d' = rollups d @ [r] \<and> importBatches d' = importBatches d \<and> users d' = users d
   \<and> walletLedger d' = walletLedger d \<and> grants d' = grants d"

lemma nonLegacy_tables:
  assumes "nonLegacy d' = nonLegacy d"
  shows "accounts d' = accounts d" and "buckets d' = buckets d" and "rollups d' = rollups d"
    and "importBatches d' = importBatches d" and "users d' = users d" and "walletLedger d' = walletLedger d"
    and "grants d' = grants d"
  using arg_cong [OF assms, of accounts] arg_cong [OF assms, of buckets] arg_cong [OF assms, of rollups]
    arg_cong [OF assms, of importBatches] arg_cong [OF assms, of users] arg_cong [OF assms, of walletLedger]
    arg_cong [OF assms, of grants]
  by (simp_all add: nonLegacy_def)

lemma createRollup_eq_Inr:
  "createRollup r d = Inr d' \<Longrightarrow> d' = (drawId d)\<lparr>rollups := rollups d @ [r]\<rparr>"
  by (auto simp: createRollup_def err_simps)

lemma setRemainder_eq_Inr:
  "setRemainder i n d = Inr d' \<Longrightarrow>
   d' = d\<lparr>accounts := update_many (\<lambda>a. aa_id a = i) (\<lambda>a. a\<lparr>aa_remainder := n\<rparr>) (accounts d)\<rparr>"
  by (auto simp: setRemainder_def err_simps)

lemma applyLegacyOnly_writes:
  assumes "applyLegacyOnly nodeId uid c ib at acc m d = Inr d'"
    and "0 \<le> (ct_tx c + ct_rx c) * m + aa_remainder acc"
  defines "scaled \<equiv> (ct_tx c + ct_rx c) * m + aa_remainder acc"
  shows "\<exists>r. writesUsage (aa_id acc) (scaled mod 10000) (buckets d) r d d' \<and> ur_userId r = uid
    \<and> ur_rawBytes r = ct_tx c + ct_rx c \<and> ur_multiplier r = m \<and> ur_accounted r = scaled div 10000
    \<and> ur_allocations r = [] \<and> 0 \<le> ur_overage r \<and> ur_overage r \<le> ur_accounted r"
proof -
  have conv: "bigDiv scaled multiplierScale = scaled div 10000" "bigMod scaled multiplierScale = scaled mod 10000"
    "0 \<le> scaled div 10000"
    using assms(2) by (simp_all add: scaled_def multiplierScale_def bigDiv_nonneg bigMod_nonneg pos_imp_zdiv_nonneg_iff)
  obtain d1 l d2 r where
    s: "setRemainder (aa_id acc) (scaled mod 10000) d = Inr d1"
    and l: "consumeLegacyQuota (aa_id acc) nodeId at (scaled div 10000) d1 = Inr (l, d2)"
    and r: "createRollup r d2 = Inr d'" "ur_userId r = uid" "ur_rawBytes r = ct_tx c + ct_rx c" "ur_multiplier r = m"
      "ur_accounted r = scaled div 10000" "ur_allocations r = []" "ur_overage r = lu_remaining l"
    using assms(1) conv(1,2)
    by (auto simp: applyLegacyOnly_def err_simps Let_def scaled_def [symmetric])
  note tabs = nonLegacy_tables [OF consumeLegacyQuota_frame [OF l]] and d1 = setRemainder_eq_Inr [OF s]
    and d' = createRollup_eq_Inr [OF r(1)] and b = consumeLegacyQuota_bounds [OF l conv(3)]
  have "writesUsage (aa_id acc) (scaled mod 10000) (buckets d) r d d'"
    using tabs d1 by (simp add: writesUsage_def d')
  then show ?thesis using r b by auto
qed

lemma applyMetered_writes:
  assumes "applyMetered nodeId uid c ib at acc u d = Inr d'" and "0 \<le> mu_overageBytes u"
  shows "\<exists>r. writesUsage (aa_id acc) (mu_remainder u) (consumeAll (mu_allocations u) (buckets d)) r d d'
    \<and> ur_userId r = uid \<and> ur_rawBytes r = ct_tx c + ct_rx c \<and> ur_multiplier r = mu_multiplier u
    \<and> ur_accounted r = mu_accountedBytes u
    \<and> map snd (ur_allocations r) = map snd (mu_allocations u)
    \<and> 0 \<le> ur_overage r \<and> ur_overage r \<le> mu_overageBytes u"
proof -
  obtain d1 d2 i j l d3 where
    s: "setRemainder (aa_id acc) (mu_remainder u) d = Inr d1"
    and a: "foldE (applyAllocation at) (mu_allocations u) (d1, None, None) = Inr (d2, i, j)"
    and l: "spillToLegacy (aa_id acc) nodeId at (mu_overageBytes u) d2 = Inr (l, d3)"
    and r: "createRollup (meteredRollup nodeId uid c ib at u i j l (freshId d3)) d3 = Inr d'"
    using assms(1) by (auto simp: applyMetered_def err_simps)
  let ?r = "meteredRollup nodeId uid c ib at u i j l (freshId d3)"
  have d3: "nonLegacy d3 = nonLegacy d2" and over: "0 \<le> ur_overage ?r \<and> ur_overage ?r \<le> mu_overageBytes u"
    using l assms(2) consumeLegacyQuota_frame consumeLegacyQuota_bounds
    by (fastforce simp: spillToLegacy_def meteredRollup_def err_simps split: if_splits)+
  note t3 = nonLegacy_tables [OF d3] and t2 = nonLegacy_tables [OF applyAllocations_frame [OF a]]
    and d1 = setRemainder_eq_Inr [OF s] and d' = createRollup_eq_Inr [OF r]
  have "writesUsage (aa_id acc) (mu_remainder u) (consumeAll (mu_allocations u) (buckets d)) ?r d d'"
    using t3 t2 d1 by (simp add: writesUsage_def d')
  moreover have "map snd (ur_allocations ?r) = map snd (mu_allocations u)"
    by (simp add: meteredRollup_def case_prod_beta comp_def)
  ultimately show ?thesis using over by (intro exI [of _ ?r]) (simp add: meteredRollup_def)
qed

section \<open>What an import guarantees\<close>

definition usageInv :: "db \<Rightarrow> bool" where
  "usageInv d \<longleftrightarrow> bucketsWithin (buckets d)
     \<and> (\<forall>a \<in> set (accounts d). 0 \<le> aa_remainder a \<and> aa_remainder a < 10000)"

definition remainderOf :: "id \<Rightarrow> db \<Rightarrow> int" where
  "remainderOf uid d = nvl (map_option aa_remainder (lookup aa_userId uid (accounts d))) 0"

text \<open>One rollup more, and the buckets grow by exactly what it allocates.\<close>

definition oneRollup :: "id \<Rightarrow> counters \<Rightarrow> int \<Rightarrow> rollup_row \<Rightarrow> db \<Rightarrow> db \<Rightarrow> bool" where
  "oneRollup uid c rate r d d' \<longleftrightarrow> rollups d' = rollups d @ [r] \<and> ur_userId r = uid
   \<and> ur_rawBytes r = ct_tx c + ct_rx c \<and> rate \<le> ur_multiplier r
   \<and> 10000 * ur_accounted r + remainderOf uid d' = ur_rawBytes r * ur_multiplier r + remainderOf uid d
   \<and> consumedTotal (buckets d') = consumedTotal (buckets d) + sum_list (map snd (ur_allocations r))
   \<and> 0 \<le> ur_overage r \<and> sum_list (map snd (ur_allocations r)) + ur_overage r \<le> ur_accounted r
   \<and> usageInv d' \<and> importBatches d' = importBatches d \<and> users d' = users d
   \<and> walletLedger d' = walletLedger d \<and> grants d' = grants d"

lemma ensureAccessAccount_effect:
  assumes "ensureAccessAccount uid d = Inr (a, d1)" and "usageInv d"
  shows "lookup aa_userId uid (accounts d1) = Some a \<and> aa_remainder a = remainderOf uid d \<and> usageInv d1
    \<and> buckets d1 = buckets d \<and> rollups d1 = rollups d \<and> importBatches d1 = importBatches d \<and> users d1 = users d
    \<and> walletLedger d1 = walletLedger d \<and> grants d1 = grants d"
  using assms
  by (auto simp: ensureAccessAccount_def remainderOf_def usageInv_def err_simps Let_def lookup_append
      split: option.splits)

lemma writesUsage_oneRollup:
  assumes w: "writesUsage (aa_id a) (s mod 10000) bs r d1 d'"
    and a: "lookup aa_userId uid (accounts d1) = Some a" and inv: "usageInv d1" and bs: "bucketsWithin bs"
    and "s = (ct_tx c + ct_rx c) * ur_multiplier r + aa_remainder a" and "ur_accounted r = s div 10000"
    and "consumedTotal bs = consumedTotal (buckets d1) + sum_list (map snd (ur_allocations r))"
    and "ur_userId r = uid" and "ur_rawBytes r = ct_tx c + ct_rx c" and "rate \<le> ur_multiplier r"
    and "0 \<le> ur_overage r" and "sum_list (map snd (ur_allocations r)) + ur_overage r \<le> ur_accounted r"
    and "aa_remainder a = remainderOf uid d"
    and "buckets d1 = buckets d" "rollups d1 = rollups d" "importBatches d1 = importBatches d" "users d1 = users d"
      "walletLedger d1 = walletLedger d" "grants d1 = grants d"
  shows "oneRollup uid c rate r d d'"
proof -
  have acc: "accounts d' = update_many (\<lambda>x. aa_id x = aa_id a) (\<lambda>x. x\<lparr>aa_remainder := s mod 10000\<rparr>) (accounts d1)"
    using w by (simp add: writesUsage_def)
  have "remainderOf uid d' = s mod 10000"
    unfolding remainderOf_def acc by (simp add: lookup_update_many a)
  moreover have "usageInv d'"
    using inv bs w by (auto simp: usageInv_def acc set_update_many writesUsage_def)
  moreover have "10000 * (s div 10000) + s mod 10000 = s" by simp
  ultimately show ?thesis using assms by (simp add: oneRollup_def writesUsage_def)
qed

lemma applyUserTraffic_effect:
  assumes run: "applyUserTraffic nodeId uid c ib at rate d = Inr (hit, d')"
    and inv: "usageInv d" and tx: "0 \<le> ct_tx c" and rx: "0 \<le> ct_rx c" and rate: "0 < rate"
  shows "if hit then \<exists>r. oneRollup uid c rate r d d' else d' = d"
proof (cases "lookup u_id uid (users d)")
  case None
  then show ?thesis using run by (auto simp: applyUserTraffic_def)
next
  case (Some user)
  from run Some obtain a d1 where e: "ensureAccessAccount uid d = Inr (a, d1)"
    by (auto simp: applyUserTraffic_def err_simps)
  define m where "m = max rate (nvl (aa_multiplierOverride a) 10000)"
  define bs where "bs = usableV2Buckets (aa_id a) nodeId at d1"
  define s where "s = (ct_tx c + ct_rx c) * m + aa_remainder a"
  note acc = ensureAccessAccount_effect [OF e inv]
  have m: "0 < m" "rate \<le> m" using rate by (simp_all add: m_def)
  have rem: "0 \<le> aa_remainder a" "aa_remainder a < 10000"
    using acc by (auto simp: usageInv_def dest!: lookup_SomeD)
  have s: "0 \<le> s" using tx rx m(1) rem(1) by (simp add: s_def)
  have within: "bucketsWithin (buckets d1)" using acc unfolding usageInv_def by blast
  show ?thesis
  proof (cases "bs = []")
    case True
    then have "applyLegacyOnly nodeId uid c ib at a m d1 = Inr d'" and hit: hit
      using run Some e by (auto simp: applyUserTraffic_def err_simps m_def bs_def Let_def)
    from applyLegacyOnly_writes [OF this(1)] s obtain r where
      "writesUsage (aa_id a) (s mod 10000) (buckets d1) r d1 d'" "ur_userId r = uid"
      "ur_rawBytes r = ct_tx c + ct_rx c" "ur_multiplier r = m" "ur_accounted r = s div 10000"
      "ur_allocations r = []" "0 \<le> ur_overage r" "ur_overage r \<le> ur_accounted r"
      by (auto simp: s_def)
    then have "oneRollup uid c rate r d d'"
      using acc within m(2) by (intro writesUsage_oneRollup [of a s "buckets d1" r d1]) (simp_all add: s_def)
    then show ?thesis using hit by auto
  next
    case False
    then obtain u where u: "meterV2Usage (ct_tx c + ct_rx c) bs m (aa_remainder a) = Inr u"
      and run': "applyMetered nodeId uid c ib at a u d1 = Inr d'" and hit: hit
      using run Some e by (auto simp: applyUserTraffic_def err_simps m_def bs_def Let_def)
    have "distinct (map qb_id (buckets d1))" using within by (simp add: bucketsWithin_def)
    note fit = metered_fits [OF u [unfolded bs_def] _ m(1) rem this] 
    have p: "0 \<le> ct_tx c + ct_rx c" using tx rx by simp
    from applyMetered_writes [OF run' fit(3) [OF p]] obtain r where
      "writesUsage (aa_id a) (s mod 10000) (consumeAll (mu_allocations u) (buckets d1)) r d1 d'" "ur_userId r = uid"
      "ur_rawBytes r = ct_tx c + ct_rx c" "ur_multiplier r = m" "ur_accounted r = s div 10000"
      "map snd (ur_allocations r) = map snd (mu_allocations u)" "0 \<le> ur_overage r" "ur_overage r \<le> mu_overageBytes u"
      using fit(4-6) [OF p] by (auto simp: s_def)
    then have "oneRollup uid c rate r d d'"
      using acc m(2) consumeAll_within [OF fit(1) [OF p] within] fit(2,4) [OF p]
      by (intro writesUsage_oneRollup [of a s "consumeAll (mu_allocations u) (buckets d1)" r d1])
        (simp_all add: s_def)
    then show ?thesis using hit by auto
  qed
qed

text \<open>The users of a batch, one after the other.\<close>

definition importUser ::
  "id \<Rightarrow> id \<Rightarrow> instant \<Rightarrow> int \<Rightarrow> id \<times> counters \<Rightarrow> id list \<times> db \<Rightarrow> error + (id list \<times> db)" where
  "importUser nodeId importedId at rate = (\<lambda>(userId, c) (impacted, d2).
     bindE (applyUserTraffic nodeId userId c importedId at rate d2) (\<lambda>(hit, d3).
       Inr (if hit then impacted @ [userId] else impacted, d3)))"

definition importedBetween :: "id list \<Rightarrow> db \<Rightarrow> db \<Rightarrow> bool" where
  "importedBetween us d d' \<longleftrightarrow> (\<exists>rs. rollups d' = rollups d @ rs \<and> map ur_userId rs = us
     \<and> consumedTotal (buckets d') = consumedTotal (buckets d) + allocatedTotal rs
     \<and> (\<forall>r \<in> set rs. 0 \<le> ur_overage r \<and> sum_list (map snd (ur_allocations r)) + ur_overage r \<le> ur_accounted r))
   \<and> usageInv d' \<and> importBatches d' = importBatches d \<and> users d' = users d
   \<and> walletLedger d' = walletLedger d \<and> grants d' = grants d"

lemma importedBetween_Nil: "usageInv d \<Longrightarrow> importedBetween [] d d"
  by (simp add: importedBetween_def allocatedTotal_def)

lemma importedBetween_step:
  assumes "importedBetween us d d1" and "oneRollup uid c rate r d1 d2"
  shows "importedBetween (us @ [uid]) d d2"
proof -
  obtain rs where "rollups d1 = rollups d @ rs" "map ur_userId rs = us"
      "consumedTotal (buckets d1) = consumedTotal (buckets d) + allocatedTotal rs"
      "\<forall>r \<in> set rs. 0 \<le> ur_overage r \<and> sum_list (map snd (ur_allocations r)) + ur_overage r \<le> ur_accounted r"
    using assms(1) by (auto simp: importedBetween_def)
  then show ?thesis
    using assms unfolding importedBetween_def oneRollup_def
    by (intro conjI exI [of _ "rs @ [r]"]) (auto simp: allocatedTotal_def)
qed

lemma importUsers:
  assumes "foldE (importUser nodeId ib at rate) xs (us, d1) = Inr (us', d')"
    and "importedBetween us d d1" and "\<forall>(u, c) \<in> set xs. 0 \<le> ct_tx c \<and> 0 \<le> ct_rx c" and "0 < rate"
  shows "importedBetween us' d d'"
  using assms
proof (induction xs arbitrary: us d1)
  case (Cons x xs)
  obtain uid c where x: "x = (uid, c)" by (cases x)
  from Cons.prems(1) obtain hit d2 where step: "applyUserTraffic nodeId uid c ib at rate d1 = Inr (hit, d2)"
    and rest: "foldE (importUser nodeId ib at rate) xs (if hit then us @ [uid] else us, d2) = Inr (us', d')"
    by (auto simp: x importUser_def err_simps)
  have "usageInv d1" using Cons.prems(2) by (simp add: importedBetween_def)
  then have "if hit then \<exists>r. oneRollup uid c rate r d1 d2 else d2 = d1"
    using applyUserTraffic_effect [OF step] Cons.prems(3,4) by (auto simp: x)
  then have "importedBetween (if hit then us @ [uid] else us) d d2"
    using importedBetween_step [OF Cons.prems(2)] Cons.prems(2) by (auto split: if_splits)
  then show ?case using Cons.IH [OF rest] Cons.prems(3,4) by auto
qed simp

lemma importTransaction_run:
  "importTransaction nodeId batch at d = Inr (res, d') \<Longrightarrow>
   (br_replayed res \<and> d' = d \<and> (\<exists>b \<in> set (importBatches d). ub_nodeId b = nodeId \<and> ub_externalId b = tb_id batch))
   \<or> (\<not> br_replayed res \<and> (\<exists>node b d1. lookup n_id nodeId (nodes d) = Some node
        \<and> (\<forall>b \<in> set (importBatches d). \<not> (ub_nodeId b = nodeId \<and> ub_externalId b = tb_id batch))
        \<and> d1 = (drawId d)\<lparr>importBatches := importBatches d @ [b]\<rparr> \<and> ub_nodeId b = nodeId \<and> ub_externalId b = tb_id batch
        \<and> foldE (importUser nodeId (freshId d) at (machineTrafficRate node d)) (activeTraffic batch) ([], d1)
            = Inr (br_impactedUsers res, d')))"
  by (auto simp: importTransaction_def importUser_def err_simps Let_def split: if_splits)

lemma importTransaction_effect:
  assumes "importTransaction nodeId batch at d = Inr (res, d')" and "\<not> br_replayed res" and "usageInv d"
    and "\<forall>(u, c) \<in> set (tb_traffic batch). 0 \<le> ct_tx c \<and> 0 \<le> ct_rx c"
    and "\<forall>s \<in> set (servers d). 0 < ns_multiplier s"
  shows "\<exists>b d1. d1 = (drawId d)\<lparr>importBatches := importBatches d @ [b]\<rparr> \<and> ub_nodeId b = nodeId
    \<and> ub_externalId b = tb_id batch \<and> importedBetween (br_impactedUsers res) d1 d'"
proof -
  obtain node b d1 where d1: "d1 = (drawId d)\<lparr>importBatches := importBatches d @ [b]\<rparr>" "ub_nodeId b = nodeId"
      "ub_externalId b = tb_id batch"
    and run: "foldE (importUser nodeId (freshId d) at (machineTrafficRate node d)) (activeTraffic batch) ([], d1)
      = Inr (br_impactedUsers res, d')"
    using importTransaction_run [OF assms(1)] assms(2) by auto
  have "0 < machineTrafficRate node d"
    using assms(5) by (auto simp: machineTrafficRate_def defaultMachineRate_def bind_eq_Some_conv
        split: option.splits dest!: lookup_SomeD)
  moreover have "usageInv d1" using assms(3) by (simp add: d1(1) usageInv_def)
  ultimately have "importedBetween (br_impactedUsers res) d1 d'"
    using importUsers [OF run importedBetween_Nil] assms(4) by (auto simp: activeTraffic_def)
  then show ?thesis using d1 by blast
qed

text \<open>One user's traffic writes one rollup, and every byte of it is accounted for: the charge and
  the new remainder are exactly the scaled bytes and the old remainder; the buckets grow by exactly
  the allocations and never beyond their grant; allocations and overage stay within the charge; the
  wallet and the entitlements are untouched. An unknown user changes nothing.\<close>

theorem applyUserTraffic_accounts:
  assumes "applyUserTraffic nodeId uid c ib at rate d = Inr (hit, d')"
    and "usageInv d" and "0 \<le> ct_tx c" and "0 \<le> ct_rx c" and "0 < rate"
  shows "if hit then \<exists>r. oneRollup uid c rate r d d' else d' = d"
  by (rule applyUserTraffic_effect [OF assms])

text \<open>C8: a node's batch is imported once. After an import commits, importing the same batch id
  again from the same node, whatever its contents and date, is reported as a replay and changes nothing.\<close>

theorem importTransaction_once:
  assumes "importTransaction nodeId batch at d = Inr (res, d')" and "usageInv d"
    and "\<forall>(u, c) \<in> set (tb_traffic batch). 0 \<le> ct_tx c \<and> 0 \<le> ct_rx c"
    and "\<forall>s \<in> set (servers d). 0 < ns_multiplier s" and "tb_id again = tb_id batch"
  shows "importTransaction nodeId again later d'
    = Inr (\<lparr>br_replayed = True, br_impactedUsers = map fst (activeTraffic again)\<rparr>, d')"
proof -
  have "\<exists>b \<in> set (importBatches d'). ub_nodeId b = nodeId \<and> ub_externalId b = tb_id batch"
  proof (cases "br_replayed res")
    case True
    then show ?thesis using importTransaction_run [OF assms(1)] by auto
  next
    case False
    from importTransaction_effect [OF assms(1) False assms(2-4)] show ?thesis
      by (auto simp: importedBetween_def)
  qed
  then show ?thesis using assms(5) by (simp add: importTransaction_def)
qed

text \<open>C9: an imported batch records one rollup per affected user, in order, and the consumption of
  all buckets together grows by exactly the sum of the rollups' allocations; no bucket is consumed beyond
  its grant.\<close>

theorem importTransaction_accounts:
  assumes "importTransaction nodeId batch at d = Inr (res, d')" and "\<not> br_replayed res" and "usageInv d"
    and "\<forall>(u, c) \<in> set (tb_traffic batch). 0 \<le> ct_tx c \<and> 0 \<le> ct_rx c"
    and "\<forall>s \<in> set (servers d). 0 < ns_multiplier s"
  shows "\<exists>rs. rollups d' = rollups d @ rs \<and> map ur_userId rs = br_impactedUsers res
    \<and> consumedTotal (buckets d') = consumedTotal (buckets d) + allocatedTotal rs \<and> usageInv d'
    \<and> users d' = users d \<and> walletLedger d' = walletLedger d \<and> grants d' = grants d"
  using importTransaction_effect [OF assms] by (auto simp: importedBetween_def)

text \<open>A node, a profile that binds it, one entitlement with two buckets, and a batch.\<close>

definition exampleUsageDb :: db where
  "exampleUsageDb = exampleQuotaDb\<lparr>users := [\<lparr>u_id = ''u1'', u_status = UserActive, u_balanceCents = 0, u_deletedAt = None\<rparr>],
     accounts := [\<lparr>aa_id = ''acc1'', aa_userId = ''u1'', aa_multiplier = 10000,
                   aa_multiplierOverride = Some 15000, aa_remainder = 3000\<rparr>],
     servers := [\<lparr>ns_id = ''s1'', ns_multiplier = 12000\<rparr>],
     nodes := [\<lparr>n_id = ''n1'', n_serverId = Some ''s1'', n_label = ''hk'', n_active = True, n_lifecycle = LifeActive, n_region = None,
       n_protocol = Hysteria2, n_retiredAt = None,
       n_trafficApiSecret = ''s'', n_controlApiSecret = None\<rparr>],
     profiles := [\<lparr>ap_id = ''prof1'', ap_active = True, ap_speedUpMbps = 1, ap_speedDownMbps = 1, ap_deviceLimit = 1\<rparr>],
     profileNodes := [\<lparr>apn_profileId = ''prof1'', apn_nodeId = ''n1'', apn_priority = 1\<rparr>],
     buckets := [newBucket ''b1'' ''g1'' PlanCycle 0 1800000000000 8 10000 0,
                 newBucket ''b2'' ''g1'' PlanCycle 1 1900000000000 50 10000 0]\<rparr>"

definition exampleBatch :: traffic_batch where
  "exampleBatch = \<lparr>tb_id = ''x1'', tb_claimedAt = Some 1709251200000,
     tb_traffic = [(''u1'', \<lparr>ct_tx = 5, ct_rx = 2\<rparr>), (''u2'', \<lparr>ct_tx = 0, ct_rx = 0\<rparr>)]\<rparr>"

lemma example_usageInv: "usageInv exampleUsageDb"
  by (simp add: usageInv_def bucketsWithin_def exampleUsageDb_def newBucket_def)

theorem applyUserTraffic_accounts_witness:
  "\<exists>r d'. applyUserTraffic ''n1'' ''u1'' \<lparr>ct_tx = 5, ct_rx = 2\<rparr> ''x'' 1709251200000 10000 exampleUsageDb = Inr (True, d')
     \<and> oneRollup ''u1'' \<lparr>ct_tx = 5, ct_rx = 2\<rparr> 10000 r exampleUsageDb d'"
proof -
  let ?run = "applyUserTraffic ''n1'' ''u1'' \<lparr>ct_tx = 5, ct_rx = 2\<rparr> ''x'' 1709251200000 10000 exampleUsageDb"
  have "case ?run of Inr (True, _) \<Rightarrow> True | _ \<Rightarrow> False" by code_simp
  then obtain d' where d': "?run = Inr (True, d')" by (auto split: sum.splits bool.splits)
  show ?thesis using applyUserTraffic_accounts [OF d' example_usageInv] d' by auto
qed

theorem importTransaction_once_witness:
  "\<exists>res d'. importTransaction ''n1'' exampleBatch 1709251200000 exampleUsageDb = Inr (res, d')
     \<and> importTransaction ''n1'' (exampleBatch\<lparr>tb_traffic := []\<rparr>) 5 d'
         = Inr (\<lparr>br_replayed = True, br_impactedUsers = []\<rparr>, d')"
proof -
  have "\<not> isl (importTransaction ''n1'' exampleBatch 1709251200000 exampleUsageDb)" by code_simp
  then obtain res d' where *: "importTransaction ''n1'' exampleBatch 1709251200000 exampleUsageDb = Inr (res, d')"
    using not_isl_obtain by fastforce
  have "\<forall>(u, c) \<in> set (tb_traffic exampleBatch). 0 \<le> ct_tx c \<and> 0 \<le> ct_rx c"
    and "\<forall>s \<in> set (servers exampleUsageDb). 0 < ns_multiplier s"
    by (simp_all add: exampleBatch_def exampleUsageDb_def exampleQuotaDb_def emptyDb_def)
  from importTransaction_once [OF * example_usageInv this, of "exampleBatch\<lparr>tb_traffic := []\<rparr>" 5]
  have "importTransaction ''n1'' (exampleBatch\<lparr>tb_traffic := []\<rparr>) 5 d'
      = Inr (\<lparr>br_replayed = True, br_impactedUsers = []\<rparr>, d')"
    by (simp add: activeTraffic_def)
  then show ?thesis using * by blast
qed

theorem importTransaction_accounts_witness:
  "\<exists>res d' rs. importTransaction ''n1'' exampleBatch 1709251200000 exampleUsageDb = Inr (res, d')
     \<and> rollups d' = rs \<and> map ur_userId rs = br_impactedUsers res \<and> usageInv d'"
proof -
  have "case importTransaction ''n1'' exampleBatch 1709251200000 exampleUsageDb of
      Inr (res, s) \<Rightarrow> \<not> br_replayed res | Inl _ \<Rightarrow> False" by code_simp
  from Inr_pair_obtain [OF this] obtain res d' where *: "importTransaction ''n1'' exampleBatch 1709251200000 exampleUsageDb = Inr (res, d')"
      "\<not> br_replayed res"
    by blast
  have "\<forall>(u, c) \<in> set (tb_traffic exampleBatch). 0 \<le> ct_tx c \<and> 0 \<le> ct_rx c"
    and "\<forall>s \<in> set (servers exampleUsageDb). 0 < ns_multiplier s" and "rollups exampleUsageDb = []"
    by (simp_all add: exampleBatch_def exampleUsageDb_def exampleQuotaDb_def emptyDb_def)
  then have "\<exists>rs. rollups d' = rs \<and> map ur_userId rs = br_impactedUsers res \<and> usageInv d'"
    using importTransaction_accounts [OF * example_usageInv] by auto
  then show ?thesis using *(1) by blast
qed

end
