(* ===== verification/Access.thy ===== *)
theory Access imports UsageImport begin

text \<open>
  Who may use which node: \<open>resolveAccess\<close>, \<open>getNodeAccess\<close> and \<open>getNodeProvisioningUsers\<close> of
  \<open>apps/api/src/entitlement/entitlement.service.ts\<close>.

  A decision is a record whose optional fields are absent where the code's object has none. Byte
  counts the code converts with \<open>Number\<close> stay integers. The clock a call reads several times is the
  one instant \<open>now\<close>.
\<close>

section \<open>Decisions\<close>

datatype access_reason = UserNotActive | TrafficExhausted | NodeDenied | AccessOk

record node_choice =
  nc_id :: id
  nc_label :: string
  nc_priority :: int
  nc_region :: "string option"

record access_limits =
  lim_speedUp :: int
  lim_speedDown :: int
  lim_devices :: int

record access_usage =
  au_totalBytes :: int
  au_consumedBytes :: int
  au_remainingBytes :: int
  au_grants :: "(id \<times> grant_kind \<times> string option \<times> instant) list"

record access =
  ax_allowed :: bool
  ax_reason :: access_reason
  ax_limits :: "access_limits option"
  ax_usage :: "access_usage option"
  ax_nodes :: "node_choice list option"
  ax_eligible :: "id list option"

section \<open>\<open>resolveAccess\<close>\<close>

text \<open>A grant as the query includes it: its current buckets, its product and its profile's nodes.\<close>

definition currentBuckets :: "instant \<Rightarrow> db \<Rightarrow> grant_row \<Rightarrow> bucket_row list" where
  "currentBuckets now d g = filter (\<lambda>b. qb_grantId b = g_id g \<and> bucketCurrent now b) (buckets d)"

definition grantProduct :: "db \<Rightarrow> grant_row \<Rightarrow> product_row option" where
  "grantProduct d g = lookup cp_id (g_productId g) (products d)"

definition needsPlan :: "db \<Rightarrow> grant_row \<Rightarrow> bool" where
  "needsPlan d g = (case grantProduct d g of None \<Rightarrow> False | Some p \<Rightarrow> cp_requiresActivePlan p)"

definition grantNodes :: "db \<Rightarrow> grant_row \<Rightarrow> (int \<times> node_row) list" where
  "grantNodes d g = List.map_filter (\<lambda>b. map_option (Pair (apn_priority b)) (lookup n_id (apn_nodeId b) (nodes d)))
     (sort_key apn_priority (filter (\<lambda>b. apn_profileId b = g_profileId g) (profileNodes d)))"

definition liveGrants :: "id \<Rightarrow> instant \<Rightarrow> db \<Rightarrow> grant_row list" where
  "liveGrants userId now d = sort_key g_endsAt (filter (\<lambda>g. g_userId g = userId \<and> grantLive now g) (grants d))"

definition hasPlan :: "id \<Rightarrow> instant \<Rightarrow> db \<Rightarrow> bool" where
  "hasPlan userId now d \<longleftrightarrow> (\<exists>g \<in> set (liveGrants userId now d). g_kind g = GrantPlan)
     \<or> (\<exists>s \<in> set (subscriptions d). s_userId s = userId \<and> currentSubscription now s)"

definition eligibleGrants :: "id \<Rightarrow> instant \<Rightarrow> db \<Rightarrow> grant_row list" where
  "eligibleGrants userId now d = filter (\<lambda>g. \<not> needsPlan d g \<or> hasPlan userId now d) (liveGrants userId now d)"

definition usableGrants :: "id \<Rightarrow> instant \<Rightarrow> db \<Rightarrow> grant_row list" where
  "usableGrants userId now d =
     filter (\<lambda>g. \<exists>b \<in> set (currentBuckets now d g). qb_consumed b < qb_granted b) (eligibleGrants userId now d)"

definition serviceable :: "node_row \<Rightarrow> bool" where
  "serviceable n \<longleftrightarrow> n_active n \<and> n_lifecycle n = LifeActive"

text \<open>The map of nodes, in the order of insertion.\<close>

definition offerNode :: "int \<times> node_row \<Rightarrow> node_choice list \<Rightarrow> node_choice list" where
  "offerNode pn chosen =
     (case pn of (priority, n) \<Rightarrow>
        let choice = \<lparr>nc_id = n_id n, nc_label = n_label n, nc_priority = priority, nc_region = n_region n\<rparr>
        in if \<not> serviceable n then chosen
           else case lookup nc_id (n_id n) chosen of
                  None \<Rightarrow> chosen @ [choice]
                | Some prior \<Rightarrow>
                    if priority < nc_priority prior then update_many (\<lambda>c. nc_id c = n_id n) (\<lambda>_. choice) chosen
                    else chosen)"

definition accessNodes :: "grant_row list \<Rightarrow> db \<Rightarrow> node_choice list" where
  "accessNodes sources d = sort_key nc_priority (fold offerNode (concat (map (grantNodes d) sources)) [])"

definition servesNode :: "db \<Rightarrow> id \<Rightarrow> grant_row \<Rightarrow> bool" where
  "servesNode d nodeId g \<longleftrightarrow> (\<exists>(_, n) \<in> set (grantNodes d g). n_id n = nodeId \<and> serviceable n)"

definition requested :: "db \<Rightarrow> id option \<Rightarrow> grant_row list \<Rightarrow> grant_row list" where
  "requested d nodeId gs =
     (case nodeId of None \<Rightarrow> gs | Some i \<Rightarrow> if i = [] then gs else filter (servesNode d i) gs)"

definition namesNode :: "db \<Rightarrow> id option \<Rightarrow> grant_row list \<Rightarrow> bool" where
  "namesNode d nodeId gs =
     (case nodeId of None \<Rightarrow> False
      | Some i \<Rightarrow> i \<noteq> [] \<and> (\<exists>g \<in> set gs. \<exists>(_, n) \<in> set (grantNodes d g). n_id n = i))"

text \<open>\<open>Math.max\<close> of a list that is not empty.\<close>

definition largest :: "int list \<Rightarrow> int" where
  "largest xs = (case xs of [] \<Rightarrow> 0 | x # rest \<Rightarrow> fold max rest x)"

definition deniedUser :: access where
  "deniedUser = \<lparr>ax_allowed = False, ax_reason = UserNotActive, ax_limits = None, ax_usage = None,
     ax_nodes = Some [], ax_eligible = Some []\<rparr>"

definition decide :: "id \<Rightarrow> id option \<Rightarrow> instant \<Rightarrow> db \<Rightarrow> access" where
  "decide userId nodeId now d =
     (let usable = usableGrants userId now d;
          eligible = requested d nodeId (eligibleGrants userId now d);
          sources = requested d nodeId usable;
          choices = accessNodes usable d
      in if sources = []
         then \<lparr>ax_allowed = False,
               ax_reason = (if usable = [] \<or> namesNode d nodeId (liveGrants userId now d)
                            then TrafficExhausted else NodeDenied),
               ax_limits = None, ax_usage = None, ax_nodes = Some choices, ax_eligible = Some (map g_id eligible)\<rparr>
         else
           let spent = concat (map (currentBuckets now d) eligible);
               left = concat (map (currentBuckets now d) sources)
           in \<lparr>ax_allowed = True, ax_reason = AccessOk,
               ax_limits = Some \<lparr>lim_speedUp = largest (map g_speedUp sources),
                 lim_speedDown = largest (map g_speedDown sources), lim_devices = largest (map g_deviceLimit sources)\<rparr>,
               ax_usage = Some \<lparr>au_totalBytes = sum_list (map qb_granted spent),
                 au_consumedBytes = sum_list (map qb_consumed spent),
                 au_remainingBytes = sum_list (map (\<lambda>b. qb_granted b - qb_consumed b) left),
                 au_grants = map (\<lambda>g. (g_id g, g_kind g, map_option cp_name (grantProduct d g), g_endsAt g)) sources\<rparr>,
               ax_nodes = Some choices, ax_eligible = Some (map g_id eligible)\<rparr>)"

definition userActive :: "id \<Rightarrow> db \<Rightarrow> bool" where
  "userActive userId d = (map_option u_status (lookup u_id userId (users d)) = Some UserActive)"

definition resolveAccess :: "id \<Rightarrow> id option \<Rightarrow> instant \<Rightarrow> db \<Rightarrow> access \<times> db" where
  "resolveAccess userId nodeId now d =
     (let d1 = ensureV2CurrentBuckets userId now d
      in (if \<not> userActive userId d1 then deniedUser else decide userId nodeId now d1, d1))"

section \<open>\<open>getNodeAccess\<close>\<close>

definition packLimits :: "db \<Rightarrow> pack_row \<Rightarrow> access_limits" where
  "packLimits d p =
     (let profile = Option.bind (tp_profileId p) (\<lambda>i. lookup ap_id i (profiles d));
          s = Option.bind (tp_subscriptionId p) (\<lambda>i. lookup s_id i (subscriptions d))
      in \<lparr>lim_speedUp = nvl (orElse (map_option ap_speedUpMbps profile) (map_option s_speedUp s)) 0,
          lim_speedDown = nvl (orElse (map_option ap_speedDownMbps profile) (map_option s_speedDown s)) 0,
          lim_devices = nvl (orElse (map_option ap_deviceLimit profile) (map_option s_deviceLimit s)) 1\<rparr>)"

definition subscriptionLimits :: "db \<Rightarrow> subscription_row \<Rightarrow> access_limits" where
  "subscriptionLimits d s =
     (let profile = Option.bind (Option.bind (lookup p_id (s_planId s) (plans d)) p_accessProfileId)
                      (\<lambda>i. lookup ap_id i (profiles d))
      in \<lparr>lim_speedUp = nvl (map_option ap_speedUpMbps profile) (s_speedUp s),
          lim_speedDown = nvl (map_option ap_speedDownMbps profile) (s_speedDown s),
          lim_devices = nvl (map_option ap_deviceLimit profile) (s_deviceLimit s)\<rparr>)"

definition cycleLeft :: "instant \<Rightarrow> db \<Rightarrow> subscription_row \<Rightarrow> bool" where
  "cycleLeft now d s =
     (case List.find (\<lambda>c. sc_subscriptionId c = s_id s \<and> sc_startsAt c \<le> now \<and> now < sc_endsAt c) (cycles d) of
        None \<Rightarrow> False | Some c \<Rightarrow> 0 < cycleRemaining c)"

definition legacyLimits :: "id \<Rightarrow> id \<Rightarrow> instant \<Rightarrow> db \<Rightarrow> access_limits list" where
  "legacyLimits userId nodeId now d =
     map (packLimits d) (filter (\<lambda>p. tp_userId p = userId \<and> legacyPack nodeId now d p) (packs d))
     @ map (subscriptionLimits d)
         (filter (\<lambda>s. s_userId s = userId \<and> legacySubscription nodeId now d s \<and> cycleLeft now d s) (subscriptions d))"

definition widest :: "access_limits list \<Rightarrow> access_limits" where
  "widest ls = \<lparr>lim_speedUp = largest (map lim_speedUp ls), lim_speedDown = largest (map lim_speedDown ls),
     lim_devices = largest (map lim_devices ls)\<rparr>"

definition joinLimits :: "access_limits option \<Rightarrow> access_limits \<Rightarrow> access_limits" where
  "joinLimits v2 legacy =
     (let up = nvl (map_option lim_speedUp v2) 0; down = nvl (map_option lim_speedDown v2) 0;
          devices = nvl (map_option lim_devices v2) 1
      in \<lparr>lim_speedUp = max up (lim_speedUp legacy), lim_speedDown = max down (lim_speedDown legacy),
          lim_devices = max devices (lim_devices legacy)\<rparr>)"

definition joinAccess :: "access \<Rightarrow> access_limits list \<Rightarrow> access" where
  "joinAccess v2 ls =
     (if ls = [] then v2
      else if \<not> ax_allowed v2
      then \<lparr>ax_allowed = True, ax_reason = AccessOk, ax_limits = Some (widest ls), ax_usage = None,
            ax_nodes = None, ax_eligible = None\<rparr>
      else v2\<lparr>ax_limits := Some (joinLimits (ax_limits v2) (widest ls))\<rparr>)"

definition getNodeAccess :: "id \<Rightarrow> id \<Rightarrow> instant \<Rightarrow> db \<Rightarrow> error + (access \<times> db)" where
  "getNodeAccess userId nodeId now d =
     (case resolveAccess userId (Some nodeId) now d of
        (v2, d1) \<Rightarrow>
          if ax_reason v2 = UserNotActive then Inr (v2, d1)
          else
            bindE (ensureCurrentCycles userId now d1) (\<lambda>d2.
            if \<not> userActive userId d2
            then Inr (deniedUser\<lparr>ax_nodes := None, ax_eligible := None\<rparr>, d2)
            else Inr (joinAccess v2 (legacyLimits userId nodeId now d2), d2)))"

section \<open>\<open>getNodeProvisioningUsers\<close>\<close>

definition nodeProvisioningAccessConcurrency :: nat where
  "nodeProvisioningAccessConcurrency = 2"

text \<open>\<open>distinct: ['userId']\<close> keeps the first row of each user.\<close>

fun firstPerUser :: "token_row list \<Rightarrow> token_row list" where
  "firstPerUser [] = []"
| "firstPerUser (t # ts) = t # filter (\<lambda>u. at_userId u \<noteq> at_userId t) (firstPerUser ts)"

definition provisioningTokens :: "db \<Rightarrow> token_row list" where
  "provisioningTokens d = firstPerUser (sort_key at_createdAt
     (filter (\<lambda>t. at_revokedAt t = None \<and> userActive (at_userId t) d) (tokens d)))"

text \<open>The rows of a slice, which the code awaits together, are decided in order.\<close>

fun decideTokens ::
  "id \<Rightarrow> instant \<Rightarrow> token_row list \<Rightarrow> db \<Rightarrow> error + ((token_row \<times> access) list \<times> db)" where
  "decideTokens nodeId now [] d = Inr ([], d)"
| "decideTokens nodeId now (t # ts) d =
     bindE (getNodeAccess (at_userId t) nodeId now d) (\<lambda>(a, d1).
     bindE (decideTokens nodeId now ts d1) (\<lambda>(rest, d2). Inr ((t, a) # rest, d2)))"

function provisioningLoop ::
  "id \<Rightarrow> instant \<Rightarrow> token_row list \<Rightarrow> nat \<Rightarrow> db \<Rightarrow> error + ((token_row \<times> access) list \<times> db)" where
  "provisioningLoop nodeId now ts offset d =
     (if length ts \<le> offset then Inr ([], d)
      else
        bindE (decideTokens nodeId now (take nodeProvisioningAccessConcurrency (drop offset ts)) d) (\<lambda>(now_done, d1).
        bindE (provisioningLoop nodeId now ts (offset + nodeProvisioningAccessConcurrency) d1) (\<lambda>(rest, d2).
        Inr (now_done @ rest, d2))))"
  by pat_completeness auto

termination
  by (relation "measure (\<lambda>(nodeId, now, ts, offset, d). length ts - offset)")
    (auto simp: nodeProvisioningAccessConcurrency_def)

declare provisioningLoop.simps [simp del]

definition getNodeProvisioningUsers :: "id \<Rightarrow> instant \<Rightarrow> db \<Rightarrow> error + ((id \<times> string) list \<times> db)" where
  "getNodeProvisioningUsers nodeId now d =
     bindE (provisioningLoop nodeId now (provisioningTokens d) 0 d) (\<lambda>(decisions, d1).
     Inr (map (\<lambda>(t, a). (at_userId t, at_vlessUuid t)) (filter (\<lambda>(t, a). ax_allowed a) decisions), d1))"

end
