(* ===== verification/AccessLaws.thy ===== *)
theory AccessLaws imports Access QuotaLaws begin

text \<open>
  What the access decisions of \<open>Access\<close> guarantee: when a node is allowed, what the node list of a
  decision holds, and who is provisioned on a node.
\<close>

section \<open>Frames\<close>

lemma addsBuckets_frame:
  assumes "addsBuckets d d'"
  shows "users d' = users d" "grants d' = grants d" "products d' = products d" "profileNodes d' = profileNodes d"
    "nodes d' = nodes d" "subscriptions d' = subscriptions d" "packs d' = packs d" "tokens d' = tokens d"
    "cycles d' = cycles d" "profiles d' = profiles d" "plans d' = plans d"
proof -
  have e: "nonBuckets d' = nonBuckets d" using assms by (simp add: addsBuckets_def)
  show "users d' = users d" "grants d' = grants d" "products d' = products d" "profileNodes d' = profileNodes d"
    "nodes d' = nodes d" "subscriptions d' = subscriptions d" "packs d' = packs d" "tokens d' = tokens d"
    "cycles d' = cycles d" "profiles d' = profiles d" "plans d' = plans d"
    using arg_cong [OF e, of users] arg_cong [OF e, of grants] arg_cong [OF e, of products]
      arg_cong [OF e, of profileNodes] arg_cong [OF e, of nodes] arg_cong [OF e, of subscriptions]
      arg_cong [OF e, of packs] arg_cong [OF e, of tokens] arg_cong [OF e, of cycles]
      arg_cong [OF e, of profiles] arg_cong [OF e, of plans]
    by (simp_all add: nonBuckets_def)
qed

lemmas prepared_frame = addsBuckets_frame [OF ensureV2CurrentBuckets_adds]

lemma userActive_cong: "users d' = users d \<Longrightarrow> userActive u d' = userActive u d"
  by (simp add: userActive_def)

section \<open>When a node is allowed\<close>

lemma usable_iff:
  "g \<in> set (usableGrants u now d) \<longleftrightarrow> g \<in> set (grants d) \<and> g_userId g = u \<and> grantLive now g
     \<and> (needsPlan d g \<longrightarrow> hasPlan u now d)
     \<and> (\<exists>b \<in> set (buckets d). qb_grantId b = g_id g \<and> bucketCurrent now b \<and> qb_consumed b < qb_granted b)"
  by (auto simp: usableGrants_def eligibleGrants_def liveGrants_def currentBuckets_def)

lemma requested_nil_iff: "n \<noteq> [] \<Longrightarrow> requested d (Some n) gs \<noteq> [] \<longleftrightarrow> (\<exists>g \<in> set gs. servesNode d n g)"
  by (auto simp: requested_def filter_empty_conv)

lemma decide_allowed: "ax_allowed (decide u nodeId now d) \<longleftrightarrow> requested d nodeId (usableGrants u now d) \<noteq> []"
  by (simp add: decide_def Let_def)

text \<open>C21: a node is allowed exactly to an active member with a live entitlement that reaches it: one of
  the member's own, with unused bytes in its current period, on a profile that binds the node while
  the node is in service, and with a plan beside it when its product asks for one. A refusal names its
  reason truthfully: \<open>node_denied\<close> only for a member with usable entitlements of which no live one
  binds the node.\<close>

theorem resolveAccess_exact:
  assumes "resolveAccess u (Some n) now d = (r, d')" and "n \<noteq> []"
  shows "(ax_allowed r \<longleftrightarrow> userActive u d \<and> (\<exists>g \<in> set (grants d). g_userId g = u \<and> grantLive now g
      \<and> (needsPlan d' g \<longrightarrow> hasPlan u now d') \<and> servesNode d' n g
      \<and> (\<exists>b \<in> set (buckets d'). qb_grantId b = g_id g \<and> bucketCurrent now b \<and> qb_consumed b < qb_granted b)))
    \<and> (ax_reason r = AccessOk \<longleftrightarrow> ax_allowed r)
    \<and> (ax_reason r = UserNotActive \<longleftrightarrow> \<not> userActive u d)
    \<and> (ax_reason r = NodeDenied \<longrightarrow> usableGrants u now d' \<noteq> []
         \<and> (\<forall>g \<in> set (grants d). g_userId g = u \<and> grantLive now g \<longrightarrow> \<not> (\<exists>p m. (p, m) \<in> set (grantNodes d' g) \<and> n_id m = n)))"
proof -
  have d': "d' = ensureV2CurrentBuckets u now d"
    and r: "r = (if \<not> userActive u d then deniedUser else decide u (Some n) now d')"
    using assms(1) by (auto simp: resolveAccess_def Let_def userActive_def prepared_frame)
  have gs: "grants d' = grants d" unfolding d' by (rule prepared_frame)
  show ?thesis
  proof (cases "userActive u d")
    case False
    then show ?thesis by (simp add: r deniedUser_def)
  next
    case True
    have allowed: "ax_allowed r \<longleftrightarrow> (\<exists>g \<in> set (usableGrants u now d'). servesNode d' n g)"
      using True by (simp add: r decide_allowed requested_nil_iff [OF assms(2)])
    have reason: "ax_reason r = (if requested d' (Some n) (usableGrants u now d') \<noteq> [] then AccessOk
        else if usableGrants u now d' = [] \<or> namesNode d' (Some n) (liveGrants u now d') then TrafficExhausted else NodeDenied)"
      using True by (simp add: r decide_def Let_def)
    have named: "\<not> namesNode d' (Some n) (liveGrants u now d') \<longleftrightarrow>
        (\<forall>g \<in> set (grants d). g_userId g = u \<and> grantLive now g \<longrightarrow> \<not> (\<exists>p m. (p, m) \<in> set (grantNodes d' g) \<and> n_id m = n))"
      using assms(2) by (fastforce simp: namesNode_def liveGrants_def gs)
    have ok: "ax_reason r = AccessOk \<longleftrightarrow> ax_allowed r" "ax_reason r \<noteq> UserNotActive"
      using True by (simp_all add: r decide_def Let_def)
    have "ax_reason r = NodeDenied \<longrightarrow> usableGrants u now d' \<noteq> [] \<and> \<not> namesNode d' (Some n) (liveGrants u now d')"
      by (simp add: reason)
    moreover have "ax_allowed r \<longleftrightarrow> (\<exists>g \<in> set (grants d). g_userId g = u \<and> grantLive now g
        \<and> (needsPlan d' g \<longrightarrow> hasPlan u now d') \<and> servesNode d' n g
        \<and> (\<exists>b \<in> set (buckets d'). qb_grantId b = g_id g \<and> bucketCurrent now b \<and> qb_consumed b < qb_granted b))"
      unfolding allowed Bex_def usable_iff gs by blast
    ultimately show ?thesis using True ok unfolding named by blast
  qed
qed

definition exampleNodeDb :: db where
  "exampleNodeDb = exampleQuotaUser\<lparr>
     profiles := [\<lparr>ap_id = ''prof1'', ap_active = True, ap_speedUpMbps = 100, ap_speedDownMbps = 100, ap_deviceLimit = 3\<rparr>],
     profileNodes := [\<lparr>apn_profileId = ''prof1'', apn_nodeId = ''n1'', apn_priority = 1\<rparr>],
     nodes := [\<lparr>n_id = ''n1'', n_serverId = None, n_label = ''N'', n_active = True, n_lifecycle = LifeActive, n_region = None,
       n_protocol = Hysteria2, n_retiredAt = None,
       n_trafficApiSecret = ''s'', n_controlApiSecret = None\<rparr>],
     tokens := [\<lparr>at_id = ''t1'', at_userId = ''u1'', at_token = ''secret-token'', at_vlessUuid = ''v1'',
       at_createdAt = 1706745600000, at_revokedAt = None, at_lastUsedAt = None\<rparr>]\<rparr>"

theorem resolveAccess_exact_witness:
  "\<exists>r d'. resolveAccess ''u1'' (Some ''n1'') 1709300000000 exampleNodeDb = (r, d') \<and> ax_allowed r \<and> ax_reason r = AccessOk
     \<and> userActive ''u1'' exampleNodeDb"
proof -
  obtain r d' where run: "resolveAccess ''u1'' (Some ''n1'') 1709300000000 exampleNodeDb = (r, d')" by fastforce
  have "ax_allowed (fst (resolveAccess ''u1'' (Some ''n1'') 1709300000000 exampleNodeDb))" by code_simp
  then have "ax_allowed r" using run by simp
  then show ?thesis using resolveAccess_exact [OF run] run by simp
qed

section \<open>The nodes of a decision\<close>

definition choiceOf :: "(int \<times> node_row) list \<Rightarrow> node_choice \<Rightarrow> bool" where
  "choiceOf ps c \<longleftrightarrow> (\<exists>n. (nc_priority c, n) \<in> set ps \<and> serviceable n \<and> n_id n = nc_id c)"

definition offered :: "(int \<times> node_row) list \<Rightarrow> node_choice list \<Rightarrow> bool" where
  "offered ps cs \<longleftrightarrow> distinct (map nc_id cs) \<and> (\<forall>c \<in> set cs. choiceOf ps c)
     \<and> (\<forall>(p, n) \<in> set ps. serviceable n \<longrightarrow> (\<exists>c \<in> set cs. nc_id c = n_id n \<and> nc_priority c \<le> p))"

lemma offered_unique:
  assumes "offered ps cs" and "c \<in> set cs" and "c' \<in> set cs" and "nc_id c = nc_id c'"
  shows "c = c'"
proof -
  have d: "distinct (map nc_id cs)" using assms(1) by (simp add: offered_def)
  have "Some c = lookup nc_id (nc_id c') cs" using lookup_mem [OF d assms(2)] assms(4) by simp
  then show ?thesis using lookup_mem [OF d assms(3)] by simp
qed

lemma offered_skip:
  assumes "offered ps cs" and "serviceable n \<Longrightarrow> \<exists>c \<in> set cs. nc_id c = n_id n \<and> nc_priority c \<le> p"
  shows "offered (ps @ [(p, n)]) cs"
proof -
  have "choiceOf (ps @ [(p, n)]) c" if "c \<in> set cs" for c
    using assms(1) that unfolding offered_def choiceOf_def by fastforce
  then show ?thesis using assms unfolding offered_def by auto
qed

lemma offerNode_offered:
  assumes "offered ps cs"
  shows "offered (ps @ [(p, n)]) (offerNode (p, n) cs)"
proof (cases "serviceable n")
  case False
  then have "offerNode (p, n) cs = cs" by (simp add: offerNode_def)
  then show ?thesis using offered_skip [OF assms, of n p] False by simp
next
  case True
  let ?c = "\<lparr>nc_id = n_id n, nc_label = n_label n, nc_priority = p, nc_region = n_region n\<rparr>"
  show ?thesis
  proof (cases "lookup nc_id (n_id n) cs")
    case None
    have e: "offerNode (p, n) cs = cs @ [?c]" using True None by (simp add: offerNode_def)
    have "distinct (map nc_id (cs @ [?c]))" using None assms by (simp add: offered_def table_simps)
    moreover have "choiceOf (ps @ [(p, n)]) c" if "c \<in> set (cs @ [?c])" for c
      using that assms True by (auto simp: offered_def choiceOf_def)
    moreover have "\<exists>c \<in> set (cs @ [?c]). nc_id c = n_id m \<and> nc_priority c \<le> q"
      if "(q, m) \<in> set (ps @ [(p, n)])" "serviceable m" for q m
    proof (cases "(q, m) \<in> set ps")
      case True
      then show ?thesis using assms that(2) by (fastforce simp: offered_def)
    qed (use that in auto)
    ultimately show ?thesis unfolding e offered_def by blast
  next
    case (Some prior)
    note prior = lookup_SomeD [OF Some]
    show ?thesis
    proof (cases "p < nc_priority prior")
      case False
      then have "offerNode (p, n) cs = cs" using True Some by (simp add: offerNode_def)
      moreover have "\<exists>c \<in> set cs. nc_id c = n_id n \<and> nc_priority c \<le> p" using False prior by force
      ultimately show ?thesis using offered_skip [OF assms, of n p] by simp
    next
      case True2: True
      let ?cs = "update_many (\<lambda>c. nc_id c = n_id n) (\<lambda>_. ?c) cs"
      have e: "offerNode (p, n) cs = ?cs" using True Some True2 by (simp add: offerNode_def)
      have "map nc_id ?cs = map nc_id cs" by (rule map_update_many) simp
      moreover have "choiceOf (ps @ [(p, n)]) c" if "c \<in> set ?cs" for c
        using that assms True by (elim update_many_memE) (auto simp: offered_def choiceOf_def)
      moreover have "\<exists>c \<in> set ?cs. nc_id c = n_id m \<and> nc_priority c \<le> q"
        if qm: "(q, m) \<in> set (ps @ [(p, n)])" "serviceable m" for q m
      proof (cases "n_id m = n_id n")
        case True
        have "p \<le> q"
        proof (cases "(q, m) \<in> set ps")
          case True
          then obtain c where c: "c \<in> set cs" "nc_id c = n_id m" "nc_priority c \<le> q"
            using assms qm(2) by (fastforce simp: offered_def)
          have "c = prior" using offered_unique [OF assms c(1)] c(2) prior \<open>n_id m = n_id n\<close> by simp
          then show ?thesis using c True2 by simp
        qed (use qm in auto)
        moreover have "?c \<in> set ?cs" using prior by (force simp: set_update_many)
        ultimately show ?thesis using True by force
      next
        case False
        then obtain c where "c \<in> set cs" "nc_id c = n_id m" "nc_priority c \<le> q"
          using assms qm by (fastforce simp: offered_def)
        then show ?thesis using False by (force simp: set_update_many)
      qed
      ultimately show ?thesis using assms unfolding e by (auto simp: offered_def)
    qed
  qed
qed

lemma fold_offered: "offered ps (fold offerNode ps [])"
proof (induction ps rule: rev_induct)
  case (snoc x xs)
  then show ?case using offerNode_offered [of xs "fold offerNode xs []" "fst x" "snd x"] by simp
qed (simp add: offered_def)

text \<open>The node list of a decision is sorted by priority and names each node once, with the best
  priority any usable entitlement gives it; it holds the nodes in service of the usable entitlements
  and no others.\<close>

theorem accessNodes_best:
  "sorted (map nc_priority (accessNodes gs d)) \<and> distinct (map nc_id (accessNodes gs d))
   \<and> (\<forall>i p. (\<exists>c \<in> set (accessNodes gs d). nc_id c = i \<and> nc_priority c = p) \<longleftrightarrow>
        (\<exists>g \<in> set gs. \<exists>n. (p, n) \<in> set (grantNodes d g) \<and> n_id n = i \<and> serviceable n)
        \<and> (\<forall>g \<in> set gs. \<forall>(q, n) \<in> set (grantNodes d g). n_id n = i \<and> serviceable n \<longrightarrow> p \<le> q))"
proof -
  let ?ps = "concat (map (grantNodes d) gs)"
  have o: "offered ?ps (fold offerNode ?ps [])" by (rule fold_offered)
  have s: "set (accessNodes gs d) = set (fold offerNode ?ps [])" by (simp add: accessNodes_def)
  have dist: "distinct (map nc_id (accessNodes gs d))"
    using o by (simp add: accessNodes_def offered_def distinct_map)
  have best: "(\<exists>c \<in> set (accessNodes gs d). nc_id c = i \<and> nc_priority c = p) \<longleftrightarrow>
        (\<exists>n. (p, n) \<in> set ?ps \<and> n_id n = i \<and> serviceable n)
        \<and> (\<forall>(q, n) \<in> set ?ps. n_id n = i \<and> serviceable n \<longrightarrow> p \<le> q)" for i p
  proof
    assume "\<exists>c \<in> set (accessNodes gs d). nc_id c = i \<and> nc_priority c = p"
    then obtain c where c: "c \<in> set (fold offerNode ?ps [])" "nc_id c = i" "nc_priority c = p" using s by auto
    have "p \<le> q" if qn: "(q, n) \<in> set ?ps" "n_id n = i" "serviceable n" for q n
    proof -
      obtain c' where c': "c' \<in> set (fold offerNode ?ps [])" "nc_id c' = i" "nc_priority c' \<le> q"
        using o qn unfolding offered_def by fastforce
      have "c' = c" using offered_unique [OF o c'(1) c(1)] c(2) c'(2) by simp
      then show ?thesis using c(3) c'(3) by simp
    qed
    moreover have "choiceOf ?ps c" using o c(1) unfolding offered_def by blast
    ultimately show "(\<exists>n. (p, n) \<in> set ?ps \<and> n_id n = i \<and> serviceable n)
        \<and> (\<forall>(q, n) \<in> set ?ps. n_id n = i \<and> serviceable n \<longrightarrow> p \<le> q)"
      using c(2,3) unfolding choiceOf_def by blast
  next
    assume h: "(\<exists>n. (p, n) \<in> set ?ps \<and> n_id n = i \<and> serviceable n)
        \<and> (\<forall>(q, n) \<in> set ?ps. n_id n = i \<and> serviceable n \<longrightarrow> p \<le> q)"
    then obtain n where n: "(p, n) \<in> set ?ps" "n_id n = i" "serviceable n" by blast
    then obtain c where c: "c \<in> set (fold offerNode ?ps [])" "nc_id c = i" "nc_priority c \<le> p"
      using o unfolding offered_def by fastforce
    then obtain m where "(nc_priority c, m) \<in> set ?ps" "serviceable m" "n_id m = i"
      using o unfolding offered_def choiceOf_def by blast
    then have "p \<le> nc_priority c" using h by blast
    then show "\<exists>c \<in> set (accessNodes gs d). nc_id c = i \<and> nc_priority c = p" using c s by force
  qed
  have order: "sorted (map nc_priority (accessNodes gs d))" by (simp add: accessNodes_def)
  have flat: "(\<exists>g \<in> set gs. \<exists>n. (p, n) \<in> set (grantNodes d g) \<and> n_id n = i \<and> serviceable n)
        \<longleftrightarrow> (\<exists>n. (p, n) \<in> set ?ps \<and> n_id n = i \<and> serviceable n)"
    "(\<forall>g \<in> set gs. \<forall>(q, n) \<in> set (grantNodes d g). n_id n = i \<and> serviceable n \<longrightarrow> p \<le> q)
        \<longleftrightarrow> (\<forall>(q, n) \<in> set ?ps. n_id n = i \<and> serviceable n \<longrightarrow> p \<le> q)" for i p
    by auto
  show ?thesis unfolding flat by (intro conjI allI order dist best)
qed

theorem accessNodes_best_witness:
  "distinct (map nc_id (accessNodes [exampleGrant] exampleNodeDb))
   \<and> (\<exists>c \<in> set (accessNodes [exampleGrant] exampleNodeDb). nc_id c = ''n1'' \<and> nc_priority c = 1)"
proof -
  have gn: "grantNodes exampleNodeDb exampleGrant = [(1, \<lparr>n_id = ''n1'', n_serverId = None, n_label = ''N'',
      n_active = True, n_lifecycle = LifeActive, n_region = None,
       n_protocol = Hysteria2, n_retiredAt = None,
       n_trafficApiSecret = ''s'', n_controlApiSecret = None\<rparr>)]"
    by (simp add: grantNodes_def exampleNodeDb_def exampleGrant_def map_filter_simps)
  have "\<exists>c \<in> set (accessNodes [exampleGrant] exampleNodeDb). nc_id c = ''n1'' \<and> nc_priority c = 1"
    using accessNodes_best [of "[exampleGrant]" exampleNodeDb] by (simp add: gn serviceable_def)
  then show ?thesis using accessNodes_best by blast
qed

section \<open>Provisioning\<close>

lemma firstPerUser_distinct: "distinct (map at_userId (firstPerUser ts))"
  by (induction ts) (auto simp: distinct_map_filter)

lemma firstPerUser_earliest:
  "sorted (map at_createdAt ts) \<Longrightarrow> t \<in> set (firstPerUser ts) \<Longrightarrow>
   t \<in> set ts \<and> (\<forall>u \<in> set ts. at_userId u = at_userId t \<longrightarrow> at_createdAt t \<le> at_createdAt u)"
  by (induction ts) auto

lemma firstPerUser_complete: "t \<in> set ts \<Longrightarrow> \<exists>u \<in> set (firstPerUser ts). at_userId u = at_userId t"
proof (induction ts)
  case (Cons a ts)
  show ?case
  proof (cases "at_userId t = at_userId a")
    case False
    then obtain u where "u \<in> set (firstPerUser ts)" "at_userId u = at_userId t" using Cons by auto
    then show ?thesis using False by (intro bexI [of _ u]) auto
  qed simp
qed simp

lemma bindE_cong: "(\<And>x. m = Inr x \<Longrightarrow> f x = f' x) \<Longrightarrow> bindE m f = bindE m f'"
  by (cases m) auto

lemma decideTokens_append:
  "decideTokens nodeId now (xs @ ys) d =
     bindE (decideTokens nodeId now xs d) (\<lambda>(as, d1).
     bindE (decideTokens nodeId now ys d1) (\<lambda>(bs, d2). Inr (as @ bs, d2)))"
proof (induction xs arbitrary: d)
  case Nil
  show ?case by (cases "decideTokens nodeId now ys d") auto
next
  case (Cons x xs)
  show ?case
    by (cases "getNodeAccess (at_userId x) nodeId now d")
      (auto simp: Cons.IH bindE_assoc split_beta intro!: bindE_cong)
qed

text \<open>The slices of the loop make no difference: it decides the tokens one after the other.\<close>

lemma provisioningLoop_plain:
  "provisioningLoop nodeId now ts offset d = decideTokens nodeId now (drop offset ts) d"
proof (induction nodeId now ts offset d rule: provisioningLoop.induct)
  case (1 nodeId now ts offset d)
  let ?n = nodeProvisioningAccessConcurrency
  show ?case
  proof (cases "length ts \<le> offset")
    case True
    then show ?thesis by (subst provisioningLoop.simps) simp
  next
    case False
    have "drop offset ts = take ?n (drop offset ts) @ drop (offset + ?n) ts"
      by (simp add: add.commute flip: drop_drop)
    then have "decideTokens nodeId now (drop offset ts) d =
        bindE (decideTokens nodeId now (take ?n (drop offset ts)) d) (\<lambda>(as, d1).
        bindE (decideTokens nodeId now (drop (offset + ?n) ts) d1) (\<lambda>(bs, d2). Inr (as @ bs, d2)))"
      using decideTokens_append by metis
    moreover have "provisioningLoop nodeId now ts offset d =
        bindE (decideTokens nodeId now (take ?n (drop offset ts)) d) (\<lambda>(as, d1).
        bindE (provisioningLoop nodeId now ts (offset + ?n) d1) (\<lambda>(bs, d2). Inr (as @ bs, d2)))"
      using False by (subst provisioningLoop.simps) simp
    ultimately show ?thesis using 1 [OF False] by (auto simp: split_beta intro!: bindE_cong)
  qed
qed

end
