(* ===== verification/Provisioning.thy ===== *)
theory Provisioning imports AccessLaws begin

text \<open>
  Who is provisioned on a node. The loop of \<open>getNodeProvisioningUsers\<close> decides two members at a time
  and every decision may open quota periods. The decisions do not depend on that: each is the one the
  member would get alone, because a decision reads only the member's own periods and opens no others.
\<close>

section \<open>What a decision reads\<close>

definition bucketView :: "bucket_row \<Rightarrow> bucket_kind \<times> instant \<times> instant \<times> int \<times> int" where
  "bucketView b = (qb_kind b, qb_startsAt b, qb_endsAt b, qb_granted b, qb_consumed b)"

definition cycleView :: "cycle_row \<Rightarrow> instant \<times> instant \<times> int \<times> int \<times> int" where
  "cycleView c = (sc_startsAt c, sc_endsAt c, sc_granted c, sc_adjustment c, sc_consumed c)"

definition grantView :: "db \<Rightarrow> id \<Rightarrow> (bucket_kind \<times> instant \<times> instant \<times> int \<times> int) list" where
  "grantView d i = map bucketView (filter (\<lambda>b. qb_grantId b = i) (buckets d))"

definition cyclesView :: "db \<Rightarrow> id \<Rightarrow> (instant \<times> instant \<times> int \<times> int \<times> int) list" where
  "cyclesView d i = map cycleView (filter (\<lambda>c. sc_subscriptionId c = i) (cycles d))"

definition fixedTables :: "db \<Rightarrow> db" where
  "fixedTables d = d\<lparr>buckets := [], cycles := [], db_next := 0\<rparr>"

definition sameFor :: "id \<Rightarrow> db \<Rightarrow> db \<Rightarrow> bool" where
  "sameFor u d d' \<longleftrightarrow> fixedTables d' = fixedTables d
     \<and> (\<forall>g \<in> set (grants d). g_userId g = u \<longrightarrow> grantView d' (g_id g) = grantView d (g_id g))
     \<and> (\<forall>s \<in> set (subscriptions d). s_userId s = u \<longrightarrow> cyclesView d' (s_id s) = cyclesView d (s_id s))"

lemma fixed_tables:
  assumes "fixedTables d' = fixedTables d"
  shows "users d' = users d" "grants d' = grants d" "products d' = products d" "profileNodes d' = profileNodes d"
    "nodes d' = nodes d" "subscriptions d' = subscriptions d" "packs d' = packs d" "profiles d' = profiles d"
    "plans d' = plans d" "planOffers d' = planOffers d" "offers d' = offers d" "tokens d' = tokens d"
    "db_now d' = db_now d"
  using arg_cong [OF assms, of users] arg_cong [OF assms, of grants] arg_cong [OF assms, of products]
    arg_cong [OF assms, of profileNodes] arg_cong [OF assms, of nodes] arg_cong [OF assms, of subscriptions]
    arg_cong [OF assms, of packs] arg_cong [OF assms, of profiles] arg_cong [OF assms, of plans]
    arg_cong [OF assms, of planOffers] arg_cong [OF assms, of offers] arg_cong [OF assms, of tokens]
    arg_cong [OF assms, of db_now]
  by (simp_all add: fixedTables_def)

lemma sameFor_refl: "sameFor u d d"
  by (simp add: sameFor_def)

lemma sameFor_trans: "sameFor u d d' \<Longrightarrow> sameFor u d' d'' \<Longrightarrow> sameFor u d d''"
  using fixed_tables(2,6) [of d' d] by (auto simp: sameFor_def)

lemma sameFor_fixed: "sameFor u d d' \<Longrightarrow> fixedTables d' = fixedTables d"
  by (simp add: sameFor_def)

lemmas sameFor_tables = fixed_tables [OF sameFor_fixed]

lemma sameFor_grantView:
  "sameFor u d d' \<Longrightarrow> g \<in> set (grants d) \<Longrightarrow> g_userId g = u \<Longrightarrow> grantView d' (g_id g) = grantView d (g_id g)"
  by (simp add: sameFor_def)

lemma sameFor_cyclesView:
  "sameFor u d d' \<Longrightarrow> s \<in> set (subscriptions d) \<Longrightarrow> s_userId s = u \<Longrightarrow> cyclesView d' (s_id s) = cyclesView d (s_id s)"
  by (simp add: sameFor_def)

section \<open>Opening a period of an entitlement\<close>

lemma bucket_in_view:
  "(\<exists>b \<in> set (buckets d). qb_grantId b = i \<and> P (bucketView b)) \<longleftrightarrow> (\<exists>v \<in> set (grantView d i). P v)"
  by (auto simp: grantView_def)

lemma current_in_view:
  "(\<exists>b \<in> set (buckets d). qb_grantId b = i \<and> bucketCurrent now b)
     \<longleftrightarrow> (\<exists>(k, s, e, n, c) \<in> set (grantView d i). s \<le> now \<and> now < e)"
  by (force simp: grantView_def bucketView_def bucketCurrent_def)

lemma key_in_view:
  "(i, s) \<in> bucketKey ` set (buckets d) \<longleftrightarrow> (\<exists>(k, s', e, n, c) \<in> set (grantView d i). s' = s)"
  by (force simp: grantView_def bucketView_def bucketKey_def)

definition openedFor :: "id \<Rightarrow> db \<Rightarrow> db \<Rightarrow> bool" where
  "openedFor i d d' \<longleftrightarrow> fixedTables d' = fixedTables d \<and> cycles d' = cycles d
     \<and> (\<forall>j. j \<noteq> i \<longrightarrow> grantView d' j = grantView d j)"

lemma upsertBucket_view:
  "grantView (upsertBucket i k s e n m d) j =
     (if j = i \<and> \<not> (\<exists>(k', s', e', n', c') \<in> set (grantView d i). s' = s) then grantView d j @ [(k, s, e, n, 0)]
      else grantView d j)"
  unfolding key_in_view [symmetric] by (auto simp: upsertBucket_def grantView_def newBucket_def bucketView_def)

lemma upsertBucket_opens: "openedFor i d (upsertBucket i k s e n m d)"
  by (auto simp: openedFor_def upsertBucket_view) (simp_all add: upsertBucket_def fixedTables_def drawId_def)

lemma ensureGrantBucket_opens: "openedFor (g_id g) d (ensureGrantBucket now d0 g d)"
  by (auto simp: ensureGrantBucket_def ensureBucket_def Let_def upsertBucket_opens split: option.splits)
    (simp add: openedFor_def)+

lemma ensureGrantBucket_same:
  assumes s: "sameFor u d d'" and s0: "sameFor u d0 d0'" and tabs: "fixedTables d = fixedTables d0"
    and g: "g \<in> set (grants d0)" "g_userId g = u"
  shows "sameFor u (ensureGrantBucket now d0 g d) (ensureGrantBucket now d0' g d')"
proof -
  have gd: "g \<in> set (grants d)" using g(1) fixed_tables(2) [OF tabs] by simp
  have offer: "grantOffer g d0' = grantOffer g d0"
    unfolding grantOffer_def sameFor_tables(11) [OF s0] ..
  have cur: "(\<exists>b \<in> set (buckets d0'). qb_grantId b = g_id g \<and> bucketCurrent now b)
      \<longleftrightarrow> (\<exists>b \<in> set (buckets d0). qb_grantId b = g_id g \<and> bucketCurrent now b)"
    unfolding current_in_view sameFor_grantView [OF s0 g] ..
  have views: "grantView (upsertBucket (g_id g) k a b n m d') (g_id h) = grantView (upsertBucket (g_id g) k a b n m d) (g_id h)"
    if "h \<in> set (grants d)" "g_userId h = u" for k a b n m h
    unfolding upsertBucket_view sameFor_grantView [OF s gd g(2)] sameFor_grantView [OF s that] ..
  have "sameFor u (upsertBucket (g_id g) k a b n m d) (upsertBucket (g_id g) k a b n m d')" for k a b n m
    using views s upsertBucket_opens [of "g_id g" d k a b n m] upsertBucket_opens [of "g_id g" d' k a b n m]
      fixed_tables(2,6) [of "upsertBucket (g_id g) k a b n m d" d]
    by (simp add: sameFor_def openedFor_def cyclesView_def)
  then show ?thesis using s
    by (auto simp: ensureGrantBucket_def ensureBucket_def Let_def offer cur split: option.splits)
qed

lemma fold_ensure_same:
  assumes "sameFor u d0 d0'" and "\<forall>g \<in> set gs. g \<in> set (grants d0) \<and> g_userId g = u"
    and "sameFor u d d'" and "fixedTables d = fixedTables d0"
  shows "sameFor u (fold (ensureGrantBucket now d0) gs d) (fold (ensureGrantBucket now d0') gs d')"
  using assms(2-)
proof (induction gs arbitrary: d d')
  case (Cons g gs)
  have "sameFor u (ensureGrantBucket now d0 g d) (ensureGrantBucket now d0' g d')"
    by (rule ensureGrantBucket_same [OF Cons.prems(2) assms(1) Cons.prems(3)]) (use Cons.prems(1) in auto)
  moreover have "fixedTables (ensureGrantBucket now d0 g d) = fixedTables d0"
    using ensureGrantBucket_opens [of g d now d0] Cons.prems(3) by (simp add: openedFor_def)
  ultimately show ?case using Cons.IH Cons.prems(1) by simp
qed simp

lemma ensureV2_same:
  assumes "sameFor u d d'"
  shows "sameFor u (ensureV2CurrentBuckets u now d) (ensureV2CurrentBuckets u now d')"
proof -
  have "monthlyGrants u now d' = monthlyGrants u now d"
    by (simp add: monthlyGrants_def sameFor_tables [OF assms])
  moreover have "sameFor u (fold (ensureGrantBucket now d) (monthlyGrants u now d) d)
      (fold (ensureGrantBucket now d') (monthlyGrants u now d) d')"
    by (rule fold_ensure_same [OF assms _ assms]) (auto simp: monthlyGrants_def)
  ultimately show ?thesis by (simp add: ensureV2CurrentBuckets_def)
qed

lemma ensureV2_other:
  assumes "u \<noteq> v" and "distinct (map g_id (grants d))"
  shows "sameFor u d (ensureV2CurrentBuckets v now d)"
proof -
  have "fixedTables (fold (ensureGrantBucket now d0) gs x) = fixedTables x
      \<and> cycles (fold (ensureGrantBucket now d0) gs x) = cycles x
      \<and> (\<forall>j. j \<notin> g_id ` set gs \<longrightarrow> grantView (fold (ensureGrantBucket now d0) gs x) j = grantView x j)" for d0 gs x
    using ensureGrantBucket_opens [of _ _ now d0]
    by (induction gs arbitrary: x) (auto simp: openedFor_def)
  moreover have "g_id g \<notin> g_id ` set (monthlyGrants v now d)" if "g \<in> set (grants d)" "g_userId g = u" for g
    using that assms by (auto simp: monthlyGrants_def distinct_map dest: inj_onD)
  ultimately show ?thesis by (simp add: ensureV2CurrentBuckets_def sameFor_def cyclesView_def)
qed

section \<open>The decision on entitlements\<close>

lemma currentBuckets_view:
  "map bucketView (currentBuckets now d g) = filter (\<lambda>(k, s, e, n, c). s \<le> now \<and> now < e) (grantView d (g_id g))"
proof -
  have "map bucketView (filter (\<lambda>b. qb_grantId b = i \<and> bucketCurrent now b) bs)
      = filter (\<lambda>(k, s, e, n, c). s \<le> now \<and> now < e) (map bucketView (filter (\<lambda>b. qb_grantId b = i) bs))" for bs i
    by (induction bs) (auto simp: bucketView_def bucketCurrent_def)
  then show ?thesis by (simp add: currentBuckets_def grantView_def)
qed

lemma view_sums:
  assumes "map bucketView xs = map bucketView ys"
  shows "map qb_granted xs = map qb_granted ys" "map qb_consumed xs = map qb_consumed ys"
    "map (\<lambda>b. qb_granted b - qb_consumed b) xs = map (\<lambda>b. qb_granted b - qb_consumed b) ys"
    "(\<exists>b \<in> set xs. qb_consumed b < qb_granted b) \<longleftrightarrow> (\<exists>b \<in> set ys. qb_consumed b < qb_granted b)"
proof -
  have "map f xs = map f ys" if "\<And>b. f b = h (bucketView b)" for f :: "bucket_row \<Rightarrow> int" and h
  proof -
    have "f = h \<circ> bucketView" using that by auto
    then show ?thesis using arg_cong [OF assms, of "map h"] by simp
  qed
  from this [of qb_granted "\<lambda>(k, s, e, n, c). n"] this [of qb_consumed "\<lambda>(k, s, e, n, c). c"]
    this [of "\<lambda>b. qb_granted b - qb_consumed b" "\<lambda>(k, s, e, n, c). n - c"]
  show "map qb_granted xs = map qb_granted ys" "map qb_consumed xs = map qb_consumed ys"
    "map (\<lambda>b. qb_granted b - qb_consumed b) xs = map (\<lambda>b. qb_granted b - qb_consumed b) ys"
    by (simp_all add: bucketView_def)
  have key: "(\<exists>b \<in> set zs. qb_consumed b < qb_granted b) \<longleftrightarrow> (\<exists>(k, s, e, n, c) \<in> set (map bucketView zs). c < n)" for zs
    by (auto simp: bucketView_def)
  show "(\<exists>b \<in> set xs. qb_consumed b < qb_granted b) \<longleftrightarrow> (\<exists>b \<in> set ys. qb_consumed b < qb_granted b)"
    unfolding key assms ..
qed

lemma currentBuckets_same:
  assumes "sameFor u d d'" and "\<forall>g \<in> set gs. g \<in> set (grants d) \<and> g_userId g = u"
  shows "map bucketView (concat (map (currentBuckets now d') gs)) = map bucketView (concat (map (currentBuckets now d) gs))"
  using assms(2)
  by (induction gs) (auto simp: currentBuckets_view sameFor_grantView [OF assms(1)])

lemma decide_same:
  assumes "sameFor u d d'"
  shows "decide u nodeId now d' = decide u nodeId now d"
proof -
  note tabs = sameFor_tables [OF assms]
  have live: "liveGrants u now d' = liveGrants u now d" by (simp add: liveGrants_def tabs)
  have own: "g \<in> set (liveGrants u now d) \<Longrightarrow> g \<in> set (grants d) \<and> g_userId g = u" for g
    by (auto simp: liveGrants_def)
  have prod: "grantProduct d' = grantProduct d" "needsPlan d' = needsPlan d" "grantNodes d' = grantNodes d"
    "servesNode d' = servesNode d"
    by (auto simp: fun_eq_iff grantProduct_def needsPlan_def grantNodes_def servesNode_def tabs)
  have el: "eligibleGrants u now d' = eligibleGrants u now d"
    by (simp add: eligibleGrants_def live prod hasPlan_def tabs)
  have us: "usableGrants u now d' = usableGrants u now d"
    unfolding usableGrants_def el
  proof (rule filter_cong [OF refl])
    fix g assume "g \<in> set (eligibleGrants u now d)"
    then have "\<forall>h \<in> set [g]. h \<in> set (grants d) \<and> g_userId h = u" using own by (auto simp: eligibleGrants_def)
    from view_sums(4) [OF currentBuckets_same [OF assms this]]
    show "(\<exists>b \<in> set (currentBuckets now d' g). qb_consumed b < qb_granted b)
        = (\<exists>b \<in> set (currentBuckets now d g). qb_consumed b < qb_granted b)" by simp
  qed
  have rq: "requested d' = requested d" "namesNode d' = namesNode d"
    by (auto simp: fun_eq_iff requested_def namesNode_def prod split: option.split)
  have an: "accessNodes gs d' = accessNodes gs d" for gs by (simp add: accessNodes_def prod)
  have sums: "map qb_granted (concat (map (currentBuckets now d') gs)) = map qb_granted (concat (map (currentBuckets now d) gs))"
    "map qb_consumed (concat (map (currentBuckets now d') gs)) = map qb_consumed (concat (map (currentBuckets now d) gs))"
    "map (\<lambda>b. qb_granted b - qb_consumed b) (concat (map (currentBuckets now d') gs))
      = map (\<lambda>b. qb_granted b - qb_consumed b) (concat (map (currentBuckets now d) gs))"
    if "set gs \<subseteq> set (liveGrants u now d)" for gs
    using view_sums(1-3) [OF currentBuckets_same [OF assms, of gs now]] that own by blast+
  have sub: "set (requested d nodeId (eligibleGrants u now d)) \<subseteq> set (liveGrants u now d)"
    "set (requested d nodeId (usableGrants u now d)) \<subseteq> set (liveGrants u now d)"
    by (auto simp: requested_def usableGrants_def eligibleGrants_def split: option.splits if_splits)
  show ?thesis
    unfolding decide_def live el us rq an prod Let_def sums [OF sub(1)] sums [OF sub(2)] ..
qed

lemma resolveAccess_same:
  assumes "sameFor u d d'"
  shows "fst (resolveAccess u nodeId now d') = fst (resolveAccess u nodeId now d)
    \<and> sameFor u (snd (resolveAccess u nodeId now d)) (snd (resolveAccess u nodeId now d'))"
proof -
  note s = ensureV2_same [OF assms, of now]
  then show ?thesis
    by (simp add: resolveAccess_def Let_def decide_same [OF s] userActive_cong [OF sameFor_tables(1) [OF s]])
qed

section \<open>The decision on legacy subscriptions and packs\<close>

lemma cycle_in_view:
  "(\<exists>c \<in> set (cycles d). sc_subscriptionId c = i \<and> P (sc_startsAt c) (sc_endsAt c))
     \<longleftrightarrow> (\<exists>(s, e, r) \<in> set (cyclesView d i). P s e)"
  by (force simp: cyclesView_def cycleView_def)

definition sameOutcome :: "id \<Rightarrow> error + db \<Rightarrow> error + db \<Rightarrow> bool" where
  "sameOutcome u r r' \<longleftrightarrow>
     (case r of Inl e \<Rightarrow> r' = Inl e | Inr d \<Rightarrow> (case r' of Inl _ \<Rightarrow> False | Inr d' \<Rightarrow> sameFor u d d'))"

lemma sameOutcome_simps [simp]:
  "sameOutcome u (Inl e) r' \<longleftrightarrow> r' = Inl e" "sameOutcome u (Inr d) (Inr d') \<longleftrightarrow> sameFor u d d'"
  by (simp_all add: sameOutcome_def)

lemma sameOutcome_bind:
  assumes "sameOutcome u r r'" and "\<And>d d'. r = Inr d \<Longrightarrow> sameFor u d d' \<Longrightarrow> sameOutcome u (f d) (f' d')"
  shows "sameOutcome u (bindE r f) (bindE r' f')"
proof (cases r)
  case (Inr d)
  then obtain d' where "r' = Inr d'" "sameFor u d d'" using assms(1) by (auto simp: sameOutcome_def split: sum.splits)
  then show ?thesis using assms(2) [OF Inr] Inr by simp
qed (use assms(1) in simp)

definition openCycle :: "subscription_row \<Rightarrow> instant \<Rightarrow> db \<Rightarrow> error + db" where
  "openCycle s now d = bindE (ensureCurrentCycleInTransaction s now d) (\<lambda>(_, d2). Inr d2)"

definition withCycle :: "cycle_row \<Rightarrow> db \<Rightarrow> db" where
  "withCycle c d = (drawId d)\<lparr>cycles := cycles d @ [c]\<rparr>"

text \<open>What opening a cycle comes to, with the cycles it reads named.\<close>

lemma openCycle_cases:
  "openCycle s now d =
     (if (\<exists>c \<in> set (cycles d). sc_subscriptionId c = s_id s \<and> sc_startsAt c \<le> now \<and> now < sc_endsAt c)
         \<or> now < s_startsAt s \<or> s_endsAt s \<le> now then Inr d
      else
        let offer = (case s_planOfferId s of None \<Rightarrow> None | Some i \<Rightarrow> lookup po_id i (planOffers d));
            b = monthlyCycleBounds (s_startsAt s) (s_endsAt s) now
        in if offer = None \<or> map_option po_billingPeriod offer = Some Legacy
           then if \<exists>c \<in> set (cycles d). sc_subscriptionId c = s_id s \<and> sc_startsAt c = s_startsAt s
                then Inl (PrismaKnown ''P2002'')
                else Inr (withCycle (newCycle (freshId d) (s_id s) (s_startsAt s) (s_endsAt s)
                            (s_included s + s_bonus s) (s_consumed s) True) d)
           else if \<exists>c \<in> set (cycles d). sc_subscriptionId c = s_id s \<and> sc_startsAt c = cb_startsAt b then Inr d
           else bindE (require (PrismaKnown ''inconsistent'') (lookup p_id (s_planId s) (plans d))) (\<lambda>plan.
                  Inr (withCycle (newCycle (freshId d) (s_id s) (cb_startsAt b) (cb_endsAt b) (p_trafficBytes plan) 0 False) d)))"
proof -
  have cur: "currentCycle (s_id s) now d = None \<longleftrightarrow>
      \<not> (\<exists>c \<in> set (cycles d). sc_subscriptionId c = s_id s \<and> sc_startsAt c \<le> now \<and> now < sc_endsAt c)"
    by (auto simp: currentCycle_def order_desc_def filter_empty_conv dest: arg_cong [where f = length])
  have clash: "(\<exists>c \<in> set (cycles d). cycleClash c (newCycle i (s_id s) t e n m l)) \<longleftrightarrow>
      (\<exists>c \<in> set (cycles d). sc_subscriptionId c = s_id s \<and> sc_startsAt c = t)" for i t e n m l
    by (auto simp: cycleClash_def newCycle_def)
  show ?thesis
  proof (cases "currentCycle (s_id s) now d")
    case (Some c)
    then have ex: "\<exists>c \<in> set (cycles d). sc_subscriptionId c = s_id s \<and> sc_startsAt c \<le> now \<and> now < sc_endsAt c"
      using cur Some by auto
    show ?thesis unfolding if_P [OF disjI1 [OF ex]] by (simp add: openCycle_def ensureCurrentCycleInTransaction_def Some)
  next
    case None
    then have nex: "\<not> (\<exists>c \<in> set (cycles d). sc_subscriptionId c = s_id s \<and> sc_startsAt c \<le> now \<and> now < sc_endsAt c)"
      using cur by simp
    define offer where "offer = (case s_planOfferId s of None \<Rightarrow> None | Some i \<Rightarrow> lookup po_id i (planOffers d))"
    let ?b = "monthlyCycleBounds (s_startsAt s) (s_endsAt s) now"
    have run: "openCycle s now d =
        (if now < s_startsAt s \<or> s_endsAt s \<le> now then Inr d
         else if offer = None \<or> map_option po_billingPeriod offer = Some Legacy
           then if \<exists>c \<in> set (cycles d). sc_subscriptionId c = s_id s \<and> sc_startsAt c = s_startsAt s
                then Inl (PrismaKnown ''P2002'')
                else Inr (withCycle (newCycle (freshId d) (s_id s) (s_startsAt s) (s_endsAt s)
                            (s_included s + s_bonus s) (s_consumed s) True) d)
         else case List.find (\<lambda>c. sc_subscriptionId c = s_id s \<and> sc_startsAt c = cb_startsAt ?b) (cycles d) of
             Some c \<Rightarrow> Inr d
           | None \<Rightarrow> bindE (require (PrismaKnown ''inconsistent'') (lookup p_id (s_planId s) (plans d))) (\<lambda>plan.
                  Inr (withCycle (newCycle (freshId d) (s_id s) (cb_startsAt ?b) (cb_endsAt ?b) (p_trafficBytes plan) 0 False) d)))"
    proof -
      define taken where "taken \<longleftrightarrow> (\<exists>c \<in> set (cycles d). sc_subscriptionId c = s_id s \<and> sc_startsAt c = s_startsAt s)"
      show ?thesis
        unfolding openCycle_def ensureCurrentCycleInTransaction_def None option.case offer_def [symmetric]
        unfolding Let_def insert_unique_def clash
        unfolding withCycle_def taken_def [symmetric]
        by (cases "lookup p_id (s_planId s) (plans d)"; cases taken; cases offer) (simp_all split: option.split)
    qed
    have found: "(case List.find P (cycles d) of Some c \<Rightarrow> x | None \<Rightarrow> y)
        = (if \<exists>c \<in> set (cycles d). P c then x else y)" for P and x y :: "error + db"
      by (auto simp: find_None_iff split: option.split) (auto simp: find_Some_iff)
    show ?thesis unfolding run found Let_def offer_def [symmetric] by (simp only: nex simp_thms)
  qed
qed

lemma withCycle_view:
  "cyclesView (withCycle c d) i = (if i = sc_subscriptionId c then cyclesView d i @ [cycleView c] else cyclesView d i)"
  by (simp add: withCycle_def cyclesView_def)

lemma withCycle_frame: "fixedTables (withCycle c d) = fixedTables d" "grantView (withCycle c d) i = grantView d i"
  by (simp_all add: withCycle_def fixedTables_def grantView_def drawId_def)

lemma withCycle_same:
  assumes "sameFor u d d'" and "sc_subscriptionId c' = sc_subscriptionId c" "cycleView c' = cycleView c"
  shows "sameFor u (withCycle c d) (withCycle c' d')"
proof -
  have "cyclesView (withCycle c' d') (s_id s) = cyclesView (withCycle c d) (s_id s)"
    if "s \<in> set (subscriptions d)" "s_userId s = u" for s
    using assms(2,3) sameFor_cyclesView [OF assms(1) that] by (auto simp: withCycle_view)
  then show ?thesis using assms(1) fixed_tables(2,6) [OF withCycle_frame(1), of c d]
    by (simp add: sameFor_def withCycle_frame)
qed

lemma openCycle_same:
  assumes same: "sameFor u d d'" and s: "s \<in> set (subscriptions d)" "s_userId s = u"
  shows "sameOutcome u (openCycle s now d) (openCycle s now d')"
proof -
  note tabs = sameFor_tables [OF same]
  have ex: "(\<exists>c \<in> set (cycles d'). sc_subscriptionId c = s_id s \<and> P (sc_startsAt c) (sc_endsAt c))
      \<longleftrightarrow> (\<exists>c \<in> set (cycles d). sc_subscriptionId c = s_id s \<and> P (sc_startsAt c) (sc_endsAt c))" for P
    unfolding cycle_in_view sameFor_cyclesView [OF same s] ..
  have found: "(\<exists>c \<in> set (cycles d'). sc_subscriptionId c = s_id s \<and> sc_startsAt c \<le> now \<and> now < sc_endsAt c)
      \<longleftrightarrow> (\<exists>c \<in> set (cycles d). sc_subscriptionId c = s_id s \<and> sc_startsAt c \<le> now \<and> now < sc_endsAt c)"
    by (rule ex)
  have starts: "(\<exists>c \<in> set (cycles d'). sc_subscriptionId c = s_id s \<and> sc_startsAt c = t)
      \<longleftrightarrow> (\<exists>c \<in> set (cycles d). sc_subscriptionId c = s_id s \<and> sc_startsAt c = t)" for t
    by (rule ex)
  have add: "sameFor u (withCycle (newCycle (freshId d) (s_id s) a b n m l) d)
      (withCycle (newCycle (freshId d') (s_id s) a b n m l) d')" for a b n m l
    by (rule withCycle_same [OF same]) (simp_all add: newCycle_def cycleView_def)
  show ?thesis
    unfolding openCycle_cases found starts tabs
    using same add by (auto simp: Let_def require_def split: option.split)
qed

lemma openCycle_other:
  assumes "openCycle s now d = Inr d'"
  shows "fixedTables d' = fixedTables d \<and> buckets d' = buckets d
    \<and> (\<forall>i. i \<noteq> s_id s \<longrightarrow> cyclesView d' i = cyclesView d i)"
proof -
  have sub: "sc_subscriptionId (newCycle i (s_id s) a b n m l) = s_id s" for i a b n m l by (simp add: newCycle_def)
  have "d' = d \<or> (\<exists>c. sc_subscriptionId c = s_id s \<and> d' = withCycle c d)"
    using assms sub unfolding openCycle_cases by (fastforce simp: Let_def err_simps split: if_splits option.splits)
  then show ?thesis by (auto simp: withCycle_frame withCycle_view) (simp add: withCycle_def)
qed

definition cycleStep :: "instant \<Rightarrow> db \<Rightarrow> subscription_row \<Rightarrow> db \<Rightarrow> error + db" where
  "cycleStep now d0 s d =
     (if \<exists>c \<in> set (cycles d0). sc_subscriptionId c = s_id s \<and> sc_startsAt c \<le> now \<and> now < sc_endsAt c then Inr d
      else openCycle s now d)"

lemma ensureCurrentCycles_steps:
  "ensureCurrentCycles u now d = foldE (cycleStep now d)
     (filter (\<lambda>s. s_userId s = u \<and> currentSubscription now s) (subscriptions d)) d"
  unfolding ensureCurrentCycles_def cycleStep_def [abs_def] openCycle_def ..

lemma cycleStep_same:
  assumes "sameFor u d0 d0'" and "sameFor u d d'" and "fixedTables d = fixedTables d0"
    and "s \<in> set (subscriptions d0)" "s_userId s = u"
  shows "sameOutcome u (cycleStep now d0 s d) (cycleStep now d0' s d')"
proof -
  have "(\<exists>c \<in> set (cycles d0'). sc_subscriptionId c = s_id s \<and> sc_startsAt c \<le> now \<and> now < sc_endsAt c)
      \<longleftrightarrow> (\<exists>c \<in> set (cycles d0). sc_subscriptionId c = s_id s \<and> sc_startsAt c \<le> now \<and> now < sc_endsAt c)"
    unfolding cycle_in_view [where P = "\<lambda>a b. a \<le> now \<and> now < b"] sameFor_cyclesView [OF assms(1,4,5)] ..
  moreover have "sameOutcome u (openCycle s now d) (openCycle s now d')"
    by (rule openCycle_same [OF assms(2)]) (use assms(3-5) fixed_tables(6) [OF assms(3)] in auto)
  ultimately show ?thesis using assms(2) by (auto simp: cycleStep_def)
qed

lemma foldE_cycles_same:
  assumes "sameFor u d0 d0'" and "\<forall>s \<in> set ss. s \<in> set (subscriptions d0) \<and> s_userId s = u"
    and "sameFor u d d'" and "fixedTables d = fixedTables d0"
  shows "sameOutcome u (foldE (cycleStep now d0) ss d) (foldE (cycleStep now d0') ss d')"
  using assms(2-)
proof (induction ss arbitrary: d d')
  case (Cons s ss)
  have "sameOutcome u (cycleStep now d0 s d) (cycleStep now d0' s d')"
    by (rule cycleStep_same [OF assms(1) Cons.prems(2,3)]) (use Cons.prems(1) in auto)
  then show ?case
  proof (simp, rule sameOutcome_bind)
    fix e e' assume e: "cycleStep now d0 s d = Inr e" "sameFor u e e'"
    have "fixedTables e = fixedTables d0"
      using e(1) openCycle_other [of s now d e] Cons.prems(3) by (auto simp: cycleStep_def split: if_splits)
    then show "sameOutcome u (foldE (cycleStep now d0) ss e) (foldE (cycleStep now d0') ss e')"
      using Cons.IH e(2) Cons.prems(1) by simp
  qed
qed simp

lemma ensureCurrentCycles_same:
  assumes "sameFor u d d'"
  shows "sameOutcome u (ensureCurrentCycles u now d) (ensureCurrentCycles u now d')"
  unfolding ensureCurrentCycles_steps sameFor_tables [OF assms]
  by (rule foldE_cycles_same [OF assms _ assms]) auto

lemma ensureCurrentCycles_fixed:
  assumes "ensureCurrentCycles v now d = Inr d'"
  shows "fixedTables d' = fixedTables d"
proof (rule foldE_keeps [OF assms [unfolded ensureCurrentCycles_steps], of "\<lambda>e. fixedTables e = fixedTables d"])
  fix s e e' assume "fixedTables e = fixedTables d" "cycleStep now d s e = Inr e'"
  then show "fixedTables e' = fixedTables d"
    using openCycle_other [of s now e e'] by (auto simp: cycleStep_def split: if_splits)
qed simp

lemma ensureCurrentCycles_tables:
  assumes "ensureCurrentCycles v now d = Inr d'"
  shows "packs d' = packs d \<and> subscriptions d' = subscriptions d"
  using fixed_tables(6,7) [OF ensureCurrentCycles_fixed [OF assms]] by simp

lemma ensureCurrentCycles_other:
  assumes "ensureCurrentCycles v now d = Inr d'" and "u \<noteq> v" and "distinct (map s_id (subscriptions d))"
  shows "sameFor u d d'"
proof -
  let ?ss = "filter (\<lambda>s. s_userId s = v \<and> currentSubscription now s) (subscriptions d)"
  let ?Q = "\<lambda>e. fixedTables e = fixedTables d \<and> buckets e = buckets d
      \<and> (\<forall>i. i \<notin> s_id ` set ?ss \<longrightarrow> cyclesView e i = cyclesView d i)"
  have "?Q d'"
  proof (rule foldE_keeps [OF assms(1) [unfolded ensureCurrentCycles_steps], of ?Q])
    fix s e e' assume "s \<in> set ?ss" "?Q e" "cycleStep now d s e = Inr e'"
    then show "?Q e'" using openCycle_other [of s now e e'] by (auto simp: cycleStep_def split: if_splits)
  qed simp
  moreover have "s_id s \<notin> s_id ` set ?ss" if "s \<in> set (subscriptions d)" "s_userId s = u" for s
    using that assms(2,3) by (auto simp: distinct_map dest: inj_onD)
  ultimately show ?thesis by (simp add: sameFor_def grantView_def)
qed

lemma cycleLeft_view:
  "cycleLeft now d s = (case List.find (\<lambda>(a, b, g, j, c). a \<le> now \<and> now < b) (cyclesView d (s_id s)) of
     None \<Rightarrow> False | Some (a, b, g, j, c) \<Rightarrow> c < g + j)"
proof -
  have "(case List.find (\<lambda>c. sc_subscriptionId c = i \<and> sc_startsAt c \<le> now \<and> now < sc_endsAt c) cs of
        None \<Rightarrow> False | Some c \<Rightarrow> 0 < cycleRemaining c) =
      (case List.find (\<lambda>(a, b, g, j, c). a \<le> now \<and> now < b) (map cycleView (filter (\<lambda>c. sc_subscriptionId c = i) cs)) of
        None \<Rightarrow> False | Some (a, b, g, j, c) \<Rightarrow> c < g + j)" for i cs
    by (induction cs) (auto simp: cycleView_def cycleRemaining_def Let_def)
  then show ?thesis by (simp add: cycleLeft_def cyclesView_def)
qed

lemma legacyLimits_same:
  assumes "sameFor u d d'"
  shows "legacyLimits u nodeId now d' = legacyLimits u nodeId now d"
proof -
  note tabs = sameFor_tables [OF assms]
  have serves: "profileServes l p n d' = profileServes l p n d" for l p n
    unfolding profileServes_def nodeUp_def tabs ..
  have plan: "planServes p n d' = planServes p n d" for p n
    unfolding planServes_def tabs serves ..
  have lims: "packLimits d' = packLimits d" "subscriptionLimits d' = subscriptionLimits d"
    by (auto simp: fun_eq_iff packLimits_def subscriptionLimits_def tabs)
  have pack: "legacyPack nodeId now d' = legacyPack nodeId now d"
    unfolding fun_eq_iff legacyPack_def tabs serves by simp
  have sub: "legacySubscription nodeId now d' = legacySubscription nodeId now d"
    unfolding fun_eq_iff legacySubscription_def tabs plan by simp
  have left: "cycleLeft now d' s = cycleLeft now d s" if "s \<in> set (subscriptions d)" "s_userId s = u" for s
    unfolding cycleLeft_view sameFor_cyclesView [OF assms that] ..
  have "filter (\<lambda>s. s_userId s = u \<and> legacySubscription nodeId now d s \<and> cycleLeft now d' s) (subscriptions d)
      = filter (\<lambda>s. s_userId s = u \<and> legacySubscription nodeId now d s \<and> cycleLeft now d s) (subscriptions d)"
    by (rule filter_cong [OF refl]) (auto simp: left)
  then show ?thesis unfolding legacyLimits_def tabs lims pack sub by simp
qed

section \<open>Decisions do not disturb each other\<close>

lemma getNodeAccess_same:
  assumes "sameFor u d d'"
  shows "case getNodeAccess u n now d of Inl e \<Rightarrow> getNodeAccess u n now d' = Inl e
    | Inr (a, x) \<Rightarrow> \<exists>y. getNodeAccess u n now d' = Inr (a, y)"
proof -
  obtain v2 d1 where r: "resolveAccess u (Some n) now d = (v2, d1)" by fastforce
  then obtain d1' where r': "resolveAccess u (Some n) now d' = (v2, d1')" and s1: "sameFor u d1 d1'"
    using resolveAccess_same [OF assms, of "Some n" now] by (metis fst_conv prod.collapse snd_conv)
  note o = ensureCurrentCycles_same [OF s1, of now]
  show ?thesis
  proof (cases "ensureCurrentCycles u now d1")
    case (Inl e)
    then show ?thesis using o by (simp add: getNodeAccess_def r r')
  next
    case (Inr d2)
    then obtain d2' where d2': "ensureCurrentCycles u now d1' = Inr d2'" "sameFor u d2 d2'"
      using o by (auto simp: sameOutcome_def split: sum.splits)
    then show ?thesis
      by (simp add: getNodeAccess_def r r' Inr legacyLimits_same [OF d2'(2)] userActive_cong [OF sameFor_tables(1) [OF d2'(2)]])
  qed
qed

lemma getNodeAccess_other:
  assumes "getNodeAccess v n now d = Inr (a, d')" and "u \<noteq> v"
    and "distinct (map g_id (grants d))" and "distinct (map s_id (subscriptions d))"
  shows "sameFor u d d'"
proof -
  have s1: "sameFor u d (snd (resolveAccess v (Some n) now d))"
    using ensureV2_other [OF assms(2,3)] by (simp add: resolveAccess_def Let_def)
  have "distinct (map s_id (subscriptions (snd (resolveAccess v (Some n) now d))))"
    using assms(4) sameFor_tables(6) [OF s1] by simp
  then have "sameFor u (snd (resolveAccess v (Some n) now d)) d'"
    using assms(1,2) sameFor_refl
    by (auto simp: getNodeAccess_def err_simps split: prod.splits if_splits intro: ensureCurrentCycles_other)
  then show ?thesis using s1 sameFor_trans by blast
qed

lemma decideTokens_alone:
  assumes "decideTokens n now ts d = Inr (rs, d')" and "\<forall>t \<in> set ts. sameFor (at_userId t) d0 d"
    and "distinct (map at_userId ts)" and "distinct (map g_id (grants d))" and "distinct (map s_id (subscriptions d))"
  shows "map fst rs = ts \<and> (\<forall>(t, a) \<in> set rs. \<exists>x. getNodeAccess (at_userId t) n now d0 = Inr (a, x))"
  using assms
proof (induction ts arbitrary: d rs)
  case (Cons t ts)
  from Cons.prems(1) obtain a d1 rs' where st: "getNodeAccess (at_userId t) n now d = Inr (a, d1)"
      "decideTokens n now ts d1 = Inr (rs', d')" "rs = (t, a) # rs'"
    by (auto simp: err_simps)
  have "sameFor (at_userId t) d0 d" using Cons.prems(2) by simp
  from getNodeAccess_same [OF this, of n now] have "\<exists>x. getNodeAccess (at_userId t) n now d0 = Inr (a, x)"
    using st(1) by (auto split: sum.splits)
  moreover have others: "sameFor (at_userId u) d d1" if "u \<in> set ts" for u
    using that Cons.prems(3-5) by (intro getNodeAccess_other [OF st(1)]) (auto simp: image_iff)
  moreover have "fixedTables d1 = fixedTables d"
    using sameFor_fixed [OF getNodeAccess_other [OF st(1), of "CHR ''x'' # at_userId t"]] Cons.prems(4,5) by simp
  moreover have "\<forall>u \<in> set ts. sameFor (at_userId u) d0 d1"
    using sameFor_trans others Cons.prems(2) by (meson list.set_intros(2))
  ultimately show ?case
    using Cons.IH [OF st(2)] Cons.prems(3-5) st(3) fixed_tables(2,6) [of d1 d] by simp
qed simp

text \<open>C22: the members provisioned on a node are exactly the active members with a token that is not
  revoked to whom the node is allowed, each decided as if alone on the database the call found; every
  member appears once, with the earliest such token's identifier. Slicing the decisions and the
  periods they open change nothing.\<close>

theorem provisioned_exactly:
  assumes "getNodeProvisioningUsers n now d = Inr (us, d')"
    and "distinct (map g_id (grants d))" and "distinct (map s_id (subscriptions d))"
  shows "distinct (map fst us)
    \<and> (\<forall>u. u \<in> fst ` set us \<longleftrightarrow> userActive u d \<and> (\<exists>t \<in> set (tokens d). at_userId t = u \<and> at_revokedAt t = None)
         \<and> (\<exists>a x. getNodeAccess u n now d = Inr (a, x) \<and> ax_allowed a))
    \<and> (\<forall>(u, v) \<in> set us. \<exists>t \<in> set (tokens d). at_userId t = u \<and> at_vlessUuid t = v \<and> at_revokedAt t = None
         \<and> (\<forall>t' \<in> set (tokens d). at_userId t' = u \<and> at_revokedAt t' = None \<longrightarrow> at_createdAt t \<le> at_createdAt t'))"
proof -
  let ?ok = "\<lambda>t. at_revokedAt t = None \<and> userActive (at_userId t) d"
  let ?ts = "provisioningTokens d"
  from assms(1) obtain rs where run: "decideTokens n now ?ts d = Inr (rs, d')"
      and us: "us = map (\<lambda>(t, a). (at_userId t, at_vlessUuid t)) (filter (\<lambda>(t, a). ax_allowed a) rs)"
    by (auto simp: getNodeProvisioningUsers_def provisioningLoop_plain err_simps)
  have dist: "distinct (map at_userId ?ts)" by (simp add: provisioningTokens_def firstPerUser_distinct)
  have rs: "map fst rs = ?ts" "\<forall>(t, a) \<in> set rs. \<exists>x. getNodeAccess (at_userId t) n now d = Inr (a, x)"
    using decideTokens_alone [OF run _ dist assms(2,3), of d] sameFor_refl by auto
  have first: "t \<in> set (tokens d) \<and> ?ok t \<and> (\<forall>t' \<in> set (tokens d). at_userId t' = at_userId t \<and> ?ok t' \<longrightarrow>
      at_createdAt t \<le> at_createdAt t')" if "t \<in> set ?ts" for t
    using firstPerUser_earliest [of "sort_key at_createdAt (filter ?ok (tokens d))" t] that
    by (simp add: provisioningTokens_def)
  have mem: "fst us_pair \<in> set ?ts" if "us_pair \<in> set rs" for us_pair
    using that rs(1) by (metis list.set_map image_eqI)
  have "distinct (map fst us)"
  proof -
    have "map fst us = map (at_userId \<circ> fst) (filter (\<lambda>(t, a). ax_allowed a) rs)" by (simp add: us split_beta comp_def)
    moreover have "distinct (map (at_userId \<circ> fst) rs)" using dist by (simp flip: rs(1))
    ultimately show ?thesis by (simp add: distinct_map_filter)
  qed
  moreover have "u \<in> fst ` set us \<longleftrightarrow> userActive u d \<and> (\<exists>t \<in> set (tokens d). at_userId t = u \<and> at_revokedAt t = None)
         \<and> (\<exists>a x. getNodeAccess u n now d = Inr (a, x) \<and> ax_allowed a)" for u
  proof
    assume "u \<in> fst ` set us"
    then obtain t a where ta: "(t, a) \<in> set rs" "ax_allowed a" "at_userId t = u" by (auto simp: us)
    then show "userActive u d \<and> (\<exists>t \<in> set (tokens d). at_userId t = u \<and> at_revokedAt t = None)
         \<and> (\<exists>a x. getNodeAccess u n now d = Inr (a, x) \<and> ax_allowed a)"
      using first [OF mem [OF ta(1)]] rs(2) by fastforce
  next
    assume h: "userActive u d \<and> (\<exists>t \<in> set (tokens d). at_userId t = u \<and> at_revokedAt t = None)
         \<and> (\<exists>a x. getNodeAccess u n now d = Inr (a, x) \<and> ax_allowed a)"
    then obtain t where t: "t \<in> set (sort_key at_createdAt (filter ?ok (tokens d)))" "at_userId t = u" by auto
    from firstPerUser_complete [OF t(1)] obtain t' where "t' \<in> set ?ts" "at_userId t' = u"
      using t(2) by (auto simp: provisioningTokens_def)
    then obtain a where ta: "(t', a) \<in> set rs" using rs(1) by (metis (no_types, lifting) imageE list.set_map prod.collapse)
    then have "ax_allowed a" using rs(2) h \<open>at_userId t' = u\<close> by fastforce
    then show "u \<in> fst ` set us" using ta \<open>at_userId t' = u\<close> by (force simp: us)
  qed
  moreover have "\<forall>(u, v) \<in> set us. \<exists>t \<in> set (tokens d). at_userId t = u \<and> at_vlessUuid t = v \<and> at_revokedAt t = None
         \<and> (\<forall>t' \<in> set (tokens d). at_userId t' = u \<and> at_revokedAt t' = None \<longrightarrow> at_createdAt t \<le> at_createdAt t')"
  proof safe
    fix u v assume "(u, v) \<in> set us"
    then obtain t a where ta: "(t, a) \<in> set rs" "at_userId t = u" "at_vlessUuid t = v" by (auto simp: us)
    note f = first [OF mem [OF ta(1)], simplified]
    show "\<exists>t \<in> set (tokens d). at_userId t = u \<and> at_vlessUuid t = v \<and> at_revokedAt t = None
         \<and> (\<forall>t' \<in> set (tokens d). at_userId t' = u \<and> at_revokedAt t' = None \<longrightarrow> at_createdAt t \<le> at_createdAt t')"
      by (rule bexI [of _ t]) (use f ta(2,3) in auto)
  qed
  ultimately show ?thesis by blast
qed

theorem provisioned_exactly_witness:
  "\<exists>us d'. getNodeProvisioningUsers ''n1'' 1709300000000 exampleNodeDb = Inr (us, d') \<and> ''u1'' \<in> fst ` set us
     \<and> distinct (map fst us)"
proof -
  have "\<not> isl (getNodeAccess ''u1'' ''n1'' 1709300000000 exampleNodeDb)
      \<and> ax_allowed (fst (projr (getNodeAccess ''u1'' ''n1'' 1709300000000 exampleNodeDb)))" by code_simp
  then have allowed: "\<exists>a x. getNodeAccess ''u1'' ''n1'' 1709300000000 exampleNodeDb = Inr (a, x) \<and> ax_allowed a"
    by (cases "getNodeAccess ''u1'' ''n1'' 1709300000000 exampleNodeDb") auto
  have tokens: "provisioningTokens exampleNodeDb = tokens exampleNodeDb"
    by (simp add: provisioningTokens_def exampleNodeDb_def exampleQuotaUser_def userActive_def)
  have "\<exists>r. getNodeProvisioningUsers ''n1'' 1709300000000 exampleNodeDb = Inr r"
    using allowed unfolding getNodeProvisioningUsers_def provisioningLoop_plain tokens
    by (auto simp: exampleNodeDb_def)
  then obtain us d' where run: "getNodeProvisioningUsers ''n1'' 1709300000000 exampleNodeDb = Inr (us, d')" by auto
  have "distinct (map g_id (grants exampleNodeDb))" "distinct (map s_id (subscriptions exampleNodeDb))"
    "userActive ''u1'' exampleNodeDb"
    "\<exists>t \<in> set (tokens exampleNodeDb). at_userId t = ''u1'' \<and> at_revokedAt t = None"
    by (simp_all add: exampleNodeDb_def exampleQuotaUser_def exampleQuotaDb_def emptyDb_def userActive_def)
  then show ?thesis using provisioned_exactly [OF run] run allowed by blast
qed

end
