(* ===== verification/HysteriaAuth.thy ===== *)
theory HysteriaAuth imports Provisioning SecretCipher begin

text \<open>
  Who may open a Hysteria connection: \<open>HysteriaAuthService\<close> of
  \<open>apps/api/src/hysteria-auth/hysteria-auth.service.ts\<close>, with the reads it makes of
  \<open>domain/control-plane.store.ts\<close> and \<open>domain/node-control.service.ts\<close>.

  The steps are not one transaction: each reads the database the step before left. AES-GCM, which
  decrypts the secrets of a node, is the parameter \<open>opens\<close> of \<open>SecretCipher\<close>. Display columns of a
  node are left out.
\<close>

section \<open>Reads\<close>

definition findAccessToken :: "string \<Rightarrow> db \<Rightarrow> token_row option" where
  "findAccessToken tokenValue d =
     List.find (\<lambda>t. at_token t = tokenValue \<and> at_revokedAt t = None) (tokens d)"

definition getSessionIdentity :: "id \<Rightarrow> db \<Rightarrow> user_row option" where
  "getSessionIdentity userId d = lookup u_id userId (users d)"

definition presentNodeForControl ::
  "(string \<Rightarrow> string \<Rightarrow> string \<Rightarrow> string \<Rightarrow> string option) \<Rightarrow> string option \<Rightarrow> node_row
     \<Rightarrow> error + node_row" where
  "presentNodeForControl opens key n =
     bindE (cipherDecrypt opens key (Some (n_trafficApiSecret n))) (\<lambda>secret.
     bindE (guardE (BadRequest ''node-secret-missing'') (secret \<noteq> None \<and> secret \<noteq> Some [])) (\<lambda>_.
     bindE (cipherDecrypt opens key (n_controlApiSecret n)) (\<lambda>control.
     Inr (n\<lparr>n_trafficApiSecret := nvl secret [], n_controlApiSecret := control\<rparr>))))"

definition getNodeForControl ::
  "(string \<Rightarrow> string \<Rightarrow> string \<Rightarrow> string \<Rightarrow> string option) \<Rightarrow> string option \<Rightarrow> id \<Rightarrow> db
     \<Rightarrow> error + node_row option" where
  "getNodeForControl opens key nodeId d =
     (case List.find (\<lambda>n. n_id n = nodeId \<and> n_retiredAt n = None) (nodes d) of
        None \<Rightarrow> Inr None
      | Some n \<Rightarrow> bindE (presentNodeForControl opens key n) (\<lambda>view. Inr (Some view)))"

definition previewToken :: "string \<Rightarrow> string" where
  "previewToken token = take 6 token @ ''...'' @ drop (length token - 4) token"

section \<open>Writes\<close>

definition recordAuthEvent ::
  "id option \<Rightarrow> id option \<Rightarrow> id option \<Rightarrow> bool \<Rightarrow> string \<Rightarrow> string option \<Rightarrow> int option \<Rightarrow> string \<Rightarrow> db \<Rightarrow> db" where
  "recordAuthEvent userId tokenId nodeId granted reason remoteAddr requestedTxBps preview d =
     (drawId d)\<lparr>authEvents := authEvents d @ [\<lparr>ae_id = freshId d, ae_userId = userId,
        ae_accessTokenId = tokenId, ae_nodeId = nodeId, ae_granted = granted, ae_reason = reason,
        ae_remoteAddr = remoteAddr, ae_requestedTxBps = requestedTxBps, ae_tokenPreview = Some preview\<rparr>]\<rparr>"

definition markTokenUsed :: "id \<Rightarrow> instant \<Rightarrow> db \<Rightarrow> error + db" where
  "markTokenUsed tokenId now d =
     bindE (update_one at_id tokenId (\<lambda>t. t\<lparr>at_lastUsedAt := Some now\<rparr>) (tokens d)) (\<lambda>ts.
     Inr (d\<lparr>tokens := ts\<rparr>))"

section \<open>The decision\<close>

record auth_request =
  aq_nodeId :: id
  aq_tokenValue :: string
  aq_remoteAddr :: "string option"
  aq_requestedTxBps :: "int option"

datatype auth_result = AuthOk id | AuthDenied string

fun reasonName :: "access_reason \<Rightarrow> string" where
  "reasonName UserNotActive = ''user_not_active''"
| "reasonName TrafficExhausted = ''traffic_exhausted''"
| "reasonName NodeDenied = ''node_denied''"
| "reasonName AccessOk = ''ok''"

definition recordDecision ::
  "auth_request \<Rightarrow> id \<Rightarrow> id \<Rightarrow> id option \<Rightarrow> bool \<Rightarrow> string \<Rightarrow> db \<Rightarrow> db" where
  "recordDecision rq tokenId userId nodeId granted reason d =
     recordAuthEvent (Some userId) (Some tokenId) nodeId granted reason (aq_remoteAddr rq)
       (aq_requestedTxBps rq) (previewToken (aq_tokenValue rq)) d"

definition authorize ::
  "(string \<Rightarrow> string \<Rightarrow> string \<Rightarrow> string \<Rightarrow> string option) \<Rightarrow> string option \<Rightarrow> instant \<Rightarrow> auth_request \<Rightarrow> db
     \<Rightarrow> error + (auth_result \<times> db)" where
  "authorize opens key now rq d =
     bindE (getNodeForControl opens key (aq_nodeId rq) d) (\<lambda>node.
     case findAccessToken (aq_tokenValue rq) d of
       None \<Rightarrow>
         Inr (AuthDenied ''token_not_found'',
              recordAuthEvent None None (map_option n_id node) False ''token_not_found'' (aq_remoteAddr rq)
                (aq_requestedTxBps rq) (previewToken (aq_tokenValue rq)) d)
     | Some token \<Rightarrow>
         if map_option u_status (getSessionIdentity (at_userId token) d) \<noteq> Some UserActive
         then Inr (AuthDenied ''user_not_active'',
                   recordDecision rq (at_id token) (at_userId token) (map_option n_id node) False ''user_not_active'' d)
         else (case node of
             None \<Rightarrow>
               Inr (AuthDenied ''node_unavailable'',
                    recordDecision rq (at_id token) (at_userId token) None False ''node_unavailable'' d)
           | Some n \<Rightarrow>
               if \<not> n_active n \<or> n_protocol n \<noteq> Hysteria2
               then Inr (AuthDenied ''node_unavailable'',
                         recordDecision rq (at_id token) (at_userId token) (Some (n_id n)) False ''node_unavailable'' d)
               else
                 bindE (getNodeAccess (at_userId token) (n_id n) now d) (\<lambda>(access, d1).
                 if \<not> ax_allowed access
                 then Inr (AuthDenied (reasonName (ax_reason access)),
                           recordDecision rq (at_id token) (at_userId token) (Some (n_id n)) False
                             (reasonName (ax_reason access)) d1)
                 else
                   bindE (markTokenUsed (at_id token) now d1) (\<lambda>d2.
                   Inr (AuthOk (at_userId token),
                        recordDecision rq (at_id token) (at_userId token) (Some (n_id n)) True ''ok'' d2)))))"

section \<open>What a connection needs\<close>

text \<open>The contract, without the order of the checks: a credential nobody revoked, of an active member,
  for a Hysteria node in operation that the member's entitlements allow.\<close>

definition holdsCredential :: "db \<Rightarrow> string \<Rightarrow> id \<Rightarrow> bool" where
  "holdsCredential d tokenValue u \<longleftrightarrow>
     (\<exists>t \<in> set (tokens d). at_token t = tokenValue \<and> at_revokedAt t = None \<and> at_userId t = u)"

definition runsHysteria :: "db \<Rightarrow> id \<Rightarrow> bool" where
  "runsHysteria d nodeId \<longleftrightarrow>
     (\<exists>n \<in> set (nodes d). n_id n = nodeId \<and> n_retiredAt n = None \<and> n_active n \<and> n_protocol n = Hysteria2)"

definition nodeAllowed :: "id \<Rightarrow> id \<Rightarrow> instant \<Rightarrow> db \<Rightarrow> bool" where
  "nodeAllowed u nodeId now d =
     (case getNodeAccess u nodeId now d of Inl _ \<Rightarrow> False | Inr (access, _) \<Rightarrow> ax_allowed access)"

definition admits :: "instant \<Rightarrow> auth_request \<Rightarrow> db \<Rightarrow> id \<Rightarrow> bool" where
  "admits now rq d u \<longleftrightarrow> holdsCredential d (aq_tokenValue rq) u \<and> userActive u d
     \<and> runsHysteria d (aq_nodeId rq) \<and> nodeAllowed u (aq_nodeId rq) now d"

lemma find_key_unique:
  assumes "distinct (map key rows)" and "r \<in> set rows" and "P r" and "\<And>x. P x \<Longrightarrow> key x = key r"
  shows "List.find P rows = Some r"
  using assms
proof (induction rows)
  case (Cons x xs)
  show ?case
  proof (cases "x = r")
    case True
    then show ?thesis using Cons.prems(3) by simp
  next
    case False
    then have r: "r \<in> set xs" using Cons.prems(2) by simp
    then have "key r \<in> key ` set xs" by blast
    then have "key x \<noteq> key r" using Cons.prems(1) by auto
    then have "\<not> P x" using Cons.prems(4) by blast
    then show ?thesis using Cons.IH [OF _ r Cons.prems(3,4)] Cons.prems(1) by simp
  qed
qed simp

lemma findAccessToken_iff:
  assumes "distinct (map at_token (tokens d))"
  shows "holdsCredential d v u \<longleftrightarrow> (\<exists>t. findAccessToken v d = Some t \<and> at_userId t = u)"
proof
  assume "holdsCredential d v u"
  then obtain t where t: "t \<in> set (tokens d)" "at_token t = v" "at_revokedAt t = None" "at_userId t = u"
    by (auto simp: holdsCredential_def)
  then have "findAccessToken v d = Some t"
    unfolding findAccessToken_def by (intro find_key_unique [OF assms]) auto
  with t show "\<exists>t. findAccessToken v d = Some t \<and> at_userId t = u" by blast
next
  assume "\<exists>t. findAccessToken v d = Some t \<and> at_userId t = u"
  then show "holdsCredential d v u"
    by (auto simp: findAccessToken_def holdsCredential_def find_Some_iff set_conv_nth)
qed

lemma getNodeForControl_found:
  assumes "getNodeForControl opens key i d = Inr (Some view)"
  obtains n where "n \<in> set (nodes d)" "n_id n = i" "n_retiredAt n = None" "n_id view = i"
    "n_active view = n_active n" "n_protocol view = n_protocol n"
proof -
  obtain n where n: "List.find (\<lambda>n. n_id n = i \<and> n_retiredAt n = None) (nodes d) = Some n"
      "presentNodeForControl opens key n = Inr view"
    using assms by (auto simp: getNodeForControl_def err_simps split: option.splits)
  then have "n \<in> set (nodes d)" "n_id n = i" "n_retiredAt n = None"
    by (auto simp: find_Some_iff set_conv_nth)
  moreover have "n_id view = n_id n" "n_active view = n_active n" "n_protocol view = n_protocol n"
    using n(2) by (auto simp: presentNodeForControl_def err_simps)
  ultimately show thesis by (intro that [of n]) simp_all
qed

lemma runsHysteria_iff:
  assumes "distinct (map n_id (nodes d))" and "getNodeForControl opens key i d = Inr node"
  shows "runsHysteria d i \<longleftrightarrow> (\<exists>n. node = Some n \<and> n_active n \<and> n_protocol n = Hysteria2)"
proof (cases node)
  case None
  then have "List.find (\<lambda>n. n_id n = i \<and> n_retiredAt n = None) (nodes d) = None"
    using assms(2) by (auto simp: getNodeForControl_def err_simps split: option.splits)
  then show ?thesis using None by (auto simp: runsHysteria_def find_None_iff)
next
  case (Some view)
  obtain n where n: "n \<in> set (nodes d)" "n_id n = i" "n_retiredAt n = None"
      "n_active view = n_active n" "n_protocol view = n_protocol n"
    using getNodeForControl_found [OF assms(2) [unfolded Some]] by metis
  have only: "m = n" if "m \<in> set (nodes d)" "n_id m = i" for m
    using assms(1) n(1,2) that by (metis distinct_map inj_onD)
  show ?thesis
  proof
    assume "runsHysteria d i"
    then show "\<exists>n. node = Some n \<and> n_active n \<and> n_protocol n = Hysteria2"
      using only n(4,5) Some unfolding runsHysteria_def by metis
  next
    assume "\<exists>n. node = Some n \<and> n_active n \<and> n_protocol n = Hysteria2"
    then show "runsHysteria d i" using n Some unfolding runsHysteria_def by auto
  qed
qed

text \<open>The tables a request may touch.\<close>

definition loggedOnce :: "auth_request \<Rightarrow> bool \<Rightarrow> db \<Rightarrow> db \<Rightarrow> bool" where
  "loggedOnce rq granted d d' \<longleftrightarrow>
     (\<exists>e. authEvents d' = authEvents d @ [e] \<and> ae_granted e = granted
        \<and> ae_tokenPreview e = Some (previewToken (aq_tokenValue rq)) \<and> (granted \<longleftrightarrow> ae_reason e = ''ok''))
     \<and> grants d' = grants d \<and> users d' = users d \<and> nodes d' = nodes d \<and> packs d' = packs d
     \<and> (\<not> granted \<longrightarrow> tokens d' = tokens d)"

lemma getNodeAccess_fixed:
  assumes "getNodeAccess u n now d = Inr (a, d')"
  shows "fixedTables d' = fixedTables d"
proof -
  obtain v2 d1 where r: "resolveAccess u (Some n) now d = (v2, d1)" by fastforce
  then have "nonBuckets d1 = nonBuckets d"
    using ensureV2CurrentBuckets_adds [of d u now] by (auto simp: resolveAccess_def Let_def addsBuckets_def)
  then have "fixedTables (nonBuckets d1) = fixedTables (nonBuckets d)" by (rule arg_cong)
  then have "fixedTables d1 = fixedTables d" by (simp add: fixedTables_def nonBuckets_def)
  moreover have "fixedTables d' = fixedTables d1"
    using assms r ensureCurrentCycles_fixed
    by (auto simp: getNodeAccess_def err_simps split: if_splits)
  ultimately show ?thesis by simp
qed

lemma access_frame:
  assumes "getNodeAccess u n now d = Inr (a, d')"
  shows "authEvents d' = authEvents d" "grants d' = grants d" "users d' = users d" "nodes d' = nodes d"
    "packs d' = packs d" "tokens d' = tokens d"
  using fixed_tables [OF getNodeAccess_fixed [OF assms]] arg_cong [OF getNodeAccess_fixed [OF assms], of authEvents]
  by (simp_all add: fixedTables_def)

lemma access_reason_ok:
  assumes "getNodeAccess u n now d = Inr (a, d')" and "\<not> ax_allowed a"
  shows "ax_reason a \<noteq> AccessOk"
proof -
  have "\<not> ax_allowed v \<longrightarrow> ax_reason v \<noteq> AccessOk" if "resolveAccess u (Some n) now d = (v, e)" for v e
    using that by (auto simp: resolveAccess_def Let_def deniedUser_def decide_def split: if_splits)
  then show ?thesis using assms
    by (auto simp: getNodeAccess_def err_simps joinAccess_def deniedUser_def split: if_splits prod.splits)
qed

lemma reasonName_ok: "reasonName x = ''ok'' \<longleftrightarrow> x = AccessOk"
  by (cases x) auto

lemmas auth_simps = recordDecision_def recordAuthEvent_def loggedOnce_def

text \<open>The rest of the decision once the reads are made.\<close>

lemma authorize_cases:
  assumes "authorize opens key now rq d = Inr (r, d')"
    and "distinct (map at_token (tokens d))" and "distinct (map n_id (nodes d))"
  shows "(\<exists>u. r = AuthOk u \<and> admits now rq d u \<and> loggedOnce rq True d d')
    \<or> (\<exists>why. r = AuthDenied why \<and> \<not> (\<exists>u. admits now rq d u) \<and> loggedOnce rq False d d')"
proof -
  obtain node where node: "getNodeForControl opens key (aq_nodeId rq) d = Inr node"
    using assms(1) by (auto simp: authorize_def err_simps)
  note run = assms(1) [unfolded authorize_def node bindE_Inr]
  note runs = runsHysteria_iff [OF assms(3) node]
  note holds = findAccessToken_iff [OF assms(2), of "aq_tokenValue rq"]
  show ?thesis
  proof (cases "findAccessToken (aq_tokenValue rq) d")
    case None
    then have "\<not> admits now rq d u" for u using holds by (simp add: admits_def)
    then show ?thesis using run None by (auto simp: auth_simps)
  next
    case (Some t)
    have u: "admits now rq d v \<Longrightarrow> v = at_userId t" for v using holds Some by (simp add: admits_def)
    have active: "userActive (at_userId t) d \<longleftrightarrow> map_option u_status (getSessionIdentity (at_userId t) d) = Some UserActive"
      by (simp add: userActive_def getSessionIdentity_def)
    show ?thesis
    proof (cases "userActive (at_userId t) d \<and> runsHysteria d (aq_nodeId rq)")
      case False
      then have "\<not> admits now rq d v" for v using u by (auto simp: admits_def)
      moreover have "\<exists>why. r = AuthDenied why \<and> loggedOnce rq False d d'"
        using run False [unfolded active runs] Some by (auto simp: auth_simps split: if_splits option.splits)
      ultimately show ?thesis by blast
    next
      case True
      then obtain n where n: "node = Some n" "n_active n" "n_protocol n = Hysteria2" using runs by blast
      then have i: "n_id n = aq_nodeId rq" using getNodeForControl_found [OF node [unfolded n(1)]] by metis
      obtain a d1 where a: "getNodeAccess (at_userId t) (aq_nodeId rq) now d = Inr (a, d1)"
          "(if \<not> ax_allowed a
            then Inr (AuthDenied (reasonName (ax_reason a)),
              recordDecision rq (at_id t) (at_userId t) (Some (n_id n)) False (reasonName (ax_reason a)) d1)
            else bindE (markTokenUsed (at_id t) now d1) (\<lambda>d2.
              Inr (AuthOk (at_userId t), recordDecision rq (at_id t) (at_userId t) (Some (n_id n)) True ''ok'' d2)))
            = Inr (r, d')"
        using run n True [unfolded active] Some i by (auto simp: err_simps)
      note frame = access_frame [OF a(1)]
      have ad: "admits now rq d (at_userId t) \<longleftrightarrow> ax_allowed a"
        using True holds Some a(1) by (simp add: admits_def nodeAllowed_def)
      show ?thesis
      proof (cases "ax_allowed a")
        case False
        then have "reasonName (ax_reason a) \<noteq> ''ok''" using access_reason_ok [OF a(1)] reasonName_ok by blast
        then show ?thesis using a(2) False ad u frame by (auto simp: auth_simps)
      next
        case allowed: True
        then show ?thesis using a(2) ad frame by (auto simp: auth_simps markTokenUsed_def err_simps)
      qed
    qed
  qed
qed

lemma authorize_fails:
  assumes "getNodeForControl opens key (aq_nodeId rq) d = Inr node" and "authorize opens key now rq d = Inl e"
    and "distinct (map at_token (tokens d))" and "distinct (map n_id (nodes d))"
  shows "\<not> admits now rq d u"
proof
  assume u: "admits now rq d u"
  note run = assms(2) [unfolded authorize_def assms(1) bindE_Inr]
  obtain t where t: "findAccessToken (aq_tokenValue rq) d = Some t" "at_userId t = u"
    using u findAccessToken_iff [OF assms(3)] by (auto simp: admits_def)
  obtain n where n: "node = Some n" "n_active n" "n_protocol n = Hysteria2"
    using u runsHysteria_iff [OF assms(4,1)] by (auto simp: admits_def)
  then have i: "n_id n = aq_nodeId rq" using getNodeForControl_found [OF assms(1) [unfolded n(1)]] by metis
  obtain a d1 where a: "getNodeAccess u (aq_nodeId rq) now d = Inr (a, d1)" "ax_allowed a"
    using u by (auto simp: admits_def nodeAllowed_def split: sum.splits)
  have "t \<in> set (tokens d1)"
    using t(1) access_frame(6) [OF a(1)] by (auto simp: findAccessToken_def find_Some_iff set_conv_nth)
  then have "at_id t \<in> at_id ` set (tokens d1)" by blast
  moreover have "map_option u_status (getSessionIdentity u d) = Some UserActive"
    using u by (simp add: admits_def userActive_def getSessionIdentity_def)
  ultimately show False
    using run t n i a by (simp add: markTokenUsed_def update_one_def)
qed

text \<open>C30: on a node whose secrets can be read, the authorization of a connection implements the contract, whatever order
  it checks in: it admits exactly the members the contract admits, refuses everyone else, fails only where nobody
  is to be admitted, and every answer leaves exactly one event that says truthfully which it was, while
  entitlements, accounts and packs stay as they are and only an admitted credential is stamped.\<close>

theorem authorize_refines:
  assumes "getNodeForControl opens key (aq_nodeId rq) d = Inr node"
    and "distinct (map at_token (tokens d))" and "distinct (map n_id (nodes d))"
  shows "case authorize opens key now rq d of
      Inl e \<Rightarrow> \<not> (\<exists>u. admits now rq d u)
    | Inr (AuthOk u, d') \<Rightarrow> admits now rq d u \<and> loggedOnce rq True d d'
    | Inr (AuthDenied why, d') \<Rightarrow> \<not> (\<exists>u. admits now rq d u) \<and> loggedOnce rq False d d'"
proof (cases "authorize opens key now rq d")
  case (Inl e)
  then show ?thesis using authorize_fails [OF assms(1) Inl assms(2,3)] by simp
next
  case (Inr p)
  then obtain r d' where p: "authorize opens key now rq d = Inr (r, d')" by (cases p) auto
  show ?thesis using authorize_cases [OF p assms(2,3)] p by (auto split: auth_result.split)
qed

definition exampleRequest :: auth_request where
  "exampleRequest = \<lparr>aq_nodeId = ''n1'', aq_tokenValue = ''secret-token'', aq_remoteAddr = None, aq_requestedTxBps = None\<rparr>"

theorem authorize_refines_witness:
  "\<exists>d'. authorize exampleOpens None 1709300000000 exampleRequest exampleNodeDb = Inr (AuthOk ''u1'', d')
     \<and> admits 1709300000000 exampleRequest exampleNodeDb ''u1'' \<and> loggedOnce exampleRequest True exampleNodeDb d'"
proof -
  have node: "\<not> isl (getNodeForControl exampleOpens None (aq_nodeId exampleRequest) exampleNodeDb)" by code_simp
  then obtain node where node: "getNodeForControl exampleOpens None (aq_nodeId exampleRequest) exampleNodeDb = Inr node"
    using not_isl_obtain by blast
  have "case authorize exampleOpens None 1709300000000 exampleRequest exampleNodeDb of
      Inl _ \<Rightarrow> False | Inr (r, _) \<Rightarrow> r = AuthOk ''u1''" by code_simp
  then obtain d' where run: "authorize exampleOpens None 1709300000000 exampleRequest exampleNodeDb = Inr (AuthOk ''u1'', d')"
    by (cases "authorize exampleOpens None 1709300000000 exampleRequest exampleNodeDb") auto
  have "distinct (map at_token (tokens exampleNodeDb))" "distinct (map n_id (nodes exampleNodeDb))"
    by (simp_all add: exampleNodeDb_def)
  then show ?thesis using authorize_refines [OF node, of 1709300000000] run by simp
qed

end
