(* ===== verification/Referrals.thy ===== *)
theory Referrals imports GrantLaws Wallet begin

text \<open>
  Rewards for inviting a member: \<open>settlePlanPurchaseReward\<close> and \<open>reverseForRefund\<close> of
  \<open>apps/api/src/referrals/referral.service.ts\<close>, both run inside the transaction of the purchase or
  the refund, with \<open>catalog/catalog-product-policy.ts\<close>, which keeps trial plans out.

  The unique columns of an attribution are checked where a row is written. Notes and reasons the code
  writes itself are slugs. Of \<open>toLowerCase\<close> the ASCII letters are modelled, of which slugs are made.
\<close>

section \<open>Trial plans\<close>

definition GO_PLAN_PURCHASE_LIMIT_KEY :: string where
  "GO_PLAN_PURCHASE_LIMIT_KEY = ''trial-go''"

fun lowerChar :: "char \<Rightarrow> char" where
  "lowerChar c = (if (65 :: nat) \<le> of_char c \<and> of_char c \<le> (90 :: nat) then char_of (of_char c + 32 :: nat) else c)"

definition lowerCase :: "string \<Rightarrow> string" where
  "lowerCase s = map lowerChar s"

definition startsWith :: "string \<Rightarrow> string \<Rightarrow> bool" where
  "startsWith s p \<longleftrightarrow> take (length p) s = p"

definition isGoPlanProduct :: "product_row \<Rightarrow> db \<Rightarrow> bool" where
  "isGoPlanProduct product d =
     (if cp_series product \<noteq> Standard then False
      else
        let slug = lowerCase (trim (cp_slug product));
            legacySlug = lowerCase (trim (nvl (map_option p_slug
              (Option.bind (cp_legacyPlanId product) (\<lambda>i. lookup p_id i (plans d)))) []))
        in cp_purchaseLimitKey product = Some GO_PLAN_PURCHASE_LIMIT_KEY \<or> legacySlug = ''go''
           \<or> slug = ''go'' \<or> slug = ''plan-go'' \<or> startsWith slug ''preview-go-'')"

section \<open>Settling a reward\<close>

definition referralBonusProductId :: id where
  "referralBonusProductId = ''system_referral_traffic_bonus''"

definition calculateReferralRewardCents :: "int \<Rightarrow> int option \<Rightarrow> int \<Rightarrow> int" where
  "calculateReferralRewardCents orderAmountCents basisPoints legacyRewardCents =
     (case basisPoints of None \<Rightarrow> legacyRewardCents | Some b \<Rightarrow> (orderAmountCents * b) div 10000)"

definition attributionClash :: "attribution_row \<Rightarrow> attribution_row \<Rightarrow> bool" where
  "attributionClash a b \<longleftrightarrow> ra_id a \<noteq> ra_id b
     \<and> (ra_qualifyingOrderId a \<noteq> None \<and> ra_qualifyingOrderId a = ra_qualifyingOrderId b
      \<or> ra_rewardLedgerId a \<noteq> None \<and> ra_rewardLedgerId a = ra_rewardLedgerId b
      \<or> ra_reversalLedgerId a \<noteq> None \<and> ra_reversalLedgerId a = ra_reversalLedgerId b
      \<or> ra_bonusGrantId a \<noteq> None \<and> ra_bonusGrantId a = ra_bonusGrantId b)"

definition updateAttribution :: "id \<Rightarrow> (attribution_row \<Rightarrow> attribution_row) \<Rightarrow> db \<Rightarrow> error + db" where
  "updateAttribution i f d =
     (case lookup ra_id i (attributions d) of
        None \<Rightarrow> Inl (PrismaKnown ''P2025'')
      | Some a \<Rightarrow>
          bindE (guardE (PrismaKnown ''P2002'') (\<not> (\<exists>b \<in> set (attributions d). attributionClash (f a) b))) (\<lambda>_.
          Inr (d\<lparr>attributions := update_many (\<lambda>r. ra_id r = i) f (attributions d)\<rparr>)))"

text \<open>\<open>updateMany\<close> on one attribution in the expected state: what the code calls a claim.\<close>

definition claimAttribution ::
  "id \<Rightarrow> referral_status \<Rightarrow> (attribution_row \<Rightarrow> attribution_row) \<Rightarrow> db \<Rightarrow> error + (bool \<times> db)" where
  "claimAttribution i status f d =
     (case List.find (\<lambda>r. ra_id r = i \<and> ra_status r = status) (attributions d) of
        None \<Rightarrow> Inr (False, d)
      | Some _ \<Rightarrow> bindE (updateAttribution i f d) (\<lambda>d1. Inr (True, d1)))"

definition rewardPosting :: "attribution_row \<Rightarrow> id \<Rightarrow> int \<Rightarrow> posting" where
  "rewardPosting a orderId cents = \<lparr>wp_userId = ra_inviterId a, wp_amountCents = cents, wp_kind = TxnAdjust,
     wp_actorId = None, wp_orderId = Some orderId,
     wp_idempotencyKey = Some (''referral:'' @ ra_id a @ '':reward''), wp_note = ''referral-reward'',
     wp_allowDeletedUser = False\<rparr>"

definition payReferrer :: "attribution_row \<Rightarrow> id \<Rightarrow> int \<Rightarrow> db \<Rightarrow> error + (id option \<times> db)" where
  "payReferrer a orderId cents d =
     (if 0 < cents then bindE (postEntry (rewardPosting a orderId cents) d) (\<lambda>(r, d1). Inr (pr_ledgerId r, d1))
      else Inr (None, d))"

definition auditReward :: "attribution_row \<Rightarrow> id \<Rightarrow> int \<Rightarrow> id \<Rightarrow> db \<Rightarrow> db" where
  "auditReward a orderId cents bonusGrantId =
     createAudit None ''referral.reward.settled'' ''referral_attribution'' (Some (ra_id a))
       (JObj [(''inviteeId'', JStr (ra_inviteeId a)), (''inviterId'', JStr (ra_inviterId a)),
              (''orderId'', JStr orderId), (''inviterRewardCents'', JNum cents),
              (''inviterRewardBasisPoints'', jopt JNum (ra_inviterRewardBasisPoints a)),
              (''inviteeRewardBytes'', JBig (ra_inviteeRewardBytes a)),
              (''bonusEntitlementGrantId'', JStr bonusGrantId)])"

text \<open>The checks, in the order of the code: \<open>None\<close> is \<open>settled: false\<close>.\<close>

definition qualifies :: "attribution_row \<Rightarrow> id \<Rightarrow> id \<Rightarrow> db \<Rightarrow> error + order_row option" where
  "qualifies a orderId planGrantId d =
     bindE (require (Conflict ''qualifying-plan-missing'') (lookup g_id planGrantId (grants d))) (\<lambda>g.
     bindE (guardE (Conflict ''qualifying-plan-missing'') (g_userId g = ra_inviteeId a \<and> g_kind g = GrantPlan)) (\<lambda>_.
     bindE (require (PrismaKnown ''inconsistent'') (lookup cp_id (g_productId g) (products d))) (\<lambda>product.
     if \<not> cp_referralEligible product \<or> isGoPlanProduct product d then Inr None
     else
       bindE (require (Conflict ''qualifying-order-missing'') (lookup mo_id orderId (orders d))) (\<lambda>o1.
       bindE (guardE (Conflict ''qualifying-order-missing'') (mo_userId o1 = ra_inviteeId a)) (\<lambda>_.
       Inr (if mo_status o1 \<noteq> OrderApplied \<or> mo_kind o1 \<noteq> OrderRenewal \<or> mo_source o1 \<notin> {SourceCdk, SourcePayment}
            then None else Some o1))))))"

definition payReward :: "attribution_row \<Rightarrow> order_row \<Rightarrow> instant \<Rightarrow> db \<Rightarrow> error + (id option \<times> db)" where
  "payReward a o1 now d =
     (let cents = calculateReferralRewardCents (mo_amountCents o1) (ra_inviterRewardBasisPoints a) (ra_inviterRewardCents a)
      in bindE (claimAttribution (ra_id a) ReferralPending (\<lambda>r. r\<lparr>ra_status := ReferralRewarded,
             ra_qualifyingOrderId := Some (mo_id o1), ra_inviterRewardCents := cents, ra_rewardedAt := Some now\<rparr>) d) (\<lambda>(claimed, d1).
         if \<not> claimed then Inr (None, d1)
         else
           bindE (createBonusTrafficGrantFromOrder \<lparr>bi_orderId = mo_id o1, bi_userId = ra_inviteeId a,
               bi_productId = referralBonusProductId, bi_startsAt = now, bi_bytes = ra_inviteeRewardBytes a\<rparr> d1) (\<lambda>((bonusGrantId, _), d2).
           bindE (payReferrer a (mo_id o1) cents d2) (\<lambda>(ledgerId, d3).
           bindE (updateAttribution (ra_id a) (\<lambda>r. r\<lparr>ra_rewardLedgerId := ledgerId, ra_bonusGrantId := Some bonusGrantId\<rparr>) d3) (\<lambda>d4.
           Inr (Some (ra_id a), auditReward a (mo_id o1) cents bonusGrantId d4))))))"

definition settlePlanPurchaseReward :: "id \<Rightarrow> id \<Rightarrow> id \<Rightarrow> instant \<Rightarrow> db \<Rightarrow> error + (id option \<times> db)" where
  "settlePlanPurchaseReward inviteeId orderId planGrantId now d =
     (case lookup ra_inviteeId inviteeId (attributions d) of
        None \<Rightarrow> Inr (None, d)
      | Some a \<Rightarrow>
          if ra_status a \<noteq> ReferralPending then Inr (None, d)
          else bindE (qualifies a orderId planGrantId d) (\<lambda>qualifying.
            case qualifying of None \<Rightarrow> Inr (None, d) | Some o1 \<Rightarrow> payReward a o1 now d))"

section \<open>Taking it back\<close>

record referral_refund =
  fr_cumulativeRefundedCents :: int
  fr_orderAmountCents :: int
  fr_fullRefund :: bool

definition targetRecovery :: "attribution_row \<Rightarrow> referral_refund \<Rightarrow> int" where
  "targetRecovery a refund =
     (if fr_fullRefund refund then ra_inviterRewardCents a
      else (ra_inviterRewardCents a * min (fr_cumulativeRefundedCents refund) (fr_orderAmountCents refund))
             div max 1 (fr_orderAmountCents refund))"

definition referralRecovery :: "attribution_row \<Rightarrow> id \<Rightarrow> id \<Rightarrow> id \<Rightarrow> posting" where
  "referralRecovery a orderId actorId refundId = \<lparr>wp_userId = ra_inviterId a, wp_amountCents = 0, wp_kind = TxnAdjust,
     wp_actorId = Some actorId, wp_orderId = Some orderId,
     wp_idempotencyKey = Some (''referral:'' @ ra_id a @ '':refund:'' @ refundId), wp_note = ''referral-recovery'',
     wp_allowDeletedUser = False\<rparr>"

definition revokeBonus :: "attribution_row \<Rightarrow> bool \<Rightarrow> instant \<Rightarrow> id \<Rightarrow> db \<Rightarrow> int \<times> db" where
  "revokeBonus a fullRefund at actorId d =
     (case (fullRefund, present (ra_bonusGrantId a)) of
        (True, Some i) \<Rightarrow>
          (case revokeGrant \<lparr>rv_grantId = i, rv_at = at, rv_actorId = Some actorId, rv_reason = ''referral-refunded'',
                  rv_auditAction = Some ''referral.bonus_revoked''\<rparr> d of ((_, bytes), d1) \<Rightarrow> (bytes, d1))
      | _ \<Rightarrow> (ra_revokedUnusedBytes a, d))"

text \<open>What is written once the inviter's wallet has given back what it could.\<close>

definition recoveredRow :: "referral_refund \<Rightarrow> instant \<Rightarrow> int \<Rightarrow> int \<Rightarrow> int \<Rightarrow> id option \<Rightarrow> attribution_row \<Rightarrow> attribution_row" where
  "recoveredRow refund now taken missing bytes ledgerId r = r\<lparr>
     ra_status := (if fr_fullRefund refund then ReferralReversed else ReferralRewarded),
     ra_recoveredCents := taken, ra_unrecoveredCents := missing, ra_revokedUnusedBytes := bytes,
     ra_reversalLedgerId := ledgerId, ra_reversedAt := (if fr_fullRefund refund then Some now else None)\<rparr>"

definition bookRecovery ::
  "attribution_row \<Rightarrow> id \<Rightarrow> id \<Rightarrow> id \<Rightarrow> referral_refund \<Rightarrow> instant \<Rightarrow> recovery_result \<Rightarrow> db
     \<Rightarrow> error + ((id \<times> int \<times> int) option \<times> db)" where
  "bookRecovery a orderId actorId refundId refund now recovery d =
     (let taken = ra_recoveredCents a + rr_recovered recovery;
          missing = max 0 (targetRecovery a refund - taken)
      in case revokeBonus a (fr_fullRefund refund) now actorId d of (bytes, d1) \<Rightarrow>
         bindE (updateAttribution (ra_id a) (recoveredRow refund now taken missing bytes
             (orElse (rr_ledgerId recovery) (ra_reversalLedgerId a))) d1) (\<lambda>d2.
         Inr (Some (ra_id a, taken, missing),
           createAudit (Some actorId) ''referral.reward.reversed'' ''referral_attribution'' (Some (ra_id a))
             (JObj [(''refundId'', JStr refundId), (''orderId'', JStr orderId),
                    (''recoveredCents'', JNum (rr_recovered recovery)), (''totalRecoveredCents'', JNum taken),
                    (''unrecoveredCents'', JNum missing), (''revokedUnusedBytes'', JBig bytes)]) d2)))"

definition reverseForRefund ::
  "id \<Rightarrow> id \<Rightarrow> id \<Rightarrow> referral_refund \<Rightarrow> instant \<Rightarrow> db \<Rightarrow> error + ((id \<times> int \<times> int) option \<times> db)" where
  "reverseForRefund orderId actorId refundId refund now d =
     (case List.find (\<lambda>r. ra_qualifyingOrderId r = Some orderId) (attributions d) of
        None \<Rightarrow> Inr (None, d)
      | Some a \<Rightarrow>
          if ra_status a \<noteq> ReferralRewarded then Inr (None, d)
          else
            bindE (if fr_fullRefund refund
                   then claimAttribution (ra_id a) ReferralRewarded
                          (\<lambda>r. r\<lparr>ra_status := ReferralReversed, ra_reversedAt := Some now\<rparr>) d
                   else Inr (True, d)) (\<lambda>(claimed, d1).
            if \<not> claimed then Inr (None, d1)
            else
              bindE (recoverWalletCredit (\<lambda>x. x) (referralRecovery a orderId actorId refundId)
                       (max 0 (targetRecovery a refund - ra_recoveredCents a)) d1) (\<lambda>(recovery, d2).
              bookRecovery a orderId actorId refundId refund now recovery d2)))"

end
