(* ===== verification/ReferralLaws.thy ===== *)
theory ReferralLaws imports Referrals begin

text \<open>
  What the referral operations guarantee: a reward is paid once and to the inviter alone, and a
  refund never takes back more than was paid.
\<close>

section \<open>Steps\<close>

lemma updateAttribution_shape:
  "updateAttribution i f d = Inr d' \<Longrightarrow> d' = d\<lparr>attributions := update_many (\<lambda>r. ra_id r = i) f (attributions d)\<rparr>"
  by (auto simp: updateAttribution_def err_simps split: option.splits)

lemma claimAttribution_shape:
  assumes "claimAttribution i s f d = Inr (claimed, d')"
  shows "if claimed then d' = d\<lparr>attributions := update_many (\<lambda>r. ra_id r = i) f (attributions d)\<rparr> else d' = d"
  using assms by (auto simp: claimAttribution_def err_simps dest: updateAttribution_shape split: option.splits)

lemma createBonus_frame:
  assumes "createBonusTrafficGrantFromOrder input d = Inr (x, d')"
  shows "users d' = users d" "walletLedger d' = walletLedger d" "attributions d' = attributions d" "orders d' = orders d"
  using assms by (auto simp: createBonusTrafficGrantFromOrder_def Let_def split: if_splits option.splits)

lemma payReferrer_frame:
  assumes "payReferrer a orderId cents d = Inr (l, d')"
  shows "attributions d' = attributions d"
  using assms nonWallet_tables(25) [OF postEntry_nonWallet]
  by (auto simp: payReferrer_def err_simps split: if_splits)

lemma payReferrer_balance:
  assumes "payReferrer a orderId cents d = Inr (l, d')"
    and "existingPosting (ra_inviterId a) (Some (''referral:'' @ ra_id a @ '':reward'')) d = None"
  shows "balance d' u = (if u = ra_inviterId a then map_option (\<lambda>b. b + max 0 cents) (balance d u) else balance d u)"
proof (cases "0 < cents")
  case True
  then obtain r where "postEntry (rewardPosting a orderId cents) d = Inr (r, d')"
    using assms(1) by (auto simp: payReferrer_def err_simps)
  from postEntry_balance [OF this, of u] show ?thesis using assms(2) True by (simp add: rewardPosting_def)
next
  case False
  then show ?thesis using assms(1) by (cases "balance d u") (auto simp: payReferrer_def)
qed

lemma balance_frame: "users d' = users d \<Longrightarrow> balance d' u = balance d u"
  by (simp add: balance_def)

lemma balance_attributions [simp]: "balance (d\<lparr>attributions := as\<rparr>) u = balance d u"
  by (simp add: balance_def)

lemma payReward_stages:
  assumes "payReward a o1 now d = Inr (Some i, d')"
  obtains d1 d2 d3 d4 bonusId bucketId ledgerId cents where
    "cents = calculateReferralRewardCents (mo_amountCents o1) (ra_inviterRewardBasisPoints a) (ra_inviterRewardCents a)"
    "d1 = d\<lparr>attributions := update_many (\<lambda>r. ra_id r = ra_id a) (\<lambda>r. r\<lparr>ra_status := ReferralRewarded,
       ra_qualifyingOrderId := Some (mo_id o1), ra_inviterRewardCents := cents, ra_rewardedAt := Some now\<rparr>) (attributions d)\<rparr>"
    "createBonusTrafficGrantFromOrder \<lparr>bi_orderId = mo_id o1, bi_userId = ra_inviteeId a,
       bi_productId = referralBonusProductId, bi_startsAt = now, bi_bytes = ra_inviteeRewardBytes a\<rparr> d1 = Inr ((bonusId, bucketId), d2)"
    "payReferrer a (mo_id o1) cents d2 = Inr (ledgerId, d3)"
    "d4 = d3\<lparr>attributions := update_many (\<lambda>r. ra_id r = ra_id a)
       (\<lambda>r. r\<lparr>ra_rewardLedgerId := ledgerId, ra_bonusGrantId := Some bonusId\<rparr>) (attributions d3)\<rparr>"
    "d' = auditReward a (mo_id o1) cents bonusId d4" "i = ra_id a"
proof -
  let ?c = "calculateReferralRewardCents (mo_amountCents o1) (ra_inviterRewardBasisPoints a) (ra_inviterRewardCents a)"
  let ?b = "\<lparr>bi_orderId = mo_id o1, bi_userId = ra_inviteeId a, bi_productId = referralBonusProductId, bi_startsAt = now,
      bi_bytes = ra_inviteeRewardBytes a\<rparr>"
  from assms [unfolded payReward_def Let_def] obtain x where x:
      "claimAttribution (ra_id a) ReferralPending (\<lambda>r. r\<lparr>ra_status := ReferralRewarded,
         ra_qualifyingOrderId := Some (mo_id o1), ra_inviterRewardCents := ?c, ra_rewardedAt := Some now\<rparr>) d = Inr x"
      "(case x of (claimed, d1) \<Rightarrow> if \<not> claimed then Inr (None, d1) else
         bindE (createBonusTrafficGrantFromOrder ?b d1) (\<lambda>((bonusGrantId, _), d2).
           bindE (payReferrer a (mo_id o1) ?c d2) (\<lambda>(ledgerId, d3).
           bindE (updateAttribution (ra_id a) (\<lambda>r. r\<lparr>ra_rewardLedgerId := ledgerId, ra_bonusGrantId := Some bonusGrantId\<rparr>) d3) (\<lambda>d4.
           Inr (Some (ra_id a), auditReward a (mo_id o1) ?c bonusGrantId d4))))) = Inr (Some i, d')"
    by (rule bindE_InrE)
  obtain claimed d1 where xp: "x = (claimed, d1)" by (cases x)
  from x(2) have claimed: "claimed" unfolding xp by (cases claimed) simp_all
  from x(2) [unfolded xp prod.case, simplified claimed if_True not_True_eq_False if_False] obtain y where y:
      "createBonusTrafficGrantFromOrder ?b d1 = Inr y" by (auto elim: bindE_InrE)
  obtain bonusId bucketId d2 where yp: "y = ((bonusId, bucketId), d2)" by (metis surj_pair)
  obtain ledgerId d3 where pay: "payReferrer a (mo_id o1) ?c d2 = Inr (ledgerId, d3)"
    using x(2) y claimed unfolding xp yp by (auto simp: err_simps)
  obtain d4 where up: "updateAttribution (ra_id a) (\<lambda>r. r\<lparr>ra_rewardLedgerId := ledgerId, ra_bonusGrantId := Some bonusId\<rparr>) d3 = Inr d4"
      "d' = auditReward a (mo_id o1) ?c bonusId d4" "i = ra_id a"
    using x(2) y pay claimed unfolding xp yp by (auto simp: err_simps)
  show thesis
    by (rule that [OF refl _ y [unfolded yp] pay updateAttribution_shape [OF up(1)] up(2,3)])
      (use claimAttribution_shape [OF x(1) [unfolded xp]] claimed in simp)
qed

text \<open>C33: a reward is paid once, to the inviter alone and by the rate agreed when the member signed up: the
  inviter's balance grows by exactly the rate of the order's amount, nobody else's moves, the attribution is marked
  with the order that earned it, and no later order of the member settles anything again.\<close>

theorem reward_paid_once:
  assumes run: "settlePlanPurchaseReward invitee orderId grantId now d = Inr (Some i, d')"
    and a: "lookup ra_inviteeId invitee (attributions d) = Some a"
    and fresh: "existingPosting (ra_inviterId a) (Some (''referral:'' @ ra_id a @ '':reward'')) d = None"
  shows "\<exists>o1. lookup mo_id orderId (orders d) = Some o1 \<and> mo_source o1 \<in> {SourceCdk, SourcePayment} \<and> i = ra_id a
    \<and> balance d' u = (if u = ra_inviterId a then map_option (\<lambda>b. b + max 0 (calculateReferralRewardCents
          (mo_amountCents o1) (ra_inviterRewardBasisPoints a) (ra_inviterRewardCents a))) (balance d u) else balance d u)
    \<and> map_option ra_status (lookup ra_inviteeId invitee (attributions d')) = Some ReferralRewarded
    \<and> Option.bind (lookup ra_inviteeId invitee (attributions d')) ra_qualifyingOrderId = Some orderId
    \<and> settlePlanPurchaseReward invitee orderId' grantId' later d' = Inr (None, d')"
proof -
  obtain o1 where q: "qualifies a orderId grantId d = Inr (Some o1)" "payReward a o1 now d = Inr (Some i, d')"
    using run a by (auto simp: settlePlanPurchaseReward_def err_simps split: if_splits option.splits)
  have o1: "lookup mo_id orderId (orders d) = Some o1" "mo_source o1 \<in> {SourceCdk, SourcePayment}"
    using q(1) by (auto simp: qualifies_def err_simps split: if_splits)
  have oid: "mo_id o1 = orderId" using lookup_SomeD [OF o1(1)] by simp
  show ?thesis using q(2)
  proof (cases rule: payReward_stages)
    case (1 d1 d2 d3 d4 bonusId bucketId ledgerId cents)
    note bonus = createBonus_frame [OF 1(3)]
    have "existingPosting (ra_inviterId a) (Some (''referral:'' @ ra_id a @ '':reward'')) d2 = None"
      using fresh existingPosting_cong [of d2 d] bonus(2) 1(2) by simp
    from payReferrer_balance [OF 1(4) this, of u]
    have bal: "balance d' u = (if u = ra_inviterId a then map_option (\<lambda>b. b + max 0 cents) (balance d u) else balance d u)"
    proof -
      have "balance d' u = balance d3 u" using 1(5,6) by (intro balance_frame) (simp add: auditReward_def)
      moreover have "balance d2 v = balance d v" for v using balance_frame [OF bonus(1), of v] 1(2) by simp
      ultimately show ?thesis
        using \<open>balance d3 u = (if u = ra_inviterId a then map_option (\<lambda>b. b + max 0 cents) (balance d2 u) else balance d2 u)\<close>
        by simp
    qed
    define f :: "attribution_row \<Rightarrow> attribution_row" where "f = (\<lambda>r. r\<lparr>ra_status := ReferralRewarded, ra_qualifyingOrderId := Some (mo_id o1),
        ra_inviterRewardCents := cents, ra_rewardedAt := Some now\<rparr>)"
    define h :: "attribution_row \<Rightarrow> attribution_row" where "h = (\<lambda>r. r\<lparr>ra_rewardLedgerId := ledgerId, ra_bonusGrantId := Some bonusId\<rparr>)"
    have rows: "attributions d' = update_many (\<lambda>r. ra_id r = ra_id a) h (update_many (\<lambda>r. ra_id r = ra_id a) f (attributions d))"
      using 1(2,5,6) bonus(3) payReferrer_frame [OF 1(4)] by (simp add: auditReward_def f_def h_def)
    have "lookup ra_inviteeId invitee (attributions d') = Some (h (f a))"
      unfolding rows using a by (simp add: lookup_update_many f_def h_def)
    then show ?thesis using o1 oid bal 1(1,7) by (simp add: f_def h_def settlePlanPurchaseReward_def)
  qed
qed

definition exampleAttribution :: attribution_row where
  "exampleAttribution = \<lparr>ra_id = ''ra1'', ra_inviterId = ''u9'', ra_inviteeId = ''u1'', ra_codeSnapshot = ''CODE'',
     ra_status = ReferralPending, ra_inviterRewardCents = 0, ra_inviterRewardBasisPoints = Some 1000,
     ra_inviteeRewardBytes = 50, ra_qualifyingOrderId = None, ra_rewardLedgerId = None, ra_reversalLedgerId = None,
     ra_bonusGrantId = None, ra_rewardedAt = None, ra_reversedAt = None, ra_recoveredCents = 0,
     ra_unrecoveredCents = 0, ra_revokedUnusedBytes = 0, ra_createdAt = 0\<rparr>"

text \<open>A member bought a month for 30.00 through the gateway; the inviter gets ten percent.\<close>

definition exampleReferral :: db where
  "exampleReferral = exampleQuotaUser\<lparr>users := users exampleQuotaUser @ [exampleUser ''u9'' 100],
     products := map (\<lambda>p. p\<lparr>cp_slug := []\<rparr>) (products exampleSnapshotDb), orders := [exampleOrder\<lparr>mo_source := SourcePayment\<rparr>],
     attributions := [exampleAttribution]\<rparr>"

lemma exampleReferral_facts:
  "lookup ra_inviteeId ''u1'' (attributions exampleReferral) = Some exampleAttribution"
  "existingPosting ''u9'' k exampleReferral = None" "balance exampleReferral ''u9'' = Some 100"
  by (simp_all add: exampleReferral_def exampleAttribution_def existingPosting_def exampleQuotaUser_def exampleQuotaDb_def
      emptyDb_def balance_def exampleUser_def split: option.split)

lemma trim_Nil: "trim [] = []"
  by (simp add: trim_def trimStart_def trimEnd_def)

lemma exampleReferral_qualifies:
  "qualifies exampleAttribution ''o1'' ''g1'' exampleReferral = Inr (Some (exampleOrder\<lparr>mo_source := SourcePayment\<rparr>))"
  by (simp add: qualifies_def exampleReferral_def exampleQuotaUser_def exampleQuotaDb_def exampleGrant_def exampleAttribution_def
    exampleSnapshotDb_def exampleOrder_def isGoPlanProduct_def lowerCase_def trim_Nil startsWith_def)

theorem reward_paid_once_witness:
  "\<exists>d'. settlePlanPurchaseReward ''u1'' ''o1'' ''g1'' 1709300000000 exampleReferral = Inr (Some ''ra1'', d')
     \<and> balance d' ''u9'' = Some 400 \<and> settlePlanPurchaseReward ''u1'' ''o2'' ''g1'' 1709300000001 d' = Inr (None, d')"
proof -
  let ?o = "exampleOrder\<lparr>mo_source := SourcePayment\<rparr>"
  have "case payReward exampleAttribution ?o 1709300000000 exampleReferral of
      Inl _ \<Rightarrow> False | Inr (i, d') \<Rightarrow> i = Some ''ra1''" by code_simp
  then obtain d' where "payReward exampleAttribution ?o 1709300000000 exampleReferral = Inr (Some ''ra1'', d')"
    by (cases "payReward exampleAttribution ?o 1709300000000 exampleReferral") auto
  moreover have "ra_status exampleAttribution = ReferralPending" by (simp add: exampleAttribution_def)
  ultimately have run: "settlePlanPurchaseReward ''u1'' ''o1'' ''g1'' 1709300000000 exampleReferral = Inr (Some ''ra1'', d')"
    by (simp add: settlePlanPurchaseReward_def exampleReferral_facts(1) exampleReferral_qualifies)
  have inviter: "ra_inviterId exampleAttribution = ''u9''" "ra_inviterRewardBasisPoints exampleAttribution = Some 1000"
    by (simp_all add: exampleAttribution_def)
  have o1: "lookup mo_id ''o1'' (orders exampleReferral) = Some (exampleOrder\<lparr>mo_source := SourcePayment\<rparr>)"
    by (simp add: exampleReferral_def exampleOrder_def)
  have amount: "mo_amountCents (exampleOrder\<lparr>mo_source := SourcePayment\<rparr>) = 3000" by (simp add: exampleOrder_def)
  note paid = reward_paid_once [OF run exampleReferral_facts(1), unfolded inviter, OF exampleReferral_facts(2),
      of "''u9''" "''o2''" "''g1''" 1709300000001, unfolded o1 exampleReferral_facts(3) option.inject]
  then obtain o2 where "exampleOrder\<lparr>mo_source := SourcePayment\<rparr> = o2"
      "balance d' ''u9'' = Some (100 + max 0 (calculateReferralRewardCents (mo_amountCents o2) (Some 1000) (ra_inviterRewardCents exampleAttribution)))"
      "settlePlanPurchaseReward ''u1'' ''o2'' ''g1'' 1709300000001 d' = Inr (None, d')"
    by (elim exE conjE) (simp only: if_True simp_thms option.map)
  then show ?thesis using run amount by (auto simp: calculateReferralRewardCents_def)
qed

section \<open>Refunds\<close>

lemma find_update_many:
  "(\<And>r. P (f r) = P r) \<Longrightarrow> List.find P (update_many q f rows) = map_option (\<lambda>r. if q r then f r else r) (List.find P rows)"
  by (induction rows) auto

lemma revokeBonus_frame:
  assumes "revokeBonus a full at actorId d = (n, d')"
  shows "users d' = users d" "attributions d' = attributions d" "walletLedger d' = walletLedger d"
  using assms by (auto simp: revokeBonus_def revokeGrant_def Let_def split: bool.splits option.splits prod.splits if_splits)

lemma recovery_exact:
  assumes "recoverWalletCredit (\<lambda>x. x) p requested d = Inr (r, d')"
    and "existingPosting (wp_userId p) (wp_idempotencyKey p) d = None" and "balance d (wp_userId p) = Some b"
  shows "rr_recovered r = min b requested \<and> attributions d' = attributions d
    \<and> balance d' u = (if u = wp_userId p then Some (b - min b requested) else balance d u)"
proof -
  have "\<not> rr_replayed r"
    using assms(1,2) by (auto simp: recoverWalletCredit_def err_simps Let_def split: if_splits)
  then obtain s where w: "writePosting (p\<lparr>wp_amountCents := - min b requested\<rparr>) b d = Inr (s, d')" "rr_recovered r = min b requested"
    using recoverWalletCredit_cases [OF assms(1)] assms(3) by auto
  have "balance d (wp_userId (p\<lparr>wp_amountCents := - min b requested\<rparr>)) = Some b" using assms(3) by simp
  from writePosting_balance [OF w(1) this, of u] w(2) nonWallet_tables(25) [OF writePosting_frame [OF w(1)]]
  show ?thesis by simp
qed

lemma target_within:
  assumes "0 \<le> ra_inviterRewardCents a"
  shows "targetRecovery a refund \<le> ra_inviterRewardCents a"
proof -
  let ?m = "max 1 (fr_orderAmountCents refund)" and ?c = "min (fr_cumulativeRefundedCents refund) (fr_orderAmountCents refund)"
  have "ra_inviterRewardCents a * ?c \<le> ra_inviterRewardCents a * ?m" by (rule mult_left_mono [OF _ assms]) simp
  then have "(ra_inviterRewardCents a * ?c) div ?m \<le> (ra_inviterRewardCents a * ?m) div ?m" by (rule zdiv_mono1) simp
  then show ?thesis by (simp add: targetRecovery_def)
qed

lemma bookRecovery_shape:
  assumes "bookRecovery a orderId actorId refundId refund now recovery d = Inr (Some (i, taken, missing), d')"
  shows "taken = ra_recoveredCents a + rr_recovered recovery" "missing = max 0 (targetRecovery a refund - taken)"
    "users d' = users d"
    "\<exists>bytes l. attributions d' = update_many (\<lambda>r. ra_id r = ra_id a) (recoveredRow refund now taken missing bytes l) (attributions d)"
proof -
  obtain bytes d1 where bonus: "revokeBonus a (fr_fullRefund refund) now actorId d = (bytes, d1)" by fastforce
  show "taken = ra_recoveredCents a + rr_recovered recovery" "missing = max 0 (targetRecovery a refund - taken)"
    "users d' = users d"
    using assms revokeBonus_frame [OF bonus]
    by (auto simp: bookRecovery_def bonus err_simps Let_def dest!: updateAttribution_shape)
  have "attributions d' = update_many (\<lambda>r. ra_id r = ra_id a) (recoveredRow refund now taken missing bytes
      (orElse (rr_ledgerId recovery) (ra_reversalLedgerId a))) (attributions d)"
    using assms revokeBonus_frame [OF bonus]
    by (auto simp: bookRecovery_def bonus err_simps Let_def dest!: updateAttribution_shape)
  then show "\<exists>bytes l. attributions d' = update_many (\<lambda>r. ra_id r = ra_id a) (recoveredRow refund now taken missing bytes l) (attributions d)"
    by blast
qed

lemma reverseForRefund_stages:
  assumes "reverseForRefund orderId actorId refundId refund now d = Inr (Some x, d')"
    and "List.find (\<lambda>r. ra_qualifyingOrderId r = Some orderId) (attributions d) = Some a"
  obtains d1 recovery d2 where "ra_status a = ReferralRewarded" "users d1 = users d" "walletLedger d1 = walletLedger d"
    "attributions d1 = attributions d \<or> (\<exists>f. attributions d1 = update_many (\<lambda>r. ra_id r = ra_id a) f (attributions d)
       \<and> (\<forall>r. ra_qualifyingOrderId (f r) = ra_qualifyingOrderId r \<and> ra_id (f r) = ra_id r))"
    "recoverWalletCredit (\<lambda>x. x) (referralRecovery a orderId actorId refundId)
       (max 0 (targetRecovery a refund - ra_recoveredCents a)) d1 = Inr (recovery, d2)"
    "bookRecovery a orderId actorId refundId refund now recovery d2 = Inr (Some x, d')"
proof -
  let ?f = "\<lambda>r. r\<lparr>ra_status := ReferralReversed, ra_reversedAt := Some now\<rparr>"
  obtain d1 where d1: "(if fr_fullRefund refund then claimAttribution (ra_id a) ReferralRewarded ?f d else Inr (True, d)) = Inr (True, d1)"
      and rest: "ra_status a = ReferralRewarded" "bindE (recoverWalletCredit (\<lambda>x. x) (referralRecovery a orderId actorId refundId)
         (max 0 (targetRecovery a refund - ra_recoveredCents a)) d1) (\<lambda>(recovery, d2).
         bookRecovery a orderId actorId refundId refund now recovery d2) = Inr (Some x, d')"
    using assms by (auto simp: reverseForRefund_def bindE_eq_Inr split: if_splits)
  obtain recovery d2 where r: "recoverWalletCredit (\<lambda>x. x) (referralRecovery a orderId actorId refundId)
       (max 0 (targetRecovery a refund - ra_recoveredCents a)) d1 = Inr (recovery, d2)"
      "bookRecovery a orderId actorId refundId refund now recovery d2 = Inr (Some x, d')"
    using rest(2) by (auto simp: err_simps)
  have "d1 = d \<or> d1 = d\<lparr>attributions := update_many (\<lambda>r. ra_id r = ra_id a) ?f (attributions d)\<rparr>"
    using d1 by (auto dest: claimAttribution_shape split: if_splits)
  then show thesis by (elim disjE) (rule that [OF rest(1) _ _ _ r]; force)+
qed

text \<open>C34: a refund takes the reward back in proportion and never more than was paid: what it adds to the
  recovered total is the part of the target still outstanding, as far as the inviter's balance covers it;
  the balance pays exactly that and nobody else does, what is missing is missing only when the balance is
  empty, the attribution of the order is written with both amounts and its new status, and after a full refund the
  reward is closed for good. It is assumed that this refund was not booked before and that the balance and what was
  recovered so far are within their bounds.\<close>

theorem reward_recovery_exact:
  assumes run: "reverseForRefund orderId actorId refundId refund now d = Inr (Some (i, taken, missing), d')"
    and a: "List.find (\<lambda>r. ra_qualifyingOrderId r = Some orderId) (attributions d) = Some a"
    and fresh: "existingPosting (ra_inviterId a) (wp_idempotencyKey (referralRecovery a orderId actorId refundId)) d = None"
    and b: "balance d (ra_inviterId a) = Some b" "0 \<le> b" and paid: "0 \<le> ra_recoveredCents a" "ra_recoveredCents a \<le> ra_inviterRewardCents a"
  shows "taken = ra_recoveredCents a + min b (max 0 (targetRecovery a refund - ra_recoveredCents a))
    \<and> missing = max 0 (targetRecovery a refund - taken) \<and> taken \<le> ra_inviterRewardCents a
    \<and> (\<exists>a'. List.find (\<lambda>r. ra_qualifyingOrderId r = Some orderId) (attributions d') = Some a' \<and> ra_id a' = i
         \<and> ra_recoveredCents a' = taken \<and> ra_unrecoveredCents a' = missing
         \<and> ra_status a' = (if fr_fullRefund refund then ReferralReversed else ReferralRewarded))
    \<and> balance d' u = (if u = ra_inviterId a then Some (b - (taken - ra_recoveredCents a)) else balance d u)
    \<and> (missing = 0 \<or> balance d' (ra_inviterId a) = Some 0)
    \<and> (\<not> fr_fullRefund refund \<or> reverseForRefund orderId actorId' refundId' refund' later d' = Inr (None, d'))"
  using run a
proof (cases rule: reverseForRefund_stages)
  case (1 d1 recovery d2)
  let ?p = "referralRecovery a orderId actorId refundId" and ?due = "max 0 (targetRecovery a refund - ra_recoveredCents a)"
  have p: "wp_userId ?p = ra_inviterId a" by (simp add: referralRecovery_def)
  have "existingPosting (ra_inviterId a) (wp_idempotencyKey ?p) d1 = None" "balance d1 v = balance d v" for v
    using fresh existingPosting_cong [OF 1(3)] balance_frame [OF 1(2)] by simp_all
  note rec = recovery_exact [OF 1(5), unfolded p, OF this(1)]
  have r: "rr_recovered recovery = min b ?due" "attributions d2 = attributions d1"
      "balance d2 v = (if v = ra_inviterId a then Some (b - min b ?due) else balance d v)" for v
    using rec b(1) \<open>\<And>v. balance d1 v = balance d v\<close> by simp_all
  note book = bookRecovery_shape [OF 1(6)]
  have i: "i = ra_id a" using 1(6) by (auto simp: bookRecovery_def err_simps Let_def split: prod.splits)
  have bal: "balance d' v = balance d2 v" for v by (rule balance_frame [OF book(3)])
  let ?P = "\<lambda>r. ra_qualifyingOrderId r = Some orderId"
  obtain bytes l where rows: "attributions d' = update_many (\<lambda>r. ra_id r = ra_id a) (recoveredRow refund now taken missing bytes l) (attributions d1)"
    using book(4) r(2) by auto
  obtain a1 where a1: "List.find ?P (attributions d1) = Some a1" "ra_id a1 = ra_id a"
    using 1(4)
  proof (elim disjE exE conjE)
    fix f assume f: "attributions d1 = update_many (\<lambda>r. ra_id r = ra_id a) f (attributions d)"
      "\<forall>r. ra_qualifyingOrderId (f r) = ra_qualifyingOrderId r \<and> ra_id (f r) = ra_id r"
    then have "List.find ?P (attributions d1) = Some (f a)" using a by (simp add: find_update_many)
    then show thesis using f(2) that by metis
  qed (use a that in simp)
  have booked: "List.find ?P (attributions d') = Some (recoveredRow refund now taken missing bytes l a1)"
    unfolding rows using a1 by (simp add: find_update_many recoveredRow_def)
  have again: "reverseForRefund orderId actorId' refundId' refund' later d' = Inr (None, d')" if full: "fr_fullRefund refund"
    using booked full by (simp add: reverseForRefund_def recoveredRow_def)
  have row: "\<exists>a'. List.find ?P (attributions d') = Some a' \<and> ra_id a' = i \<and> ra_recoveredCents a' = taken
      \<and> ra_unrecoveredCents a' = missing \<and> ra_status a' = (if fr_fullRefund refund then ReferralReversed else ReferralRewarded)"
    using booked a1(2) i by (simp add: recoveredRow_def)
  have "taken \<le> ra_inviterRewardCents a"
    using book(1) r(1) paid target_within [of a refund] by simp
  moreover have t: "taken = ra_recoveredCents a + min b ?due" using book(1) r(1) by simp
  moreover have v: "balance d' v = (if v = ra_inviterId a then Some (b - min b ?due) else balance d v)" for v
    using r(3) bal by simp
  moreover have "missing = 0 \<or> balance d' (ra_inviterId a) = Some 0"
    unfolding v using book(2) t by (cases "?due \<le> b") (simp_all add: min_def)
  ultimately show ?thesis using book(2) again row by (intro conjI) simp_all
qed

text \<open>The reward of 3.00 is taken back from an inviter with 1.00 left.\<close>

definition exampleRewarded :: db where
  "exampleRewarded = exampleReferral\<lparr>attributions := [exampleAttribution\<lparr>ra_status := ReferralRewarded,
     ra_inviterRewardCents := 300, ra_qualifyingOrderId := Some ''o1''\<rparr>]\<rparr>"

definition exampleFullRefund :: referral_refund where
  "exampleFullRefund = \<lparr>fr_cumulativeRefundedCents = 3000, fr_orderAmountCents = 3000, fr_fullRefund = True\<rparr>"

theorem reward_recovery_exact_witness:
  "\<exists>d'. reverseForRefund ''o1'' ''admin'' ''r1'' exampleFullRefund 1709300000000 exampleRewarded = Inr (Some (''ra1'', 100, 200), d')
     \<and> balance d' ''u9'' = Some 0
     \<and> reverseForRefund ''o1'' ''admin'' ''r2'' exampleFullRefund 1709300000001 d' = Inr (None, d')"
proof -
  let ?a = "exampleAttribution\<lparr>ra_status := ReferralRewarded, ra_inviterRewardCents := 300, ra_qualifyingOrderId := Some ''o1''\<rparr>"
  have "case reverseForRefund ''o1'' ''admin'' ''r1'' exampleFullRefund 1709300000000 exampleRewarded of
      Inl _ \<Rightarrow> False | Inr (i, d') \<Rightarrow> i = Some (''ra1'', 100, 200)" by code_simp
  then obtain d' where run: "reverseForRefund ''o1'' ''admin'' ''r1'' exampleFullRefund 1709300000000 exampleRewarded = Inr (Some (''ra1'', 100, 200), d')"
    by (cases "reverseForRefund ''o1'' ''admin'' ''r1'' exampleFullRefund 1709300000000 exampleRewarded") auto
  have a: "List.find (\<lambda>r. ra_qualifyingOrderId r = Some ''o1'') (attributions exampleRewarded) = Some ?a"
    by (simp add: exampleRewarded_def)
  have w: "existingPosting (ra_inviterId ?a) k exampleRewarded = None" "balance exampleRewarded (ra_inviterId ?a) = Some 100"
      "0 \<le> ra_recoveredCents ?a" "ra_recoveredCents ?a \<le> ra_inviterRewardCents ?a" "ra_inviterId ?a = ''u9''"
      "ra_recoveredCents exampleAttribution = 0" for k
    using exampleReferral_facts(2,3) existingPosting_cong [of exampleRewarded exampleReferral]
    by (simp_all add: exampleRewarded_def exampleAttribution_def balance_def)
  have "(200 :: int) = 0 \<or> balance d' ''u9'' = Some 0"
    and "\<not> fr_fullRefund exampleFullRefund
      \<or> reverseForRefund ''o1'' ''admin'' ''r2'' exampleFullRefund 1709300000001 d' = Inr (None, d')"
    using reward_recovery_exact [OF run a w(1,2) _ w(3,4)] by (simp_all add: w(5) w(6))
  then show ?thesis using run by (simp add: exampleFullRefund_def)
qed

end
