(* ===== verification/QuotaFrame.thy ===== *)
theory QuotaFrame imports QuotaLaws begin

text \<open>
  What a quota credit leaves alone: every table but the buckets, the mirrored cycles and the adjustments.
  The callers of \<open>creditQuotaBucket\<close> in the checkout and the daily check-in use it.
\<close>

definition nonQuota :: "db \<Rightarrow> db" where
  "nonQuota d = d\<lparr>buckets := [], cycles := [], adjustments := [], db_next := 0\<rparr>"

lemma creditQuotaBucket_nonQuota:
  assumes "creditQuotaBucket c d = Inr (r, d')"
  shows "nonQuota d' = nonQuota d"
proof (cases "creditKeySpent d (qc_idempotencyKey c)")
  case True
  then show ?thesis using creditQuotaBucket_replay [OF assms] by simp
next
  case False
  then show ?thesis
  proof (rule creditQuotaBucket_stages [OF assms])
    fix b g d1 d2
    assume u: "updateBucket (qb_id b) (\<lambda>b. b\<lparr>qb_granted := qb_granted b + qc_bytes c\<rparr>) d = Inr d1"
      and m: "(case mirrorCycleId g (qc_at c) d of None \<Rightarrow> Inr d1
        | Some k \<Rightarrow> updateCycle k (\<lambda>r. r\<lparr>sc_adjustment := sc_adjustment r + qc_bytes c\<rparr>) d1) = Inr d2"
      and a: "createAdjustment (\<lambda>i. \<lparr>qa_id = i, qa_accountId = g_accountId g, qa_cycleId = mirrorCycleId g (qc_at c) d,
        qa_packId = None, qa_bucketId = Some (qb_id b), qa_actorId = qc_actorId c,
        qa_idempotencyKey = Some (qc_idempotencyKey c), qa_mode = Delta, qa_delta = qc_bytes c,
        qa_before = bucketRemaining b, qa_after = bucketRemaining b + qc_bytes c, qa_reason = qc_reason c\<rparr>) d2
        = Inr (cr_adjustmentId r, d')"
    have "nonQuota d1 = nonQuota d" using u by (auto simp: updateBucket_def err_simps nonQuota_def)
    moreover have "nonQuota d2 = nonQuota d1" using m
      by (auto simp: updateCycle_def err_simps nonQuota_def split: option.splits)
    moreover have "nonQuota d' = nonQuota d2" using a
      by (auto simp: createAdjustment_def Let_def err_simps nonQuota_def drawId_def)
    ultimately show ?thesis by simp
  qed
qed

lemma nonQuota_tables:
  assumes "nonQuota d' = nonQuota d"
  shows "users d' = users d" "walletLedger d' = walletLedger d" "orders d' = orders d" "grants d' = grants d"
    "checkIns d' = checkIns d" "payments d' = payments d" "subscriptions d' = subscriptions d" "audits d' = audits d"
    "offers d' = offers d" "products d' = products d" "profiles d' = profiles d" "db_now d' = db_now d"
  using arg_cong [OF assms, of users] arg_cong [OF assms, of walletLedger] arg_cong [OF assms, of orders]
    arg_cong [OF assms, of grants] arg_cong [OF assms, of checkIns] arg_cong [OF assms, of payments]
    arg_cong [OF assms, of subscriptions] arg_cong [OF assms, of audits] arg_cong [OF assms, of offers]
    arg_cong [OF assms, of products] arg_cong [OF assms, of profiles] arg_cong [OF assms, of db_now]
  by (simp_all add: nonQuota_def)

lemmas credit_tables = nonQuota_tables [OF creditQuotaBucket_nonQuota]

lemma credit_grantedOf:
  assumes "creditQuotaBucket c d = Inr (r, d')" and "\<not> creditKeySpent d (qc_idempotencyKey c)"
  shows "grantedOf d' i = map_option (\<lambda>n. n + (if qc_bucketId c = i then qc_bytes c else 0)) (grantedOf d i)"
  by (rule quota.pays [OF assms])

lemma credit_consumed:
  assumes "creditQuotaBucket c d = Inr (r, d')"
  shows "map qb_consumed (buckets d') = map qb_consumed (buckets d)"
proof (cases "creditKeySpent d (qc_idempotencyKey c)")
  case True
  then show ?thesis using creditQuotaBucket_replay [OF assms] by simp
next
  case False
  then show ?thesis using creditQuotaBucket_fresh [OF assms] by (auto simp: map_update_many)
qed

end
