(* ===== verification/CheckIns.thy ===== *)
theory CheckIns imports Referrals QuotaFrame begin

text \<open>
  The daily check-in, \<open>apps/api/src/check-in/check-in.service.ts\<close>: a member with a running plan
  claims bytes once per business day of Shanghai.

  \<open>Intl.DateTimeFormat\<close> with that zone is the calendar eight hours ahead of UTC, which the zone
  has kept since 1991. The configuration is read from the settings and is an argument here.
  The answer's constant time zone name is left out.
\<close>

section \<open>The business day\<close>

definition SHANGHAI_OFFSET_MS :: int where
  "SHANGHAI_OFFSET_MS = 8 * 60 * 60 * 1000"

definition twoDigits :: "int \<Rightarrow> string" where
  "twoDigits n = (if n < 10 then ''0'' else []) @ decimal (nat n)"

definition dateKey :: "instant \<Rightarrow> string" where
  "dateKey now = (let t = now + SHANGHAI_OFFSET_MS
     in decimal (nat (getUTCFullYear t)) @ ''-'' @ twoDigits (getUTCMonth t + 1) @ ''-'' @ twoDigits (getUTCDate t))"

text \<open>The parts of the key, read as numbers again.\<close>

definition businessDate :: "instant \<Rightarrow> instant" where
  "businessDate now = (let t = now + SHANGHAI_OFFSET_MS
     in dateUTC (getUTCFullYear t) (getUTCMonth t) (getUTCDate t) 0 0 0 0)"

section \<open>Eligibility\<close>

record check_in_config =
  ck_enabled :: bool
  ck_rewardBytes :: int

definition findEligibleGrant :: "id \<Rightarrow> instant \<Rightarrow> db \<Rightarrow> (grant_row \<times> bucket_row) option" where
  "findEligibleGrant userId now d =
     (case newestGrants (filter (\<lambda>g. g_userId g = userId \<and> g_kind g = GrantPlan \<and> grantLive now g
             \<and> lookup cp_id (g_productId g) (products d) \<noteq> None) (grants d)) of
        [] \<Rightarrow> None
      | g # _ \<Rightarrow>
          (case (newestBuckets (filter (\<lambda>b. qb_grantId b = g_id g \<and> bucketCurrent now b) (buckets d)),
                 lookup cp_id (g_productId g) (products d)) of
             (b # _, Some product) \<Rightarrow> if isGoPlanProduct product d then None else Some (g, b)
           | _ \<Rightarrow> None))"

section \<open>Claiming\<close>

record check_in_status =
  ks_enabled :: bool
  ks_eligible :: bool
  ks_claimable :: bool
  ks_claimed :: bool
  ks_rewardBytes :: int
  ks_claimedAt :: "instant option"
  ks_checkInId :: "id option"
  ks_replayed :: bool
  ks_businessDate :: string

definition presentStatus ::
  "check_in_config \<Rightarrow> bool \<Rightarrow> check_in_row option \<Rightarrow> bool \<Rightarrow> string \<Rightarrow> check_in_status" where
  "presentStatus config eligible claimed replayed day =
     \<lparr>ks_enabled = ck_enabled config, ks_eligible = eligible,
      ks_claimable = (ck_enabled config \<and> eligible \<and> claimed = None), ks_claimed = (claimed \<noteq> None),
      ks_rewardBytes = (case claimed of Some c \<Rightarrow> dc_rewardBytes c | None \<Rightarrow> ck_rewardBytes config),
      ks_claimedAt = map_option dc_claimedAt claimed, ks_checkInId = map_option dc_id claimed,
      ks_replayed = replayed, ks_businessDate = day\<rparr>"

definition checkInOf :: "id \<Rightarrow> instant \<Rightarrow> db \<Rightarrow> check_in_row option" where
  "checkInOf userId day d = List.find (\<lambda>c. dc_userId c = userId \<and> dc_businessDate c = day) (checkIns d)"

definition getToday :: "check_in_config \<Rightarrow> id \<Rightarrow> instant \<Rightarrow> db \<Rightarrow> check_in_status" where
  "getToday config userId now d =
     presentStatus config (findEligibleGrant userId now d \<noteq> None) (checkInOf userId (businessDate now) d) False (dateKey now)"

definition checkInClash :: "check_in_row \<Rightarrow> check_in_row \<Rightarrow> bool" where
  "checkInClash a b \<longleftrightarrow> dc_userId a = dc_userId b \<and> dc_businessDate a = dc_businessDate b
     \<or> dc_adjustmentId a = dc_adjustmentId b"

definition checkInCredit :: "check_in_config \<Rightarrow> id \<Rightarrow> instant \<Rightarrow> id \<Rightarrow> quota_credit" where
  "checkInCredit config userId now bucketId = \<lparr>qc_bucketId = bucketId, qc_bytes = ck_rewardBytes config, qc_at = now,
     qc_reason = ''daily-check-in'', qc_idempotencyKey = ''daily-check-in:'' @ userId @ '':'' @ dateKey now, qc_actorId = None\<rparr>"

definition claimRow :: "check_in_config \<Rightarrow> id \<Rightarrow> instant \<Rightarrow> id \<Rightarrow> id \<Rightarrow> credit_result \<Rightarrow> id \<Rightarrow> check_in_row" where
  "claimRow config userId now grantId bucketId credit i = \<lparr>dc_id = i, dc_userId = userId, dc_businessDate = businessDate now,
     dc_rewardBytes = ck_rewardBytes config, dc_grantId = grantId, dc_bucketId = bucketId, dc_cycleId = cr_cycleId credit,
     dc_adjustmentId = cr_adjustmentId credit, dc_claimedAt = now\<rparr>"

text \<open>The body of the transaction.\<close>

definition claimOnce :: "check_in_config \<Rightarrow> id \<Rightarrow> instant \<Rightarrow> db \<Rightarrow> error + (check_in_status \<times> db)" where
  "claimOnce config userId now d =
     (case checkInOf userId (businessDate now) d of
        Some c \<Rightarrow> Inr (presentStatus config True (Some c) True (dateKey now), d)
      | None \<Rightarrow>
          (case findEligibleGrant userId now d of
             None \<Rightarrow> Inl (BadRequest ''plan-required'')
           | Some (g, b) \<Rightarrow>
               bindE (creditQuotaBucket (checkInCredit config userId now (qb_id b)) d) (\<lambda>(credit, d1).
               let row = claimRow config userId now (g_id g) (qb_id b) credit (freshId d1)
               in bindE (insert_unique checkInClash row (checkIns d1)) (\<lambda>rows.
                  Inr (presentStatus config True (Some row) False (dateKey now),
                    createAudit None ''daily_check_in.claimed'' ''daily_check_in'' (Some (dc_id row))
                      (JObj [(''userId'', JStr userId), (''businessDate'', JStr (dateKey now)),
                             (''rewardBytes'', JBig (ck_rewardBytes config)), (''grantId'', JStr (g_id g)),
                             (''bucketId'', JStr (qb_id b))]) ((drawId d1)\<lparr>checkIns := rows\<rparr>))))))"

definition claim ::
  "check_in_config \<Rightarrow> id \<Rightarrow> instant \<Rightarrow> (nat \<Rightarrow> db) \<Rightarrow> (nat \<Rightarrow> bool) \<Rightarrow> error + (check_in_status \<times> db)" where
  "claim config userId now world refused =
     bindE (guardE (BadRequest ''check-in-closed'') (ck_enabled config \<and> 0 < ck_rewardBytes config)) (\<lambda>_.
     serializable (claimOnce config userId now) world refused)"

section \<open>What it guarantees\<close>

text \<open>The business day is the day of Shanghai: two instants have the same one exactly when
  they lie in the same day that starts at 16:00 UTC, so a member can claim again at midnight there and not before.\<close>

theorem businessDate_is_day:
  assumes "99 < getUTCFullYear (s + SHANGHAI_OFFSET_MS)" and "99 < getUTCFullYear (t + SHANGHAI_OFFSET_MS)"
  shows "businessDate s = businessDate t \<longleftrightarrow> (s + SHANGHAI_OFFSET_MS) div msPerDay = (t + SHANGHAI_OFFSET_MS) div msPerDay"
proof -
  have day: "businessDate r = dayOf (r + SHANGHAI_OFFSET_MS) * msPerDay" if "99 < getUTCFullYear (r + SHANGHAI_OFFSET_MS)" for r
  proof -
    let ?t = "r + SHANGHAI_OFFSET_MS"
    have "businessDate r = (monthStart (monthOf ?t) + getUTCDate ?t - 1) * msPerDay"
      using that by (simp add: businessDate_def Let_def dateUTC_eq)
    then show ?thesis by (simp add: getUTCDate_def)
  qed
  show ?thesis using day assms by (simp add: dayOf_def msPerDay_def)
qed

theorem businessDate_is_day_witness:
  "businessDate 1709308799999 \<noteq> businessDate 1709308800000 \<and> businessDate 1709308800000 = businessDate 1709395199999"
proof -
  have "99 < getUTCFullYear (1709308799999 + SHANGHAI_OFFSET_MS)" "99 < getUTCFullYear (1709308800000 + SHANGHAI_OFFSET_MS)"
    "99 < getUTCFullYear (1709395199999 + SHANGHAI_OFFSET_MS)" by code_simp+
  then show ?thesis
    using businessDate_is_day [of 1709308799999 1709308800000] businessDate_is_day [of 1709308800000 1709395199999]
    by (simp add: SHANGHAI_OFFSET_MS_def msPerDay_def)
qed

lemma findEligible_shape:
  "findEligibleGrant u now d = Some (g, b) \<Longrightarrow> qb_grantId b = g_id g \<and> b \<in> set (buckets d) \<and> g \<in> set (grants d) \<and> grantLive now g"
proof -
  assume e: "findEligibleGrant u now d = Some (g, b)"
  let ?gs = "newestGrants (filter (\<lambda>g. g_userId g = u \<and> g_kind g = GrantPlan \<and> grantLive now g
             \<and> lookup cp_id (g_productId g) (products d) \<noteq> None) (grants d))"
  obtain rest where gs: "?gs = g # rest"
    using e by (auto simp: findEligibleGrant_def split: list.splits option.splits if_splits)
  let ?bs = "newestBuckets (filter (\<lambda>b. qb_grantId b = g_id g \<and> bucketCurrent now b) (buckets d))"
  obtain more where bs: "?bs = b # more"
    using e gs by (auto simp: findEligibleGrant_def split: list.splits option.splits if_splits)
  have "g \<in> set ?gs" "b \<in> set ?bs" unfolding gs bs by simp_all
  then show ?thesis by (auto simp: newestGrants_def newestBuckets_def)
qed

lemma checkInOf_append: "checkInOf u day d = None \<Longrightarrow> checkIns d' = checkIns d @ [c] \<Longrightarrow>
    checkInOf u day d' = (if dc_userId c = u \<and> dc_businessDate c = day then Some c else None)"
  by (simp add: checkInOf_def find_append_None)

lemma claimOnce_new:
  assumes run: "claimOnce config u now d = Inr (st, d')" and new: "\<not> ks_replayed st"
    and fresh: "\<not> creditKeySpent d (''daily-check-in:'' @ u @ '':'' @ dateKey now)"
    and day: "businessDate later = businessDate now"
  shows "\<exists>c. checkIns d' = checkIns d @ [c] \<and> dc_userId c = u \<and> dc_businessDate c = businessDate now
      \<and> dc_rewardBytes c = ck_rewardBytes config
      \<and> (\<forall>i. grantedOf d' i = map_option (\<lambda>n. n + (if dc_bucketId c = i then ck_rewardBytes config else 0)) (grantedOf d i))
      \<and> (\<forall>config'. claimOnce config' u later d' = Inr (presentStatus config' True (Some c) True (dateKey later), d'))"
proof -
  have none: "checkInOf u (businessDate now) d = None"
    using run new by (auto simp: claimOnce_def presentStatus_def split: option.splits)
  obtain g b credit d1 where e: "findEligibleGrant u now d = Some (g, b)"
      "creditQuotaBucket (checkInCredit config u now (qb_id b)) d = Inr (credit, d1)"
      "checkIns d' = checkIns d1 @ [claimRow config u now (g_id g) (qb_id b) credit (freshId d1)]"
      "buckets d' = buckets d1"
    using run none by (auto simp: claimOnce_def err_simps Let_def split: option.splits prod.splits)
  let ?c = "claimRow config u now (g_id g) (qb_id b) credit (freshId d1)"
  have c: "dc_userId ?c = u" "dc_businessDate ?c = businessDate now" "dc_bucketId ?c = qb_id b"
    "dc_rewardBytes ?c = ck_rewardBytes config"
    by (simp_all add: claimRow_def)
  have rows: "checkIns d' = checkIns d @ [?c]" using e(3) credit_tables(5) [OF e(2)] by simp
  have "grantedOf d1 i = map_option (\<lambda>n. n + (if qb_id b = i then ck_rewardBytes config else 0)) (grantedOf d i)" for i
    using creditQuotaBucket_fresh [OF e(2)] fresh
    by (auto simp: grantedOf_def checkInCredit_def lookup_update_key option.map_comp comp_def option.map_ident)
  then have paid: "grantedOf d' i = map_option (\<lambda>n. n + (if dc_bucketId ?c = i then ck_rewardBytes config else 0)) (grantedOf d i)" for i
    using e(4) c(3) by (simp add: grantedOf_def)
  have "checkInOf u (businessDate later) d' = Some ?c"
    unfolding day using checkInOf_append [OF none rows] c by simp
  then have "claimOnce config' u later d' = Inr (presentStatus config' True (Some ?c) True (dateKey later), d')" for config'
    by (simp add: claimOnce_def)
  then show ?thesis using rows c paid by (intro exI [of _ ?c]) simp
qed

lemma serializable_Inr:
  assumes "serializable operation world refused = Inr x"
  shows "\<exists>i < 3. operation (world i) = Inr x"
proof -
  have hit: "operation (world i) = Inr x" if "attemptOnce operation world refused i = Inr x" for i
    using that by (auto simp: attemptOnce_def split: sum.splits if_splits)
  have "attemptOnce operation world refused 0 = Inr x \<or> attemptOnce operation world refused 1 = Inr x
      \<or> attemptOnce operation world refused 2 = Inr x"
    using assms by (auto simp: serializable_outcome Let_def split: if_splits)
  then show ?thesis using hit by (elim disjE) (auto intro: exI [of _ 0] exI [of _ 1] exI [of _ 2])
qed

lemma serializable_steady:
  assumes "operation d = Inr x"
  shows "serializable operation (\<lambda>_. d) refused
     = (if refused 0 \<and> refused 1 \<and> refused 2 then Inl (PrismaKnown ''P2034'') else Inr x)"
  by (simp add: serializable_outcome attemptOnce_def assms retryable_def)

text \<open>C35: a day pays once: a claim that was not a replay, with the credit key of the day unused, was open at the time,
  adds exactly the configured bytes to one bucket and records the day in the state its transaction ran on; and every
  further claim of the member on the same day, whatever the clock by then, changes nothing: it answers with the same
  claim, unless check-in is closed by then or the database refuses all three attempts.\<close>

theorem check_in_once:
  assumes run: "claim config u now world refused = Inr (st, d')" and new: "\<not> ks_replayed st"
    and fresh: "\<forall>i. \<not> creditKeySpent (world i) (''daily-check-in:'' @ u @ '':'' @ dateKey now)"
    and day: "businessDate later = businessDate now"
  shows "ck_enabled config \<and> 0 < ck_rewardBytes config
    \<and> (\<exists>i c. i < 3 \<and> checkIns d' = checkIns (world i) @ [c] \<and> dc_userId c = u \<and> dc_businessDate c = businessDate now
      \<and> dc_rewardBytes c = ck_rewardBytes config
      \<and> (\<forall>j. grantedOf d' j = map_option (\<lambda>n. n + (if dc_bucketId c = j then ck_rewardBytes config else 0)) (grantedOf (world i) j))
      \<and> claim config' u later (\<lambda>_. d') refused'
          = (if \<not> ck_enabled config' \<or> ck_rewardBytes config' \<le> 0 then Inl (BadRequest ''check-in-closed'')
             else if refused' 0 \<and> refused' 1 \<and> refused' 2 then Inl (PrismaKnown ''P2034'')
             else Inr (presentStatus config' True (Some c) True (dateKey later), d')))"
proof -
  have opened: "ck_enabled config \<and> 0 < ck_rewardBytes config"
    and tried: "serializable (claimOnce config u now) world refused = Inr (st, d')"
    using run by (auto simp: claim_def err_simps)
  obtain i where i: "i < 3" "claimOnce config u now (world i) = Inr (st, d')" using serializable_Inr [OF tried] by blast
  obtain c where c: "checkIns d' = checkIns (world i) @ [c]" "dc_userId c = u" "dc_businessDate c = businessDate now"
      "dc_rewardBytes c = ck_rewardBytes config"
      "\<forall>j. grantedOf d' j = map_option (\<lambda>n. n + (if dc_bucketId c = j then ck_rewardBytes config else 0)) (grantedOf (world i) j)"
      "\<forall>config'. claimOnce config' u later d' = Inr (presentStatus config' True (Some c) True (dateKey later), d')"
    using claimOnce_new [OF i(2) new _ day] fresh by blast
  have "claim config' u later (\<lambda>_. d') refused'
      = (if \<not> ck_enabled config' \<or> ck_rewardBytes config' \<le> 0 then Inl (BadRequest ''check-in-closed'')
         else if refused' 0 \<and> refused' 1 \<and> refused' 2 then Inl (PrismaKnown ''P2034'')
         else Inr (presentStatus config' True (Some c) True (dateKey later), d'))"
    using serializable_steady [of "claimOnce config' u later" d'] c(6) by (simp add: claim_def guardE_def)
  then show ?thesis using opened i(1) c(1-5) by blast
qed

definition exampleCheckIn :: check_in_config where
  "exampleCheckIn = \<lparr>ck_enabled = True, ck_rewardBytes = 70\<rparr>"

definition exampleDay :: db where
  "exampleDay = exampleQuotaUser\<lparr>products := [(hd (products exampleSnapshotDb))\<lparr>cp_series := Ultra\<rparr>]\<rparr>"

theorem check_in_once_witness:
  "\<exists>st d' c. claim exampleCheckIn ''u1'' 1709300000000 (\<lambda>_. exampleDay) (\<lambda>i. i = 0) = Inr (st, d') \<and> \<not> ks_replayed st
     \<and> checkIns d' = [c]
     \<and> claim exampleCheckIn ''u1'' 1709300000001 (\<lambda>_. d') (\<lambda>i. False)
         = Inr (presentStatus exampleCheckIn True (Some c) True (dateKey 1709300000001), d')"
proof -
  have once: "case claimOnce exampleCheckIn ''u1'' 1709300000000 exampleDay of Inl _ \<Rightarrow> False | Inr (st, d') \<Rightarrow> \<not> ks_replayed st"
    by code_simp
  then obtain st d' where "claimOnce exampleCheckIn ''u1'' 1709300000000 exampleDay = Inr (st, d')" and new: "\<not> ks_replayed st"
    by (cases "claimOnce exampleCheckIn ''u1'' 1709300000000 exampleDay") auto
  then have run: "claim exampleCheckIn ''u1'' 1709300000000 (\<lambda>_. exampleDay) (\<lambda>i. i = 0) = Inr (st, d')"
    using serializable_steady [of "claimOnce exampleCheckIn ''u1'' 1709300000000" exampleDay "(st, d')" "\<lambda>i. i = 0"]
    by (simp add: claim_def exampleCheckIn_def)
  have "businessDate 1709300000001 = businessDate 1709300000000" by code_simp
  moreover have "\<not> creditKeySpent exampleDay k" "checkIns exampleDay = []" for k
    by (simp_all add: creditKeySpent_def exampleDay_def exampleQuotaUser_def exampleQuotaDb_def emptyDb_def)
  ultimately show ?thesis
    using check_in_once [OF run new, of 1709300000001 exampleCheckIn "\<lambda>i. False"] run new
    by (auto simp: exampleCheckIn_def)
qed

end
