(* ===== verification/PaymentAttempts.thy ===== *)
theory PaymentAttempts imports Database JsText "HOL-Library.Product_Lexorder" "HOL-Library.List_Lexorder" begin

text \<open>
  Unpaid checkouts make way for a new one: \<open>abandonPendingPayments\<close> of
  \<open>apps/api/src/payments/payment-attempt-lifecycle.service.ts\<close>, run in the transaction of every
  checkout. A group buy that waited for the abandoned payment gives its place back.

  \<open>groupBuyMember.paymentAttemptId\<close> and \<open>activeKey\<close> are unique columns.
\<close>

section \<open>The operation\<close>

definition PAYMENT_ABANDON_REASON_NEW_CHECKOUT :: string where
  "PAYMENT_ABANDON_REASON_NEW_CHECKOUT = ''REPLACED_BY_NEW_CHECKOUT''"

definition activeEpayCheckoutKey :: "id \<Rightarrow> string" where
  "activeEpayCheckoutKey userId = ''epay-checkout:'' @ userId"

definition unpaid :: "epay_row \<Rightarrow> bool" where
  "unpaid a \<longleftrightarrow> ea_status a = EpayPending \<and> ea_fulfillment a = FulPending"

definition releasePaidKeys :: "id \<Rightarrow> db \<Rightarrow> db" where
  "releasePaidKeys userId d = d\<lparr>epayAttempts :=
     update_many (\<lambda>a. ea_userId a = userId \<and> ea_activeKey a \<noteq> None \<and> \<not> unpaid a)
       (\<lambda>a. a\<lparr>ea_activeKey := None\<rparr>) (epayAttempts d)\<rparr>"

definition pendingAttempts :: "id \<Rightarrow> db \<Rightarrow> (epay_row \<times> group_member_row option) list" where
  "pendingAttempts userId d =
     map (\<lambda>a. (a, lookup gm_paymentAttemptId (Some (ea_id a)) (groupMembers d)))
       (sort_key (\<lambda>a. (ea_createdAt a, map of_char (ea_id a) :: nat list))
         (filter (\<lambda>a. ea_userId a = userId \<and> unpaid a \<and> ea_activeKey a \<noteq> None) (epayAttempts d)))"

text \<open>The place of a group buy member whose payment is given up, and the group of its creator.\<close>

definition closeMember :: "id \<Rightarrow> instant \<Rightarrow> group_member_row \<Rightarrow> db \<Rightarrow> db" where
  "closeMember attemptId at m d =
     (if gm_status m \<noteq> MemberPaymentPending then d
      else
        let hit = (\<lambda>r. gm_id r = gm_id m \<and> gm_paymentAttemptId r = Some attemptId \<and> gm_status r = MemberPaymentPending);
            released = length (filter hit (groupMembers d));
            d1 = d\<lparr>groupMembers := update_many hit
                    (\<lambda>r. r\<lparr>gm_status := MemberPaymentClosed, gm_activeSlot := None\<rparr>) (groupMembers d)\<rparr>
        in if released = 1 \<and> gm_isCreator m
           then d1\<lparr>groupBuys := update_many (\<lambda>g. gb_id g = gm_groupId m \<and> gb_status g = GroupPendingPayment)
                  (\<lambda>g. g\<lparr>gb_status := GroupCanceled, gb_completedAt := Some at\<rparr>) (groupBuys d1)\<rparr>
           else d1)"

definition auditAbandoned :: "id \<Rightarrow> epay_row \<Rightarrow> db \<Rightarrow> db" where
  "auditAbandoned userId a =
     createAudit None ''EPAY_PAYMENT_ABANDONED_FOR_NEW_CHECKOUT'' ''EpayPaymentAttempt'' (Some (ea_id a))
       (JObj [(''userId'', JStr userId), (''merchantOrderNo'', JStr (ea_merchantOrderNo a)),
              (''reason'', JStr PAYMENT_ABANDON_REASON_NEW_CHECKOUT)])"

definition abandonRow :: "instant \<Rightarrow> epay_row \<Rightarrow> epay_row" where
  "abandonRow at r = r\<lparr>ea_status := EpayExpired, ea_activeKey := None, ea_abandonedAt := Some at,
     ea_abandonReason := Some PAYMENT_ABANDON_REASON_NEW_CHECKOUT\<rparr>"

fun abandonOne ::
  "id \<Rightarrow> instant \<Rightarrow> epay_row \<times> group_member_row option \<Rightarrow> id list \<times> db \<Rightarrow> id list \<times> db" where
  "abandonOne userId at (a, member) (ids, d) =
     (let hit = (\<lambda>r. ea_id r = ea_id a \<and> unpaid r \<and> ea_activeKey r \<noteq> None);
          d1 = d\<lparr>epayAttempts := update_many hit (abandonRow at) (epayAttempts d)\<rparr>
      in if length (filter hit (epayAttempts d)) \<noteq> 1 then (ids, d1)
         else (ids @ [ea_id a],
               auditAbandoned userId a (case member of None \<Rightarrow> d1 | Some m \<Rightarrow> closeMember (ea_id a) at m d1)))"

definition abandonPendingPayments :: "id \<Rightarrow> instant \<Rightarrow> db \<Rightarrow> id list \<times> db" where
  "abandonPendingPayments userId at d =
     (let d1 = releasePaidKeys userId d
      in fold (abandonOne userId at) (pendingAttempts userId d1) ([], d1))"

section \<open>What it leaves\<close>

text \<open>An attempt after the call, read off the attempt before.\<close>

definition afterCheckout :: "id \<Rightarrow> instant \<Rightarrow> epay_row \<Rightarrow> epay_row" where
  "afterCheckout userId at a =
     (if ea_userId a \<noteq> userId \<or> ea_activeKey a = None then a
      else if unpaid a then abandonRow at a else a\<lparr>ea_activeKey := None\<rparr>)"

text \<open>The tables the call may change.\<close>

definition touchesPayments :: "db \<Rightarrow> db \<Rightarrow> bool" where
  "touchesPayments d d' \<longleftrightarrow> d' = d\<lparr>epayAttempts := epayAttempts d', groupMembers := groupMembers d',
     groupBuys := groupBuys d', audits := audits d', db_next := db_next d'\<rparr>"

lemma touchesPayments_refl: "touchesPayments d d"
  by (simp add: touchesPayments_def)

lemma touchesPayments_trans: "touchesPayments d d' \<Longrightarrow> touchesPayments d' d'' \<Longrightarrow> touchesPayments d d''"
  unfolding touchesPayments_def by (elim ssubst) simp

lemma closeMember_touches: "touchesPayments d (closeMember i at m d)"
  by (simp add: closeMember_def touchesPayments_def Let_def)

lemma closeMember_attempts [simp]: "epayAttempts (closeMember i at m d) = epayAttempts d"
  by (simp add: closeMember_def Let_def)

lemma abandonOne_touches: "touchesPayments d (snd (abandonOne u at p (ids, d)))"
proof (cases p)
  case (Pair a member)
  let ?d1 = "d\<lparr>epayAttempts := update_many (\<lambda>r. ea_id r = ea_id a \<and> unpaid r \<and> ea_activeKey r \<noteq> None)
      (abandonRow at) (epayAttempts d)\<rparr>"
  have d1: "touchesPayments d ?d1" by (simp add: touchesPayments_def)
  have audit: "touchesPayments e (auditAbandoned u a e)" for e
    by (simp add: touchesPayments_def auditAbandoned_def createAudit_def drawId_def)
  have "touchesPayments ?d1 (case member of None \<Rightarrow> ?d1 | Some m \<Rightarrow> closeMember (ea_id a) at m ?d1)"
    by (cases member) (simp_all only: option.case touchesPayments_refl closeMember_touches)
  from touchesPayments_trans [OF touchesPayments_trans [OF d1 this] audit]
  show ?thesis using Pair d1 by (simp only: abandonOne.simps Let_def snd_conv if_split) simp
qed

lemma fold_touches: "touchesPayments d (snd (fold (abandonOne u at) ps (ids, d)))"
proof (induction ps arbitrary: ids d)
  case (Cons p ps)
  obtain ids1 d1 where s: "abandonOne u at p (ids, d) = (ids1, d1)" by fastforce
  show ?case using touchesPayments_trans [OF abandonOne_touches [of d u at p ids, unfolded s snd_conv] Cons.IH] s by simp
qed (simp add: touchesPayments_refl)

lemma filter_one:
  assumes "distinct (map key rows)" and "r \<in> set rows" and "P r"
  shows "filter (\<lambda>x. key x = key r \<and> P x) rows = [r]"
  using assms
proof (induction rows)
  case (Cons x xs)
  show ?case
  proof (cases "x = r")
    case True
    then have "filter (\<lambda>y. key y = key r \<and> P y) xs = []" using Cons.prems(1)
      by (auto simp: filter_empty_conv) (metis image_eqI)
    then show ?thesis using True Cons.prems(3) by simp
  next
    case False
    then have "r \<in> set xs" "key x \<noteq> key r" using Cons.prems by auto
    then show ?thesis using Cons by simp
  qed
qed simp

text \<open>Abandoning the attempts of a list, one after another.\<close>

lemma fold_abandons:
  assumes "distinct (map ea_id (epayAttempts d))" and "distinct (map (ea_id \<circ> fst) ps)"
    and "\<And>a m. (a, m) \<in> set ps \<Longrightarrow> a \<in> set (epayAttempts d) \<and> unpaid a \<and> ea_activeKey a \<noteq> None"
  shows "epayAttempts (snd (fold (abandonOne u at) ps (ids, d)))
      = update_many (\<lambda>r. ea_id r \<in> (ea_id \<circ> fst) ` set ps) (abandonRow at) (epayAttempts d)
    \<and> fst (fold (abandonOne u at) ps (ids, d)) = ids @ map (ea_id \<circ> fst) ps"
  using assms
proof (induction ps arbitrary: ids d)
  case Nil
  then show ?case by (simp add: update_many_idle)
next
  case (Cons p ps)
  obtain a m where p: "p = (a, m)" by fastforce
  have a: "a \<in> set (epayAttempts d)" "unpaid a" "ea_activeKey a \<noteq> None" using Cons.prems(3) p by auto
  let ?hit = "\<lambda>r. ea_id r = ea_id a \<and> unpaid r \<and> ea_activeKey r \<noteq> None"
  obtain ids1 d1 where s: "abandonOne u at p (ids, d) = (ids1, d1)" by fastforce
  have one: "filter ?hit (epayAttempts d) = [a]"
    using filter_one [OF Cons.prems(1) a(1), of "\<lambda>r. unpaid r \<and> ea_activeKey r \<noteq> None"] a by simp
  have only: "ea_id r = ea_id a \<longleftrightarrow> ?hit r" if "r \<in> set (epayAttempts d)" for r
    using Cons.prems(1) a that by (metis (no_types, lifting) distinct_map inj_onD)
  have upd: "update_many ?hit (abandonRow at) (epayAttempts d)
      = update_many (\<lambda>r. ea_id r = ea_id a) (abandonRow at) (epayAttempts d)"
    unfolding update_many_def using only by (intro map_cong) auto
  have d1: "ids1 = ids @ [ea_id a]" "epayAttempts d1 = update_many (\<lambda>r. ea_id r = ea_id a) (abandonRow at) (epayAttempts d)"
    using s one unfolding p upd [symmetric] by (auto simp: Let_def auditAbandoned_def split: option.split)
  have keys: "map ea_id (epayAttempts d1) = map ea_id (epayAttempts d)"
    unfolding d1 by (rule map_update_many) (simp add: abandonRow_def)
  have "b \<in> set (epayAttempts d1) \<and> unpaid b \<and> ea_activeKey b \<noteq> None" if "(b, k) \<in> set ps" for b k
  proof -
    have "ea_id b \<noteq> ea_id a" using Cons.prems(2) p that by (force simp: image_iff)
    then show ?thesis using Cons.prems(3) [of b k] that unfolding d1 by (force simp: set_update_many)
  qed
  then have IH: "epayAttempts (snd (fold (abandonOne u at) ps (ids1, d1)))
      = update_many (\<lambda>r. ea_id r \<in> (ea_id \<circ> fst) ` set ps) (abandonRow at) (epayAttempts d1)"
    "fst (fold (abandonOne u at) ps (ids1, d1)) = ids1 @ map (ea_id \<circ> fst) ps"
    using Cons.IH [of d1 ids1] Cons.prems(1,2) keys by auto
  have fresh: "ea_id a \<notin> (ea_id \<circ> fst) ` set ps" using Cons.prems(2) p by auto
  have "update_many (\<lambda>r. ea_id r \<in> (ea_id \<circ> fst) ` set ps) (abandonRow at) (epayAttempts d1)
      = update_many (\<lambda>r. ea_id r \<in> (ea_id \<circ> fst) ` set (p # ps)) (abandonRow at) (epayAttempts d)"
    unfolding d1(2) update_many_def using fresh by (auto simp: p abandonRow_def)
  then show ?case using IH s d1(1) p by simp
qed

text \<open>C31: a checkout closes exactly the member's open payments: afterwards no attempt of the
  member is active, an attempt nobody paid is expired with the reason and the instant, one that was
  paid only gives up its key and keeps its standing, the attempts of everyone else are untouched, and the
  call reports exactly the attempts it gave up, the oldest first and those of one instant by id.\<close>

theorem abandonPendingPayments_exact:
  assumes "distinct (map ea_id (epayAttempts d))" and "abandonPendingPayments u at d = (ids, d')"
  shows "epayAttempts d' = map (afterCheckout u at) (epayAttempts d)
    \<and> (\<forall>a \<in> set (epayAttempts d'). ea_userId a \<noteq> u \<or> ea_activeKey a = None)
    \<and> ids = map ea_id (sort_key (\<lambda>a. (ea_createdAt a, map of_char (ea_id a) :: nat list))
        (filter (\<lambda>a. ea_userId a = u \<and> unpaid a \<and> ea_activeKey a \<noteq> None) (epayAttempts d)))
    \<and> touchesPayments d d'"
proof -
  let ?d1 = "releasePaidKeys u d" and ?open = "\<lambda>a. ea_userId a = u \<and> unpaid a \<and> ea_activeKey a \<noteq> None"
  let ?ps = "pendingAttempts u ?d1"
  have keep: "map ea_id (epayAttempts ?d1) = map ea_id (epayAttempts d)"
    by (simp add: releasePaidKeys_def map_update_many)
  have same: "filter ?open (epayAttempts ?d1) = filter ?open (epayAttempts d)"
    using filter_update_many_idle [of "\<lambda>a. ea_userId a = u \<and> ea_activeKey a \<noteq> None \<and> \<not> unpaid a" ?open
        "\<lambda>a. a\<lparr>ea_activeKey := None\<rparr>" "epayAttempts d"]
    by (simp add: releasePaidKeys_def)
  have ps: "set (map fst ?ps) = {a \<in> set (epayAttempts d). ?open a}"
    using arg_cong [OF same, of set] by (simp add: pendingAttempts_def comp_def)
  have sub: "{a \<in> set (epayAttempts d). ?open a} \<subseteq> set (epayAttempts ?d1)"
    using arg_cong [OF same, of set] by auto
  have dist: "distinct (map (ea_id \<circ> fst) ?ps)"
    using distinct_map_filter [OF assms(1), of ?open]
    by (simp add: pendingAttempts_def comp_def same [simplified] distinct_map)
  have open_ps: "a \<in> set (epayAttempts ?d1) \<and> unpaid a \<and> ea_activeKey a \<noteq> None" if "(a, m) \<in> set ?ps" for a m
  proof -
    have "a \<in> set (map fst ?ps)" using that by force
    then show ?thesis using ps sub by blast
  qed
  have "distinct (map ea_id (epayAttempts ?d1))" using assms(1) keep by simp
  note closed = fold_abandons [where u = u and at = at and ids = "[]", OF this dist open_ps]
  have "fold (abandonOne u at) ?ps ([], ?d1) = (ids, d')"
    using assms(2) by (simp only: abandonPendingPayments_def Let_def)
  then have f: "epayAttempts d' = update_many (\<lambda>r. ea_id r \<in> (ea_id \<circ> fst) ` set ?ps) (abandonRow at) (epayAttempts ?d1)"
      "ids = map (ea_id \<circ> fst) ?ps"
    using closed by (simp_all only: fst_conv snd_conv append_Nil)
  have img: "(ea_id \<circ> fst) ` set ?ps = ea_id ` {a \<in> set (epayAttempts d). ?open a}"
    using ps by (metis image_comp list.set_map)
  have mem: "ea_id a \<in> ea_id ` {a \<in> set (epayAttempts d). ?open a} \<longleftrightarrow> ?open a" if "a \<in> set (epayAttempts d)" for a
    using assms(1) that by (auto simp: distinct_map inj_on_def)
  have rows: "epayAttempts d' = map (afterCheckout u at) (epayAttempts d)"
  proof -
    let ?release = "\<lambda>a. if ea_userId a = u \<and> ea_activeKey a \<noteq> None \<and> \<not> unpaid a then a\<lparr>ea_activeKey := None\<rparr> else a"
    have d1: "epayAttempts ?d1 = map ?release (epayAttempts d)" by (simp add: releasePaidKeys_def update_many_def)
    have row: "(if ea_id (?release a) \<in> ea_id ` {a \<in> set (epayAttempts d). ?open a} then abandonRow at (?release a) else ?release a)
        = afterCheckout u at a" if a: "a \<in> set (epayAttempts d)" for a
    proof -
      have "ea_id (?release a) = ea_id a" by simp
      then show ?thesis unfolding mem [OF a] by (auto simp: afterCheckout_def mem [OF a, simplified])
    qed
    show ?thesis unfolding f(1) img d1 update_many_def map_map
      by (rule map_cong [OF refl], unfold comp_apply, rule row)
  qed
  have "touchesPayments d ?d1" by (simp add: releasePaidKeys_def touchesPayments_def)
  then have "touchesPayments d d'"
    using touchesPayments_trans [OF _ fold_touches, of d ?d1] assms(2) by (metis abandonPendingPayments_def snd_conv)
  moreover have "map fst ?ps = sort_key (\<lambda>a. (ea_createdAt a, map of_char (ea_id a) :: nat list)) (filter ?open (epayAttempts d))"
    unfolding pendingAttempts_def same map_map comp_def fst_conv by simp
  then have "ids = map ea_id (sort_key (\<lambda>a. (ea_createdAt a, map of_char (ea_id a) :: nat list)) (filter ?open (epayAttempts d)))"
    unfolding f(2) map_map [symmetric] by simp
  moreover have "ea_userId (afterCheckout u at a) \<noteq> u \<or> ea_activeKey (afterCheckout u at a) = None" for a
    by (simp add: afterCheckout_def abandonRow_def)
  then have "\<forall>a \<in> set (epayAttempts d'). ea_userId a \<noteq> u \<or> ea_activeKey a = None"
    unfolding rows list.set_map by (metis imageE)
  ultimately show ?thesis using rows by (intro conjI)
qed

definition exampleAttempt :: "id \<Rightarrow> id \<Rightarrow> epay_status \<Rightarrow> string option \<Rightarrow> epay_row" where
  "exampleAttempt i u status key = \<lparr>ea_id = i, ea_userId = u, ea_orderId = None, ea_gatewayTradeNo = None,
     ea_activeKey = key, ea_status = status, ea_fulfillment = FulPending, ea_amountCents = 1000,
     ea_snapshot = None, ea_settledAt = None, ea_closedAt = None, ea_failedAt = None,
     ea_lastSettlementError = None, ea_lastSettlementFailedAt = None, ea_lastQueryError = None,
     ea_merchantOrderNo = i, ea_abandonedAt = None, ea_abandonReason = None, ea_createdAt = 5\<rparr>"

definition exampleOpenPayments :: db where
  "exampleOpenPayments = emptyDb\<lparr>epayAttempts := [exampleAttempt ''a1'' ''u1'' EpayPending (Some ''k1''),
       exampleAttempt ''a2'' ''u1'' EpaySettled (Some ''k2''), exampleAttempt ''a3'' ''u2'' EpayPending (Some ''k3'')],
     groupMembers := [\<lparr>gm_id = ''m1'', gm_groupId = ''gr1'', gm_userId = ''u1'', gm_isCreator = True,
       gm_status = MemberPaymentPending, gm_activeSlot = Some ''s'', gm_paymentAttemptId = Some ''a1'',
       gm_orderId = None, gm_bonusGrantId = None\<rparr>],
     groupBuys := [\<lparr>gb_id = ''gr1'', gb_status = GroupPendingPayment, gb_completedAt = None\<rparr>]\<rparr>"

theorem abandonPendingPayments_exact_witness:
  "\<exists>ids d'. abandonPendingPayments ''u1'' 9 exampleOpenPayments = (ids, d') \<and> set ids = {''a1''}
     \<and> map ea_activeKey (epayAttempts d') = [None, None, Some ''k3'']
     \<and> map gm_status (groupMembers d') = [MemberPaymentClosed] \<and> map gb_status (groupBuys d') = [GroupCanceled]"
proof -
  obtain ids d' where run: "abandonPendingPayments ''u1'' 9 exampleOpenPayments = (ids, d')" by fastforce
  have "distinct (map ea_id (epayAttempts exampleOpenPayments))" by code_simp
  note e = abandonPendingPayments_exact [OF this run]
  have "map gm_status (groupMembers (snd (abandonPendingPayments ''u1'' 9 exampleOpenPayments))) = [MemberPaymentClosed]"
      "map gb_status (groupBuys (snd (abandonPendingPayments ''u1'' 9 exampleOpenPayments))) = [GroupCanceled]"
    by code_simp+
  moreover have "map (ea_activeKey \<circ> afterCheckout ''u1'' 9) (epayAttempts exampleOpenPayments) = [None, None, Some ''k3'']"
    by code_simp
  moreover have "{a \<in> set (epayAttempts exampleOpenPayments). ea_userId a = ''u1'' \<and> unpaid a \<and> ea_activeKey a \<noteq> None}
      = {exampleAttempt ''a1'' ''u1'' EpayPending (Some ''k1'')}"
    by (auto simp: exampleOpenPayments_def exampleAttempt_def unpaid_def)
  ultimately show ?thesis using e run by (simp add: exampleAttempt_def)
qed

end
