(* ===== verification/DiscountCodes.thy ===== *)
theory DiscountCodes imports Database JsText begin

text \<open>
  Discount codes at the checkout: \<open>reserveDiscount\<close> and \<open>previewDiscount\<close> of
  \<open>apps/api/src/commerce/commerce.service.ts\<close> and \<open>commerce/redemption-usage.ts\<close>, which the
  redemption of codes shares.

  \<open>upperCase\<close> stands for \<open>trim().toUpperCase()\<close> of the submitted code; \<open>redemptionUse\<close> is
  unique in code, member and ordinal. Of \<open>toUpperCase\<close> the ASCII letters are modelled, of which
  codes are made.
\<close>

section \<open>The operations\<close>

fun upperChar :: "char \<Rightarrow> char" where
  "upperChar c = (if (97 :: nat) \<le> of_char c \<and> of_char c \<le> (122 :: nat) then char_of (of_char c - 32 :: nat) else c)"

definition upperCase :: "string \<Rightarrow> string" where
  "upperCase raw = map upperChar (trim raw)"

definition priorUses :: "id \<Rightarrow> id \<Rightarrow> db \<Rightarrow> int" where
  "priorUses codeId userId d =
     int (length (filter (\<lambda>r. ru_codeId r = codeId \<and> ru_userId r = userId) (redemptionUses d)))"

text \<open>What both functions check, and the discount they compute.\<close>

definition usableCode :: "id \<Rightarrow> string \<Rightarrow> instant \<Rightarrow> db \<Rightarrow> error + code_row" where
  "usableCode userId rawCode now d =
     (case lookup rc_code (upperCase rawCode) (redemptionCodes d) of
        None \<Rightarrow> Inl (BadRequest ''discount-unavailable'')
      | Some code \<Rightarrow>
          bindE (guardE (BadRequest ''discount-unavailable'')
             (\<not> (rc_kind code \<noteq> CodeDiscount \<or> rc_status code \<noteq> CodeActive \<or> rc_maxUses code \<le> rc_usedCount code
                \<or> (case rc_expiresAt code of None \<Rightarrow> False | Some e \<Rightarrow> e \<le> now)))) (\<lambda>_.
          bindE (guardE (BadRequest ''discount-already-used'')
             (priorUses (rc_id code) userId d < rc_maxUsesPerUser code)) (\<lambda>_. Inr code)))"

definition discountOf :: "code_row \<Rightarrow> int \<Rightarrow> int" where
  "discountOf code basePriceCents =
     min (case rc_discountPercent code of
            Some percent \<Rightarrow> if percent \<noteq> 0 then (basePriceCents * percent) div 100 else nvl (rc_discountCents code) 0
          | None \<Rightarrow> nvl (rc_discountCents code) 0)
       basePriceCents"

definition previewDiscount :: "id \<Rightarrow> string \<Rightarrow> int \<Rightarrow> instant \<Rightarrow> db \<Rightarrow> error + (string \<times> int)" where
  "previewDiscount userId rawCode basePriceCents now d =
     bindE (usableCode userId rawCode now d) (\<lambda>code. Inr (rc_label code, discountOf code basePriceCents))"

definition reserveDiscount :: "id \<Rightarrow> string \<Rightarrow> int \<Rightarrow> instant \<Rightarrow> db \<Rightarrow> error + ((id \<times> int) \<times> db)" where
  "reserveDiscount userId rawCode basePriceCents now d =
     bindE (usableCode userId rawCode now d) (\<lambda>code.
     let hit = (\<lambda>r. rc_id r = rc_id code \<and> rc_status r = CodeActive \<and> rc_usedCount r = rc_usedCount code
                  \<and> rc_maxUsesPerUser r = rc_maxUsesPerUser code)
     in bindE (guardE (BadRequest ''discount-no-longer-available'') (length (filter hit (redemptionCodes d)) = 1)) (\<lambda>_.
        Inr ((rc_id code, discountOf code basePriceCents),
             d\<lparr>redemptionCodes := update_many hit (\<lambda>r. r\<lparr>rc_usedCount := rc_usedCount r + 1\<rparr>) (redemptionCodes d)\<rparr>)))"

definition useClash :: "code_use_row \<Rightarrow> code_use_row \<Rightarrow> bool" where
  "useClash a b \<longleftrightarrow> ru_codeId a = ru_codeId b \<and> ru_userId a = ru_userId b \<and> ru_useNumber a = ru_useNumber b"

definition recordRedemptionUse :: "id \<Rightarrow> id \<Rightarrow> id option \<Rightarrow> db \<Rightarrow> error + db" where
  "recordRedemptionUse codeId userId orderId d =
     bindE (require (BadRequest ''code-unknown'') (lookup rc_id codeId (redemptionCodes d))) (\<lambda>code.
     bindE (guardE (BadRequest ''code-limit-changed'')
        (length (filter (\<lambda>r. rc_id r = rc_id code \<and> rc_maxUsesPerUser r = rc_maxUsesPerUser code) (redemptionCodes d)) = 1)) (\<lambda>_.
     let used = priorUses codeId userId d
     in bindE (guardE (BadRequest ''code-used-up'') (used < rc_maxUsesPerUser code)) (\<lambda>_.
        bindE (insert_unique useClash
            \<lparr>ru_id = freshId d, ru_codeId = codeId, ru_userId = userId, ru_orderId = orderId, ru_useNumber = used + 1\<rparr>
            (redemptionUses d)) (\<lambda>uses.
        Inr ((drawId d)\<lparr>redemptionUses := uses\<rparr>)))))"

section \<open>Limits hold\<close>

definition usesOf :: "id \<Rightarrow> db \<Rightarrow> code_use_row list" where
  "usesOf codeId d = filter (\<lambda>r. ru_codeId r = codeId) (redemptionUses d)"

text \<open>A code in good order: never reserved beyond its total, and nobody's uses beyond the limit per
  member, each member's uses numbered from one without a gap.\<close>

definition numbered :: "id \<Rightarrow> id \<Rightarrow> db \<Rightarrow> bool" where
  "numbered codeId userId d \<longleftrightarrow>
     map ru_useNumber (filter (\<lambda>r. ru_codeId r = codeId \<and> ru_userId r = userId) (redemptionUses d))
       = map int [1..<Suc (nat (priorUses codeId userId d))]"

definition codesKept :: "db \<Rightarrow> bool" where
  "codesKept d \<longleftrightarrow> distinct (map rc_id (redemptionCodes d))
     \<and> (\<forall>c \<in> set (redemptionCodes d). rc_usedCount c \<le> max (rc_maxUses c) 0
          \<and> (\<forall>u. priorUses (rc_id c) u d \<le> max (rc_maxUsesPerUser c) 0 \<and> numbered (rc_id c) u d))"

text \<open>One step of a checkout on the codes, and any number of them.\<close>

inductive codeStep :: "db \<Rightarrow> db \<Rightarrow> bool" where
  reserves: "reserveDiscount u raw price now d = Inr (r, d') \<Longrightarrow> codeStep d d'"
| records: "recordRedemptionUse c u orderId d = Inr d' \<Longrightarrow> codeStep d d'"

inductive_cases codeStepE: "codeStep d d'"

lemma usableCode_shape:
  assumes "usableCode u raw now d = Inr code"
  shows "code \<in> set (redemptionCodes d)" "rc_usedCount code < rc_maxUses code"
    "priorUses (rc_id code) u d < rc_maxUsesPerUser code" "rc_kind code = CodeDiscount" "rc_status code = CodeActive"
  using assms by (auto simp: usableCode_def err_simps dest: lookup_SomeD split: option.splits)

lemma reserve_kept:
  assumes "codesKept d" and "reserveDiscount u raw price now d = Inr (r, d')"
  shows "codesKept d'"
proof -
  obtain code where code: "usableCode u raw now d = Inr code"
    using assms(2) by (auto simp: reserveDiscount_def err_simps)
  let ?hit = "\<lambda>r. rc_id r = rc_id code \<and> rc_status r = CodeActive \<and> rc_usedCount r = rc_usedCount code
      \<and> rc_maxUsesPerUser r = rc_maxUsesPerUser code"
  have d': "d' = d\<lparr>redemptionCodes := update_many ?hit (\<lambda>r. r\<lparr>rc_usedCount := rc_usedCount r + 1\<rparr>) (redemptionCodes d)\<rparr>"
    using assms(2) code by (auto simp: reserveDiscount_def err_simps Let_def)
  have prior: "priorUses c v d' = priorUses c v d" "numbered c v d' = numbered c v d" for c v
    by (simp_all add: d' priorUses_def numbered_def)
  have ids: "map rc_id (redemptionCodes d') = map rc_id (redemptionCodes d)"
    by (simp add: d' map_update_many)
  have limit: "rc_usedCount x < rc_maxUses x" if "x \<in> set (redemptionCodes d)" "?hit x" for x
  proof -
    have "x = code" using assms(1) usableCode_shape(1) [OF code] that
      by (auto simp: codesKept_def distinct_map inj_on_def)
    then show ?thesis using usableCode_shape(2) [OF code] by simp
  qed
  have "rc_usedCount c \<le> max (rc_maxUses c) 0
      \<and> (\<forall>v. priorUses (rc_id c) v d \<le> max (rc_maxUsesPerUser c) 0 \<and> numbered (rc_id c) v d)"
    if "c \<in> set (redemptionCodes d')" for c
  proof -
    have "c \<in> set (update_many ?hit (\<lambda>r. r\<lparr>rc_usedCount := rc_usedCount r + 1\<rparr>) (redemptionCodes d))"
      using that by (simp add: d')
    then show ?thesis
    proof (cases rule: update_many_memE)
      case (hit x)
      then show ?thesis using assms(1) limit [of x] by (auto simp: codesKept_def)
    next
      case miss
      then show ?thesis using assms(1) by (auto simp: codesKept_def)
    qed
  qed
  then show ?thesis using assms(1) ids by (simp add: codesKept_def prior)
qed

lemma record_kept:
  assumes "codesKept d" and "recordRedemptionUse i u orderId d = Inr d'"
  shows "codesKept d'"
proof -
  let ?row = "\<lparr>ru_id = freshId d, ru_codeId = i, ru_userId = u, ru_orderId = orderId, ru_useNumber = priorUses i u d + 1\<rparr>"
  obtain code where code: "lookup rc_id i (redemptionCodes d) = Some code" "priorUses i u d < rc_maxUsesPerUser code"
    and d': "d' = (drawId d)\<lparr>redemptionUses := redemptionUses d @ [?row]\<rparr>"
    using assms(2) by (auto simp: recordRedemptionUse_def err_simps Let_def)
  have prior: "priorUses c v d' = priorUses c v d + (if c = i \<and> v = u then 1 else 0)" for c v
    by (simp add: d' priorUses_def)
  have num: "numbered c v d'" if n: "numbered c v d" for c v
  proof (cases "c = i \<and> v = u")
    case True
    define k where "k = nat (priorUses i u d)"
    have k: "priorUses i u d = int k" "nat (1 + int k) = Suc k" by (simp_all add: k_def priorUses_def)
    have "map ru_useNumber (filter (\<lambda>r. ru_codeId r = c \<and> ru_userId r = v) (redemptionUses d'))
        = map int [1..<Suc k] @ [int k + 1]"
      using True n by (simp add: d' numbered_def k)
    also have "\<dots> = map int [1..<Suc (Suc k)]" by simp
    finally show ?thesis using True unfolding numbered_def prior by (simp add: k add.commute)
  next
    case False
    then have "filter (\<lambda>r. ru_codeId r = c \<and> ru_userId r = v) (redemptionUses d')
        = filter (\<lambda>r. ru_codeId r = c \<and> ru_userId r = v) (redemptionUses d)"
      by (auto simp: d')
    moreover have "priorUses c v d' = priorUses c v d" using False by (auto simp: prior)
    ultimately show ?thesis using n by (simp only: numbered_def)
  qed
  have only: "x = code" if "x \<in> set (redemptionCodes d)" "rc_id x = i" for x
    using assms(1) lookup_SomeD [OF code(1)] that by (auto simp: codesKept_def distinct_map inj_on_def)
  have bound: "priorUses (rc_id c) v d' \<le> max (rc_maxUsesPerUser c) 0" if c: "c \<in> set (redemptionCodes d)" for c v
  proof (cases "rc_id c = i \<and> v = u")
    case True
    then have "c = code" using only c by blast
    then show ?thesis using code(2) True by (simp add: prior)
  next
    case False
    then show ?thesis using assms(1) c by (auto simp: codesKept_def prior)
  qed
  have "redemptionCodes d' = redemptionCodes d" by (simp add: d')
  then show ?thesis using assms(1) bound num by (simp add: codesKept_def)
qed

text \<open>C32: no sequence of checkouts oversells a code: whatever discounts are reserved and recorded, in any
  order and by anyone, no code is ever used more often than its total allows, no member uses one more often
  than the limit per member, and each member's uses stay numbered from one without a gap.\<close>

theorem codes_never_oversold:
  assumes "codeStep\<^sup>*\<^sup>* d d'" and "codesKept d"
  shows "codesKept d'"
  using assms
proof (induction rule: rtranclp_induct)
  case (step e e')
  then show ?case by (auto elim!: codeStepE intro: reserve_kept record_kept)
qed

definition exampleCodes :: db where
  "exampleCodes = emptyDb\<lparr>redemptionCodes := [\<lparr>rc_id = ''c1'', rc_code = ''SAVE'', rc_label = ''L'', rc_kind = CodeDiscount,
     rc_status = CodeActive, rc_discountPercent = Some 25, rc_discountCents = None, rc_maxUses = 2,
     rc_maxUsesPerUser = 1, rc_usedCount = 0, rc_expiresAt = None\<rparr>]\<rparr>"

definition exampleReserved :: db where
  "exampleReserved = exampleCodes\<lparr>redemptionCodes := update_many (\<lambda>_. True) (\<lambda>r. r\<lparr>rc_usedCount := 1\<rparr>) (redemptionCodes exampleCodes)\<rparr>"

theorem codes_never_oversold_witness:
  "reserveDiscount ''u1'' '' save '' 999 0 exampleCodes = Inr ((''c1'', 249), exampleReserved) \<and> codesKept exampleReserved"
proof -
  have "case reserveDiscount ''u1'' '' save '' 999 0 exampleCodes of Inl _ \<Rightarrow> False
      | Inr (r, d') \<Rightarrow> r = (''c1'', 249) \<and> redemptionCodes d' = redemptionCodes exampleReserved" by code_simp
  then obtain d' where run: "reserveDiscount ''u1'' '' save '' 999 0 exampleCodes = Inr ((''c1'', 249), d')"
      "redemptionCodes d' = redemptionCodes exampleReserved"
    by (cases "reserveDiscount ''u1'' '' save '' 999 0 exampleCodes") auto
  then have d': "d' = exampleReserved"
    by (auto simp: reserveDiscount_def err_simps Let_def exampleReserved_def)
  have "priorUses c u exampleCodes = 0" "numbered c u exampleCodes" for c u
    by (simp_all add: priorUses_def numbered_def exampleCodes_def emptyDb_def)
  then have "codesKept exampleCodes" by (simp add: codesKept_def) (simp add: exampleCodes_def)
  moreover have "codeStep\<^sup>*\<^sup>* exampleCodes exampleReserved"
    using run(1) d' by (auto intro: codeStep.reserves)
  ultimately show ?thesis using codes_never_oversold run(1) d' by blast
qed

text \<open>The discount a quote shows is the one the checkout grants.\<close>

lemma discountOf_bounds:
  assumes "0 \<le> price" and "\<And>p. rc_discountPercent code = Some p \<Longrightarrow> 0 \<le> p" and "0 \<le> nvl (rc_discountCents code) 0"
  shows "0 \<le> discountOf code price \<and> discountOf code price \<le> price"
  using assms by (auto simp: discountOf_def div_int_pos_iff split: option.split)

lemma preview_is_reserved:
  "reserveDiscount u raw price now d = Inr ((i, cents), d') \<Longrightarrow> \<exists>label. previewDiscount u raw price now d = Inr (label, cents)"
  by (auto simp: reserveDiscount_def previewDiscount_def err_simps Let_def)

end
