(* ===== verification/PlanReset.thy ===== *)
theory PlanReset imports Grants WalletTopup QuotaFrame begin

text \<open>
  Buying the traffic of the running period again: \<open>resolvePlanReset\<close>, \<open>fulfillPlanReset\<close> and
  \<open>createWalletPlanReset\<close> of \<open>apps/api/src/commerce/commerce.service.ts\<close>.

  An online payment arrives with the snapshot its quote wrote, a wallet purchase makes one on the spot.
  Names, slugs and currencies, which orders keep for display, are left out, here and in \<open>Checkout\<close>.
\<close>

section \<open>Orders and payments\<close>

text \<open>\<open>manualOrder.create\<close> for what is bought: an applied renewal without the optional columns.\<close>

definition appliedOrder :: "id \<Rightarrow> id \<Rightarrow> string \<Rightarrow> instant \<Rightarrow> instant \<Rightarrow> order_row" where
  "appliedOrder i userId key processedAt createdAt =
     \<lparr>mo_id = i, mo_userId = userId, mo_planId = None, mo_planOfferId = None, mo_packProductId = None,
      mo_catalogOfferId = None, mo_status = OrderApplied, mo_kind = OrderRenewal, mo_source = SourceWallet,
      mo_amountCents = 0, mo_basePriceCents = None, mo_discountCents = 0, mo_durationDays = None,
      mo_trafficBytes = None, mo_entitlementExpiresAt = None, mo_billingPeriod = None, mo_intervalMonths = None,
      mo_profileId = None, mo_speedUp = None, mo_speedDown = None, mo_deviceLimit = None, mo_multiplier = None,
      mo_requiresActivePlan = None, mo_quotaCadence = None, mo_resetAnchorAt = None,
      mo_upgradeFromProductId = None, mo_upgradeFromPriceCents = None, mo_planUpgrade = None, mo_grantId = None,
      mo_idempotencyKey = Some key, mo_note = None, mo_createdAt = createdAt, mo_processedAt = Some processedAt\<rparr>"

definition createOrder :: "(id \<Rightarrow> order_row) \<Rightarrow> db \<Rightarrow> error + (order_row \<times> db)" where
  "createOrder row d =
     bindE (insert_unique orderClash (row (freshId d)) (orders d)) (\<lambda>rows.
       Inr (row (freshId d), (drawId d)\<lparr>orders := rows\<rparr>))"

definition createPayment ::
  "order_row \<Rightarrow> payment_source \<Rightarrow> int \<Rightarrow> string option \<Rightarrow> instant \<Rightarrow> db \<Rightarrow> db" where
  "createPayment o1 source amountCents externalRef paidAt d =
     (drawId d)\<lparr>payments := payments d @ [\<lparr>pr_id = freshId d, pr_orderId = mo_id o1, pr_userId = mo_userId o1,
        pr_source = source, pr_status = PaySettled, pr_amountCents = amountCents, pr_externalRef = externalRef,
        pr_paidAt = Some paidAt\<rparr>]\<rparr>"

definition purchasePosting :: "order_row \<Rightarrow> string \<Rightarrow> int \<Rightarrow> id option \<Rightarrow> posting" where
  "purchasePosting o1 key chargedCents actorId = \<lparr>wp_userId = mo_userId o1, wp_amountCents = - chargedCents,
     wp_kind = TxnPurchase, wp_actorId = actorId, wp_orderId = Some (mo_id o1), wp_idempotencyKey = Some key,
     wp_note = ''purchase'', wp_allowDeletedUser = False\<rparr>"

record checkout_result =
  xr_orderId :: id
  xr_replayed :: bool
  xr_kind :: "string option"
  xr_chargedCents :: "int option"
  xr_expiresAt :: "instant option"

section \<open>Quoting a reset\<close>

definition PLAN_RESET_PRICE_PERCENT :: int where
  "PLAN_RESET_PRICE_PERCENT = 70"

definition PLAN_RESET_ORDER_NOTE :: string where
  "PLAN_RESET_ORDER_NOTE = ''PLAN_QUOTA_RESET''"

text \<open>\<open>Math.round((cents * PLAN_RESET_PRICE_PERCENT) / 100)\<close>\<close>

definition resetPrice :: "int \<Rightarrow> int" where
  "resetPrice cents = (cents * PLAN_RESET_PRICE_PERCENT + 50) div 100"

record plan_reset =
  rs_offer :: offer_row
  rs_grantId :: id
  rs_bucketId :: id
  rs_cycleStartsAt :: instant
  rs_cycleEndsAt :: instant
  rs_targetBytes :: int
  rs_currentRemainingBytes :: int
  rs_creditBytes :: int
  rs_payableCents :: int

definition resettable :: "offer_row \<Rightarrow> product_row \<Rightarrow> bool" where
  "resettable offer product \<longleftrightarrow> co_archivedAt offer = None \<and> co_active offer \<and> co_billingPeriod offer = Monthly
     \<and> cp_kind product = ProductPlan \<and> cp_series product = Standard"

definition resetBucket :: "id \<Rightarrow> offer_row \<Rightarrow> instant \<Rightarrow> db \<Rightarrow> (grant_row \<times> bucket_row) option" where
  "resetBucket userId offer now d =
     (case first_row (newestGrants (filter (\<lambda>g. g_userId g = userId \<and> g_productId g = co_productId offer
             \<and> g_kind g = GrantPlan \<and> grantLive now g) (grants d))) of
        None \<Rightarrow> None
      | Some g \<Rightarrow> map_option (Pair g) (first_row (newestBuckets (filter (bucketCurrent now) (grantBuckets (g_id g) d)))))"

definition resolvePlanReset :: "id \<Rightarrow> id \<Rightarrow> instant \<Rightarrow> db \<Rightarrow> error + plan_reset" where
  "resolvePlanReset userId offerId now d =
     bindE (require (BadRequest ''reset-offer'') (lookup co_id offerId (offers d))) (\<lambda>offer.
     bindE (require (PrismaKnown ''inconsistent'') (lookup cp_id (co_productId offer) (products d))) (\<lambda>product.
     bindE (guardE (BadRequest ''reset-offer'') (resettable offer product)) (\<lambda>_.
     bindE (require (BadRequest ''reset-no-period'') (resetBucket userId offer now d)) (\<lambda>(g, b).
     let targetBytes = nvl (g_trafficBytes g) (co_trafficBytes offer);
         payableCents = resetPrice (co_priceCents offer)
     in bindE (guardE (BadRequest ''reset-quota'') (0 < targetBytes)) (\<lambda>_.
        bindE (guardE (BadRequest ''reset-price'') (0 < payableCents)) (\<lambda>_.
        Inr \<lparr>rs_offer = offer, rs_grantId = g_id g, rs_bucketId = qb_id b, rs_cycleStartsAt = qb_startsAt b,
             rs_cycleEndsAt = qb_endsAt b, rs_targetBytes = targetBytes,
             rs_currentRemainingBytes = bucketRemaining b, rs_creditBytes = targetBytes,
             rs_payableCents = payableCents\<rparr>))))))"

section \<open>Carrying it out\<close>

record reset_settlement =
  ps_userId :: id
  ps_offerId :: id
  ps_amountCents :: int
  ps_basePriceCents :: int
  ps_paidAt :: instant
  ps_epay :: "(id \<times> string) option"

text \<open>The fields of a complete snapshot: grant, bucket, start, end and bytes.\<close>

definition resetFields :: "offer_snapshot \<Rightarrow> (id \<times> id \<times> instant \<times> instant \<times> int) option" where
  "resetFields snapshot =
     (let c = os_context snapshot
      in if os_productKind snapshot \<noteq> ProductPlan \<or> os_productSeries snapshot = Ultra
           \<or> os_billingPeriod snapshot \<noteq> Monthly then None
         else case (present (pc_resetGrantId c), present (pc_resetBucketId c), pc_resetCycleStartsAt c,
                    pc_resetCycleEndsAt c, pc_resetTrafficBytes c) of
           (Some g, Some b, Some s, Some e, Some n) \<Rightarrow> Some (g, b, s, e, n)
         | _ \<Rightarrow> None)"

definition quotedGrant :: "reset_settlement \<Rightarrow> offer_snapshot \<Rightarrow> id \<Rightarrow> db \<Rightarrow> grant_row option" where
  "quotedGrant input snapshot grantId d =
     List.find (\<lambda>g. g_id g = grantId \<and> g_userId g = ps_userId input \<and> g_productId g = os_productId snapshot
        \<and> g_kind g = GrantPlan \<and> grantLive (ps_paidAt input) g) (grants d)"

definition quotedCredit :: "offer_snapshot \<Rightarrow> int \<Rightarrow> bucket_row \<Rightarrow> int" where
  "quotedCredit snapshot targetBytes bucket =
     (case pc_resetCreditBytes (os_context snapshot) of
        Some n \<Rightarrow> n
      | None \<Rightarrow> if bucketRemaining bucket < targetBytes then targetBytes - bucketRemaining bucket else targetBytes)"

text \<open>The checks before anything is written: the entitlement, the period and the bytes.\<close>

definition checkReset ::
  "reset_settlement \<Rightarrow> offer_snapshot \<Rightarrow> db \<Rightarrow> error + (grant_row \<times> bucket_row \<times> int)" where
  "checkReset input snapshot d =
     bindE (require (Conflict ''reset-snapshot'') (resetFields snapshot)) (\<lambda>(grantId, bucketId, startsAt, endsAt, targetBytes).
     bindE (guardE (Conflict ''reset-amount'') (os_offerId snapshot = ps_offerId input
              \<and> ps_amountCents input = resetPrice (ps_basePriceCents input) \<and> 0 < ps_amountCents input)) (\<lambda>_.
     bindE (require (Conflict ''reset-grant'') (quotedGrant input snapshot grantId d)) (\<lambda>g.
     bindE (require (Conflict ''reset-grant'') (lookup qb_id bucketId (buckets d))) (\<lambda>b.
     bindE (guardE (Conflict ''reset-grant'') (qb_grantId b = g_id g)) (\<lambda>_.
     bindE (guardE (Conflict ''reset-period'') (qb_startsAt b = startsAt \<and> qb_endsAt b = endsAt)) (\<lambda>_.
     bindE (guardE (PaymentRejected ''PLAN_RESET_CYCLE_ENDED'') (bucketCurrent (ps_paidAt input) b)) (\<lambda>_.
     bindE (guardE (Conflict ''reset-quota'') (0 < targetBytes)) (\<lambda>_.
     bindE (guardE (Conflict ''reset-credit'') (0 < quotedCredit snapshot targetBytes b)) (\<lambda>_.
     Inr (g, b, quotedCredit snapshot targetBytes b))))))))))"

definition resetOrder ::
  "reset_settlement \<Rightarrow> offer_snapshot \<Rightarrow> string \<Rightarrow> grant_row \<Rightarrow> bucket_row \<Rightarrow> int \<Rightarrow> instant \<Rightarrow> id \<Rightarrow> order_row" where
  "resetOrder input snapshot key g b creditBytes createdAt i =
     (appliedOrder i (ps_userId input) key (ps_paidAt input) createdAt)\<lparr>
       mo_planId := os_legacyPlanId snapshot, mo_planOfferId := os_legacyPlanOfferId snapshot,
       mo_catalogOfferId := Some (os_offerId snapshot),
       mo_source := (if ps_epay input \<noteq> None then SourcePayment else SourceWallet),
       mo_amountCents := ps_amountCents input, mo_basePriceCents := Some (ps_basePriceCents input),
       mo_discountCents := ps_basePriceCents input - ps_amountCents input, mo_trafficBytes := Some creditBytes,
       mo_entitlementExpiresAt := Some (qb_endsAt b), mo_billingPeriod := Some Monthly, mo_intervalMonths := Some 1,
       mo_profileId := Some (g_profileId g), mo_speedUp := Some (g_speedUp g), mo_speedDown := Some (g_speedDown g),
       mo_deviceLimit := Some (g_deviceLimit g), mo_multiplier := Some (g_multiplier g),
       mo_requiresActivePlan := Some False, mo_quotaCadence := Some MonthlyReset,
       mo_resetAnchorAt := Some (qb_startsAt b), mo_grantId := Some (g_id g), mo_note := Some PLAN_RESET_ORDER_NOTE\<rparr>"

definition resetCredit :: "order_row \<Rightarrow> id \<Rightarrow> int \<Rightarrow> instant \<Rightarrow> quota_credit" where
  "resetCredit o1 bucketId bytes at = \<lparr>qc_bucketId = bucketId, qc_bytes = bytes, qc_at = at,
     qc_reason = ''plan-reset'', qc_idempotencyKey = ''plan-reset:'' @ mo_id o1, qc_actorId = None\<rparr>"

definition auditReset :: "reset_settlement \<Rightarrow> offer_snapshot \<Rightarrow> order_row \<Rightarrow> int \<Rightarrow> bucket_row \<Rightarrow> db \<Rightarrow> db" where
  "auditReset input snapshot o1 creditBytes b =
     createAudit None ''PLAN_QUOTA_RESET_SETTLED'' ''ManualOrder'' (Some (mo_id o1))
       (JObj ([(''userId'', JStr (ps_userId input)), (''offerId'', JStr (os_offerId snapshot)),
          (''paymentSource'', JStr (if ps_epay input \<noteq> None then ''EPAY'' else ''WALLET''))]
          @ (case ps_epay input of
               None \<Rightarrow> []
             | Some (attemptId, tradeNo) \<Rightarrow> [(''attemptId'', JStr attemptId), (''gatewayTradeNo'', JStr tradeNo)])
          @ [(''paidCents'', JNum (ps_amountCents input)), (''creditedBytes'', JBig creditBytes),
             (''cycleEndsAt'', JDate (qb_endsAt b))]))"

definition fulfillPlanReset ::
  "reset_settlement \<Rightarrow> offer_snapshot \<Rightarrow> string \<Rightarrow> db \<Rightarrow> error + (checkout_result \<times> db)" where
  "fulfillPlanReset input snapshot key d =
     bindE (checkReset input snapshot d) (\<lambda>(g, b, creditBytes).
     bindE (createOrder (resetOrder input snapshot key g b creditBytes (db_now d)) d) (\<lambda>(o1, d1).
     bindE (if ps_epay input \<noteq> None then Inr d1
            else bindE (postEntry (purchasePosting o1 key (ps_amountCents input) None) d1) (\<lambda>(_, d2). Inr d2)) (\<lambda>d2.
     bindE (creditQuotaBucket (resetCredit o1 (qb_id b) creditBytes (ps_paidAt input)) d2) (\<lambda>(_, d3).
     Inr (\<lparr>xr_orderId = mo_id o1, xr_replayed = False, xr_kind = Some ''plan_offer'',
           xr_chargedCents = Some (ps_amountCents input), xr_expiresAt = Some (qb_endsAt b)\<rparr>,
          auditReset input snapshot o1 creditBytes b
            (createPayment o1 (if ps_epay input \<noteq> None then PayEpay else PayWallet) (ps_amountCents input)
               (map_option snd (ps_epay input)) (ps_paidAt input) d3))))))"

definition resetContextOf :: "plan_reset \<Rightarrow> purchase_context" where
  "resetContextOf r = noContext\<lparr>pc_purchaseMode := PlanReset, pc_resetGrantId := Some (rs_grantId r),
     pc_resetBucketId := Some (rs_bucketId r), pc_resetCycleStartsAt := Some (rs_cycleStartsAt r),
     pc_resetCycleEndsAt := Some (rs_cycleEndsAt r), pc_resetTrafficBytes := Some (rs_targetBytes r),
     pc_resetCreditBytes := Some (rs_creditBytes r)\<rparr>"

definition createWalletPlanReset ::
  "id \<Rightarrow> id \<Rightarrow> string \<Rightarrow> instant \<Rightarrow> db \<Rightarrow> error + (checkout_result \<times> db)" where
  "createWalletPlanReset userId offerId key now d =
     bindE (resolvePlanReset userId offerId now d) (\<lambda>r.
     bindE (snapshotCatalogOffer (rs_offer r) (Some (resetContextOf r)) d) (\<lambda>snapshot.
     fulfillPlanReset \<lparr>ps_userId = userId, ps_offerId = offerId, ps_amountCents = rs_payableCents r,
       ps_basePriceCents = co_priceCents (rs_offer r), ps_paidAt = now, ps_epay = None\<rparr> snapshot key d))"

section \<open>What a reset buys\<close>

lemma createOrder_shape:
  "createOrder row d = Inr (o1, d') \<Longrightarrow> o1 = row (freshId d) \<and> orders d' = orders d @ [o1]
     \<and> (\<forall>r \<in> set (orders d). \<not> orderClash r o1) \<and> d' = (drawId d)\<lparr>orders := orders d @ [o1]\<rparr>"
  by (auto simp: createOrder_def err_simps)

lemma createPayment_tables [simp]:
  "users (createPayment o1 s n r t d) = users d" "orders (createPayment o1 s n r t d) = orders d"
  "grants (createPayment o1 s n r t d) = grants d" "buckets (createPayment o1 s n r t d) = buckets d"
  "walletLedger (createPayment o1 s n r t d) = walletLedger d"
  "subscriptions (createPayment o1 s n r t d) = subscriptions d"
  "adjustments (createPayment o1 s n r t d) = adjustments d"
  by (simp_all add: createPayment_def)

lemma auditReset_tables [simp]:
  "users (auditReset i s o1 n b d) = users d" "orders (auditReset i s o1 n b d) = orders d"
  "grants (auditReset i s o1 n b d) = grants d" "buckets (auditReset i s o1 n b d) = buckets d"
  "walletLedger (auditReset i s o1 n b d) = walletLedger d"
  by (simp_all add: auditReset_def)

lemma resetOrder_simps [simp]:
  "mo_id (resetOrder i s k g b n t j) = j" "mo_userId (resetOrder i s k g b n t j) = ps_userId i"
  "mo_idempotencyKey (resetOrder i s k g b n t j) = Some k" "mo_amountCents (resetOrder i s k g b n t j) = ps_amountCents i"
  "mo_note (resetOrder i s k g b n t j) = Some PLAN_RESET_ORDER_NOTE"
  "mo_trafficBytes (resetOrder i s k g b n t j) = Some n" "mo_grantId (resetOrder i s k g b n t j) = Some (g_id g)"
  "mo_entitlementExpiresAt (resetOrder i s k g b n t j) = Some (qb_endsAt b)"
  by (simp_all add: resetOrder_def appliedOrder_def)

lemma fulfillPlanReset_stages:
  assumes "fulfillPlanReset input snapshot key d = Inr (res, d')"
  obtains g b n o1 d1 d2 cr d3 where
    "checkReset input snapshot d = Inr (g, b, n)"
    "createOrder (resetOrder input snapshot key g b n (db_now d)) d = Inr (o1, d1)"
    "if ps_epay input \<noteq> None then d2 = d1
     else \<exists>r. postEntry (purchasePosting o1 key (ps_amountCents input) None) d1 = Inr (r, d2)"
    "creditQuotaBucket (resetCredit o1 (qb_id b) n (ps_paidAt input)) d2 = Inr (cr, d3)"
    "users d' = users d3" "orders d' = orders d3" "grants d' = grants d3" "buckets d' = buckets d3"
    "walletLedger d' = walletLedger d3" "xr_orderId res = mo_id o1" "xr_chargedCents res = Some (ps_amountCents input)"
  using assms by (auto simp: fulfillPlanReset_def err_simps split: if_splits)

text \<open>The checks pass for the quote just made: the snapshot says what was resolved.\<close>

lemma snapshot_reset_fields:
  assumes "snapshotCatalogOffer offer (Some c) d = Inr snapshot"
  shows "os_context snapshot = c" "os_offerId snapshot = co_id offer"
  using assms by (auto simp: snapshotCatalogOffer_def err_simps)

lemma checkReset_terms:
  assumes "checkReset input snapshot d = Inr (g, b, n)"
  shows "\<exists>t e. resetFields snapshot = Some (g_id g, qb_id b, qb_startsAt b, qb_endsAt b, t)
      \<and> n = quotedCredit snapshot t b \<and> 0 < n"
    and "b \<in> set (buckets d)" and "qb_grantId b = g_id g" and "grantLive (ps_paidAt input) g"
    and "bucketCurrent (ps_paidAt input) b" and "ps_amountCents input = resetPrice (ps_basePriceCents input)"
    and "0 < ps_amountCents input" and "g_userId g = ps_userId input"
  using assms
  by (auto simp: checkReset_def err_simps quotedGrant_def find_Some_iff dest!: lookup_SomeD split: prod.splits)

lemma resetPrice_rounds: "\<bar>100 * resetPrice cents - 70 * cents\<bar> \<le> 50"
  unfolding resetPrice_def PLAN_RESET_PRICE_PERCENT_def by (simp add: abs_if) linarith

lemma fulfillPlanReset_effect:
  assumes "fulfillPlanReset input snapshot key d = Inr (res, d')"
    and unposted: "existingPosting (ps_userId input) (Some key) d = None"
    and unpaid: "\<not> creditKeySpent d (''plan-reset:'' @ freshId d)"
  obtains g b n o1 where
    "checkReset input snapshot d = Inr (g, b, n)"
    "\<And>i. grantedOf d' i = map_option (\<lambda>x. x + (if qb_id b = i then n else 0)) (grantedOf d i)"
    "\<And>u. balance d' u = (if ps_epay input = None \<and> u = ps_userId input
        then map_option (\<lambda>x. x - ps_amountCents input) (balance d u) else balance d u)"
    "orders d' = orders d @ [o1]" "o1 = resetOrder input snapshot key g b n (db_now d) (freshId d)"
    "grants d' = grants d" "map qb_consumed (buckets d') = map qb_consumed (buckets d)"
proof -
  from fulfillPlanReset_stages [OF assms(1)] obtain g b n o1 d1 d2 cr d3 where
    c: "checkReset input snapshot d = Inr (g, b, n)"
    and o: "createOrder (resetOrder input snapshot key g b n (db_now d)) d = Inr (o1, d1)"
    and p: "if ps_epay input \<noteq> None then d2 = d1
       else \<exists>r. postEntry (purchasePosting o1 key (ps_amountCents input) None) d1 = Inr (r, d2)"
    and q: "creditQuotaBucket (resetCredit o1 (qb_id b) n (ps_paidAt input)) d2 = Inr (cr, d3)"
    and e: "users d' = users d3" "orders d' = orders d3" "grants d' = grants d3" "buckets d' = buckets d3" .
  note o1 = createOrder_shape [OF o]
  have d1: "users d1 = users d" "buckets d1 = buckets d" "grants d1 = grants d" "walletLedger d1 = walletLedger d"
    "adjustments d1 = adjustments d" "orders d1 = orders d @ [o1]"
    using o1 by (simp_all add: drawId_def)
  have d2: "buckets d2 = buckets d" "grants d2 = grants d" "adjustments d2 = adjustments d" "orders d2 = orders d @ [o1]"
    using p d1 postEntry_tables(10,11,15,16) by (auto split: if_splits)
  have post: "balance d2 u = (if ps_epay input = None \<and> u = ps_userId input
        then map_option (\<lambda>x. x - ps_amountCents input) (balance d u) else balance d u)" for u
  proof (cases "ps_epay input")
    case None
    then obtain r where r: "postEntry (purchasePosting o1 key (ps_amountCents input) None) d1 = Inr (r, d2)" using p by auto
    have "existingPosting (ps_userId input) (Some key) d1 = None" using unposted d1(4) existingPosting_cong by metis
    moreover have "wp_userId (purchasePosting o1 key (ps_amountCents input) None) = ps_userId input"
      "wp_idempotencyKey (purchasePosting o1 key (ps_amountCents input) None) = Some key"
      "wp_amountCents (purchasePosting o1 key (ps_amountCents input) None) = - ps_amountCents input"
      using o1 by (simp_all add: purchasePosting_def)
    ultimately have "balance d2 u = (if u = ps_userId input then map_option (\<lambda>x. x - ps_amountCents input) (balance d1 u)
        else balance d1 u)"
      using postEntry_balance [OF r, of u] by simp
    then show ?thesis using None by (simp only: balance_cong [OF d1(1)]) simp
  next
    case (Some a)
    then show ?thesis using p balance_cong [OF d1(1), of u] by simp
  qed
  have unspent: "\<not> creditKeySpent d2 (qc_idempotencyKey (resetCredit o1 (qb_id b) n (ps_paidAt input)))"
    using unpaid o1 d2(3) by (simp add: resetCredit_def creditKeySpent_def)
  show ?thesis
  proof (rule that [OF c])
    show "grantedOf d' i = map_option (\<lambda>x. x + (if qb_id b = i then n else 0)) (grantedOf d i)" for i
      using credit_grantedOf [OF q unspent, of i] e(4) d2(1) by (simp add: grantedOf_def resetCredit_def)
    show "balance d' u = (if ps_epay input = None \<and> u = ps_userId input
        then map_option (\<lambda>x. x - ps_amountCents input) (balance d u) else balance d u)" for u
      using post [of u] balance_cong [of d' d2 u] e(1) credit_tables(1) [OF q] by simp
    show "orders d' = orders d @ [o1]" using e(2) credit_tables(3) [OF q] d2(4) by simp
    show "o1 = resetOrder input snapshot key g b n (db_now d) (freshId d)" using o1 by simp
    show "grants d' = grants d" using e(3) credit_tables(4) [OF q] d2(2) by simp
    show "map qb_consumed (buckets d') = map qb_consumed (buckets d)"
      using credit_consumed [OF q] e(4) d2(1) by simp
  qed
qed

lemma resolvePlanReset_terms:
  assumes "resolvePlanReset u offerId now d = Inr r"
  shows "rs_payableCents r = resetPrice (co_priceCents (rs_offer r))" "0 < rs_payableCents r"
    "rs_creditBytes r = rs_targetBytes r" "0 < rs_targetBytes r" "co_id (rs_offer r) = offerId"
  using assms by (auto simp: resolvePlanReset_def err_simps Let_def dest!: lookup_SomeD)


definition exampleResetDb :: db where
  "exampleResetDb = exampleQuotaUser\<lparr>users := [exampleUser ''u1'' 5000],
     products := map (cp_slug_update (\<lambda>_. [])) (products exampleSnapshotDb), profiles := profiles exampleSnapshotDb,
     offers := [exampleOfferRow\<lparr>co_id := ''offer1'', co_billingPeriod := Monthly, co_intervalMonths := Some 1\<rparr>]\<rparr>"


end
