(* ===== verification/StoredQuotes.thy ===== *)
theory StoredQuotes imports PlanUpgrade begin

text \<open>
  The view of offer snapshots and upgrade quotes as records. The code casts the JSON that comes back from a column or
  a token (\<open>candidate as unknown as CatalogOfferSnapshot\<close>, \<open>JSON.parse(...) as StandardUpgradeQuote\<close>) and reads its
  fields one by one; a cast does nothing at run time, so the readers below translate no code. They give the record of
  a JSON value that has every field at its type, as all have that \<open>snapshotCatalogOffer\<close> and \<open>quote\<close> write
  (\<open>snapshot_read\<close>, \<open>quote_read\<close>). Other values, such as snapshots of version 1, are outside the model.
\<close>

section \<open>Fields\<close>

fun asStr :: "json \<Rightarrow> string option" where
  "asStr (JStr s) = Some s"
| "asStr _ = None"

fun asNum :: "json \<Rightarrow> int option" where
  "asNum (JNum n) = Some n"
| "asNum _ = None"

fun asBig :: "json \<Rightarrow> int option" where
  "asBig (JBig n) = Some n"
| "asBig _ = None"

fun asDate :: "json \<Rightarrow> instant option" where
  "asDate (JDate t) = Some t"
| "asDate _ = None"

fun asBool :: "json \<Rightarrow> bool option" where
  "asBool (JBool b) = Some b"
| "asBool _ = None"

definition oneNamed :: "('a \<Rightarrow> string) \<Rightarrow> 'a list \<Rightarrow> json \<Rightarrow> 'a option" where
  "oneNamed name xs v = (case v of JStr s \<Rightarrow> List.find (\<lambda>x. name x = s) xs | _ \<Rightarrow> None)"

text \<open>A field that is there, and one that may be null.\<close>

definition req :: "(json \<Rightarrow> 'a option) \<Rightarrow> string \<Rightarrow> json \<Rightarrow> 'a option" where
  "req f k v = Option.bind (jget v k) f"

definition nul :: "(json \<Rightarrow> 'a option) \<Rightarrow> string \<Rightarrow> json \<Rightarrow> 'a option option" where
  "nul f k v = (case jget v k of None \<Rightarrow> Some None | Some JNull \<Rightarrow> Some None | Some w \<Rightarrow> map_option Some (f w))"

section \<open>Readers\<close>

definition readContext :: "json \<Rightarrow> purchase_context option" where
  "readContext v =
     Option.bind (req (oneNamed modeName [InitialPurchase, UpgradePurchase, PlanReset, GroupBuy, PlanUpgrade]) ''purchaseMode'' v) (\<lambda>purchaseMode1.
     Option.bind (nul asStr ''upgradeQuoteToken'' v) (\<lambda>upgradeQuoteToken1.
     Option.bind (nul asStr ''upgradeFromGrantId'' v) (\<lambda>upgradeFromGrantId1.
     Option.bind (nul asStr ''upgradeFromProductId'' v) (\<lambda>upgradeFromProductId1.
     Option.bind (nul asNum ''upgradeFromPriceCents'' v) (\<lambda>upgradeFromPriceCents1.
     Option.bind (nul asDate ''resetAnchorAt'' v) (\<lambda>resetAnchorAt1.
     Option.bind (nul asStr ''resetGrantId'' v) (\<lambda>resetGrantId1.
     Option.bind (nul asStr ''resetBucketId'' v) (\<lambda>resetBucketId1.
     Option.bind (nul asDate ''resetCycleStartsAt'' v) (\<lambda>resetCycleStartsAt1.
     Option.bind (nul asDate ''resetCycleEndsAt'' v) (\<lambda>resetCycleEndsAt1.
     Option.bind (nul asBig ''resetTrafficBytes'' v) (\<lambda>resetTrafficBytes1.
     Option.bind (nul asBig ''resetCreditBytes'' v) (\<lambda>resetCreditBytes1.
     Option.bind (nul asStr ''groupBuyId'' v) (\<lambda>groupBuyId1.
     Option.bind (nul asStr ''groupBuyMemberId'' v) (\<lambda>groupBuyMemberId1.
     Option.bind (nul asBig ''groupBuyBonusBytes'' v) (\<lambda>groupBuyBonusBytes1.
     Option.bind (nul asNum ''groupBuyOriginalPriceCents'' v) (\<lambda>groupBuyOriginalPriceCents1.
     Option.bind (nul asNum ''groupBuyPriceCents'' v) (\<lambda>groupBuyPriceCents1.
     Option.bind (nul asNum ''groupBuyDiscountBasisPoints'' v) (\<lambda>groupBuyDiscountBasisPoints1.
     Option.bind (nul (oneNamed settlementName [UpfrontDiscount, BalanceRebate]) ''groupBuySettlementMode'' v) (\<lambda>groupBuySettlementMode1.
     Option.bind (nul (oneNamed preferenceName [PreferScheduled, PreferImmediate]) ''planActivationPreference'' v) (\<lambda>planActivationPreference1.
     Option.bind (nul (oneNamed activationName [ActInitial, ActRenewal, ActScheduled, ActImmediate]) ''planActivationMode'' v) (\<lambda>planActivationMode1.
     Option.bind (nul asDate ''planEffectiveAt'' v) (\<lambda>planEffectiveAt1.
     Option.bind (nul asStr ''currentPlanProductId'' v) (\<lambda>currentPlanProductId1.
     Option.bind (nul asStr ''currentPlanName'' v) (\<lambda>currentPlanName1.
     Option.bind (nul asDate ''currentPlanEndsAt'' v) (\<lambda>currentPlanEndsAt1.
     Some \<lparr>pc_purchaseMode = purchaseMode1, pc_upgradeQuoteToken = upgradeQuoteToken1,
       pc_upgradeFromGrantId = upgradeFromGrantId1, pc_upgradeFromProductId = upgradeFromProductId1,
       pc_upgradeFromPriceCents = upgradeFromPriceCents1, pc_resetAnchorAt = resetAnchorAt1,
       pc_resetGrantId = resetGrantId1, pc_resetBucketId = resetBucketId1, pc_resetCycleStartsAt =
       resetCycleStartsAt1, pc_resetCycleEndsAt = resetCycleEndsAt1, pc_resetTrafficBytes =
       resetTrafficBytes1, pc_resetCreditBytes = resetCreditBytes1, pc_groupBuyId = groupBuyId1,
       pc_groupBuyMemberId = groupBuyMemberId1, pc_groupBuyBonusBytes = groupBuyBonusBytes1,
       pc_groupBuyOriginalPriceCents = groupBuyOriginalPriceCents1, pc_groupBuyPriceCents =
       groupBuyPriceCents1, pc_groupBuyDiscountBasisPoints = groupBuyDiscountBasisPoints1,
       pc_groupBuySettlementMode = groupBuySettlementMode1, pc_planActivationPreference =
       planActivationPreference1, pc_planActivationMode = planActivationMode1, pc_planEffectiveAt =
       planEffectiveAt1, pc_currentPlanProductId = currentPlanProductId1, pc_currentPlanName =
       currentPlanName1, pc_currentPlanEndsAt = currentPlanEndsAt1\<rparr>)))))))))))))))))))))))))"

definition readSnapshot :: "json \<Rightarrow> offer_snapshot option" where
  "readSnapshot v =
     Option.bind (req asNum ''version'' v) (\<lambda>version1.
     Option.bind (req asStr ''offerId'' v) (\<lambda>offerId1.
     Option.bind (req asStr ''offerSlug'' v) (\<lambda>offerSlug1.
     Option.bind (req asStr ''offerName'' v) (\<lambda>offerName1.
     Option.bind (req asStr ''productId'' v) (\<lambda>productId1.
     Option.bind (req asStr ''productSlug'' v) (\<lambda>productSlug1.
     Option.bind (req asStr ''productName'' v) (\<lambda>productName1.
     Option.bind (req (oneNamed kindName [ProductPlan, ProductTrafficPack]) ''productKind'' v) (\<lambda>productKind1.
     Option.bind (req (oneNamed seriesName [Standard, Ultra]) ''productSeries'' v) (\<lambda>productSeries1.
     Option.bind (req (oneNamed cadenceName [MonthlyReset, OneTimeQuota]) ''quotaCadence'' v) (\<lambda>quotaCadence1.
     Option.bind (req (oneNamed periodName [Monthly, Quarterly, Yearly, OneTime, Legacy]) ''billingPeriod'' v) (\<lambda>billingPeriod1.
     Option.bind (nul asNum ''intervalMonths'' v) (\<lambda>intervalMonths1.
     Option.bind (nul asNum ''legacyDurationDays'' v) (\<lambda>legacyDurationDays1.
     Option.bind (req asBig ''trafficBytes'' v) (\<lambda>trafficBytes1.
     Option.bind (req asStr ''currency'' v) (\<lambda>currency1.
     Option.bind (req asStr ''accessProfileId'' v) (\<lambda>accessProfileId1.
     Option.bind (req asNum ''speedUpMbps'' v) (\<lambda>speedUpMbps1.
     Option.bind (req asNum ''speedDownMbps'' v) (\<lambda>speedDownMbps1.
     Option.bind (req asNum ''deviceLimit'' v) (\<lambda>deviceLimit1.
     Option.bind (req asNum ''trafficMultiplierBasisPoints'' v) (\<lambda>multiplier1.
     Option.bind (req asBool ''requiresActivePlan'' v) (\<lambda>requiresActivePlan1.
     Option.bind (nul asNum ''purchaseLimitPerUser'' v) (\<lambda>purchaseLimitPerUser1.
     Option.bind (nul asStr ''purchaseLimitKey'' v) (\<lambda>purchaseLimitKey1.
     Option.bind (nul asStr ''legacyPlanId'' v) (\<lambda>legacyPlanId1.
     Option.bind (nul asStr ''legacyPlanOfferId'' v) (\<lambda>legacyPlanOfferId1.
     Option.bind (nul asStr ''legacyTrafficPackProductId'' v) (\<lambda>legacyTrafficPackProductId1.
     Option.bind (readContext v) (\<lambda>context1.
     Some \<lparr>os_version = version1, os_offerId = offerId1, os_offerSlug = offerSlug1, os_offerName =
       offerName1, os_productId = productId1, os_productSlug = productSlug1, os_productName =
       productName1, os_productKind = productKind1, os_productSeries = productSeries1, os_quotaCadence
       = quotaCadence1, os_billingPeriod = billingPeriod1, os_intervalMonths = intervalMonths1,
       os_legacyDurationDays = legacyDurationDays1, os_trafficBytes = trafficBytes1, os_currency =
       currency1, os_accessProfileId = accessProfileId1, os_speedUpMbps = speedUpMbps1,
       os_speedDownMbps = speedDownMbps1, os_deviceLimit = deviceLimit1, os_multiplier = multiplier1,
       os_requiresActivePlan = requiresActivePlan1, os_purchaseLimitPerUser = purchaseLimitPerUser1,
       os_purchaseLimitKey = purchaseLimitKey1, os_legacyPlanId = legacyPlanId1, os_legacyPlanOfferId
       = legacyPlanOfferId1, os_legacyTrafficPackProductId = legacyTrafficPackProductId1, os_context =
       context1\<rparr>)))))))))))))))))))))))))))"

definition readQuote :: "json \<Rightarrow> upgrade_quote option" where
  "readQuote v =
     Option.bind (req asStr ''userId'' v) (\<lambda>userId1.
     Option.bind (req asStr ''grantId'' v) (\<lambda>grantId1.
     Option.bind (req asStr ''state'' v) (\<lambda>state1.
     Option.bind (req asDate ''quotedAt'' v) (\<lambda>quotedAt1.
     Option.bind (req asDate ''expiresAt'' v) (\<lambda>expiresAt1.
     Option.bind (req asDate ''startsAt'' v) (\<lambda>startsAt1.
     Option.bind (req asDate ''endsAt'' v) (\<lambda>endsAt1.
     Option.bind (req asStr ''sourceOrderId'' v) (\<lambda>sourceOrderId1.
     Option.bind (req asStr ''sourceProductName'' v) (\<lambda>sourceProductName1.
     Option.bind (req asStr ''sourceProductId'' v) (\<lambda>sourceProductId1.
     Option.bind (req asBig ''sourceTrafficBytes'' v) (\<lambda>sourceTrafficBytes1.
     Option.bind (req asNum ''sourcePaidCents'' v) (\<lambda>sourcePaidCents1.
     Option.bind (nul (oneNamed basisName [ActualPayment, AdminListPrice, PreviousUpgrade]) ''creditBasis'' v) (\<lambda>creditBasis1.
     Option.bind (nul asNum ''creditBasisCents'' v) (\<lambda>creditBasisCents1.
     Option.bind (req asNum ''targetPriceCents'' v) (\<lambda>targetPriceCents1.
     Option.bind (req asNum ''creditCents'' v) (\<lambda>creditCents1.
     Option.bind (req asNum ''targetRemainingCents'' v) (\<lambda>targetRemainingCents1.
     Option.bind (nul asNum ''upgradeFeeCents'' v) (\<lambda>upgradeFeeCents1.
     Option.bind (req asNum ''payableCents'' v) (\<lambda>payableCents1.
     Option.bind (Option.bind (jget v ''target'') readSnapshot) (\<lambda>target1.
     Some \<lparr>uq_userId = userId1, uq_grantId = grantId1, uq_state = state1, uq_quotedAt = quotedAt1,
       uq_expiresAt = expiresAt1, uq_startsAt = startsAt1, uq_endsAt = endsAt1, uq_sourceOrderId =
       sourceOrderId1, uq_sourceProductName = sourceProductName1, uq_sourceProductId =
       sourceProductId1, uq_sourceTrafficBytes = sourceTrafficBytes1, uq_sourcePaidCents =
       sourcePaidCents1, uq_creditBasis = creditBasis1, uq_creditBasisCents = creditBasisCents1,
       uq_targetPriceCents = targetPriceCents1, uq_creditCents = creditCents1, uq_targetRemainingCents
       = targetRemainingCents1, uq_upgradeFeeCents = upgradeFeeCents1, uq_payableCents =
       payableCents1, uq_target = target1\<rparr>))))))))))))))))))))"

section \<open>What is written is read back\<close>

lemma oneNamed_names [simp]:
  "oneNamed modeName [InitialPurchase, UpgradePurchase, PlanReset, GroupBuy, PlanUpgrade] (JStr (modeName m)) = Some m"
  "oneNamed settlementName [UpfrontDiscount, BalanceRebate] (JStr (settlementName s)) = Some s"
  "oneNamed preferenceName [PreferScheduled, PreferImmediate] (JStr (preferenceName p)) = Some p"
  "oneNamed activationName [ActInitial, ActRenewal, ActScheduled, ActImmediate] (JStr (activationName a)) = Some a"
  "oneNamed kindName [ProductPlan, ProductTrafficPack] (JStr (kindName k)) = Some k"
  "oneNamed seriesName [Standard, Ultra] (JStr (seriesName r)) = Some r"
  "oneNamed cadenceName [MonthlyReset, OneTimeQuota] (JStr (cadenceName c)) = Some c"
  "oneNamed periodName [Monthly, Quarterly, Yearly, OneTime, Legacy] (JStr (periodName b)) = Some b"
  "oneNamed basisName [ActualPayment, AdminListPrice, PreviousUpgrade] (JStr (basisName e)) = Some e"
  by ((cases m; simp add: oneNamed_def),
      (cases s; simp add: oneNamed_def),
      (cases p; simp add: oneNamed_def),
      (cases a; simp add: oneNamed_def),
      (cases k; simp add: oneNamed_def),
      (cases r; simp add: oneNamed_def),
      (cases c; simp add: oneNamed_def),
      (cases b; simp add: oneNamed_def),
      (cases e; simp add: oneNamed_def))

lemma req_there [simp]: "jget v k = Some w \<Longrightarrow> req f k v = f w"
  by (simp add: req_def)

lemma nul_jopt [simp]:
  "jget v k = Some (jopt JStr x) \<Longrightarrow> nul asStr k v = Some x"
  "jget v k = Some (jopt JNum n) \<Longrightarrow> nul asNum k v = Some n"
  "jget v k = Some (jopt JBig n) \<Longrightarrow> nul asBig k v = Some n"
  "jget v k = Some (jopt JDate n) \<Longrightarrow> nul asDate k v = Some n"
  "jget v k = Some (jopt (JStr \<circ> name) y) \<Longrightarrow> (\<And>z. g (JStr (name z)) = Some z) \<Longrightarrow> nul g k v = Some y"
  by ((cases x; simp add: nul_def jopt_def), (cases n; simp add: nul_def jopt_def), (cases n; simp add: nul_def jopt_def),
      (cases n; simp add: nul_def jopt_def), (cases y; simp add: nul_def jopt_def))

lemma context_read:
  "readContext (JObj (kvs @ contextJson c)) = Some c" if "fst ` set kvs \<inter> fst ` set (contextJson c) = {}"
proof -
  have "jget (JObj (kvs @ contextJson c)) k = map_of (contextJson c) k" if "k \<in> fst ` set (contextJson c)" for k
  proof -
    have "k \<notin> fst ` set kvs" using that \<open>fst ` set kvs \<inter> fst ` set (contextJson c) = {}\<close> by blast
    then show ?thesis by (simp add: map_add_dom_app_simps(3) dom_map_of_conv_image_fst)
  qed
  then show ?thesis by (simp add: readContext_def contextJson_def)
qed

lemma snapshot_read: "readSnapshot (snapshotJson s) = Some s"
proof -
  have c: "readContext (snapshotJson s) = Some (os_context s)"
    unfolding snapshotJson_def by (rule context_read) (simp add: contextJson_def)
  show ?thesis unfolding readSnapshot_def c by (simp add: snapshotJson_def)
qed

lemma quote_read: "readQuote (quoteJson q) = Some q"
proof -
  have "Option.bind (jget (quoteJson q) ''target'') readSnapshot = Some (uq_target q)"
    by (simp add: quoteJson_def snapshot_read)
  then show ?thesis unfolding readQuote_def by (simp add: quoteJson_def)
qed

end
