(* ===== verification/Checkout.thy ===== *)
theory Checkout imports GrantOrderLaws Referrals PaymentAttempts DiscountCodes PlanReset StoredQuotes PlanActivation UsageImport begin

text \<open>
  Buying an offer: \<open>createOfferCheckout\<close> of \<open>apps/api/src/commerce/commerce.service.ts\<close>, which every purchase
  goes through, whether paid from the wallet, paid online, paid by a group buy or a campaign, or given away.

  A settled payment carries its snapshot parsed (\<open>OfferSnapshot\<close>, \<open>StoredQuotes\<close>), with the campaign fields,
  which \<open>snapshotCatalogOffer\<close> does not write, beside it. Snapshots are of version 2, which has every field; those of
  version 1, whose missing series and cadence are taken from the product, are left out. A transaction has one clock reading \<open>now\<close>. Tables are in
  the order of creation, which is what \<open>createdAt\<close> orders by. Postings meet no contention (\<open>postEntry\<close>).
\<close>

section \<open>What is bought\<close>

record settled_payment =
  sp_external :: "(id \<times> string \<times> instant option) option"
  sp_amountCents :: int
  sp_basePriceCents :: int
  sp_snapshot :: "offer_snapshot option"
  sp_campaign :: "(id \<times> int option) option"
  sp_paidAt :: instant

record checkout_options =
  cx_complimentary :: bool
  cx_kind :: "product_kind option"
  cx_auditAction :: "string option"
  cx_actorId :: "id option"
  cx_payment :: "settled_payment option"

definition noOptions :: checkout_options where
  "noOptions = \<lparr>cx_complimentary = False, cx_kind = None, cx_auditAction = None, cx_actorId = None, cx_payment = None\<rparr>"

datatype purchase_action = BuyOffer | ResetPlan | UpgradePlan

record checkout_input =
  ci_offerId :: id
  ci_discountCode :: "string option"
  ci_action :: purchase_action
  ci_upgradeQuoteToken :: "string option"
  ci_planActivation :: "activation_preference option"

text \<open>The local variables that come from the snapshot or else from the offer and its product.\<close>

record checkout_terms =
  ct_kind :: product_kind
  ct_series :: product_series
  ct_cadence :: quota_cadence
  ct_period :: billing_period
  ct_months :: "int option"
  ct_legacyDays :: "int option"
  ct_bytes :: int
  ct_profileId :: id
  ct_speedUp :: int
  ct_speedDown :: int
  ct_deviceLimit :: int
  ct_multiplier :: int
  ct_requiresPlan :: bool
  ct_legacyPlanId :: "id option"
  ct_legacyPlanOfferId :: "id option"
  ct_legacyPackId :: "id option"
  ct_limit :: "int option"
  ct_limitKey :: "string option"

definition fromSnapshot :: "offer_snapshot option \<Rightarrow> (offer_snapshot \<Rightarrow> 'a) \<Rightarrow> 'a \<Rightarrow> 'a" where
  "fromSnapshot snapshot f x = (case snapshot of Some s \<Rightarrow> f s | None \<Rightarrow> x)"

definition validDuration :: "billing_period \<Rightarrow> int option \<Rightarrow> int option \<Rightarrow> bool" where
  "validDuration period months legacyDays \<longleftrightarrow> isPermanentBillingPeriod (Some period)
     \<or> (if period = Legacy then nvl legacyDays 0 > 0 else nvl months 0 > 0)"

definition onSale :: "offer_row \<Rightarrow> product_row \<Rightarrow> db \<Rightarrow> bool" where
  "onSale offer product d \<longleftrightarrow> co_active offer \<and> cp_status product = ProductActive
     \<and> (case Option.bind (cp_accessProfileId product) (\<lambda>i. lookup ap_id i (profiles d)) of
          Some profile \<Rightarrow> ap_active profile | None \<Rightarrow> False)"

definition checkoutTerms ::
  "offer_row \<Rightarrow> product_row \<Rightarrow> settled_payment option \<Rightarrow> db \<Rightarrow> error + checkout_terms" where
  "checkoutTerms offer product payment d =
     (let snap = Option.bind payment sp_snapshot;
          period = fromSnapshot snap os_billingPeriod (co_billingPeriod offer);
          months = orElse (Option.bind snap os_intervalMonths) (co_intervalMonths offer);
          days = fromSnapshot snap os_legacyDurationDays (legacyDuration offer product d)
      in case present (fromSnapshot snap (Some \<circ> os_accessProfileId) (cp_accessProfileId product)) of
           None \<Rightarrow> Inl (BadRequest ''not-purchasable'')
         | Some profileId \<Rightarrow>
             (case lookup ap_id profileId (profiles d) of
                None \<Rightarrow> Inl (BadRequest ''not-purchasable'')
              | Some profile \<Rightarrow>
                  bindE (guardE (BadRequest ''not-purchasable'')
                     ((payment \<noteq> None \<or> onSale offer product d) \<and> validDuration period months days)) (\<lambda>_.
                  Inr \<lparr>ct_kind = fromSnapshot snap os_productKind (cp_kind product),
                     ct_series = fromSnapshot snap os_productSeries (cp_series product),
                     ct_cadence = fromSnapshot snap os_quotaCadence (cp_quotaCadence product),
                     ct_period = period, ct_months = months, ct_legacyDays = days,
                     ct_bytes = fromSnapshot snap os_trafficBytes (co_trafficBytes offer), ct_profileId = profileId,
                     ct_speedUp = fromSnapshot snap os_speedUpMbps (ap_speedUpMbps profile),
                     ct_speedDown = fromSnapshot snap os_speedDownMbps (ap_speedDownMbps profile),
                     ct_deviceLimit = fromSnapshot snap os_deviceLimit (ap_deviceLimit profile),
                     ct_multiplier = fromSnapshot snap os_multiplier (cp_defaultMultiplier product),
                     ct_requiresPlan = fromSnapshot snap os_requiresActivePlan (cp_requiresActivePlan product),
                     ct_legacyPlanId = orElse (Option.bind snap os_legacyPlanId) (cp_legacyPlanId product),
                     ct_legacyPlanOfferId = orElse (Option.bind snap os_legacyPlanOfferId) (co_legacyPlanOfferId offer),
                     ct_legacyPackId = orElse (Option.bind snap os_legacyTrafficPackProductId)
                        (cp_legacyTrafficPackProductId product),
                     ct_limit = orElse (Option.bind snap os_purchaseLimitPerUser) (cp_purchaseLimitPerUser product),
                     ct_limitKey = orElse (Option.bind snap os_purchaseLimitKey) (cp_purchaseLimitKey product)\<rparr>)))"

definition productRule :: "product_row \<Rightarrow> rule_product" where
  "productRule product = \<lparr>rp_kind = cp_kind product, rp_purchaseLimitPerUser = cp_purchaseLimitPerUser product,
     rp_purchaseLimitKey = cp_purchaseLimitKey product, rp_requiresActivePlan = cp_requiresActivePlan product\<rparr>"

definition checkEligible ::
  "id \<Rightarrow> checkout_options \<Rightarrow> checkout_terms \<Rightarrow> product_row \<Rightarrow> instant \<Rightarrow> db \<Rightarrow> error + unit" where
  "checkEligible userId options t product now d =
     (if cx_complimentary options \<or> ct_series t = Ultra then Inr ()
      else if cx_payment options \<noteq> None
      then assertCatalogPurchaseLimit userId \<lparr>rp_kind = ct_kind t, rp_purchaseLimitPerUser = ct_limit t,
             rp_purchaseLimitKey = ct_limitKey t, rp_requiresActivePlan = ct_requiresPlan t\<rparr> d
      else assertCatalogPurchaseEligibility userId (productRule product) now d)"

definition resolveServiceableNodeId :: "id \<Rightarrow> db \<Rightarrow> id option" where
  "resolveServiceableNodeId profileId d =
     map_option apn_nodeId (first_row (sort_key apn_priority
       (filter (\<lambda>b. apn_profileId b = profileId \<and> nodeUp True (apn_nodeId b) d) (profileNodes d))))"

section \<open>Ultra purchases and plan switches\<close>

record ultra_purchase =
  lp_mode :: purchase_mode
  lp_payableCents :: int
  lp_grantId :: "id option"
  lp_productId :: "id option"
  lp_priceCents :: "int option"
  lp_resetAnchorAt :: "instant option"

definition resolveUltraPurchase :: "id \<Rightarrow> id \<Rightarrow> int \<Rightarrow> int \<Rightarrow> instant \<Rightarrow> db \<Rightarrow> error + ultra_purchase" where
  "resolveUltraPurchase userId productId priceCents trafficBytes now d =
     (case List.find (\<lambda>g. g_userId g = userId \<and> g_activeSlot g = Some ''ULTRA'' \<and> g_status g = GrantActive
             \<and> now < g_endsAt g) (grants d) of
        None \<Rightarrow> Inr \<lparr>lp_mode = InitialPurchase, lp_payableCents = priceCents, lp_grantId = None,
                    lp_productId = None, lp_priceCents = None, lp_resetAnchorAt = None\<rparr>
      | Some current \<Rightarrow>
          let currentPrice = nvl (g_priceCents current) 0; currentTraffic = nvl (g_trafficBytes current) 0
          in bindE (guardE (BadRequest ''ultra-not-higher'') (\<not> (productId = g_productId current
                \<or> priceCents \<le> currentPrice \<or> trafficBytes \<le> currentTraffic))) (\<lambda>_.
             Inr \<lparr>lp_mode = UpgradePurchase, lp_payableCents = priceCents - currentPrice,
                  lp_grantId = Some (g_id current), lp_productId = Some (g_productId current),
                  lp_priceCents = Some currentPrice,
                  lp_resetAnchorAt = Some (nvl (g_resetAnchorAt current) (g_startsAt current))\<rparr>))"

definition openStatus :: "subscription_row \<Rightarrow> bool" where
  "openStatus s \<longleftrightarrow> s_status s = SubActive \<or> s_status s = SubPaused"

text \<open>\<open>orderBy: [{ endsAt: 'desc' }, { createdAt: 'desc' }]\<close>\<close>

definition runningSubscription :: "id \<Rightarrow> instant \<Rightarrow> db \<Rightarrow> subscription_row option" where
  "runningSubscription userId now d =
     first_row (order_desc s_endsAt (rev (filter (\<lambda>s. s_userId s = userId \<and> openStatus s \<and> s_startsAt s \<le> now
        \<and> now < s_endsAt s) (subscriptions d))))"

definition currentPlanOf :: "subscription_row \<Rightarrow> db \<Rightarrow> error + current_plan" where
  "currentPlanOf s d =
     bindE (require (PrismaKnown ''inconsistent'') (lookup p_id (s_planId s) (plans d))) (\<lambda>plan.
     let product = catalogProductOf (p_id plan) d
     in Inr \<lparr>cur_productId = map_option cp_id product, cur_productName = nvl (map_option cp_name product) (p_name plan),
          cur_legacyPlanId = s_planId s, cur_startsAt = s_startsAt s, cur_endsAt = s_endsAt s\<rparr>)"

definition scheduledSubscription :: "id \<Rightarrow> instant \<Rightarrow> subscription_row \<Rightarrow> bool" where
  "scheduledSubscription userId now s \<longleftrightarrow> s_userId s = userId \<and> openStatus s \<and> now < s_startsAt s \<and> now < s_endsAt s"

definition groupUnderway :: "id \<Rightarrow> group_member_row \<Rightarrow> bool" where
  "groupUnderway userId m \<longleftrightarrow> gm_userId m = userId \<and> gm_activeSlot m \<noteq> None
     \<and> (gm_status m = MemberPaid \<or> gm_status m = MemberFulfilled)"

definition resolveStandardPlanPurchasePolicy ::
  "id \<Rightarrow> id \<Rightarrow> id \<Rightarrow> activation_preference option \<Rightarrow> bool \<Rightarrow> bool \<Rightarrow> instant \<Rightarrow> db \<Rightarrow> error + purchase_policy" where
  "resolveStandardPlanPurchasePolicy userId productId legacyPlanId preference forceImmediate skipPendingGuard now d =
     bindE (case runningSubscription userId now d of
              None \<Rightarrow> Inr None
            | Some s \<Rightarrow> bindE (currentPlanOf s d) (\<lambda>c. Inr (Some c))) (\<lambda>current.
     bindE (guardE (Conflict ''plan-reserved'')
        (skipPendingGuard \<or> \<not> (\<exists>s \<in> set (subscriptions d). scheduledSubscription userId now s))) (\<lambda>_.
     bindE (guardE (Conflict ''group-underway'')
        (skipPendingGuard \<or> \<not> (\<exists>m \<in> set (groupMembers d). groupUnderway userId m))) (\<lambda>_.
     Inr (decidePlanPurchasePolicy now productId legacyPlanId current preference forceImmediate))))"

section \<open>Terms in months and days\<close>

definition addMonthsClamped :: "instant \<Rightarrow> int \<Rightarrow> int \<Rightarrow> instant" where
  "addMonthsClamped date months anchorDay =
     (let result = dateUTC (getUTCFullYear date) (getUTCMonth date + months) 1 (getUTCHours date)
                     (getUTCMinutes date) (getUTCSeconds date) (getUTCMilliseconds date);
          lastDay = getUTCDate (dateUTC (getUTCFullYear result) (getUTCMonth result + 1) 0 0 0 0 0)
      in setUTCDate result (min anchorDay lastDay))"

definition offerExpiry ::
  "instant \<Rightarrow> billing_period \<Rightarrow> int option \<Rightarrow> int option \<Rightarrow> instant option \<Rightarrow> error + instant" where
  "offerExpiry startsAt period months legacyDays renewalAnchor =
     (if isPermanentBillingPeriod (Some period) then Inr permanentEntitlementEnd
      else if period = Legacy
      then if nvl legacyDays 0 = 0 then Inl (BadRequest ''legacy-duration'')
           else Inr (addUtcDays startsAt (nvl legacyDays 0))
      else if nvl months 0 = 0 then Inl (BadRequest ''plan-interval'')
      else Inr (addMonthsClamped startsAt (nvl months 0) (getUTCDate (nvl renewalAnchor startsAt))))"

definition firstCycleEnd :: "instant \<Rightarrow> instant \<Rightarrow> instant" where
  "firstCycleEnd startsAt entitlementEndsAt =
     (let monthly = addMonthsClamped startsAt 1 (getUTCDate startsAt)
      in if monthly < entitlementEndsAt then monthly else entitlementEndsAt)"

definition termsExpiry :: "instant \<Rightarrow> checkout_terms \<Rightarrow> instant option \<Rightarrow> error + instant" where
  "termsExpiry startsAt t anchor = offerExpiry startsAt (ct_period t) (ct_months t) (ct_legacyDays t) anchor"

section \<open>The price\<close>

record checkout_price =
  cp_chargedCents :: int
  cp_baseCents :: int
  cp_discount :: "(id \<times> int) option"

text \<open>What a settled payment must have come to.\<close>

definition settledCents :: "settled_payment \<Rightarrow> int \<Rightarrow> int option" where
  "settledCents p payableCents =
     (case sp_snapshot p of
        None \<Rightarrow> Some payableCents
      | Some s \<Rightarrow>
          let c = os_context s
          in if pc_purchaseMode c = GroupBuy
             then if pc_groupBuySettlementMode c = Some BalanceRebate then pc_groupBuyOriginalPriceCents c
                  else pc_groupBuyPriceCents c
             else (case sp_campaign p of Some (_, cents) \<Rightarrow> cents | None \<Rightarrow> Some payableCents))"

definition groupOriginalOk :: "settled_payment \<Rightarrow> bool" where
  "groupOriginalOk p \<longleftrightarrow>
     (case sp_snapshot p of
        None \<Rightarrow> True
      | Some s \<Rightarrow> pc_purchaseMode (os_context s) = GroupBuy \<longrightarrow>
          pc_groupBuyOriginalPriceCents (os_context s) = Some (sp_basePriceCents p))"

definition checkoutPrice ::
  "id \<Rightarrow> checkout_input \<Rightarrow> checkout_options \<Rightarrow> offer_row \<Rightarrow> ultra_purchase option \<Rightarrow> instant \<Rightarrow> db
     \<Rightarrow> error + (checkout_price \<times> db)" where
  "checkoutPrice userId input options offer ultra now d =
     (let payableCents = (case ultra of Some u \<Rightarrow> lp_payableCents u | None \<Rightarrow> co_priceCents offer)
      in case cx_payment options of
           Some p \<Rightarrow>
             bindE (guardE (BadRequest ''payment-amount'') (0 \<le> sp_amountCents p \<and> sp_amountCents p \<le> sp_basePriceCents p
                \<and> settledCents p payableCents = Some (sp_amountCents p) \<and> groupOriginalOk p)) (\<lambda>_.
             Inr (\<lparr>cp_chargedCents = sp_amountCents p, cp_baseCents = sp_basePriceCents p, cp_discount = None\<rparr>, d))
         | None \<Rightarrow>
             bindE (case (cx_complimentary options, present (ci_discountCode input)) of
                 (False, Some code) \<Rightarrow>
                   bindE (reserveDiscount userId code payableCents now d) (\<lambda>(r, d1). Inr (Some r, d1))
               | _ \<Rightarrow> Inr (None, d)) (\<lambda>(discount, d1).
             let charged = (if cx_complimentary options then 0
                            else max (payableCents - (case discount of Some (_, n) \<Rightarrow> n | None \<Rightarrow> 0)) 0)
             in bindE (guardE (BadRequest ''payment-amount'') (0 \<le> charged \<and> charged \<le> co_priceCents offer)) (\<lambda>_.
                Inr (\<lparr>cp_chargedCents = charged, cp_baseCents = co_priceCents offer, cp_discount = discount\<rparr>, d1))))"

text \<open>When a standard plan takes effect; a quoted date holds only while it is in the future.\<close>

definition quotedPolicy :: "offer_snapshot option \<Rightarrow> instant \<Rightarrow> purchase_policy option" where
  "quotedPolicy snapshot purchasedAt =
     (case Option.bind snapshot (\<lambda>s. Some (pc_planActivationMode (os_context s), pc_planEffectiveAt (os_context s))) of
        Some (Some mode, Some quotedAt) \<Rightarrow>
          Some \<lparr>pol_mode = mode,
            pol_effectiveAt = (if mode = ActScheduled \<and> purchasedAt < quotedAt then quotedAt else purchasedAt),
            pol_currentPlan = None, pol_forfeitedDays = 0\<rparr>
      | _ \<Rightarrow> None)"

definition planPolicy ::
  "id \<Rightarrow> checkout_input \<Rightarrow> checkout_options \<Rightarrow> checkout_terms \<Rightarrow> product_row \<Rightarrow> instant \<Rightarrow> db
     \<Rightarrow> error + purchase_policy option" where
  "planPolicy userId input options t product purchasedAt d =
     (case (ct_kind t = ProductPlan \<and> ct_series t = Standard, present (ct_legacyPlanId t)) of
        (True, Some legacyPlanId) \<Rightarrow>
          let settled = (cx_payment options \<noteq> None); free = (settled \<or> cx_complimentary options)
          in bindE (case quotedPolicy (Option.bind (cx_payment options) sp_snapshot) purchasedAt of
                 Some policy \<Rightarrow> Inr policy
               | None \<Rightarrow> resolveStandardPlanPurchasePolicy userId (cp_id product) legacyPlanId
                           (ci_planActivation input) free free purchasedAt d) (\<lambda>policy.
             bindE (guardE (Conflict ''plan-payment-pending'')
                (free \<or> lookup ea_activeKey (Some (standardPlanPurchaseKey userId)) (epayAttempts d) = None)) (\<lambda>_.
             Inr (Some policy)))
      | _ \<Rightarrow> Inr None)"

section \<open>The subscription and the pack behind an entitlement\<close>

definition extendSubscription :: "checkout_terms \<Rightarrow> id \<Rightarrow> id \<Rightarrow> instant \<Rightarrow> instant \<Rightarrow> subscription_row \<Rightarrow> subscription_row" where
  "extendSubscription t nodeId accountId purchasedAt extendedEndsAt s =
     (let s1 = s\<lparr>s_nodeId := nodeId, s_accountId := Some accountId, s_planOfferId := ct_legacyPlanOfferId t,
            s_status := SubActive, s_endsAt := extendedEndsAt, s_included := ct_bytes t,
            s_speedUp := ct_speedUp t, s_speedDown := ct_speedDown t, s_deviceLimit := ct_deviceLimit t\<rparr>
      in if purchasedAt < s_endsAt s then s1
         else s1\<lparr>s_startsAt := purchasedAt, s_bonus := 0, s_consumed := 0\<rparr>)"

definition newSubscription ::
  "checkout_terms \<Rightarrow> id \<Rightarrow> id \<Rightarrow> id \<Rightarrow> id \<Rightarrow> instant \<Rightarrow> instant \<Rightarrow> id \<Rightarrow> subscription_row" where
  "newSubscription t userId planId nodeId accountId startsAt endsAt i =
     \<lparr>s_id = i, s_userId = userId, s_planId = planId, s_nodeId = nodeId, s_accountId = Some accountId,
      s_planOfferId = ct_legacyPlanOfferId t, s_status = SubActive, s_startsAt = startsAt, s_endsAt = endsAt,
      s_included = ct_bytes t, s_bonus = 0, s_consumed = 0, s_speedUp = ct_speedUp t, s_speedDown = ct_speedDown t,
      s_deviceLimit = ct_deviceLimit t\<rparr>"

text \<open>Both \<open>updateMany\<close> of a switch: what runs ends now, what was reserved is canceled.\<close>

definition cancelSubscriptions :: "id \<Rightarrow> instant \<Rightarrow> db \<Rightarrow> db" where
  "cancelSubscriptions userId purchasedAt d = d\<lparr>subscriptions :=
     update_many (\<lambda>s. s_userId s = userId \<and> openStatus s \<and> purchasedAt < s_startsAt s) (\<lambda>s. s\<lparr>s_status := SubCanceled\<rparr>)
       (update_many (\<lambda>s. s_userId s = userId \<and> openStatus s \<and> s_startsAt s \<le> purchasedAt)
          (\<lambda>s. s\<lparr>s_status := SubCanceled, s_endsAt := purchasedAt\<rparr>) (subscriptions d))\<rparr>"

definition openSubscription ::
  "checkout_terms \<Rightarrow> id \<Rightarrow> id \<Rightarrow> id \<Rightarrow> id \<Rightarrow> instant \<Rightarrow> db \<Rightarrow> error + (id \<times> db)" where
  "openSubscription t userId planId nodeId accountId startsAt d =
     bindE (termsExpiry startsAt t None) (\<lambda>endsAt.
     let i = freshId d;
         d1 = (drawId d)\<lparr>subscriptions := subscriptions d
                @ [newSubscription t userId planId nodeId accountId startsAt endsAt i]\<rparr>
     in Inr (i, (drawId d1)\<lparr>cycles := cycles d1
           @ [newCycle (freshId d1) i startsAt (firstCycleEnd startsAt endsAt) (ct_bytes t) 0 False]\<rparr>))"

definition switchSubscription ::
  "id \<Rightarrow> checkout_terms \<Rightarrow> purchase_policy option \<Rightarrow> id \<Rightarrow> id \<Rightarrow> id \<Rightarrow> instant \<Rightarrow> subscription_row option \<Rightarrow> db
     \<Rightarrow> error + ((id \<times> instant) \<times> db)" where
  "switchSubscription userId t policy planId nodeId accountId purchasedAt existing d =
     (let mode = (case policy of Some p \<Rightarrow> pol_mode p
                   | None \<Rightarrow> if existing \<noteq> None then ActImmediate else ActInitial);
          scheduledSwitch = (mode = ActScheduled \<and> existing \<noteq> None);
          startsAt = (case policy of Some p \<Rightarrow> if scheduledSwitch then pol_effectiveAt p else purchasedAt
                       | None \<Rightarrow> purchasedAt);
          d1 = (if existing \<noteq> None \<and> \<not> scheduledSwitch then cancelSubscriptions userId purchasedAt d else d)
      in bindE (openSubscription t userId planId nodeId accountId startsAt d1) (\<lambda>(i, d2).
         Inr ((i, startsAt), d2)))"

text \<open>The subscription of a plan and the instant its entitlement starts.\<close>

definition writeSubscription ::
  "id \<Rightarrow> bool \<Rightarrow> checkout_terms \<Rightarrow> purchase_policy option \<Rightarrow> id \<Rightarrow> id \<Rightarrow> instant \<Rightarrow> db
     \<Rightarrow> error + ((id \<times> instant) \<times> db)" where
  "writeSubscription userId complimentary t policy nodeId accountId purchasedAt d =
     bindE (require (BadRequest ''plan-mapping'') (present (ct_legacyPlanId t))) (\<lambda>planId.
     let existing = runningSubscription userId purchasedAt d
     in case (if complimentary then None else existing) of
          Some s \<Rightarrow> if s_planId s = planId
            then let extendsCurrentTerm = (purchasedAt < s_endsAt s)
                 in bindE (termsExpiry (if extendsCurrentTerm then s_endsAt s else purchasedAt) t
                       (Some (if extendsCurrentTerm then s_startsAt s else purchasedAt))) (\<lambda>extendedEndsAt.
                    bindE (updateSubscription (s_id s)
                       (extendSubscription t nodeId accountId purchasedAt extendedEndsAt) d) (\<lambda>d1.
                    Inr ((s_id s, purchasedAt), d1)))
            else switchSubscription userId t policy planId nodeId accountId purchasedAt existing d
        | None \<Rightarrow> switchSubscription userId t policy planId nodeId accountId purchasedAt existing d)"

definition createPack :: "checkout_terms \<Rightarrow> id \<Rightarrow> id \<Rightarrow> id option \<Rightarrow> instant option \<Rightarrow> db \<Rightarrow> id \<times> db" where
  "createPack t userId accountId subscriptionId expiresAt d =
     (freshId d, (drawId d)\<lparr>packs := packs d @ [\<lparr>tp_id = freshId d, tp_userId = userId, tp_subscriptionId = subscriptionId,
        tp_accountId = Some accountId, tp_profileId = Some (ct_profileId t), tp_totalBytes = ct_bytes t,
        tp_remainingBytes = ct_bytes t, tp_status = PackActive, tp_expiresAt = expiresAt, tp_createdAt = db_now d\<rparr>]\<rparr>)"

text \<open>What the entitlement hangs on: the subscription of a plan, the pack of a traffic pack, nothing for Ultra.\<close>

record checkout_link =
  cl_subscriptionId :: "id option"
  cl_packId :: "id option"
  cl_startsAt :: instant
  cl_endsAt :: instant

definition writeLink ::
  "id \<Rightarrow> bool \<Rightarrow> checkout_terms \<Rightarrow> purchase_policy option \<Rightarrow> id \<Rightarrow> id \<Rightarrow> instant \<Rightarrow> instant \<Rightarrow> db
     \<Rightarrow> error + (checkout_link \<times> db)" where
  "writeLink userId complimentary t policy nodeId accountId purchasedAt expiresAt d =
     (if ct_kind t = ProductPlan
      then bindE (writeSubscription userId complimentary t policy nodeId accountId purchasedAt d) (\<lambda>((i, startsAt), d1).
           bindE (require (PrismaKnown ''P2025'') (lookup s_id i (subscriptions d1))) (\<lambda>s.
           Inr (\<lparr>cl_subscriptionId = Some i, cl_packId = None, cl_startsAt = startsAt, cl_endsAt = s_endsAt s\<rparr>, d1)))
      else if ct_series t \<noteq> Ultra
      then let planSubscription = (if ct_requiresPlan t
                 then map_option s_id (first_row (order_desc s_endsAt (activeLegacyPlans userId purchasedAt d))) else None);
               (i, d1) = createPack t userId accountId planSubscription
                  (if isPermanentBillingPeriod (Some (ct_period t)) then None else Some expiresAt) d
           in Inr (\<lparr>cl_subscriptionId = None, cl_packId = Some i, cl_startsAt = purchasedAt, cl_endsAt = expiresAt\<rparr>, d1)
      else Inr (\<lparr>cl_subscriptionId = None, cl_packId = None, cl_startsAt = purchasedAt, cl_endsAt = expiresAt\<rparr>, d))"

section \<open>The order and its payment\<close>

definition orderDiscount :: "checkout_options \<Rightarrow> ultra_purchase option \<Rightarrow> checkout_price \<Rightarrow> int" where
  "orderDiscount options ultra price =
     (if cx_complimentary options then cp_baseCents price
      else case cx_payment options of
        Some p \<Rightarrow>
          if sp_external p \<noteq> None \<or> (sp_snapshot p \<noteq> None \<and> sp_campaign p \<noteq> None)
          then if map_option lp_mode ultra = Some UpgradePurchase then 0 else cp_baseCents price - cp_chargedCents price
          else 0
      | None \<Rightarrow> (case cp_discount price of Some (_, n) \<Rightarrow> n | None \<Rightarrow> 0))"

definition externalPayment :: "checkout_options \<Rightarrow> (id \<times> string \<times> instant option) option" where
  "externalPayment options = Option.bind (cx_payment options) sp_external"

definition offerOrder ::
  "id \<Rightarrow> string \<Rightarrow> checkout_options \<Rightarrow> checkout_terms \<Rightarrow> offer_row \<Rightarrow> ultra_purchase option \<Rightarrow> purchase_policy option
     \<Rightarrow> checkout_price \<Rightarrow> checkout_link \<Rightarrow> instant \<Rightarrow> instant \<Rightarrow> id \<Rightarrow> order_row" where
  "offerOrder userId key options t offer ultra policy price link purchasedAt createdAt i =
     (appliedOrder i userId key purchasedAt createdAt)\<lparr>
       mo_planId := (if ct_kind t = ProductPlan then ct_legacyPlanId t else None),
       mo_planOfferId := ct_legacyPlanOfferId t,
       mo_packProductId := (if ct_kind t = ProductTrafficPack then ct_legacyPackId t else None),
       mo_catalogOfferId := Some (co_id offer),
       mo_kind := (if ct_kind t = ProductPlan then OrderRenewal else OrderTrafficPack),
       mo_source := (if cx_complimentary options then SourceAdmin
                     else if externalPayment options \<noteq> None then SourcePayment else SourceWallet),
       mo_amountCents := cp_chargedCents price, mo_basePriceCents := Some (cp_baseCents price),
       mo_discountCents := orderDiscount options ultra price, mo_trafficBytes := Some (ct_bytes t),
       mo_entitlementExpiresAt := Some (cl_endsAt link), mo_billingPeriod := Some (ct_period t),
       mo_intervalMonths := ct_months t, mo_profileId := Some (ct_profileId t), mo_speedUp := Some (ct_speedUp t),
       mo_speedDown := Some (ct_speedDown t), mo_deviceLimit := Some (ct_deviceLimit t),
       mo_multiplier := Some (ct_multiplier t), mo_requiresActivePlan := Some (ct_requiresPlan t),
       mo_quotaCadence := Some (ct_cadence t),
       mo_resetAnchorAt := Some (nvl (Option.bind ultra lp_resetAnchorAt) (cl_startsAt link)),
       mo_upgradeFromProductId := Option.bind ultra lp_productId,
       mo_upgradeFromPriceCents := Option.bind ultra lp_priceCents,
       mo_note := map_option (\<lambda>p. ''PLAN_ACTIVATION:'' @ activationName (pol_mode p)) policy\<rparr>"

definition auditSettled :: "id \<Rightarrow> offer_row \<Rightarrow> order_row \<Rightarrow> id \<Rightarrow> string \<Rightarrow> int \<Rightarrow> db \<Rightarrow> db" where
  "auditSettled userId offer o1 attemptId tradeNo chargedCents =
     createAudit None ''EPAY_PAYMENT_SETTLED'' ''ManualOrder'' (Some (mo_id o1))
       (JObj [(''userId'', JStr userId), (''offerId'', JStr (co_id offer)), (''attemptId'', JStr attemptId),
              (''gatewayTradeNo'', JStr tradeNo), (''paidCents'', JNum chargedCents)])"

definition auditComplimentary :: "id \<Rightarrow> checkout_options \<Rightarrow> checkout_terms \<Rightarrow> offer_row \<Rightarrow> order_row \<Rightarrow> db \<Rightarrow> db" where
  "auditComplimentary userId options t offer o1 =
     createAudit (cx_actorId options) (nvl (cx_auditAction options) ''COMPLIMENTARY_ENTITLEMENT_GRANTED'') ''ManualOrder''
       (Some (mo_id o1))
       (JObj [(''userId'', JStr userId), (''offerId'', JStr (co_id offer)), (''productKind'', JStr (kindName (ct_kind t))),
              (''listPriceCents'', JNum (co_priceCents offer)), (''recognizedRevenueCents'', JNum 0)])"

text \<open>The posting, the use of the code, and the record of the payment.\<close>

definition payOrder ::
  "id \<Rightarrow> string \<Rightarrow> checkout_options \<Rightarrow> checkout_terms \<Rightarrow> offer_row \<Rightarrow> checkout_price \<Rightarrow> order_row \<Rightarrow> instant \<Rightarrow> db
     \<Rightarrow> error + db" where
  "payOrder userId key options t offer price o1 purchasedAt d =
     bindE (if cx_complimentary options \<or> externalPayment options \<noteq> None then Inr d
            else bindE (postEntry (purchasePosting o1 key (cp_chargedCents price) None) d) (\<lambda>(_, d1). Inr d1)) (\<lambda>d1.
     bindE (case cp_discount price of
              Some (codeId, _) \<Rightarrow> recordRedemptionUse codeId userId (Some (mo_id o1)) d1
            | None \<Rightarrow> Inr d1) (\<lambda>d2.
     Inr (if cx_complimentary options then auditComplimentary userId options t offer o1 d2
          else case cx_payment options of
            Some p \<Rightarrow>
              (case sp_external p of
                 Some (attemptId, tradeNo, _) \<Rightarrow>
                   auditSettled userId offer o1 attemptId tradeNo (cp_chargedCents price)
                     (createPayment o1 PayEpay (cp_chargedCents price) (Some tradeNo) (sp_paidAt p) d2)
               | None \<Rightarrow> createPayment o1 PayWallet (cp_chargedCents price) None purchasedAt d2)
          | None \<Rightarrow> createPayment o1 PayWallet (cp_chargedCents price) None purchasedAt d2)))"

definition grantOrder ::
  "id \<Rightarrow> checkout_options \<Rightarrow> checkout_terms \<Rightarrow> purchase_policy option \<Rightarrow> order_row \<Rightarrow> checkout_link \<Rightarrow> instant \<Rightarrow> db
     \<Rightarrow> error + db" where
  "grantOrder userId options t policy o1 link now d =
     (let scheduled = (map_option pol_mode policy = Some ActScheduled)
      in bindE (grantFromOrder \<lparr>gi_orderId = mo_id o1, gi_subscriptionId = cl_subscriptionId link,
             gi_trafficPackId = cl_packId link, gi_replacePlan = False,
             gi_startsAt = (if scheduled then Some (cl_startsAt link) else None), gi_preserveExistingPlan = scheduled\<rparr> d)
           (\<lambda>(g, d1).
         if ct_kind t = ProductPlan \<and> externalPayment options \<noteq> None
         then bindE (settlePlanPurchaseReward userId (mo_id o1) (g_id g) now d1) (\<lambda>(_, d2). Inr d2)
         else Inr d1))"

section \<open>The checkout of an offer\<close>

text \<open>Everything that is checked before the entitlement is written: the member, the offer, its terms, the right to
  buy it, a node, and what Ultra it starts from.\<close>

record checkout_case =
  cc_offer :: offer_row
  cc_product :: product_row
  cc_terms :: checkout_terms
  cc_nodeId :: id
  cc_ultra :: "ultra_purchase option"

definition activeUser :: "id \<Rightarrow> db \<Rightarrow> error + user_row" where
  "activeUser userId d =
     bindE (require (NotFound ''user'') (lookup u_id userId (users d))) (\<lambda>user.
     bindE (guardE (BadRequest ''account-inactive'') (u_status user = UserActive)) (\<lambda>_. Inr user))"

definition ultraAsQuoted :: "offer_snapshot option \<Rightarrow> ultra_purchase option \<Rightarrow> bool" where
  "ultraAsQuoted snapshot ultra \<longleftrightarrow>
     (case (snapshot, ultra) of
        (Some s, Some u) \<Rightarrow> pc_purchaseMode (os_context s) = lp_mode u
          \<and> pc_upgradeFromGrantId (os_context s) = lp_grantId u
          \<and> pc_upgradeFromProductId (os_context s) = lp_productId u
          \<and> pc_upgradeFromPriceCents (os_context s) = lp_priceCents u
      | _ \<Rightarrow> True)"

definition checkoutCase ::
  "id \<Rightarrow> checkout_input \<Rightarrow> checkout_options \<Rightarrow> instant \<Rightarrow> db \<Rightarrow> error + checkout_case" where
  "checkoutCase userId input options now d =
     (let payment = cx_payment options; snapshot = Option.bind payment sp_snapshot in
      bindE (guardE (BadRequest ''payment-ambiguous'') (\<not> (cx_complimentary options \<and> payment \<noteq> None))) (\<lambda>_.
      bindE (activeUser userId d) (\<lambda>_.
      bindE (require (NotFound ''catalog-offer'') (lookup co_id (ci_offerId input) (offers d))) (\<lambda>offer.
      bindE (guardE (NotFound ''catalog-offer'') (co_archivedAt offer = None \<or> payment \<noteq> None)) (\<lambda>_.
      bindE (require (PrismaKnown ''inconsistent'') (lookup cp_id (co_productId offer) (products d))) (\<lambda>product.
      bindE (guardE (Conflict ''snapshot-mismatch'')
         (case snapshot of Some s \<Rightarrow> os_offerId s = co_id offer \<and> os_productId s = cp_id product | None \<Rightarrow> True)) (\<lambda>_.
      bindE (checkoutTerms offer product payment d) (\<lambda>t.
      bindE (guardE (BadRequest ''complimentary-kind'')
         (case cx_kind options of Some k \<Rightarrow> ct_kind t = k | None \<Rightarrow> True)) (\<lambda>_.
      bindE (checkEligible userId options t product now d) (\<lambda>_.
      bindE (require (BadRequest ''no-node'') (present (resolveServiceableNodeId (ct_profileId t) d))) (\<lambda>nodeId.
      bindE (if ct_series t = Ultra
             then bindE (resolveUltraPurchase userId (cp_id product)
                    (case payment of Some p \<Rightarrow> sp_basePriceCents p | None \<Rightarrow> co_priceCents offer) (ct_bytes t) now d)
                    (\<lambda>u. Inr (Some u))
             else Inr None) (\<lambda>ultra.
      bindE (guardE (Conflict ''ultra-changed'') (ultraAsQuoted snapshot ultra)) (\<lambda>_.
      Inr \<lparr>cc_offer = offer, cc_product = product, cc_terms = t, cc_nodeId = nodeId, cc_ultra = ultra\<rparr>)))))))))))))"

definition purchaseInstant :: "checkout_options \<Rightarrow> instant \<Rightarrow> instant" where
  "purchaseInstant options now =
     (case cx_payment options of
        None \<Rightarrow> now
      | Some p \<Rightarrow> nvl (Option.bind (sp_external p) (\<lambda>(_, _, startsAt). startsAt)) (sp_paidAt p))"

definition createOfferCheckout ::
  "id \<Rightarrow> checkout_input \<Rightarrow> string \<Rightarrow> checkout_options \<Rightarrow> instant \<Rightarrow> db \<Rightarrow> error + (checkout_result \<times> db)" where
  "createOfferCheckout userId input key options now d =
     bindE (checkoutCase userId input options now d) (\<lambda>c.
     let t = cc_terms c; offer = cc_offer c; purchasedAt = purchaseInstant options now in
     bindE (checkoutPrice userId input options offer (cc_ultra c) now d) (\<lambda>(price, d1).
     bindE (planPolicy userId input options t (cc_product c) purchasedAt d1) (\<lambda>policy.
     bindE (termsExpiry purchasedAt t None) (\<lambda>expiresAt.
     bindE (ensureAccessAccount userId d1) (\<lambda>(account, d2).
     bindE (writeLink userId (cx_complimentary options) t policy (cc_nodeId c) (aa_id account) purchasedAt expiresAt d2)
       (\<lambda>(link, d3).
     bindE (createOrder (offerOrder userId key options t offer (cc_ultra c) policy price link purchasedAt (db_now d3)) d3)
       (\<lambda>(o1, d4).
     bindE (payOrder userId key options t offer price o1 purchasedAt d4) (\<lambda>d5.
     bindE (grantOrder userId options t policy o1 link now d5) (\<lambda>d6.
     Inr (\<lparr>xr_orderId = mo_id o1, xr_replayed = False,
           xr_kind = Some (if cp_kind (cc_product c) = ProductPlan then ''plan_offer'' else ''traffic_pack''),
           xr_chargedCents = Some (cp_chargedCents price), xr_expiresAt = mo_entitlementExpiresAt o1\<rparr>, d6))))))))))"

end
