(* ===== verification/CheckoutLaws.thy ===== *)
theory CheckoutLaws imports Checkout begin

text \<open>
  What the checkout of an offer guarantees: what a wallet purchase charges and writes, that the terms of a
  member's plans never overlap, and what a settled payment must have come to.
\<close>

section \<open>Frames\<close>

text \<open>The tables that turning an order into an entitlement leaves alone.\<close>

definition moneyAndTerms :: "db \<Rightarrow> user_row list \<times> ledger_row list \<times> subscription_row list" where
  "moneyAndTerms d = (users d, walletLedger d, subscriptions d)"

lemma moneyAndTerms_eq:
  "moneyAndTerms d' = moneyAndTerms d \<longleftrightarrow>
     users d' = users d \<and> walletLedger d' = walletLedger d \<and> subscriptions d' = subscriptions d"
  by (auto simp: moneyAndTerms_def)

lemma moneyAndTerms_simps [simp]:
  "moneyAndTerms (drawId d) = moneyAndTerms d" "moneyAndTerms (d\<lparr>grants := gs\<rparr>) = moneyAndTerms d"
  "moneyAndTerms (d\<lparr>buckets := bs\<rparr>) = moneyAndTerms d" "moneyAndTerms (d\<lparr>orders := os\<rparr>) = moneyAndTerms d"
  "moneyAndTerms (d\<lparr>accounts := as\<rparr>) = moneyAndTerms d" "moneyAndTerms (d\<lparr>cycles := cs\<rparr>) = moneyAndTerms d"
  "moneyAndTerms (d\<lparr>packs := ps\<rparr>) = moneyAndTerms d" "moneyAndTerms (d\<lparr>payments := rs\<rparr>) = moneyAndTerms d"
  "moneyAndTerms (createAudit a b c i j d) = moneyAndTerms d"
  "moneyAndTerms (d\<lparr>redemptionCodes := xs\<rparr>) = moneyAndTerms d" "moneyAndTerms (d\<lparr>redemptionUses := ys\<rparr>) = moneyAndTerms d"
  by (simp_all add: moneyAndTerms_def)

lemma ensureAccessAccount_money: "ensureAccessAccount u d = Inr (a, d') \<Longrightarrow> moneyAndTerms d' = moneyAndTerms d"
  by (auto simp: ensureAccessAccount_def err_simps Let_def split: option.splits)

lemma grantFromOrder_money:
  assumes "grantFromOrder input d = Inr (g, d')"
  shows "moneyAndTerms d' = moneyAndTerms d"
  using assms
proof (cases rule: grantFromOrder_stages)
  case (1 o1 offer product expiresAt account d0 terms profile)
  from 1(7) show ?thesis
  proof (cases rule: applyOrder_stages)
    case s: (1 d1 existing restarts anchor d2)
    have "moneyAndTerms d1 = moneyAndTerms d0" using s(1) by (auto simp: supersedePlans_def err_simps split: if_splits)
    moreover have "moneyAndTerms (cutContinued input restarts (orderStart input o1) existing d1) = moneyAndTerms d1"
      by (simp add: cutContinued_def cutCurrentPeriods_def moneyAndTerms_def split: option.split)
    moreover have "moneyAndTerms d2 = moneyAndTerms (cutContinued input restarts (orderStart input o1) existing d1)"
      using s(6) by (auto simp: writeGrant_def err_simps Let_def split: option.splits if_splits)
    moreover have "moneyAndTerms (grantPeriod i c b n m r k d2) = moneyAndTerms d2" for i c b n m r k
      by (simp add: grantPeriod_def moneyAndTerms_def)
    ultimately show ?thesis using s(8) ensureAccessAccount_money [OF 1(5)] by (auto simp: finishOrder_def err_simps)
  qed
qed

text \<open>The stages of a checkout.\<close>

lemma createOfferCheckout_stages:
  assumes "createOfferCheckout u input key options now d = Inr (res, d')"
  obtains c price d1 policy expiresAt account d2 link d3 o1 d4 d5 where
    "checkoutCase u input options now d = Inr c"
    "checkoutPrice u input options (cc_offer c) (cc_ultra c) now d = Inr (price, d1)"
    "planPolicy u input options (cc_terms c) (cc_product c) (purchaseInstant options now) d1 = Inr policy"
    "termsExpiry (purchaseInstant options now) (cc_terms c) None = Inr expiresAt"
    "ensureAccessAccount u d1 = Inr (account, d2)"
    "writeLink u (cx_complimentary options) (cc_terms c) policy (cc_nodeId c) (aa_id account)
       (purchaseInstant options now) expiresAt d2 = Inr (link, d3)"
    "createOrder (offerOrder u key options (cc_terms c) (cc_offer c) (cc_ultra c) policy price link
       (purchaseInstant options now) (db_now d3)) d3 = Inr (o1, d4)"
    "payOrder u key options (cc_terms c) (cc_offer c) price o1 (purchaseInstant options now) d4 = Inr d5"
    "grantOrder u options (cc_terms c) policy o1 link now d5 = Inr d'"
    "xr_orderId res = mo_id o1" "xr_chargedCents res = Some (cp_chargedCents price)" "\<not> xr_replayed res"
proof -
  from assms obtain c price d1 policy expiresAt account d2 link d3 o1 d4 d5 where
    "checkoutCase u input options now d = Inr c"
    "checkoutPrice u input options (cc_offer c) (cc_ultra c) now d = Inr (price, d1)"
    "planPolicy u input options (cc_terms c) (cc_product c) (purchaseInstant options now) d1 = Inr policy"
    "termsExpiry (purchaseInstant options now) (cc_terms c) None = Inr expiresAt"
    "ensureAccessAccount u d1 = Inr (account, d2)"
    "writeLink u (cx_complimentary options) (cc_terms c) policy (cc_nodeId c) (aa_id account)
       (purchaseInstant options now) expiresAt d2 = Inr (link, d3)"
    "createOrder (offerOrder u key options (cc_terms c) (cc_offer c) (cc_ultra c) policy price link
       (purchaseInstant options now) (db_now d3)) d3 = Inr (o1, d4)"
    "payOrder u key options (cc_terms c) (cc_offer c) price o1 (purchaseInstant options now) d4 = Inr d5"
    "grantOrder u options (cc_terms c) policy o1 link now d5 = Inr d'"
    "res = \<lparr>xr_orderId = mo_id o1, xr_replayed = False,
           xr_kind = Some (if cp_kind (cc_product c) = ProductPlan then ''plan_offer'' else ''traffic_pack''),
           xr_chargedCents = Some (cp_chargedCents price), xr_expiresAt = mo_entitlementExpiresAt o1\<rparr>"
    unfolding createOfferCheckout_def Let_def by (elim bindE_InrE) (auto elim!: bindE_InrE)
  then show ?thesis by (intro that) simp_all
qed

definition walletPurchase :: "checkout_options \<Rightarrow> bool" where
  "walletPurchase options \<longleftrightarrow> cx_payment options = None \<and> \<not> cx_complimentary options"

lemma walletPurchase_simps [simp]:
  "walletPurchase options \<Longrightarrow> externalPayment options = None" "walletPurchase options \<Longrightarrow> purchaseInstant options now = now"
  by (simp_all add: walletPurchase_def externalPayment_def purchaseInstant_def)

lemma reserveDiscount_frame:
  "reserveDiscount u raw price now d = Inr (r, d') \<Longrightarrow> moneyAndTerms d' = moneyAndTerms d \<and> orders d' = orders d
     \<and> r = (fst r, snd r) \<and> plans d' = plans d \<and> products d' = products d \<and> groupMembers d' = groupMembers d"
  by (auto simp: reserveDiscount_def err_simps Let_def)

definition payableCents :: "checkout_case \<Rightarrow> int" where
  "payableCents c = (case cc_ultra c of Some u \<Rightarrow> lp_payableCents u | None \<Rightarrow> co_priceCents (cc_offer c))"

definition discountCents :: "checkout_price \<Rightarrow> int" where
  "discountCents price = (case cp_discount price of Some (_, n) \<Rightarrow> n | None \<Rightarrow> 0)"

lemma checkoutPrice_frame:
  "checkoutPrice u input options offer ultra now d = Inr (price, d') \<Longrightarrow> moneyAndTerms d' = moneyAndTerms d
     \<and> orders d' = orders d \<and> plans d' = plans d \<and> products d' = products d \<and> groupMembers d' = groupMembers d"
  by (auto simp: checkoutPrice_def Let_def err_simps split: option.splits bool.splits dest!: reserveDiscount_frame)

lemma checkoutPrice_wallet:
  "checkoutPrice u input options (cc_offer c) (cc_ultra c) now d = Inr (price, d') \<Longrightarrow> walletPurchase options \<Longrightarrow>
     cp_chargedCents price = max (payableCents c - discountCents price) 0
     \<and> cp_chargedCents price \<le> co_priceCents (cc_offer c)"
  by (auto simp: checkoutPrice_def Let_def err_simps walletPurchase_def payableCents_def discountCents_def
      split: option.splits)

lemma recordRedemptionUse_frame:
  "recordRedemptionUse c u o1 d = Inr d' \<Longrightarrow> moneyAndTerms d' = moneyAndTerms d \<and> orders d' = orders d"
  by (auto simp: recordRedemptionUse_def err_simps Let_def)

lemma writeSubscription_cases:
  assumes "writeSubscription u complimentary t policy n a at d = Inr ((i, startsAt), d')"
  obtains (extended) s endsAt planId where "\<not> complimentary" "runningSubscription u at d = Some s"
      "present (ct_legacyPlanId t) = Some planId" "s_planId s = planId" "i = s_id s" "startsAt = at"
      "termsExpiry (if at < s_endsAt s then s_endsAt s else at) t (Some (if at < s_endsAt s then s_startsAt s else at)) = Inr endsAt"
      "d' = d\<lparr>subscriptions := update_many (\<lambda>r. s_id r = s_id s) (extendSubscription t n a at endsAt) (subscriptions d)\<rparr>"
  | (switched) planId where "present (ct_legacyPlanId t) = Some planId"
      "complimentary \<or> (\<forall>s. runningSubscription u at d = Some s \<longrightarrow> s_planId s \<noteq> planId)"
      "switchSubscription u t policy planId n a at (runningSubscription u at d) d = Inr ((i, startsAt), d')"
proof -
  from assms obtain planId where plan: "present (ct_legacyPlanId t) = Some planId"
    unfolding writeSubscription_def by (auto simp: err_simps)
  note run = assms [unfolded writeSubscription_def plan require_simps bindE_Inr Let_def]
  show thesis
  proof (cases "if complimentary then None else runningSubscription u at d")
    case None
    show thesis
    proof (rule switched [OF plan])
      show "complimentary \<or> (\<forall>s. runningSubscription u at d = Some s \<longrightarrow> s_planId s \<noteq> planId)" using None by auto
      show "switchSubscription u t policy planId n a at (runningSubscription u at d) d = Inr ((i, startsAt), d')"
        using run unfolding None by simp
    qed
  next
    case (Some s)
    then have s: "\<not> complimentary" "runningSubscription u at d = Some s" by (auto split: if_splits)
    note run' = run [unfolded Some option.case]
    show thesis
    proof (cases "s_planId s = planId")
      case False
      then show thesis using run' s by (intro switched [OF plan]) auto
    next
      case True
      note run'' = run' [unfolded if_P [OF True]]
      obtain endsAt where
        e: "termsExpiry (if at < s_endsAt s then s_endsAt s else at) t (Some (if at < s_endsAt s then s_startsAt s else at)) = Inr endsAt"
        and w: "bindE (updateSubscription (s_id s) (extendSubscription t n a at endsAt) d) (\<lambda>d1. Inr ((s_id s, at), d1))
           = Inr ((i, startsAt), d')"
        by (rule bindE_InrE [OF run''])
      obtain d1 where u: "updateSubscription (s_id s) (extendSubscription t n a at endsAt) d = Inr d1"
        and r0: "Inr ((s_id s, at), d1) = (Inr ((i, startsAt), d') :: error + ((id \<times> instant) \<times> db))"
        by (rule bindE_InrE [OF w])
      have r: "i = s_id s" "startsAt = at" "d' = d1" using r0 by simp_all
      have "d' = d\<lparr>subscriptions := update_many (\<lambda>r. s_id r = s_id s) (extendSubscription t n a at endsAt) (subscriptions d)\<rparr>"
        using u r(3) by (auto simp: updateSubscription_def err_simps)
      then show thesis by (rule extended [OF s plan True r(1,2) e])
    qed
  qed
qed

lemma switchSubscription_shape:
  assumes "switchSubscription u t policy planId n a at existing d = Inr ((i, startsAt), d')"
  shows "\<exists>d1 endsAt. d1 = (if existing \<noteq> None \<and> \<not> (map_option pol_mode policy = Some ActScheduled)
             then cancelSubscriptions u at d else d)
     \<and> startsAt = (case policy of Some p \<Rightarrow> if pol_mode p = ActScheduled \<and> existing \<noteq> None then pol_effectiveAt p else at | None \<Rightarrow> at)
     \<and> termsExpiry startsAt t None = Inr endsAt
     \<and> subscriptions d' = subscriptions d1 @ [newSubscription t u planId n a startsAt endsAt i] \<and> i = freshId d1
     \<and> users d' = users d \<and> walletLedger d' = walletLedger d \<and> orders d' = orders d"
  using assms
  by (cases policy; cases existing)
    (auto simp: switchSubscription_def openSubscription_def cancelSubscriptions_def err_simps Let_def freshId_def)

lemma writeLink_frame:
  assumes "writeLink u complimentary t policy n a at e d = Inr (link, d')"
  shows "users d' = users d \<and> walletLedger d' = walletLedger d \<and> orders d' = orders d"
proof -
  have sub: "users d2 = users d \<and> walletLedger d2 = walletLedger d \<and> orders d2 = orders d"
    if "writeSubscription u complimentary t policy n a at d = Inr ((i, startsAt), d2)" for i startsAt d2
    using that by (cases rule: writeSubscription_cases) (auto dest: switchSubscription_shape)
  show ?thesis using assms
    by (auto simp: writeLink_def err_simps Let_def createPack_def split: if_splits dest!: sub)
qed

lemma createPayment_frame [simp]:
  "moneyAndTerms (createPayment o1 s n r t d) = moneyAndTerms d"
  by (simp add: moneyAndTerms_def)

lemma payOrder_wallet:
  assumes "payOrder u key options t offer price o1 at d = Inr d'" and "walletPurchase options"
  obtains r dp where "postEntry (purchasePosting o1 key (cp_chargedCents price) None) d = Inr (r, dp)"
    "moneyAndTerms d' = moneyAndTerms dp" "orders d' = orders dp"
  using assms
  by (auto simp: payOrder_def err_simps walletPurchase_def externalPayment_def split: option.splits
      dest!: recordRedemptionUse_frame)

lemma grantOrder_wallet:
  assumes "grantOrder u options t policy o1 link now d = Inr d'" and "walletPurchase options"
  obtains input g where "grantFromOrder input d = Inr (g, d')" "gi_orderId input = mo_id o1"
  using assms by (auto simp: grantOrder_def Let_def err_simps)

lemma offerOrder_simps [simp]:
  "mo_id (offerOrder u k x t f l p c n a b i) = i" "mo_userId (offerOrder u k x t f l p c n a b i) = u"
  "mo_idempotencyKey (offerOrder u k x t f l p c n a b i) = Some k"
  "mo_amountCents (offerOrder u k x t f l p c n a b i) = cp_chargedCents c"
  "mo_catalogOfferId (offerOrder u k x t f l p c n a b i) = Some (co_id f)"
  "mo_entitlementExpiresAt (offerOrder u k x t f l p c n a b i) = Some (cl_endsAt n)"
  "mo_kind (offerOrder u k x t f l p c n a b i) = (if ct_kind t = ProductPlan then OrderRenewal else OrderTrafficPack)"
  by (simp_all add: offerOrder_def appliedOrder_def)

lemma offerOrder_status [simp]: "mo_status (offerOrder u k x t f l p c n a b i) = OrderApplied"
  by (simp add: offerOrder_def appliedOrder_def)

lemma checkoutPrice_discount:
  assumes "checkoutPrice u input options (cc_offer c) (cc_ultra c) now d = Inr (price, d')" and "walletPurchase options"
  shows "case present (ci_discountCode input) of
      None \<Rightarrow> discountCents price = 0
    | Some code \<Rightarrow> \<exists>row. usableCode u code now d = Inr row \<and> discountCents price = discountOf row (payableCents c)"
proof -
  have w: "cx_payment options = None" "cx_complimentary options = False" using assms(2) by (simp_all add: walletPurchase_def)
  note run = assms(1) [unfolded checkoutPrice_def Let_def w option.case]
  show ?thesis
  proof (cases "present (ci_discountCode input)")
    case None
    show ?thesis using run unfolding None option.case prod.case bool.case by (auto simp: err_simps discountCents_def)
  next
    case (Some code)
    show ?thesis using run unfolding Some option.case prod.case bool.case
      by (auto simp: err_simps discountCents_def payableCents_def reserveDiscount_def Let_def)
  qed
qed

section \<open>What a wallet purchase charges\<close>

text \<open>C36: a purchase from the wallet, under a key that posted nothing before, takes the price less the discount, never
  less than nothing and never more than the price of the offer, from the buyer alone: the discount is none without a
  code, and with one what the code, which must be usable, gives on the price. It leaves one applied order for that
  amount under the key, linked to the entitlement it bought.\<close>

theorem wallet_checkout_exact:
  assumes run: "createOfferCheckout u input key options now d = Inr (res, d')" and wallet: "walletPurchase options"
    and fresh: "existingPosting u (Some key) d = None"
  shows "\<exists>c price o1. checkoutCase u input options now d = Inr c \<and> co_id (cc_offer c) = ci_offerId input
     \<and> (case present (ci_discountCode input) of
           None \<Rightarrow> discountCents price = 0
         | Some code \<Rightarrow> \<exists>row. usableCode u code now d = Inr row \<and> discountCents price = discountOf row (payableCents c))
     \<and> cp_chargedCents price = max (payableCents c - discountCents price) 0
     \<and> cp_chargedCents price \<le> co_priceCents (cc_offer c) \<and> xr_chargedCents res = Some (cp_chargedCents price)
     \<and> (\<forall>v. balance d' v = (if v = u then map_option (\<lambda>b. b - cp_chargedCents price) (balance d v) else balance d v))
     \<and> map mo_id (orders d') = map mo_id (orders d) @ [xr_orderId res] \<and> o1 \<in> set (orders d')
     \<and> mo_id o1 = xr_orderId res \<and> mo_userId o1 = u \<and> mo_idempotencyKey o1 = Some key
     \<and> mo_amountCents o1 = cp_chargedCents price \<and> mo_status o1 = OrderApplied \<and> mo_grantId o1 \<noteq> None"
proof -
  from createOfferCheckout_stages [OF run] obtain c price d1 policy expiresAt account d2 link d3 o1 d4 d5 where
    st: "checkoutCase u input options now d = Inr c"
    "checkoutPrice u input options (cc_offer c) (cc_ultra c) now d = Inr (price, d1)"
    "ensureAccessAccount u d1 = Inr (account, d2)"
    "writeLink u (cx_complimentary options) (cc_terms c) policy (cc_nodeId c) (aa_id account)
       (purchaseInstant options now) expiresAt d2 = Inr (link, d3)"
    "createOrder (offerOrder u key options (cc_terms c) (cc_offer c) (cc_ultra c) policy price link
       (purchaseInstant options now) (db_now d3)) d3 = Inr (o1, d4)"
    "payOrder u key options (cc_terms c) (cc_offer c) price o1 (purchaseInstant options now) d4 = Inr d5"
    "grantOrder u options (cc_terms c) policy o1 link now d5 = Inr d'"
    and res: "xr_orderId res = mo_id o1" "xr_chargedCents res = Some (cp_chargedCents price)" .
  have offer: "co_id (cc_offer c) = ci_offerId input"
    using st(1) by (auto simp: checkoutCase_def err_simps Let_def dest: lookup_SomeD)
  note o1 = createOrder_shape [OF st(5)]
  have d3: "users d3 = users d" "walletLedger d3 = walletLedger d" "orders d3 = orders d"
    using checkoutPrice_frame [OF st(2)] ensureAccessAccount_money [OF st(3)] ensureAccessAccount_frame [OF st(3)]
      writeLink_frame [OF st(4)] by (simp_all add: moneyAndTerms_eq)
  have d4: "users d4 = users d" "walletLedger d4 = walletLedger d" "orders d4 = orders d @ [o1]"
    using o1 d3 by simp_all
  obtain r dp where p: "postEntry (purchasePosting o1 key (cp_chargedCents price) None) d4 = Inr (r, dp)"
    "moneyAndTerms d5 = moneyAndTerms dp" "orders d5 = orders dp" by (rule payOrder_wallet [OF st(6) wallet])
  obtain gi g where g: "grantFromOrder gi d5 = Inr (g, d')" "gi_orderId gi = mo_id o1"
    by (rule grantOrder_wallet [OF st(7) wallet])
  have posting: "wp_userId (purchasePosting o1 key (cp_chargedCents price) None) = u"
    "wp_idempotencyKey (purchasePosting o1 key (cp_chargedCents price) None) = Some key"
    "wp_amountCents (purchasePosting o1 key (cp_chargedCents price) None) = - cp_chargedCents price"
    using o1 by (simp_all add: purchasePosting_def)
  have "existingPosting u (Some key) d4 = None" using fresh d4(2) existingPosting_cong by metis
  then have "balance dp v = (if v = u then map_option (\<lambda>b. b - cp_chargedCents price) (balance d4 v) else balance d4 v)" for v
    using postEntry_balance [OF p(1), of v] posting by simp
  moreover have "balance d' v = balance dp v" for v
    using grantFromOrder_money [OF g(1)] p(2) balance_cong by (metis moneyAndTerms_eq)
  ultimately have paid: "balance d' v = (if v = u then map_option (\<lambda>b. b - cp_chargedCents price) (balance d v) else balance d v)" for v
    using balance_cong [OF d4(1)] by simp
  have orders5: "orders d5 = orders d @ [o1]" using p(3) postEntry_tables(16) [OF p(1)] d4(3) by simp
  have linked: "map mo_id (orders d') = map mo_id (orders d) @ [mo_id o1]
      \<and> (\<exists>o2 \<in> set (orders d'). mo_id o2 = mo_id o1 \<and> mo_userId o2 = u \<and> mo_idempotencyKey o2 = Some key
           \<and> mo_amountCents o2 = cp_chargedCents price \<and> mo_status o2 = OrderApplied
           \<and> mo_grantId o2 \<noteq> None)"
    using g(1)
  proof (cases rule: grantFromOrder_shape)
    case (1 o3 offer product expiresAt accountId e1 existing restarts e2 t)
    have "mo_id o3 = mo_id o1" using lookup_SomeD [OF 1(1)] g(2) by simp
    then show ?thesis unfolding 1(18) orders5 using o1 by (simp add: map_update_many table_simps)
  qed
  show ?thesis using st(1) offer checkoutPrice_wallet [OF st(2) wallet] checkoutPrice_discount [OF st(2) wallet] res paid linked
    by (intro exI [of _ c] exI [of _ price]) auto
qed


definition exampleShopUser :: db where
  "exampleShopUser = exampleShop\<lparr>users := [exampleUser ''u1'' 9000], orders := [], grants := [], buckets := [], subscriptions := [],
     plans := [\<lparr>p_id = ''plan2'', p_name = ''L'', p_slug = [], p_trafficBytes = 1500, p_durationDays = 90, p_accessProfileId = None\<rparr>],
     products := [exampleProduct\<lparr>cp_slug := []\<rparr>],
     nodes := [\<lparr>n_id = ''n1'', n_serverId = None, n_label = [], n_active = True, n_lifecycle = LifeActive, n_region = None,
       n_protocol = Hysteria2, n_retiredAt = None, n_trafficApiSecret = [], n_controlApiSecret = None\<rparr>],
     profileNodes := [\<lparr>apn_profileId = ''prof2'', apn_nodeId = ''n1'', apn_priority = 0\<rparr>]\<rparr>"

definition exampleOfferInput :: checkout_input where
  "exampleOfferInput = \<lparr>ci_offerId = ''offer2'', ci_discountCode = None, ci_action = BuyOffer, ci_upgradeQuoteToken = None,
     ci_planActivation = None\<rparr>"

lemma exampleCheckout_runs:
  "\<not> isl (createOfferCheckout ''u1'' exampleOfferInput ''k'' noOptions 1709300000000 exampleShopUser)"
  by code_simp

theorem wallet_checkout_exact_witness:
  "\<exists>res d'. createOfferCheckout ''u1'' exampleOfferInput ''k'' noOptions 1709300000000 exampleShopUser = Inr (res, d')
     \<and> balance d' ''u1'' = Some 4000"
proof -
  obtain res d' where run: "createOfferCheckout ''u1'' exampleOfferInput ''k'' noOptions 1709300000000 exampleShopUser = Inr (res, d')"
    using exampleCheckout_runs not_isl_obtain by fastforce
  have w: "walletPurchase noOptions" by (simp add: walletPurchase_def noOptions_def)
  have k: "existingPosting ''u1'' (Some ''k'') exampleShopUser = None" by code_simp
  have b: "balance exampleShopUser ''u1'' = Some 9000" by code_simp
  have price: "case checkoutCase ''u1'' exampleOfferInput noOptions 1709300000000 exampleShopUser of
      Inl _ \<Rightarrow> False | Inr c \<Rightarrow> payableCents c = 5000
        \<and> (case checkoutPrice ''u1'' exampleOfferInput noOptions (cc_offer c) (cc_ultra c) 1709300000000 exampleShopUser of
             Inl _ \<Rightarrow> False | Inr (p, _) \<Rightarrow> cp_chargedCents p = 5000)" by code_simp
  have "xr_chargedCents res = Some 5000"
  proof (rule createOfferCheckout_stages [OF run])
  qed (use price in auto)
  then show ?thesis using wallet_checkout_exact [OF run w k] run b by auto
qed

end
