(* ===== verification/PlanTerms.thy ===== *)
theory PlanTerms imports CheckoutLaws begin

text \<open>
  The terms of a member's plans: buying a standard plan from the wallet keeps at most one open subscription at
  every instant. The code ensures it by refusing a purchase while a plan is reserved, by ending what runs when it
  switches at once, and by starting a later switch where the running term ends.
\<close>

section \<open>One plan at a time\<close>

definition covers :: "instant \<Rightarrow> subscription_row \<Rightarrow> bool" where
  "covers at s \<longleftrightarrow> s_startsAt s \<le> at \<and> at < s_endsAt s"

text \<open>The open subscriptions of a member that cover an instant.\<close>

definition openAt :: "id \<Rightarrow> instant \<Rightarrow> subscription_row list \<Rightarrow> subscription_row list" where
  "openAt u at ss = filter (\<lambda>s. s_userId s = u \<and> openStatus s \<and> covers at s) ss"

definition onePlanAtATime :: "id \<Rightarrow> subscription_row list \<Rightarrow> bool" where
  "onePlanAtATime u ss \<longleftrightarrow> distinct (map s_id ss) \<and> (\<forall>at. length (openAt u at ss) \<le> 1)"

lemma runningSubscription_openAt:
  "runningSubscription u now d = first_row (order_desc s_endsAt (rev (openAt u now (subscriptions d))))"
  by (simp add: runningSubscription_def openAt_def covers_def)

lemma short_list: "length xs \<le> 1 \<Longrightarrow> x \<in> set xs \<Longrightarrow> y \<in> set xs \<Longrightarrow> x = y"
  by (cases xs; cases "tl xs") auto

lemma length_filter_mono: "(\<And>x. x \<in> set xs \<Longrightarrow> P x \<Longrightarrow> Q x) \<Longrightarrow> length (filter P xs) \<le> length (filter Q xs)"
  by (induction xs) auto

lemma length_filter_map_mono:
  "(\<And>x. x \<in> set xs \<Longrightarrow> P (f x) \<Longrightarrow> Q x) \<Longrightarrow> length (filter P (map f xs)) \<le> length (filter Q xs)"
  by (induction xs) auto

lemma length_filter_key: "distinct (map key xs) \<Longrightarrow> length (filter (\<lambda>x. key x = k) xs) \<le> 1"
proof (induction xs)
  case (Cons x xs)
  have "filter (\<lambda>y. key y = k) xs = []" if "key x = k"
    unfolding filter_empty_conv using Cons.prems that by (metis distinct.simps(2) image_eqI list.set_map list.simps(9))
  then show ?case using Cons by auto
qed simp

text \<open>Without a reservation, what is open after \<open>now\<close> is the running subscription.\<close>

lemma open_after_now:
  assumes one: "onePlanAtATime u ss" and run: "runningSubscription u now d = existing" and ss: "subscriptions d = ss"
    and none: "\<not> (\<exists>s \<in> set ss. scheduledSubscription u now s)"
    and r: "r \<in> set ss" "s_userId r = u" "openStatus r" "now < s_endsAt r"
  shows "existing = Some r"
proof -
  have "s_startsAt r \<le> now" using none r by (force simp: scheduledSubscription_def)
  then have r1: "r \<in> set (openAt u now ss)" using r by (simp add: openAt_def covers_def)
  have f: "existing = first_row (order_desc s_endsAt (rev (openAt u now ss)))"
    using run ss by (simp add: runningSubscription_openAt)
  have "set (order_desc s_endsAt (rev (openAt u now ss))) = set (openAt u now ss)" by (simp add: order_desc_def)
  then have "order_desc s_endsAt (rev (openAt u now ss)) \<noteq> []" using r1 by force
  then obtain s where s: "existing = Some s" unfolding f by (cases "order_desc s_endsAt (rev (openAt u now ss))") auto
  have "s \<in> set (openAt u now ss)" using s first_row_SomeD [of "order_desc s_endsAt (rev (openAt u now ss))" s]
    unfolding f by (simp add: order_desc_def)
  then have "s = r" using one r1 short_list [of "openAt u now ss" s r] by (auto simp: onePlanAtATime_def)
  then show ?thesis using s by simp
qed

lemma one_plan_extended:
  assumes one: "onePlanAtATime u ss" and run: "runningSubscription u now d = Some s" and ss: "subscriptions d = ss"
    and none: "\<not> (\<exists>s \<in> set ss. scheduledSubscription u now s)"
    and f: "\<And>r. s_id (f r) = s_id r" "s_userId (f s) = u" "s_startsAt (f s) = s_startsAt s" "openStatus s"
  shows "onePlanAtATime u (update_many (\<lambda>r. s_id r = s_id s) f ss)"
proof -
  have s: "s \<in> set ss" "s_userId s = u" "now < s_endsAt s"
    using run ss first_row_SomeD [of "order_desc s_endsAt (rev (openAt u now ss))" s]
    by (simp_all add: runningSubscription_openAt order_desc_def openAt_def covers_def)
  have ids: "distinct (map s_id ss)" using one by (simp add: onePlanAtATime_def)
  have unique: "r = s" if "r \<in> set ss" "s_id r = s_id s" for r
    using lookup_mem [OF ids that(1)] lookup_mem [OF ids s(1)] that(2) by (metis option.inject)
  let ?h = "\<lambda>r. if s_id r = s_id s then f r else r"
  have short: "length (openAt u at (map ?h ss)) \<le> 1" for at
  proof (cases "at < s_endsAt s")
    case True
    have "s_userId x = u \<and> openStatus x \<and> covers at x"
      if x: "x \<in> set ss" "s_userId (?h x) = u \<and> openStatus (?h x) \<and> covers at (?h x)" for x
    proof (cases "s_id x = s_id s")
      case hit: True
      then have "x = s" using unique x(1) by blast
      then show ?thesis using True f s x(2) by (simp add: covers_def)
    next
      case False
      then show ?thesis using x(2) by simp
    qed
    then have "length (openAt u at (map ?h ss)) \<le> length (openAt u at ss)"
      unfolding openAt_def by (rule length_filter_map_mono)
    then show ?thesis using one by (auto simp: onePlanAtATime_def intro: order_trans)
  next
    case False
    have "s_id r = s_id s" if "r \<in> set ss" "s_userId (?h r) = u \<and> openStatus (?h r) \<and> covers at (?h r)" for r
    proof (rule ccontr)
      assume n: "s_id r \<noteq> s_id s"
      then have "s_userId r = u" "openStatus r" "at < s_endsAt r" using that(2) by (auto simp: covers_def)
      then show False using open_after_now [OF one run ss none that(1)] s(3) False n by auto
    qed
    then have "length (openAt u at (map ?h ss)) \<le> length (filter (\<lambda>r. s_id r = s_id s) ss)"
      unfolding openAt_def by (rule length_filter_map_mono)
    then show ?thesis using length_filter_key [OF ids, of "s_id s"] by simp
  qed
  have keys: "map s_id (map ?h ss) = map s_id ss" 
    using map_update_many [of "\<lambda>r. s_id r = s_id s" s_id f ss, OF f(1)] unfolding update_many_def .
  show ?thesis unfolding onePlanAtATime_def update_many_def keys by (rule conjI [OF ids allI [OF short]])
qed

lemma one_plan_appended:
  assumes "distinct (map s_id ss)" and "s_id new \<notin> s_id ` set ss"
    and "\<And>at. length (openAt u at ss) \<le> 1"
    and "\<And>r at. r \<in> set ss \<Longrightarrow> s_userId r = u \<Longrightarrow> openStatus r \<Longrightarrow> covers at r \<Longrightarrow> \<not> covers at new"
  shows "onePlanAtATime u (ss @ [new])"
proof -
  have "length (openAt u at (ss @ [new])) \<le> 1" for at
  proof (cases "covers at new")
    case True
    then have "openAt u at ss = []" using assms(4) by (auto simp: openAt_def filter_empty_conv)
    then show ?thesis by (simp add: openAt_def)
  next
    case False
    then show ?thesis using assms(3) [of at] by (simp add: openAt_def)
  qed
  then show ?thesis using assms(1,2) by (auto simp: onePlanAtATime_def)
qed

lemma cancelSubscriptions_open:
  assumes "s \<in> set (subscriptions (cancelSubscriptions u now d))" and "s_userId s = u"
  shows "\<not> openStatus s"
proof -
  let ?past = "\<lambda>s. if s_userId s = u \<and> openStatus s \<and> s_startsAt s \<le> now then s\<lparr>s_status := SubCanceled, s_endsAt := now\<rparr> else s"
  let ?later = "\<lambda>s. if s_userId s = u \<and> openStatus s \<and> now < s_startsAt s then s\<lparr>s_status := SubCanceled\<rparr> else s"
  obtain r where r: "s = ?later (?past r)"
    using assms(1) unfolding cancelSubscriptions_def update_many_def by fastforce
  then have "s_userId r = u" using assms(2) by (simp split: if_splits)
  then show ?thesis using r by (cases "openStatus r"; cases "s_startsAt r \<le> now") (simp_all add: openStatus_def)
qed

lemma cancelSubscriptions_ids: "map s_id (subscriptions (cancelSubscriptions u now d)) = map s_id (subscriptions d)"
  by (simp add: cancelSubscriptions_def map_update_many)

lemma extendSubscription_simps [simp]:
  "s_id (extendSubscription t n a at e s) = s_id s" "s_userId (extendSubscription t n a at e s) = s_userId s"
  "at < s_endsAt s \<Longrightarrow> s_startsAt (extendSubscription t n a at e s) = s_startsAt s"
  by (simp_all add: extendSubscription_def Let_def)

lemma writeSubscription_one_plan:
  assumes run: "writeSubscription u False t (Some p) n a now d = Inr ((i, startsAt), d')"
    and one: "onePlanAtATime u (subscriptions d)"
    and none: "\<not> (\<exists>s \<in> set (subscriptions d). scheduledSubscription u now s)"
    and sched: "pol_mode p = ActScheduled \<Longrightarrow> \<exists>s. runningSubscription u now d = Some s \<and> pol_effectiveAt p = s_endsAt s"
    and fresh: "freshId d \<notin> s_id ` set (subscriptions d)"
  shows "onePlanAtATime u (subscriptions d')"
  using run
proof (cases rule: writeSubscription_cases)
  case (extended s endsAt planId)
  have s: "s_userId s = u" "openStatus s" "now < s_endsAt s"
    using extended(2) first_row_SomeD [of "order_desc s_endsAt (rev (openAt u now (subscriptions d)))" s]
    by (simp_all add: runningSubscription_openAt order_desc_def openAt_def covers_def)
  have "onePlanAtATime u (update_many (\<lambda>r. s_id r = s_id s) (extendSubscription t n a now endsAt) (subscriptions d))"
    by (rule one_plan_extended [OF one extended(2) refl none]) (use s in simp_all)
  then show ?thesis unfolding extended(8) by simp
next
  case (switched planId)
  let ?e = "runningSubscription u now d"
  from switchSubscription_shape [OF switched(3)] obtain d1 endsAt where sh:
    "d1 = (if ?e \<noteq> None \<and> pol_mode p \<noteq> ActScheduled then cancelSubscriptions u now d else d)"
    "startsAt = (if pol_mode p = ActScheduled \<and> ?e \<noteq> None then pol_effectiveAt p else now)"
    "subscriptions d' = subscriptions d1 @ [newSubscription t u planId n a startsAt endsAt i]" "i = freshId d1" by auto
  have ids: "distinct (map s_id (subscriptions d))" using one by (simp add: onePlanAtATime_def)
  have d1: "map s_id (subscriptions d1) = map s_id (subscriptions d)" "i = freshId d"
    unfolding sh(4) by (simp_all add: sh(1) cancelSubscriptions_ids freshId_def) (simp add: cancelSubscriptions_def)
  show ?thesis unfolding sh(3)
  proof (rule one_plan_appended)
    show "distinct (map s_id (subscriptions d1))" using ids d1(1) by simp
    show "s_id (newSubscription t u planId n a startsAt endsAt i) \<notin> s_id ` set (subscriptions d1)"
      using fresh d1 by (simp add: newSubscription_def flip: set_map)
    show "length (openAt u at (subscriptions d1)) \<le> 1" for at
    proof (cases "?e \<noteq> None \<and> pol_mode p \<noteq> ActScheduled")
      case True
      then have "openAt u at (subscriptions d1) = []"
        using cancelSubscriptions_open [of _ u now d] by (auto simp: sh(1) openAt_def filter_empty_conv)
      then show ?thesis by simp
    next
      case False
      then have "d1 = d" using sh(1) by auto
      then show ?thesis using one by (simp add: onePlanAtATime_def)
    qed
    fix r at
    assume r: "r \<in> set (subscriptions d1)" "s_userId r = u" "openStatus r" "covers at r"
    show "\<not> covers at (newSubscription t u planId n a startsAt endsAt i)"
    proof (cases "?e \<noteq> None \<and> pol_mode p \<noteq> ActScheduled")
      case True
      then show ?thesis using cancelSubscriptions_open [of _ u now d] r(1-3) by (auto simp: sh(1))
    next
      case False
      then have "r \<in> set (subscriptions d)" using r(1) sh(1) by auto
      note after = open_after_now [OF one refl refl none this r(2,3)]
      have "at < startsAt"
      proof (cases "now < s_endsAt r")
        case True
        then have "?e = Some r" using after by simp
        then have "startsAt = s_endsAt r" using sched False sh(2) by auto
        then show ?thesis using r(4) by (simp add: covers_def)
      next
        case ended: False
        have "now \<le> startsAt"
        proof (cases ?e)
          case (Some s)
          then have "now < s_endsAt s" using first_row_SomeD [of "order_desc s_endsAt (rev (openAt u now (subscriptions d)))" s]
            by (simp add: runningSubscription_openAt order_desc_def openAt_def covers_def)
          then show ?thesis using sched Some sh(2) by auto
        qed (use sh(2) in simp)
        then show ?thesis using ended r(4) by (simp add: covers_def)
      qed
      then show ?thesis by (simp add: covers_def newSubscription_def)
    qed
  qed
qed

lemma decide_effective:
  "pol_mode (decidePlanPurchasePolicy now product planId current preference force) = ActScheduled \<Longrightarrow>
   \<exists>c. current = Some c
     \<and> pol_effectiveAt (decidePlanPurchasePolicy now product planId current preference force) = cur_endsAt c"
  by (cases current) (auto simp: decidePlanPurchasePolicy_def Let_def split: if_splits)

lemma planPolicy_wallet:
  assumes "planPolicy u input options t product now d = Inr policy" and "walletPurchase options"
    and "ct_kind t = ProductPlan" and "ct_series t = Standard" and "present (ct_legacyPlanId t) \<noteq> None"
  obtains p where "policy = Some p" "\<not> (\<exists>s \<in> set (subscriptions d). scheduledSubscription u now s)"
    "pol_mode p = ActScheduled \<Longrightarrow> \<exists>s. runningSubscription u now d = Some s \<and> pol_effectiveAt p = s_endsAt s"
proof -
  obtain planId where plan: "present (ct_legacyPlanId t) = Some planId" using assms(5) by blast
  have wallet: "cx_payment options = None" "\<not> cx_complimentary options" using assms(2) by (simp_all add: walletPurchase_def)
  from assms(1) obtain p where p: "policy = Some p"
    "resolveStandardPlanPurchasePolicy u (cp_id product) planId (ci_planActivation input) False False now d = Inr p"
    unfolding planPolicy_def using wallet assms(3,4) plan by (auto simp: quotedPolicy_def Let_def err_simps)
  from p(2) obtain current where c: "(case runningSubscription u now d of None \<Rightarrow> Inr None
        | Some s \<Rightarrow> bindE (currentPlanOf s d) (\<lambda>c. Inr (Some c))) = (Inr current :: error + current_plan option)"
    "p = decidePlanPurchasePolicy now (cp_id product) planId current (ci_planActivation input) False"
    "\<not> (\<exists>s \<in> set (subscriptions d). scheduledSubscription u now s)"
    unfolding resolveStandardPlanPurchasePolicy_def by (auto simp: err_simps)
  have "\<exists>s. runningSubscription u now d = Some s \<and> pol_effectiveAt p = s_endsAt s" if "pol_mode p = ActScheduled"
    using decide_effective [of now "cp_id product" planId current] that c
    by (auto simp: currentPlanOf_def err_simps Let_def split: option.splits)
  then show thesis using that p(1) c(3) by blast
qed

lemma ensureAccessAccount_ids:
  "ensureAccessAccount u d = Inr (a, d') \<Longrightarrow> db_ids d' = db_ids d"
  by (auto simp: ensureAccessAccount_def err_simps Let_def split: option.splits)

lemma checkoutPrice_ids:
  "checkoutPrice u input options offer ultra now d = Inr (price, d') \<Longrightarrow> db_ids d' = db_ids d"
  by (auto simp: checkoutPrice_def reserveDiscount_def Let_def err_simps split: option.splits bool.splits)

lemma runningSubscription_cong:
  "subscriptions d' = subscriptions d \<Longrightarrow> runningSubscription u now d' = runningSubscription u now d"
  by (simp add: runningSubscription_def)

text \<open>C37: a member has one plan at a time: when no instant is covered by two of a member's open subscriptions,
  none is after buying a standard plan from the wallet either, be it a renewal, a switch at once or one at the end
  of the running term.\<close>

theorem plans_never_overlap:
  assumes run: "createOfferCheckout u input key options now d = Inr (res, d')" and wallet: "walletPurchase options"
    and plan: "checkoutCase u input options now d = Inr c" "ct_kind (cc_terms c) = ProductPlan" "ct_series (cc_terms c) = Standard"
    and one: "onePlanAtATime u (subscriptions d)" and fresh: "\<forall>k. db_ids d k \<notin> s_id ` set (subscriptions d)"
  shows "onePlanAtATime u (subscriptions d')"
proof -
  from createOfferCheckout_stages [OF run] obtain c1 price d1 policy expiresAt account d2 link d3 o1 d4 d5 where
    c1: "checkoutCase u input options now d = Inr c1" and st: "checkoutPrice u input options (cc_offer c1) (cc_ultra c1) now d = Inr (price, d1)"
    "planPolicy u input options (cc_terms c1) (cc_product c1) (purchaseInstant options now) d1 = Inr policy"
    "ensureAccessAccount u d1 = Inr (account, d2)"
    "writeLink u (cx_complimentary options) (cc_terms c1) policy (cc_nodeId c1) (aa_id account)
       (purchaseInstant options now) expiresAt d2 = Inr (link, d3)"
    "createOrder (offerOrder u key options (cc_terms c1) (cc_offer c1) (cc_ultra c1) policy price link
       (purchaseInstant options now) (db_now d3)) d3 = Inr (o1, d4)"
    "payOrder u key options (cc_terms c1) (cc_offer c1) price o1 (purchaseInstant options now) d4 = Inr d5"
    "grantOrder u options (cc_terms c1) policy o1 link now d5 = Inr d'" .
  have "c1 = c" using c1 plan(1) by simp
  note st = st [unfolded this]
  have at: "purchaseInstant options now = now" using wallet by simp
  have free: "\<not> cx_complimentary options" using wallet by (simp add: walletPurchase_def)
  have d1: "subscriptions d1 = subscriptions d" using checkoutPrice_frame [OF st(1)] by (simp add: moneyAndTerms_eq)
  have d2: "subscriptions d2 = subscriptions d" using ensureAccessAccount_money [OF st(3)] d1 by (simp add: moneyAndTerms_eq)
  obtain i startsAt where w: "writeSubscription u False (cc_terms c) policy (cc_nodeId c) (aa_id account) now d2
      = Inr ((i, startsAt), d3)"
    using st(4) plan(2) free at by (auto simp: writeLink_def err_simps)
  then have "present (ct_legacyPlanId (cc_terms c)) \<noteq> None" by (cases rule: writeSubscription_cases) auto
  then obtain p where p: "policy = Some p" "\<not> (\<exists>s \<in> set (subscriptions d1). scheduledSubscription u now s)"
    "pol_mode p = ActScheduled \<Longrightarrow> \<exists>s. runningSubscription u now d1 = Some s \<and> pol_effectiveAt p = s_endsAt s"
    using planPolicy_wallet [OF st(2) [unfolded at] wallet plan(2,3)] by metis
  have "onePlanAtATime u (subscriptions d3)"
  proof (rule writeSubscription_one_plan)
    show "writeSubscription u False (cc_terms c) (Some p) (cc_nodeId c) (aa_id account) now d2 = Inr ((i, startsAt), d3)"
      using w p(1) by simp
    show "onePlanAtATime u (subscriptions d2)" using one d2 by simp
    show "\<not> (\<exists>s \<in> set (subscriptions d2). scheduledSubscription u now s)" using p(2) d1 d2 by simp
    show "pol_mode p = ActScheduled \<Longrightarrow> \<exists>s. runningSubscription u now d2 = Some s \<and> pol_effectiveAt p = s_endsAt s"
      using p(3) runningSubscription_cong [of d2 d1 u now] d1 d2 by simp
    show "freshId d2 \<notin> s_id ` set (subscriptions d2)"
      using fresh d2 ensureAccessAccount_ids [OF st(3)] checkoutPrice_ids [OF st(1)] by (simp add: freshId_def)
  qed
  moreover have "subscriptions d4 = subscriptions d3" using createOrder_shape [OF st(5)] by auto
  moreover have "subscriptions d5 = subscriptions d4"
    by (rule payOrder_wallet [OF st(6) wallet]) (simp add: moneyAndTerms_eq postEntry_tables(12))
  moreover have "subscriptions d' = subscriptions d5"
    by (rule grantOrder_wallet [OF st(7) wallet]) (use grantFromOrder_money moneyAndTerms_eq in blast)
  ultimately show ?thesis by simp
qed

text \<open>A member on another plan, who buys a second one without asking for an immediate switch.\<close>

definition exampleRunning :: subscription_row where
  "exampleRunning = \<lparr>s_id = ''s1'', s_userId = ''u1'', s_planId = ''plan1'', s_nodeId = ''n1'', s_accountId = None,
     s_planOfferId = None, s_status = SubActive, s_startsAt = 1709251200000, s_endsAt = 1711929600000, s_included = 900,
     s_bonus = 0, s_consumed = 100, s_speedUp = 10, s_speedDown = 10, s_deviceLimit = 1\<rparr>"

definition exampleSwitchDb :: db where
  "exampleSwitchDb = exampleShopUser\<lparr>subscriptions := [exampleRunning],
     plans := \<lparr>p_id = ''plan1'', p_name = ''S'', p_slug = [], p_trafficBytes = 900, p_durationDays = 30,
       p_accessProfileId = None\<rparr> # plans exampleShopUser\<rparr>"

theorem plans_never_overlap_witness:
  "\<exists>res d'. createOfferCheckout ''u1'' exampleOfferInput ''k'' noOptions 1709300000000 exampleSwitchDb = Inr (res, d')
     \<and> onePlanAtATime ''u1'' (subscriptions d') \<and> map s_startsAt (subscriptions d') = [1709251200000, 1711929600000]"
proof -
  let ?run = "createOfferCheckout ''u1'' exampleOfferInput ''k'' noOptions 1709300000000 exampleSwitchDb"
  have "case ?run of Inl _ \<Rightarrow> False | Inr (res, d') \<Rightarrow> map s_startsAt (subscriptions d') = [1709251200000, 1711929600000]"
    by code_simp
  then obtain res d' where run: "?run = Inr (res, d')" "map s_startsAt (subscriptions d') = [1709251200000, 1711929600000]"
    by (cases ?run) auto
  have w: "walletPurchase noOptions" by (simp add: walletPurchase_def noOptions_def)
  have "case checkoutCase ''u1'' exampleOfferInput noOptions 1709300000000 exampleSwitchDb of
      Inl _ \<Rightarrow> False | Inr c \<Rightarrow> ct_kind (cc_terms c) = ProductPlan \<and> ct_series (cc_terms c) = Standard" by code_simp
  then obtain c where c: "checkoutCase ''u1'' exampleOfferInput noOptions 1709300000000 exampleSwitchDb = Inr c"
    "ct_kind (cc_terms c) = ProductPlan" "ct_series (cc_terms c) = Standard" by (auto split: sum.splits)
  have one: "onePlanAtATime ''u1'' (subscriptions exampleSwitchDb)"
    by (simp add: onePlanAtATime_def openAt_def exampleSwitchDb_def)
  have "replicate k CHR ''x'' \<noteq> ''s1''" for k by (cases k) simp_all
  then have "\<forall>k. db_ids exampleSwitchDb k \<notin> s_id ` set (subscriptions exampleSwitchDb)"
    by (simp add: exampleSwitchDb_def exampleRunning_def exampleShopUser_def exampleShop_def exampleMirrorDb_def
        exampleQuotaUser_def exampleQuotaDb_def emptyDb_def)
  note kept = plans_never_overlap [OF run(1) w c one this]
  show ?thesis by (rule exI, rule exI, intro conjI, rule run(1), rule kept, rule run(2))
qed

end
