(* ===== verification/CheckoutFlow.thy ===== *)
theory CheckoutFlow imports Checkout begin

text \<open>
  The ways into a checkout, \<open>apps/api/src/commerce/commerce.service.ts\<close>: \<open>checkout\<close> with its retries and replays,
  upgrades, settled online payments, group buys and campaigns paid from the wallet, and offers given away.

  Checkouts name a catalog offer; those of legacy plans and packs by product id are left out. The cipher and the
  fingerprint of upgrade quotes are those of \<open>PlanUpgrade\<close>. Snapshots and quotes are seen as records
  (\<open>StoredQuotes\<close>): a snapshot of version 1 or a value that lacks a field, which the code never writes, is outside the
  model, where the run ends in \<open>type-error\<close>. The text of the state an administrator confirmed has \<open>updatedAt\<close> columns in it, which the client
  maintains, and is a parameter.
\<close>

section \<open>Replays\<close>

record checkout_env =
  ce_codec :: quote_codec
  ce_fingerprint :: "json \<Rightarrow> string"
  ce_parses :: "string \<Rightarrow> bool"

definition existingOrder :: "id \<Rightarrow> string \<Rightarrow> db \<Rightarrow> order_row option" where
  "existingOrder userId key d =
     List.find (\<lambda>o1. mo_userId o1 = userId \<and> mo_idempotencyKey o1 = Some key) (orders d)"

definition replayCheckout :: "checkout_env \<Rightarrow> order_row \<Rightarrow> checkout_input \<Rightarrow> error + checkout_result" where
  "replayCheckout env existing input =
     (let storedHash = Option.bind (mo_planUpgrade existing) (\<lambda>v. jget v ''quoteTokenHash'')
      in if mo_catalogOfferId existing \<noteq> Some (ci_offerId input)
           \<or> (ci_action input = UpgradePlan) \<noteq> noteStarts upgradeNote existing
           \<or> (case present (ci_upgradeQuoteToken input) of
                Some token \<Rightarrow> storedHash \<noteq> Some (JStr (ce_fingerprint env (JStr token)))
              | None \<Rightarrow> False)
         then Inl (Conflict ''key-used'')
         else Inr \<lparr>xr_orderId = mo_id existing, xr_replayed = True, xr_kind = None, xr_chargedCents = None,
                   xr_expiresAt = None\<rparr>)"

text \<open>The input of an offer without more.\<close>

definition plainInput :: "id \<Rightarrow> checkout_input" where
  "plainInput offerId = \<lparr>ci_offerId = offerId, ci_discountCode = None, ci_action = BuyOffer,
     ci_upgradeQuoteToken = None, ci_planActivation = None\<rparr>"

section \<open>Upgrades\<close>

text \<open>\<open>EpaySettlementInput\<close>\<close>

record epay_settlement =
  es_attemptId :: id
  es_userId :: id
  es_offerId :: id
  es_merchantOrderNo :: string
  es_gatewayTradeNo :: string
  es_amountCents :: int
  es_basePriceCents :: int
  es_snapshot :: "json option"
  es_paidAt :: instant
  es_entitlementStartsAt :: "instant option"

text \<open>\<open>{ ...v, [k]: w }\<close>\<close>

fun withField :: "string \<Rightarrow> json \<Rightarrow> json \<Rightarrow> json" where
  "withField k w (JObj kvs) = JObj (filter (\<lambda>(j, _). j \<noteq> k) kvs @ [(k, w)])"
| "withField k w v = JObj [(k, w)]"

definition upgradeOrder ::
  "id \<Rightarrow> id \<Rightarrow> string \<Rightarrow> bool \<Rightarrow> upgrade_quote \<Rightarrow> json \<Rightarrow> instant option \<Rightarrow> instant \<Rightarrow> instant \<Rightarrow> id \<Rightarrow> order_row" where
  "upgradeOrder userId offerId key external q stored resetAnchorAt now createdAt i =
     (let t = uq_target q in
      (appliedOrder i userId key now createdAt)\<lparr>
        mo_source := (if external then SourcePayment else SourceWallet), mo_catalogOfferId := Some offerId,
        mo_planId := os_legacyPlanId t, mo_planOfferId := os_legacyPlanOfferId t, mo_amountCents := uq_payableCents q,
        mo_basePriceCents := Some (uq_targetRemainingCents q + nvl (uq_upgradeFeeCents q) 0),
        mo_discountCents := uq_creditCents q, mo_entitlementExpiresAt := Some (uq_endsAt q),
        mo_grantId := Some (uq_grantId q), mo_billingPeriod := Some (os_billingPeriod t),
        mo_intervalMonths := os_intervalMonths t, mo_trafficBytes := Some (os_trafficBytes t),
        mo_profileId := Some (os_accessProfileId t), mo_speedUp := Some (os_speedUpMbps t),
        mo_speedDown := Some (os_speedDownMbps t), mo_deviceLimit := Some (os_deviceLimit t),
        mo_quotaCadence := Some MonthlyReset, mo_resetAnchorAt := resetAnchorAt,
        mo_upgradeFromProductId := Some (uq_sourceProductId q), mo_upgradeFromPriceCents := Some (uq_creditCents q),
        mo_note := Some (upgradeNote @ ''v1''), mo_planUpgrade := Some stored\<rparr>)"

text \<open>The quote a token stands for, once it holds for the member's plan as it is.\<close>

definition acceptedQuote ::
  "checkout_env \<Rightarrow> id \<Rightarrow> id \<Rightarrow> string \<Rightarrow> epay_settlement option \<Rightarrow> instant \<Rightarrow> db
     \<Rightarrow> error + (json \<times> upgrade_quote \<times> upgrade_state)" where
  "acceptedQuote env userId offerId token external now d =
     bindE (decodeToken (ce_codec env) token) (\<lambda>v.
     bindE (readUpgrade (ce_fingerprint env) userId now d) (\<lambda>st.
     bindE (assertCurrent v st userId offerId now (external = None)) (\<lambda>_.
     bindE (require (PlainError ''type-error'') (readQuote v)) (\<lambda>q.
     bindE (guardE (Conflict ''upgrade-payment'')
        (case external of
           None \<Rightarrow> True
         | Some e \<Rightarrow> es_amountCents e = uq_payableCents q \<and> es_basePriceCents e = uq_targetPriceCents q
             \<and> es_paidAt e \<le> uq_expiresAt q)) (\<lambda>_.
     Inr (v, q, st))))))"

definition auditUpgrade :: "id \<Rightarrow> order_row \<Rightarrow> json \<Rightarrow> db \<Rightarrow> db" where
  "auditUpgrade userId o1 v =
     createAudit (Some userId) ''STANDARD_PLAN_UPGRADED'' ''ManualOrder'' (Some (mo_id o1)) v"

definition fulfillStandardUpgrade ::
  "checkout_env \<Rightarrow> id \<Rightarrow> id \<Rightarrow> string \<Rightarrow> string \<Rightarrow> epay_settlement option \<Rightarrow> instant \<Rightarrow> db
     \<Rightarrow> error + (checkout_result \<times> db)" where
  "fulfillStandardUpgrade env userId offerId token key external now d =
     bindE (acceptedQuote env userId offerId token external now d) (\<lambda>(v, q, st).
     bindE (guardE (Conflict ''upgrade-no-node'')
        (Option.bind (resolveServiceableNodeId (os_accessProfileId (uq_target q)) d) (\<lambda>i. present (Some i)) \<noteq> None)) (\<lambda>_.
     bindE (createOrder (upgradeOrder userId offerId key (external \<noteq> None) q
              (withField ''quoteTokenHash'' (JStr (ce_fingerprint env (JStr token))) v)
              (g_resetAnchorAt (us_grant st)) now (db_now d)) d) (\<lambda>(o1, d1).
     bindE (if external \<noteq> None then Inr d1
            else bindE (postEntry (purchasePosting o1 key (uq_payableCents q) (Some userId)) d1) (\<lambda>(_, d2). Inr d2)) (\<lambda>d2.
     bindE (upgradeStandardPlan q (mo_id o1) now d2) (\<lambda>d3.
     Inr (\<lparr>xr_orderId = mo_id o1, xr_replayed = False, xr_kind = Some ''plan_offer'',
           xr_chargedCents = Some (uq_payableCents q), xr_expiresAt = Some (uq_endsAt q)\<rparr>,
          auditUpgrade userId o1 v
            (createPayment o1 (if external \<noteq> None then PayEpay else PayWallet) (uq_payableCents q)
               (map_option es_gatewayTradeNo external) (case external of Some e \<Rightarrow> es_paidAt e | None \<Rightarrow> now) d3)))))))"

section \<open>Checking out\<close>

definition createCheckout ::
  "checkout_env \<Rightarrow> id \<Rightarrow> checkout_input \<Rightarrow> string \<Rightarrow> instant \<Rightarrow> db \<Rightarrow> error + (checkout_result \<times> db)" where
  "createCheckout env userId input key now d =
     (case ci_action input of
        UpgradePlan \<Rightarrow>
          (case (present (ci_upgradeQuoteToken input), present (ci_discountCode input)) of
             (Some token, None) \<Rightarrow> fulfillStandardUpgrade env userId (ci_offerId input) token key None now d
           | _ \<Rightarrow> Inl (BadRequest ''upgrade-quote-required''))
      | ResetPlan \<Rightarrow> createWalletPlanReset userId (ci_offerId input) key now d
      | BuyOffer \<Rightarrow> createOfferCheckout userId input key noOptions now d)"

text \<open>The body of the transaction.\<close>

definition checkoutOnce ::
  "checkout_env \<Rightarrow> id \<Rightarrow> checkout_input \<Rightarrow> string \<Rightarrow> instant \<Rightarrow> db \<Rightarrow> error + (checkout_result \<times> db)" where
  "checkoutOnce env userId input key now d =
     (case existingOrder userId key d of
        Some o1 \<Rightarrow> bindE (replayCheckout env o1 input) (\<lambda>r. Inr (r, d))
      | None \<Rightarrow> createCheckout env userId input key now (snd (abandonPendingPayments userId now d)))"

text \<open>Attempt \<open>i\<close> runs at \<open>clock i\<close> on \<open>world i\<close>; after a conflict the order is looked for in \<open>later i\<close>, the
  state committed by then.\<close>

fun checkoutLoop ::
  "nat \<Rightarrow> (nat \<Rightarrow> db \<Rightarrow> error + (checkout_result \<times> db)) \<Rightarrow> (db \<Rightarrow> order_row option)
     \<Rightarrow> (order_row \<Rightarrow> error + checkout_result) \<Rightarrow> (nat \<Rightarrow> db) \<Rightarrow> (nat \<Rightarrow> bool) \<Rightarrow> (nat \<Rightarrow> db) \<Rightarrow> nat
     \<Rightarrow> error + (checkout_result \<times> db)" where
  "checkoutLoop 0 transaction existing replay world refused later attempt = Inl (Conflict ''checkout-conflict'')"
| "checkoutLoop (Suc n) transaction existing replay world refused later attempt =
     (case attemptOnce (transaction attempt) world refused attempt of
        Inr x \<Rightarrow> Inr x
      | Inl e \<Rightarrow>
          if \<not> retryable e then Inl e
          else (case existing (later attempt) of
              Some o1 \<Rightarrow> bindE (replay o1) (\<lambda>r. Inr (r, later attempt))
            | None \<Rightarrow> if attempt = 2 then Inl e
                else checkoutLoop n transaction existing replay world refused later (attempt + 1)))"

definition checkout ::
  "checkout_env \<Rightarrow> id \<Rightarrow> checkout_input \<Rightarrow> string \<Rightarrow> (nat \<Rightarrow> instant) \<Rightarrow> (nat \<Rightarrow> db) \<Rightarrow> (nat \<Rightarrow> bool) \<Rightarrow> (nat \<Rightarrow> db)
     \<Rightarrow> error + (checkout_result \<times> db)" where
  "checkout env userId input idempotencyKey clock world refused later =
     (let key = trim idempotencyKey
      in if key = [] \<or> 120 < utf16Length key then Inl (BadRequest ''idempotency-key'')
         else checkoutLoop 3 (\<lambda>i. checkoutOnce env userId input key (clock i)) (existingOrder userId key)
                (\<lambda>o1. replayCheckout env o1 input) world refused later 0)"

section \<open>Settled payments\<close>

definition campaignOf :: "json \<Rightarrow> (id \<times> int option) option" where
  "campaignOf v = (case jget v ''campaignId'' of
       Some (JStr s) \<Rightarrow> if s = [] then None else Some (s, Option.bind (jget v ''campaignPriceCents'') asNum)
     | _ \<Rightarrow> None)"

definition storedSnapshot :: "checkout_env \<Rightarrow> json option \<Rightarrow> error + offer_snapshot option" where
  "storedSnapshot env value =
     bindE (parseCatalogOfferSnapshot (ce_parses env) value) (\<lambda>v.
     case v of
       None \<Rightarrow> Inr None
     | Some w \<Rightarrow> bindE (require (PlainError ''type-error'') (readSnapshot w)) (\<lambda>s. Inr (Some s)))"

definition epayPayment :: "epay_settlement \<Rightarrow> offer_snapshot option \<Rightarrow> settled_payment" where
  "epayPayment e snapshot =
     \<lparr>sp_external = Some (es_attemptId e, es_gatewayTradeNo e, es_entitlementStartsAt e), sp_amountCents = es_amountCents e,
      sp_basePriceCents = es_basePriceCents e, sp_snapshot = snapshot,
      sp_campaign = Option.bind (es_snapshot e) campaignOf, sp_paidAt = es_paidAt e\<rparr>"

definition settleEpay ::
  "checkout_env \<Rightarrow> epay_settlement \<Rightarrow> string \<Rightarrow> instant \<Rightarrow> db \<Rightarrow> error + (checkout_result \<times> db)" where
  "settleEpay env e key now d =
     bindE (storedSnapshot env (es_snapshot e)) (\<lambda>snapshot.
     case (snapshot, map_option (pc_purchaseMode \<circ> os_context) snapshot) of
       (Some s, Some PlanUpgrade) \<Rightarrow>
         bindE (require (Conflict ''upgrade-snapshot'') (present (pc_upgradeQuoteToken (os_context s)))) (\<lambda>token.
         fulfillStandardUpgrade env (es_userId e) (es_offerId e) token key (Some e) now d)
     | (Some s, Some PlanReset) \<Rightarrow>
         fulfillPlanReset \<lparr>ps_userId = es_userId e, ps_offerId = es_offerId e, ps_amountCents = es_amountCents e,
           ps_basePriceCents = es_basePriceCents e, ps_paidAt = es_paidAt e,
           ps_epay = Some (es_attemptId e, es_gatewayTradeNo e)\<rparr> s key d
     | _ \<Rightarrow> createOfferCheckout (es_userId e) (plainInput (es_offerId e)) key
              (noOptions\<lparr>cx_payment := Some (epayPayment e snapshot)\<rparr>) now d)"

text \<open>What the business refuses is a rejection of the payment, which the gateway then refunds.\<close>

fun rejected :: "error \<Rightarrow> error" where
  "rejected (BadRequest s) = PaymentRejected ''ENTITLEMENT_NO_LONGER_AVAILABLE''"
| "rejected (Conflict s) = PaymentRejected ''ENTITLEMENT_NO_LONGER_AVAILABLE''"
| "rejected e = e"

definition fulfillEpayPayment ::
  "checkout_env \<Rightarrow> epay_settlement \<Rightarrow> instant \<Rightarrow> db \<Rightarrow> error + (checkout_result \<times> db)" where
  "fulfillEpayPayment env e now d =
     (let key = ''epay:'' @ es_merchantOrderNo e
      in case existingOrder (es_userId e) key d of
           Some o1 \<Rightarrow>
             bindE (storedSnapshot env (es_snapshot e)) (\<lambda>snapshot.
             bindE (replayCheckout env o1 ((plainInput (es_offerId e))\<lparr>ci_action :=
                 (if map_option (pc_purchaseMode \<circ> os_context) snapshot = Some PlanUpgrade then UpgradePlan else BuyOffer)\<rparr>))
               (\<lambda>r. Inr (r, d)))
         | None \<Rightarrow> (case settleEpay env e key now d of Inl err \<Rightarrow> Inl (rejected err) | Inr x \<Rightarrow> Inr x))"

text \<open>A group buy or a campaign settled from the wallet.\<close>

record wallet_settlement =
  ws_userId :: id
  ws_offerId :: id
  ws_memberId :: id
  ws_amountCents :: int
  ws_basePriceCents :: int
  ws_snapshot :: json
  ws_paidAt :: instant

definition settleFromWallet ::
  "checkout_env \<Rightarrow> wallet_settlement \<Rightarrow> string \<Rightarrow> instant \<Rightarrow> db \<Rightarrow> error + (checkout_result \<times> db)" where
  "settleFromWallet env w key now d =
     bindE (storedSnapshot env (Some (ws_snapshot w))) (\<lambda>snapshot.
     createOfferCheckout (ws_userId w) (plainInput (ws_offerId w)) key
       (noOptions\<lparr>cx_payment := Some \<lparr>sp_external = None, sp_amountCents = ws_amountCents w,
          sp_basePriceCents = ws_basePriceCents w, sp_snapshot = snapshot, sp_campaign = campaignOf (ws_snapshot w),
          sp_paidAt = ws_paidAt w\<rparr>\<rparr>) now d)"

definition fulfillGroupBuyWalletPayment ::
  "checkout_env \<Rightarrow> wallet_settlement \<Rightarrow> instant \<Rightarrow> db \<Rightarrow> error + (checkout_result \<times> db)" where
  "fulfillGroupBuyWalletPayment env w now d =
     (let key = ''group-buy-wallet:'' @ ws_memberId w
      in case existingOrder (ws_userId w) key d of
           Some o1 \<Rightarrow> bindE (replayCheckout env o1 (plainInput (ws_offerId w))) (\<lambda>r. Inr (r, d))
         | None \<Rightarrow> settleFromWallet env w key now d)"

definition fulfillHolidayWalletPayment ::
  "checkout_env \<Rightarrow> wallet_settlement \<Rightarrow> instant \<Rightarrow> db \<Rightarrow> error + (checkout_result \<times> db)" where
  "fulfillHolidayWalletPayment env w now d = settleFromWallet env w (''holiday-wallet:'' @ ws_memberId w) now d"

section \<open>Offers given away\<close>

record gift_confirmation =
  gc_expectedState :: string
  gc_reason :: string

definition previewComplimentaryPlan ::
  "(offer_row \<Rightarrow> grant_row list \<Rightarrow> string) \<Rightarrow> id \<Rightarrow> id \<Rightarrow> instant \<Rightarrow> db \<Rightarrow> error + (string \<times> grant_row list)" where
  "previewComplimentaryPlan stateText userId offerId now d =
     bindE (require (BadRequest ''gift-offer'') (lookup co_id offerId (offers d))) (\<lambda>offer.
     bindE (require (PrismaKnown ''inconsistent'') (lookup cp_id (co_productId offer) (products d))) (\<lambda>product.
     bindE (guardE (BadRequest ''gift-offer'') (cp_kind product = ProductPlan \<and> cp_series product = Standard
              \<and> co_active offer \<and> co_archivedAt offer = None)) (\<lambda>_.
     let ending = sort_key (\<lambda>g. map of_char (g_id g) :: nat list) (standardPlans userId now d)
     in Inr (stateText offer ending, ending))))"

definition confirmGift ::
  "(offer_row \<Rightarrow> grant_row list \<Rightarrow> string) \<Rightarrow> id \<Rightarrow> id \<Rightarrow> gift_confirmation option \<Rightarrow> instant \<Rightarrow> db \<Rightarrow> error + unit" where
  "confirmGift stateText userId offerId confirmation now d =
     (case confirmation of
        None \<Rightarrow> Inr ()
      | Some c \<Rightarrow>
          bindE (guardE (BadRequest ''gift-reason'') (\<not> blank (gc_reason c))) (\<lambda>_.
          bindE (previewComplimentaryPlan stateText userId offerId now d) (\<lambda>(expected, _).
          guardE (Conflict ''gift-changed'') (expected = gc_expectedState c))))"

definition auditGift :: "id \<Rightarrow> id \<Rightarrow> id option \<Rightarrow> gift_confirmation option \<Rightarrow> db \<Rightarrow> db" where
  "auditGift userId offerId actorId confirmation d =
     (case confirmation of
        None \<Rightarrow> d
      | Some c \<Rightarrow> createAudit actorId ''customer.complimentary.confirmed'' ''user'' (Some userId)
          (JObj [(''offerId'', JStr offerId), (''expectedState'', JStr (gc_expectedState c)),
                 (''reason'', JStr (gc_reason c))]) d)"

definition grantComplimentaryOnce ::
  "checkout_env \<Rightarrow> (offer_row \<Rightarrow> grant_row list \<Rightarrow> string) \<Rightarrow> id \<Rightarrow> id \<Rightarrow> string \<Rightarrow> checkout_options
     \<Rightarrow> gift_confirmation option \<Rightarrow> instant \<Rightarrow> db \<Rightarrow> error + (checkout_result \<times> db)" where
  "grantComplimentaryOnce env stateText userId offerId key options confirmation now d =
     (case existingOrder userId key d of
        Some o1 \<Rightarrow> bindE (replayCheckout env o1 (plainInput offerId)) (\<lambda>r. Inr (r, d))
      | None \<Rightarrow>
          bindE (confirmGift stateText userId offerId confirmation now d) (\<lambda>_.
          bindE (createOfferCheckout userId (plainInput offerId) key options now d) (\<lambda>(r, d1).
          Inr (r, auditGift userId offerId (cx_actorId options) confirmation d1))))"

definition grantComplimentaryOffer ::
  "checkout_env \<Rightarrow> (offer_row \<Rightarrow> grant_row list \<Rightarrow> string) \<Rightarrow> id \<Rightarrow> id \<Rightarrow> string \<Rightarrow> checkout_options
     \<Rightarrow> gift_confirmation option \<Rightarrow> (nat \<Rightarrow> instant) \<Rightarrow> (nat \<Rightarrow> db) \<Rightarrow> (nat \<Rightarrow> bool) \<Rightarrow> (nat \<Rightarrow> db)
     \<Rightarrow> error + (checkout_result \<times> db)" where
  "grantComplimentaryOffer env stateText userId offerId idempotencyKey options confirmation clock world refused later =
     (let key = trim idempotencyKey
      in if key = [] \<or> 120 < utf16Length key then Inl (BadRequest ''idempotency-key'')
         else checkoutLoop 3 (\<lambda>i. grantComplimentaryOnce env stateText userId offerId key options confirmation (clock i))
                (existingOrder userId key) (\<lambda>o1. replayCheckout env o1 (plainInput offerId)) world refused later 0)"

definition grantComplimentaryPlan ::
  "checkout_env \<Rightarrow> (offer_row \<Rightarrow> grant_row list \<Rightarrow> string) \<Rightarrow> id \<Rightarrow> id \<Rightarrow> id \<Rightarrow> string \<Rightarrow> gift_confirmation option
     \<Rightarrow> (nat \<Rightarrow> instant) \<Rightarrow> (nat \<Rightarrow> db) \<Rightarrow> (nat \<Rightarrow> bool) \<Rightarrow> (nat \<Rightarrow> db) \<Rightarrow> error + (checkout_result \<times> db)" where
  "grantComplimentaryPlan env stateText userId offerId actorId key confirmation =
     grantComplimentaryOffer env stateText userId offerId key
       \<lparr>cx_complimentary = True, cx_kind = Some ProductPlan, cx_auditAction = Some ''COMPLIMENTARY_PLAN_GRANTED'',
        cx_actorId = Some actorId, cx_payment = None\<rparr> confirmation"

definition grantAnniversaryTrafficPack ::
  "checkout_env \<Rightarrow> (offer_row \<Rightarrow> grant_row list \<Rightarrow> string) \<Rightarrow> id \<Rightarrow> id \<Rightarrow> string
     \<Rightarrow> (nat \<Rightarrow> instant) \<Rightarrow> (nat \<Rightarrow> db) \<Rightarrow> (nat \<Rightarrow> bool) \<Rightarrow> (nat \<Rightarrow> db) \<Rightarrow> error + (checkout_result \<times> db)" where
  "grantAnniversaryTrafficPack env stateText userId offerId key =
     grantComplimentaryOffer env stateText userId offerId key
       \<lparr>cx_complimentary = True, cx_kind = Some ProductTrafficPack, cx_auditAction = Some ''ANNIVERSARY_GIFT_CLAIMED'',
        cx_actorId = None, cx_payment = None\<rparr> None"

end
