(* ===== verification/CheckoutFlowLaws.thy ===== *)
theory CheckoutFlowLaws imports CheckoutLaws CheckoutFlow PlanUpgradeLaws ReferralLaws begin

text \<open>
  What the ways into a checkout guarantee: that a key buys once, that a settled payment is rejected and not lost when
  the business refuses it, and what an upgrade costs.
\<close>

section \<open>The order under a key\<close>

text \<open>What a replay looks at; linking an order to its entitlement leaves it alone.\<close>

definition orderStamp :: "order_row \<Rightarrow> id \<times> id \<times> string option \<times> id option \<times> string option \<times> json option" where
  "orderStamp o1 = (mo_id o1, mo_userId o1, mo_idempotencyKey o1, mo_catalogOfferId o1, mo_note o1, mo_planUpgrade o1)"

lemma orderStamp_eq:
  "orderStamp a = orderStamp b \<longleftrightarrow> mo_id a = mo_id b \<and> mo_userId a = mo_userId b
     \<and> mo_idempotencyKey a = mo_idempotencyKey b \<and> mo_catalogOfferId a = mo_catalogOfferId b \<and> mo_note a = mo_note b
     \<and> mo_planUpgrade a = mo_planUpgrade b"
  by (simp add: orderStamp_def)

definition stamps :: "db \<Rightarrow> (id \<times> id \<times> string option \<times> id option \<times> string option \<times> json option) list" where
  "stamps d = map orderStamp (orders d)"

lemma find_stamped:
  "map orderStamp rows' = map orderStamp rows @ [orderStamp s] \<Longrightarrow>
     List.find (\<lambda>o1. mo_userId o1 = u \<and> mo_idempotencyKey o1 = Some key) rows = None \<Longrightarrow>
     mo_userId s = u \<Longrightarrow> mo_idempotencyKey s = Some key \<Longrightarrow>
     \<exists>o1. List.find (\<lambda>o1. mo_userId o1 = u \<and> mo_idempotencyKey o1 = Some key) rows' = Some o1 \<and> orderStamp o1 = orderStamp s"
proof (induction rows' arbitrary: rows)
  case (Cons x xs)
  show ?case
  proof (cases rows)
    case Nil
    then show ?thesis using Cons.prems by (auto simp: orderStamp_eq)
  next
    case (Cons y ys)
    have "orderStamp x = orderStamp y" "map orderStamp xs = map orderStamp ys @ [orderStamp s]"
      using Cons.prems(1) Cons by simp_all
    then show ?thesis using Cons.IH [of ys] Cons.prems(2-4) Cons by (auto simp: orderStamp_eq split: if_splits)
  qed
qed simp

lemma existing_stamped:
  assumes "stamps d' = stamps d @ [orderStamp s]" and "existingOrder u key d = None"
    and "mo_userId s = u" and "mo_idempotencyKey s = Some key"
  shows "\<exists>o1. existingOrder u key d' = Some o1 \<and> orderStamp o1 = orderStamp s"
  using find_stamped [of "orders d'" "orders d"] assms by (simp add: stamps_def existingOrder_def)

lemma stamps_link:
  "map orderStamp (update_many P (\<lambda>r. r\<lparr>mo_grantId := g, mo_resetAnchorAt := a\<rparr>) rows) = map orderStamp rows"
  by (simp add: map_update_many orderStamp_def)

lemma reward_orders:
  assumes "settlePlanPurchaseReward u i g now d = Inr (x, d')"
  shows "orders d' = orders d"
proof -
  have pay: "orders d' = orders d" if "payReward a o1 now d = Inr (y, d')" for a o1 y
  proof (cases y)
    case None
    then show ?thesis using that claimAttribution_shape
      by (auto simp: payReward_def Let_def elim!: bindE_InrE split: if_splits) (metis update_convs(1))+
  next
    case (Some j)
    have referrer: "orders d3 = orders d2" if "payReferrer b k cents d2 = Inr (l, d3)" for b k cents d2 l d3
      using that by (auto simp: payReferrer_def err_simps postEntry_tables(16) split: if_splits)
    from that [unfolded Some] show ?thesis
      by (rule payReward_stages) (auto simp: auditReward_def dest!: createBonus_frame(4) referrer)
  qed
  show ?thesis using assms pay by (auto simp: settlePlanPurchaseReward_def err_simps split: option.splits if_splits)
qed

lemma grantOrder_stamps:
  assumes "grantOrder u options t policy o1 link now d = Inr d'"
  shows "stamps d' = stamps d"
proof -
  have grant: "stamps e' = stamps e" if "grantFromOrder gi e = Inr (g, e')" for gi g e e'
    using that
  proof (cases rule: grantFromOrder_shape)
    case (1 o3 offer product expiresAt accountId e1 existing restarts e2 t)
    then show ?thesis by (simp only: stamps_def 1(18) stamps_link)
  qed
  show ?thesis using assms
    by (auto simp: grantOrder_def Let_def err_simps stamps_def split: if_splits
        dest!: reward_orders grant [unfolded stamps_def])
qed

lemma payOrder_orders:
  assumes "payOrder u key options t offer price o1 at d = Inr d'"
  shows "orders d' = orders d"
  using assms
  by (auto simp: payOrder_def err_simps auditComplimentary_def auditSettled_def postEntry_tables(16)
      split: if_splits option.splits dest!: recordRedemptionUse_frame)

lemma offer_stamps:
  assumes "createOfferCheckout u input key options now d = Inr (res, d')"
  obtains s where "stamps d' = stamps d @ [orderStamp s]" "mo_userId s = u" "mo_idempotencyKey s = Some key"
    "mo_id s = xr_orderId res" "mo_catalogOfferId s = Some (ci_offerId input)" "\<not> noteStarts upgradeNote s"
    "mo_planUpgrade s = None"
proof -
  from createOfferCheckout_stages [OF assms(1)] obtain c price d1 policy expiresAt account d2 link d3 o1 d4 d5 where
    st: "checkoutCase u input options now d = Inr c"
    "checkoutPrice u input options (cc_offer c) (cc_ultra c) now d = Inr (price, d1)"
    "ensureAccessAccount u d1 = Inr (account, d2)"
    "writeLink u (cx_complimentary options) (cc_terms c) policy (cc_nodeId c) (aa_id account)
       (purchaseInstant options now) expiresAt d2 = Inr (link, d3)"
    "createOrder (offerOrder u key options (cc_terms c) (cc_offer c) (cc_ultra c) policy price link
       (purchaseInstant options now) (db_now d3)) d3 = Inr (o1, d4)"
    "payOrder u key options (cc_terms c) (cc_offer c) price o1 (purchaseInstant options now) d4 = Inr d5"
    "grantOrder u options (cc_terms c) policy o1 link now d5 = Inr d'"
    and res: "xr_orderId res = mo_id o1" .
  have offer: "co_id (cc_offer c) = ci_offerId input"
    using st(1) by (auto simp: checkoutCase_def err_simps Let_def dest: lookup_SomeD)
  note o1 = createOrder_shape [OF st(5)]
  have "orders d4 = orders d @ [o1]"
    using o1 checkoutPrice_frame [OF st(2)] ensureAccessAccount_frame [OF st(3)] writeLink_frame [OF st(4)] by simp
  then have "stamps d' = stamps d @ [orderStamp o1]"
    using grantOrder_stamps [OF st(7)] payOrder_orders [OF st(6)] by (simp add: stamps_def)
  moreover have "\<not> noteStarts upgradeNote o1" "mo_planUpgrade o1 = None"
    using o1 by (auto simp: noteStarts_def offerOrder_def appliedOrder_def upgradeNote_def hasPrefix_def split: option.splits)
  ultimately show thesis using o1 res offer by (intro that [of o1]) simp_all
qed

lemma settledReset_stamps:
  assumes "fulfillPlanReset input snapshot key d = Inr (res, d')"
  obtains s where "stamps d' = stamps d @ [orderStamp s]" "mo_userId s = ps_userId input" "mo_idempotencyKey s = Some key"
    "mo_id s = xr_orderId res" "mo_catalogOfferId s = Some (ps_offerId input)" "\<not> noteStarts upgradeNote s"
    "mo_planUpgrade s = None"
proof -
  from fulfillPlanReset_stages [OF assms] obtain g b n o1 d1 d2 cr d3 where
    c: "checkReset input snapshot d = Inr (g, b, n)"
    and o: "createOrder (resetOrder input snapshot key g b n (db_now d)) d = Inr (o1, d1)"
    and p: "if ps_epay input \<noteq> None then d2 = d1
       else \<exists>r. postEntry (purchasePosting o1 key (ps_amountCents input) None) d1 = Inr (r, d2)"
    and q: "creditQuotaBucket (resetCredit o1 (qb_id b) n (ps_paidAt input)) d2 = Inr (cr, d3)"
    and e: "orders d' = orders d3" "xr_orderId res = mo_id o1" .
  note o1 = createOrder_shape [OF o]
  have "orders d' = orders d @ [o1]"
    using e(1) credit_tables(3) [OF q] p postEntry_tables(16) o1 by (auto split: if_splits)
  then have "stamps d' = stamps d @ [orderStamp o1]" by (simp add: stamps_def)
  moreover have "os_offerId snapshot = ps_offerId input" using c by (auto simp: checkReset_def err_simps)
  then have "\<not> noteStarts upgradeNote o1" "mo_planUpgrade o1 = None" "mo_catalogOfferId o1 = Some (ps_offerId input)"
    using o1 by (simp_all add: noteStarts_def resetOrder_def appliedOrder_def upgradeNote_def hasPrefix_def
        PLAN_RESET_ORDER_NOTE_def)
  ultimately show thesis using o1 e(2) by (intro that [of o1]) (simp_all add: resetOrder_def appliedOrder_def)
qed

lemma reset_stamps:
  assumes "createWalletPlanReset u offerId key now d = Inr (res, d')"
  obtains s where "stamps d' = stamps d @ [orderStamp s]" "mo_userId s = u" "mo_idempotencyKey s = Some key"
    "mo_id s = xr_orderId res" "mo_catalogOfferId s = Some offerId" "\<not> noteStarts upgradeNote s" "mo_planUpgrade s = None"
proof -
  obtain r snapshot where "resolvePlanReset u offerId now d = Inr r"
    "snapshotCatalogOffer (rs_offer r) (Some (resetContextOf r)) d = Inr snapshot"
    and run: "fulfillPlanReset \<lparr>ps_userId = u, ps_offerId = offerId, ps_amountCents = rs_payableCents r,
        ps_basePriceCents = co_priceCents (rs_offer r), ps_paidAt = now, ps_epay = None\<rparr> snapshot key d = Inr (res, d')"
    using assms by (auto simp: createWalletPlanReset_def err_simps)
  show thesis by (rule settledReset_stamps [OF run]) (use that in simp)
qed

lemma upgradeOrder_simps [simp]:
  "mo_id (upgradeOrder u offerId key x q v a now c i) = i" "mo_userId (upgradeOrder u offerId key x q v a now c i) = u"
  "mo_idempotencyKey (upgradeOrder u offerId key x q v a now c i) = Some key"
  "mo_catalogOfferId (upgradeOrder u offerId key x q v a now c i) = Some offerId"
  "mo_note (upgradeOrder u offerId key x q v a now c i) = Some (upgradeNote @ ''v1'')"
  "mo_planUpgrade (upgradeOrder u offerId key x q v a now c i) = Some v"
  "mo_amountCents (upgradeOrder u offerId key x q v a now c i) = uq_payableCents q"
  "mo_grantId (upgradeOrder u offerId key x q v a now c i) = Some (uq_grantId q)"
  "mo_basePriceCents (upgradeOrder u offerId key x q v a now c i) = Some (uq_targetRemainingCents q + nvl (uq_upgradeFeeCents q) 0)"
  "mo_discountCents (upgradeOrder u offerId key x q v a now c i) = uq_creditCents q"
  by (simp_all add: upgradeOrder_def appliedOrder_def Let_def)

lemma auditUpgrade_simps [simp]:
  "moneyAndTerms (auditUpgrade u o1 v d) = moneyAndTerms d" "orders (auditUpgrade u o1 v d) = orders d"
  "grants (auditUpgrade u o1 v d) = grants d" "buckets (auditUpgrade u o1 v d) = buckets d"
  by (simp_all add: auditUpgrade_def)

lemma jget_withField: "jget (withField k w v) k = Some w"
proof -
  have "map_of (filter (\<lambda>(j, _). j \<noteq> k) kvs) k = None" for kvs :: "(string \<times> json) list"
    by (auto simp: map_of_eq_None_iff)
  then show ?thesis by (cases v) (auto simp: map_add_def)
qed

lemma upgrade_stages:
  assumes "fulfillStandardUpgrade env u offerId token key external now d = Inr (res, d')"
  obtains v q st o1 d1 d2 d3 where "acceptedQuote env u offerId token external now d = Inr (v, q, st)"
    "o1 = upgradeOrder u offerId key (external \<noteq> None) q
       (withField ''quoteTokenHash'' (JStr (ce_fingerprint env (JStr token))) v)
       (g_resetAnchorAt (us_grant st)) now (db_now d) (freshId d)"
    "d1 = (drawId d)\<lparr>orders := orders d @ [o1]\<rparr>"
    "if external \<noteq> None then d2 = d1
     else \<exists>r. postEntry (purchasePosting o1 key (uq_payableCents q) (Some u)) d1 = Inr (r, d2)"
    "upgradeStandardPlan q (mo_id o1) now d2 = Inr d3" "moneyAndTerms d' = moneyAndTerms d3" "orders d' = orders d3"
    "grants d' = grants d3" "buckets d' = buckets d3" "xr_orderId res = mo_id o1"
    "xr_chargedCents res = Some (uq_payableCents q)" "xr_expiresAt res = Some (uq_endsAt q)" "\<not> xr_replayed res"
proof -
  from assms obtain v q st o1 d1 d2 d3 src ref t where
    s: "acceptedQuote env u offerId token external now d = Inr (v, q, st)"
    and o: "createOrder (upgradeOrder u offerId key (external \<noteq> None) q
         (withField ''quoteTokenHash'' (JStr (ce_fingerprint env (JStr token))) v)
       (g_resetAnchorAt (us_grant st)) now (db_now d)) d = Inr (o1, d1)"
    and p: "(if external \<noteq> None then Inr d1
            else bindE (postEntry (purchasePosting o1 key (uq_payableCents q) (Some u)) d1) (\<lambda>(_, d2). Inr d2)) = Inr d2"
      "upgradeStandardPlan q (mo_id o1) now d2 = Inr d3"
    and e: "res = \<lparr>xr_orderId = mo_id o1, xr_replayed = False, xr_kind = Some ''plan_offer'',
           xr_chargedCents = Some (uq_payableCents q), xr_expiresAt = Some (uq_endsAt q)\<rparr>"
      "d' = auditUpgrade u o1 v (createPayment o1 src (uq_payableCents q) ref t d3)"
    unfolding fulfillStandardUpgrade_def by (elim bindE_InrE) (auto elim!: bindE_InrE split: prod.splits)
  have "if external \<noteq> None then d2 = d1
     else \<exists>r. postEntry (purchasePosting o1 key (uq_payableCents q) (Some u)) d1 = Inr (r, d2)"
    using p(1) by (auto simp: err_simps)
  then show thesis using createOrder_shape [OF o] e by (intro that [OF s _ _ _ p(2)]) simp_all
qed

lemma credit_frame:
  "creditQuotaBucket c d = Inr (r, d') \<Longrightarrow> orders d' = orders d \<and> users d' = users d \<and> walletLedger d' = walletLedger d"
  by (simp add: credit_tables)

lemma upgradeStandardPlan_frame:
  assumes "upgradeStandardPlan q orderId at d = Inr d'"
  shows "orders d' = orders d \<and> users d' = users d \<and> walletLedger d' = walletLedger d"
proof (rule bindE_InrE [OF assms [unfolded upgradeStandardPlan_def]], goal_cases)
  case (1 g)
  then show ?case
    by (cases "List.find (bucketCurrent at) (grantBuckets (g_id g) d)"; cases "present (g_subscriptionId g)";
        cases "present (os_legacyPlanId (uq_target q))")
      (auto simp: err_simps updateSubscription_def updateGrant_def split: if_splits dest!: credit_frame)
qed

lemma upgrade_stamps:
  assumes "fulfillStandardUpgrade env u offerId token key external now d = Inr (res, d')"
  obtains s v where "stamps d' = stamps d @ [orderStamp s]" "mo_userId s = u" "mo_idempotencyKey s = Some key"
    "mo_id s = xr_orderId res" "mo_catalogOfferId s = Some offerId" "noteStarts upgradeNote s"
    "mo_planUpgrade s = Some v" "jget v ''quoteTokenHash'' = Some (JStr (ce_fingerprint env (JStr token)))"
proof -
  from upgrade_stages [OF assms] obtain v q st o1 d1 d2 d3 where
    "acceptedQuote env u offerId token external now d = Inr (v, q, st)"
    and s: "o1 = upgradeOrder u offerId key (external \<noteq> None) q
       (withField ''quoteTokenHash'' (JStr (ce_fingerprint env (JStr token))) v)
       (g_resetAnchorAt (us_grant st)) now (db_now d) (freshId d)"
    "d1 = (drawId d)\<lparr>orders := orders d @ [o1]\<rparr>"
    "if external \<noteq> None then d2 = d1
     else \<exists>r. postEntry (purchasePosting o1 key (uq_payableCents q) (Some u)) d1 = Inr (r, d2)"
    "upgradeStandardPlan q (mo_id o1) now d2 = Inr d3" "orders d' = orders d3" "xr_orderId res = mo_id o1" .
  have "orders d2 = orders d @ [o1]" using s(2,3) postEntry_tables(16) by (auto split: if_splits)
  then have "orders d' = orders d @ [o1]" using s(5) upgradeStandardPlan_frame [OF s(4)] by simp
  moreover have "noteStarts upgradeNote o1" unfolding s(1) by (simp add: noteStarts_def hasPrefix_def)
  ultimately show thesis using s(1,6)
    by (intro that [OF _ _ _ _ _ _ _ jget_withField, of o1]) (simp_all add: stamps_def)
qed

section \<open>A key buys once\<close>

lemma replay_stamp: "orderStamp o1 = orderStamp s \<Longrightarrow> replayCheckout env o1 input = replayCheckout env s input"
  by (simp add: replayCheckout_def orderStamp_eq noteStarts_def)

definition replayed :: "id \<Rightarrow> checkout_result" where
  "replayed i = \<lparr>xr_orderId = i, xr_replayed = True, xr_kind = None, xr_chargedCents = None, xr_expiresAt = None\<rparr>"

lemma checkout_stamps:
  assumes "createCheckout env u input key now d = Inr (res, d')"
    and "ci_action input = UpgradePlan \<or> present (ci_upgradeQuoteToken input) = None"
  obtains s where "stamps d' = stamps d @ [orderStamp s]" "mo_userId s = u" "mo_idempotencyKey s = Some key"
    "mo_catalogOfferId s = Some (ci_offerId input)" "replayCheckout env s input = Inr (replayed (xr_orderId res))"
proof (cases "ci_action input")
  case BuyOffer
  then have run: "createOfferCheckout u input key noOptions now d = Inr (res, d')" using assms(1) by (simp add: createCheckout_def)
  show thesis
  proof (rule offer_stamps [OF run], goal_cases)
    case (1 s)
    then have "replayCheckout env s input = Inr (replayed (xr_orderId res))"
      using BuyOffer assms(2) by (simp add: replayCheckout_def replayed_def)
    then show ?case by (rule that [OF 1(1-3,5)])
  qed
next
  case ResetPlan
  then have run: "createWalletPlanReset u (ci_offerId input) key now d = Inr (res, d')"
    using assms(1) by (simp add: createCheckout_def)
  show thesis
  proof (rule reset_stamps [OF run], goal_cases)
    case (1 s)
    then have "replayCheckout env s input = Inr (replayed (xr_orderId res))"
      using ResetPlan assms(2) by (simp add: replayCheckout_def replayed_def)
    then show ?case by (rule that [OF 1(1-3,5)])
  qed
next
  case UpgradePlan
  then obtain token where t: "present (ci_upgradeQuoteToken input) = Some token"
    and run: "fulfillStandardUpgrade env u (ci_offerId input) token key None now d = Inr (res, d')"
    using assms(1) by (auto simp: createCheckout_def split: option.splits)
  show thesis
  proof (rule upgrade_stamps [OF run], goal_cases)
    case (1 s v)
    then have "replayCheckout env s input = Inr (replayed (xr_orderId res))"
      unfolding replayCheckout_def Let_def t option.case using UpgradePlan by (simp add: replayed_def)
    then show ?case by (rule that [OF 1(1-3,5)])
  qed
qed

lemma touchesPayments_orders: "touchesPayments d d' \<Longrightarrow> orders d' = orders d"
  unfolding touchesPayments_def by (drule arg_cong [where f = orders]) simp

lemma abandon_stamps: "stamps (snd (abandonPendingPayments u now d)) = stamps d"
  using touchesPayments_orders [OF fold_touches [where d = "releasePaidKeys u d" and u = u and at = now
      and ps = "pendingAttempts u (releasePaidKeys u d)" and ids = "[]"]]
  by (simp add: abandonPendingPayments_def Let_def stamps_def releasePaidKeys_def)

lemma existing_stamps: "stamps d' = stamps d \<Longrightarrow> existingOrder u key d = None \<Longrightarrow> existingOrder u key d' = None"
  unfolding existingOrder_def find_None_iff stamps_def
proof (rule ccontr)
  assume s: "map orderStamp (orders d') = map orderStamp (orders d)"
    and n: "\<not> (\<exists>x. x \<in> set (orders d) \<and> mo_userId x = u \<and> mo_idempotencyKey x = Some key)"
    and "\<not> \<not> (\<exists>x. x \<in> set (orders d') \<and> mo_userId x = u \<and> mo_idempotencyKey x = Some key)"
  then obtain x where x: "x \<in> set (orders d')" "mo_userId x = u" "mo_idempotencyKey x = Some key" by blast
  have "orderStamp x \<in> set (map orderStamp (orders d))" using x(1) unfolding s [symmetric] by simp
  then show False using n x(2,3) by (auto simp: orderStamp_eq)
qed

lemma checkoutOnce_leaves:
  assumes run: "checkoutOnce env u input key now d = Inr (res, d')"
    and token: "ci_action input = UpgradePlan \<or> present (ci_upgradeQuoteToken input) = None"
  shows "\<exists>o1. existingOrder u key d' = Some o1 \<and> replayCheckout env o1 input = Inr (replayed (xr_orderId res))
     \<and> mo_catalogOfferId o1 = Some (ci_offerId input)"
proof (cases "existingOrder u key d")
  case (Some o1)
  then have "replayCheckout env o1 input = Inr res" "d' = d" using run by (auto simp: checkoutOnce_def err_simps)
  then show ?thesis using Some by (auto simp: replayCheckout_def replayed_def Let_def split: if_splits)
next
  case None
  let ?d1 = "snd (abandonPendingPayments u now d)"
  have "createCheckout env u input key now ?d1 = Inr (res, d')" using run None by (simp add: checkoutOnce_def)
  then obtain s where s: "stamps d' = stamps ?d1 @ [orderStamp s]" "mo_userId s = u" "mo_idempotencyKey s = Some key"
      "mo_catalogOfferId s = Some (ci_offerId input)" "replayCheckout env s input = Inr (replayed (xr_orderId res))"
    by (rule checkout_stamps [OF _ token])
  obtain o1 where o1: "existingOrder u key d' = Some o1" "orderStamp o1 = orderStamp s"
    using existing_stamped [OF s(1) existing_stamps [OF abandon_stamps None] s(2,3)] by blast
  then show ?thesis using s(4,5) replay_stamp [OF o1(2)] by (intro exI [of _ o1]) (simp add: orderStamp_eq)
qed

text \<open>What a checkout answers comes from a transaction or from the order found after a conflict.\<close>

lemma checkoutLoop_Inr:
  "checkoutLoop n transaction existing replay world refused later i = Inr (res, d') \<Longrightarrow>
     (\<exists>j. transaction j (world j) = Inr (res, d')) \<or> (\<exists>o1. existing d' = Some o1 \<and> replay o1 = Inr res)"
proof (induction n arbitrary: i)
  case (Suc n)
  show ?case
  proof (cases "attemptOnce (transaction i) world refused i")
    case (Inr x)
    then have "transaction i (world i) = Inr (res, d')"
      using Suc.prems by (auto simp: attemptOnce_def split: sum.splits if_splits)
    then show ?thesis by blast
  next
    case (Inl e)
    then show ?thesis using Suc.prems Suc.IH [of "i + 1"]
      by (auto simp: err_simps split: if_splits option.splits)
  qed
qed simp

lemma checkout_leaves:
  assumes run: "checkout env u input raw clock world refused later = Inr (res, d')"
    and token: "ci_action input = UpgradePlan \<or> present (ci_upgradeQuoteToken input) = None"
  shows "trim raw \<noteq> [] \<and> utf16Length (trim raw) \<le> 120
     \<and> (\<exists>o1. existingOrder u (trim raw) d' = Some o1 \<and> replayCheckout env o1 input = Inr (replayed (xr_orderId res))
          \<and> mo_catalogOfferId o1 = Some (ci_offerId input))"
proof -
  let ?key = "trim raw"
  have key: "?key \<noteq> []" "utf16Length ?key \<le> 120"
    and loop: "checkoutLoop 3 (\<lambda>i. checkoutOnce env u input ?key (clock i)) (existingOrder u ?key)
      (\<lambda>o1. replayCheckout env o1 input) world refused later 0 = Inr (res, d')"
    using run by (auto simp: checkout_def Let_def split: if_splits)
  have "\<exists>now d. checkoutOnce env u input ?key now d = Inr (res, d')"
    using checkoutLoop_Inr [OF loop]
  proof (elim disjE exE conjE)
    fix o1 assume "existingOrder u ?key d' = Some o1" "replayCheckout env o1 input = Inr res"
    then have "checkoutOnce env u input ?key now d' = Inr (res, d')" for now by (simp add: checkoutOnce_def)
    then show ?thesis by blast
  qed blast
  then show ?thesis using checkoutOnce_leaves [OF _ token] key by blast
qed

text \<open>Where the order is there, every attempt finds it, and so does the look after a refused one.\<close>

lemma checkout_replay:
  assumes "existingOrder u (trim raw) d = Some o1" and "trim raw \<noteq> []" and "utf16Length (trim raw) \<le> 120"
  shows "checkout env u input raw clock (\<lambda>_. d) refused (\<lambda>_. d) = bindE (replayCheckout env o1 input) (\<lambda>r. Inr (r, d))"
proof (cases "replayCheckout env o1 input")
  case (Inl e)
  then have "\<not> retryable e" by (auto simp: replayCheckout_def Let_def retryable_def split: if_splits)
  then show ?thesis using assms Inl by (simp add: checkout_def numeral_3_eq_3 attemptOnce_def checkoutOnce_def)
next
  case (Inr r)
  then show ?thesis using assms
    by (cases "refused 0") (simp_all add: checkout_def numeral_3_eq_3 attemptOnce_def checkoutOnce_def retryable_def)
qed

text \<open>C40: a key buys once: whatever a checkout from the wallet bought, after whatever retries, asking again under the key
  answers with the same order and changes nothing, at any later time and however often the database refuses it, and
  the key cannot be used for another offer. A token is only given with an upgrade.\<close>

theorem checkout_replays:
  assumes run: "checkout env u input raw clock world refused later = Inr (res, d')"
    and token: "ci_action input = UpgradePlan \<or> present (ci_upgradeQuoteToken input) = None"
  shows "checkout env u input raw clock' (\<lambda>_. d') refused' (\<lambda>_. d') = Inr (replayed (xr_orderId res), d')
     \<and> (ci_offerId other \<noteq> ci_offerId input
          \<longrightarrow> checkout env u other raw clock' (\<lambda>_. d') refused' (\<lambda>_. d') = Inl (Conflict ''key-used''))"
proof -
  obtain o1 where o1: "existingOrder u (trim raw) d' = Some o1" "trim raw \<noteq> []" "utf16Length (trim raw) \<le> 120"
    "replayCheckout env o1 input = Inr (replayed (xr_orderId res))" "mo_catalogOfferId o1 = Some (ci_offerId input)"
    using checkout_leaves [OF run token] by blast
  have "replayCheckout env o1 other = Inl (Conflict ''key-used'')" if "ci_offerId other \<noteq> ci_offerId input"
    using that o1(5) by (simp add: replayCheckout_def)
  then show ?thesis using o1(4) by (simp add: checkout_replay [OF o1(1-3)])
qed

definition exampleEnv :: checkout_env where
  "exampleEnv = \<lparr>ce_codec = exampleCodec, ce_fingerprint = exampleFingerprint, ce_parses = (\<lambda>s. True)\<rparr>"

lemma exampleCheckout_keyed:
  "checkout exampleEnv ''u1'' exampleOfferInput ''k'' (\<lambda>i. 1709300000000) (\<lambda>i. exampleShopUser) (\<lambda>i. i = 0) (\<lambda>i. exampleShopUser)
     = checkoutOnce exampleEnv ''u1'' exampleOfferInput ''k'' 1709300000000 exampleShopUser"
  "\<not> isl (checkoutOnce exampleEnv ''u1'' exampleOfferInput ''k'' 1709300000000 exampleShopUser)"
proof -
  show ok: "\<not> isl (checkoutOnce exampleEnv ''u1'' exampleOfferInput ''k'' 1709300000000 exampleShopUser)" by code_simp
  obtain x where x: "checkoutOnce exampleEnv ''u1'' exampleOfferInput ''k'' 1709300000000 exampleShopUser = Inr x"
    using ok not_isl_obtain by blast
  have k: "trim ''k'' = ''k''" "utf16Length ''k'' = 1" "existingOrder ''u1'' ''k'' exampleShopUser = None" by code_simp+
  show "checkout exampleEnv ''u1'' exampleOfferInput ''k'' (\<lambda>i. 1709300000000) (\<lambda>i. exampleShopUser) (\<lambda>i. i = 0) (\<lambda>i. exampleShopUser)
     = checkoutOnce exampleEnv ''u1'' exampleOfferInput ''k'' 1709300000000 exampleShopUser"
    by (simp add: checkout_def k x numeral_3_eq_3 attemptOnce_def retryable_def)
qed

theorem checkout_replays_witness:
  "\<exists>res d'. checkout exampleEnv ''u1'' exampleOfferInput ''k'' (\<lambda>i. 1709300000000) (\<lambda>i. exampleShopUser) (\<lambda>i. i = 0)
       (\<lambda>i. exampleShopUser) = Inr (res, d')
     \<and> checkout exampleEnv ''u1'' exampleOfferInput ''k'' (\<lambda>i. 1709400000000) (\<lambda>_. d') (\<lambda>i. True) (\<lambda>_. d')
         = Inr (replayed (xr_orderId res), d')
     \<and> checkout exampleEnv ''u1'' (exampleOfferInput\<lparr>ci_offerId := ''offer3''\<rparr>) ''k'' (\<lambda>i. 1709400000000) (\<lambda>_. d') (\<lambda>i. True) (\<lambda>_. d')
         = Inl (Conflict ''key-used'')"
proof -
  obtain res d' where run: "checkout exampleEnv ''u1'' exampleOfferInput ''k'' (\<lambda>i. 1709300000000) (\<lambda>i. exampleShopUser)
      (\<lambda>i. i = 0) (\<lambda>i. exampleShopUser) = Inr (res, d')"
    using exampleCheckout_keyed not_isl_obtain by (metis surj_pair)
  have "ci_action exampleOfferInput = UpgradePlan \<or> present (ci_upgradeQuoteToken exampleOfferInput) = None"
    by code_simp
  note again = checkout_replays [OF run this, where clock' = "\<lambda>i. 1709400000000" and refused' = "\<lambda>i. True"
      and other = "exampleOfferInput\<lparr>ci_offerId := ''offer3''\<rparr>"]
  have "ci_offerId (exampleOfferInput\<lparr>ci_offerId := ''offer3''\<rparr>) \<noteq> ci_offerId exampleOfferInput"
    by (simp add: exampleOfferInput_def)
  then show ?thesis using again run by blast
qed

section \<open>Settled payments\<close>

lemma settleEpay_stamps:
  assumes "settleEpay env e key now d = Inr (res, d')"
  obtains s snapshot where "stamps d' = stamps d @ [orderStamp s]" "mo_userId s = es_userId e"
    "mo_idempotencyKey s = Some key" "mo_id s = xr_orderId res" "mo_catalogOfferId s = Some (es_offerId e)"
    "storedSnapshot env (es_snapshot e) = Inr snapshot"
    "noteStarts upgradeNote s \<longleftrightarrow> map_option (pc_purchaseMode \<circ> os_context) snapshot = Some PlanUpgrade"
proof -
  obtain snapshot where sn: "storedSnapshot env (es_snapshot e) = Inr snapshot"
    using assms by (auto simp: settleEpay_def err_simps)
  note run = assms [unfolded settleEpay_def sn bindE_Inr]
  consider (upgrade) s where "snapshot = Some s" "pc_purchaseMode (os_context s) = PlanUpgrade"
    | (reset) s where "snapshot = Some s" "pc_purchaseMode (os_context s) = PlanReset"
    | (offer) "\<forall>s. snapshot = Some s \<longrightarrow> pc_purchaseMode (os_context s) \<notin> {PlanUpgrade, PlanReset}" by blast
  then show thesis
  proof cases
    case upgrade
    then obtain token where
      "fulfillStandardUpgrade env (es_userId e) (es_offerId e) token key (Some e) now d = Inr (res, d')"
      using run by (auto simp: err_simps)
    then show thesis by (rule upgrade_stamps) (rule that [OF _ _ _ _ _ sn], auto simp: upgrade)
  next
    case reset
    then have "fulfillPlanReset \<lparr>ps_userId = es_userId e, ps_offerId = es_offerId e, ps_amountCents = es_amountCents e,
        ps_basePriceCents = es_basePriceCents e, ps_paidAt = es_paidAt e, ps_epay = Some (es_attemptId e, es_gatewayTradeNo e)\<rparr>
        s key d = Inr (res, d')" using run by simp
    then show thesis by (rule settledReset_stamps) (rule that [OF _ _ _ _ _ sn], auto simp: reset)
  next
    case offer
    then have "createOfferCheckout (es_userId e) (plainInput (es_offerId e)) key
        (noOptions\<lparr>cx_payment := Some (epayPayment e snapshot)\<rparr>) now d = Inr (res, d')"
      using run by (cases snapshot) (auto split: purchase_mode.splits)
    then show thesis
      by (rule offer_stamps) (rule that [OF _ _ _ _ _ sn], use offer in \<open>auto simp: plainInput_def\<close>)
  qed
qed

text \<open>C39: a payment that has no order yet is fulfilled once: when it goes through it adds one order, and
  when the gateway reports it again, the answer is that order and nothing changes, whether it bought an offer, a reset
  or an upgrade; when it does not, the failure is never a bad request or a conflict, since what the business refuses
  comes back as a rejection of the payment.\<close>

theorem payment_fulfilled_once:
  assumes "existingOrder (es_userId e) (''epay:'' @ es_merchantOrderNo e) d = None"
  shows "case fulfillEpayPayment env e now d of
       Inr (res, d') \<Rightarrow> fulfillEpayPayment env e later d' = Inr (replayed (xr_orderId res), d')
         \<and> length (orders d') = Suc (length (orders d))
     | Inl err \<Rightarrow> \<not> (\<exists>m. err = BadRequest m \<or> err = Conflict m)"
proof (cases "settleEpay env e (''epay:'' @ es_merchantOrderNo e) now d")
  case (Inl err)
  then show ?thesis using assms by (cases err) (simp_all add: fulfillEpayPayment_def)
next
  case (Inr x)
  obtain res d' where x: "x = (res, d')" by (cases x)
  let ?key = "''epay:'' @ es_merchantOrderNo e"
  from settleEpay_stamps [OF Inr [unfolded x]] obtain s snapshot where s: "stamps d' = stamps d @ [orderStamp s]"
    "mo_userId s = es_userId e" "mo_idempotencyKey s = Some ?key" "mo_id s = xr_orderId res"
    "mo_catalogOfferId s = Some (es_offerId e)" "storedSnapshot env (es_snapshot e) = Inr snapshot"
    "noteStarts upgradeNote s \<longleftrightarrow> map_option (pc_purchaseMode \<circ> os_context) snapshot = Some PlanUpgrade" .
  obtain o1 where o1: "existingOrder (es_userId e) ?key d' = Some o1" "orderStamp o1 = orderStamp s"
    using existing_stamped [OF s(1) assms s(2,3)] by blast
  have "replayCheckout env o1 ((plainInput (es_offerId e))\<lparr>ci_action :=
      (if map_option (pc_purchaseMode \<circ> os_context) snapshot = Some PlanUpgrade then UpgradePlan else BuyOffer)\<rparr>)
      = Inr (replayed (xr_orderId res))"
    unfolding replay_stamp [OF o1(2)] using s(4,5,7)
    by (simp add: replayCheckout_def replayed_def plainInput_def present_def)
  moreover have "length (orders d') = Suc (length (orders d))"
    using arg_cong [OF s(1), of length] by (simp add: stamps_def)
  ultimately show ?thesis using Inr x assms o1(1) s(6) by (simp add: fulfillEpayPayment_def)
qed

definition examplePaidEpay :: epay_settlement where
  "examplePaidEpay = \<lparr>es_attemptId = ''a1'', es_userId = ''u1'', es_offerId = ''offer2'', es_merchantOrderNo = ''m1'',
     es_gatewayTradeNo = ''t1'', es_amountCents = 5000, es_basePriceCents = 5000, es_snapshot = None,
     es_paidAt = 1709300000000, es_entitlementStartsAt = None\<rparr>"

theorem payment_fulfilled_once_witness:
  "\<exists>res d'. fulfillEpayPayment exampleEnv examplePaidEpay 1709300000000 exampleShopUser = Inr (res, d')
     \<and> fulfillEpayPayment exampleEnv examplePaidEpay 1709300060000 d' = Inr (replayed (xr_orderId res), d')"
proof -
  have "\<not> isl (fulfillEpayPayment exampleEnv examplePaidEpay 1709300000000 exampleShopUser)" by code_simp
  then obtain res d' where run: "fulfillEpayPayment exampleEnv examplePaidEpay 1709300000000 exampleShopUser = Inr (res, d')"
    using not_isl_obtain by fastforce
  have none: "existingOrder (es_userId examplePaidEpay) (''epay:'' @ es_merchantOrderNo examplePaidEpay) exampleShopUser = None"
    by code_simp
  show ?thesis using payment_fulfilled_once [OF none, where env = exampleEnv and now = 1709300000000 and later = 1709300060000] run by auto
qed


section \<open>What an upgrade costs\<close>

lemma acceptedQuote_issued:
  assumes "acceptedQuote env u offerId (issueToken (ce_codec env) iv (quoteJson q)) external now d = Inr (v, q', st)"
    and "codecLaw (ce_codec env) iv (quoteJson q)"
  shows "q' = q"
  using assms(1) issued_token(2) [OF assms(2) quoteJson_fields(1)]
  by (auto simp: acceptedQuote_def err_simps quote_read)

lemma newQuote_products:
  assumes "newQuote st u offerId now d = Inr q"
  shows "os_productId (uq_target q) \<noteq> uq_sourceProductId q"
    and "standardUpgradeFeeCents < uq_payableCents q"
    and "uq_targetRemainingCents q + nvl (uq_upgradeFeeCents q) 0 = uq_payableCents q + uq_creditCents q"
proof -
  obtain offer where o: "targetOffer st offerId d = Inr (offer, uq_target q)" "uq_sourceProductId q = g_productId (us_grant st)"
    "uq_payableCents q = uq_targetRemainingCents q - uq_creditCents q + standardUpgradeFeeCents"
    "uq_creditCents q < uq_targetRemainingCents q"
    by (rule newQuote_shape [OF assms])
  obtain product where t: "higherOffer st offer product" "snapshotCatalogOffer offer None d = Inr (uq_target q)"
      "lookup cp_id (co_productId offer) (products d) = Some product"
    using targetOffer_shape [OF o(1)] by metis
  show "os_productId (uq_target q) \<noteq> uq_sourceProductId q"
    using snapshot_facts [OF t(2,3)] t(1) o(2) by (simp add: higherOffer_def)
  show "standardUpgradeFeeCents < uq_payableCents q" using o(3,4) by simp
  have "uq_upgradeFeeCents q = Some standardUpgradeFeeCents" using assms by (auto simp: newQuote_def err_simps Let_def)
  then show "uq_targetRemainingCents q + nvl (uq_upgradeFeeCents q) 0 = uq_payableCents q + uq_creditCents q"
    using o(3) by simp
qed

text \<open>An upgrade paid from the wallet costs what its quote said: that much leaves the member's balance and no other,
  one order is added whose amount is the base price less the credit for the old plan, the running period grows by the
  difference of the two allowances, the plan becomes the target with its dates as they were, and no other
  entitlement changes.\<close>

theorem upgrade_costs_its_quote:
  assumes run: "fulfillStandardUpgrade env u offerId (issueToken (ce_codec env) iv (quoteJson q)) key None now d = Inr (res, d')"
    and quote: "newQuote st u offerId quotedAt d0 = Inr q" and codec: "codecLaw (ce_codec env) iv (quoteJson q)"
    and unposted: "existingPosting u (Some key) d = None" and ids: "distinct (map g_id (grants d))"
    and unspent: "\<not> creditKeySpent d (''plan-upgrade:'' @ freshId d)"
  shows "xr_chargedCents res = Some (uq_payableCents q) \<and> standardUpgradeFeeCents < uq_payableCents q
     \<and> (\<forall>v. balance d' v = (if v = u then map_option (\<lambda>b. b - uq_payableCents q) (balance d v) else balance d v))
     \<and> (\<exists>o1. orders d' = orders d @ [o1] \<and> mo_id o1 = xr_orderId res \<and> mo_amountCents o1 = uq_payableCents q
          \<and> mo_basePriceCents o1 = Some (mo_amountCents o1 + mo_discountCents o1) \<and> mo_discountCents o1 = uq_creditCents q)
     \<and> (\<exists>g b. lookup g_id (uq_grantId q) (grants d) = Some g \<and> qb_grantId b = g_id g \<and> bucketCurrent now b
          \<and> grantedOf d' (qb_id b) = map_option (\<lambda>n. n + (os_trafficBytes (uq_target q) - uq_sourceTrafficBytes q)) (grantedOf d (qb_id b))
          \<and> lookup g_id (uq_grantId q) (grants d') = Some (upgradeGrantRow q g))
     \<and> (\<forall>i. i \<noteq> uq_grantId q \<longrightarrow> lookup g_id i (grants d') = lookup g_id i (grants d))"
proof -
  from upgrade_stages [OF run] obtain v q' st' o1 d1 d2 d3 where
    s: "acceptedQuote env u offerId (issueToken (ce_codec env) iv (quoteJson q)) None now d = Inr (v, q', st')"
    "o1 = upgradeOrder u offerId key (None \<noteq> (None :: epay_settlement option)) q' (withField ''quoteTokenHash''
       (JStr (ce_fingerprint env (JStr (issueToken (ce_codec env) iv (quoteJson q))))) v)
       (g_resetAnchorAt (us_grant st')) now (db_now d) (freshId d)"
    "d1 = (drawId d)\<lparr>orders := orders d @ [o1]\<rparr>"
    "if None \<noteq> (None :: epay_settlement option) then d2 = d1
     else \<exists>r. postEntry (purchasePosting o1 key (uq_payableCents q') (Some u)) d1 = Inr (r, d2)"
    "upgradeStandardPlan q' (mo_id o1) now d2 = Inr d3" "moneyAndTerms d' = moneyAndTerms d3" "orders d' = orders d3"
    "grants d' = grants d3" "buckets d' = buckets d3" "xr_orderId res = mo_id o1"
    "xr_chargedCents res = Some (uq_payableCents q')" .
  have q: "q' = q" by (rule acceptedQuote_issued [OF s(1) codec])
  obtain r where p: "postEntry (purchasePosting o1 key (uq_payableCents q) (Some u)) d1 = Inr (r, d2)" using s(4) q by auto
  have d1: "users d1 = users d" "walletLedger d1 = walletLedger d" by (simp_all add: s(3) drawId_def)
  have d2: "orders d2 = orders d @ [o1]" "grants d2 = grants d" "buckets d2 = buckets d" "adjustments d2 = adjustments d"
    using postEntry_tables(10,11,15,16) [OF p] by (simp_all add: s(3) drawId_def)
  have posting: "wp_userId (purchasePosting o1 key (uq_payableCents q) (Some u)) = u"
    "wp_idempotencyKey (purchasePosting o1 key (uq_payableCents q) (Some u)) = Some key"
    "wp_amountCents (purchasePosting o1 key (uq_payableCents q) (Some u)) = - uq_payableCents q"
    by (simp_all add: purchasePosting_def s(2))
  have "existingPosting u (Some key) d1 = None" using unposted d1(2) existingPosting_cong by metis
  then have paid2: "balance d2 v = (if v = u then map_option (\<lambda>b. b - uq_payableCents q) (balance d1 v) else balance d1 v)" for v
    using postEntry_balance [OF p, of v] posting by simp
  have "users d' = users d2" using s(6) upgradeStandardPlan_frame [OF s(5)] by (simp add: moneyAndTerms_eq)
  then have paid: "balance d' v = (if v = u then map_option (\<lambda>b. b - uq_payableCents q) (balance d v) else balance d v)" for v
    using paid2 [of v] balance_cong [of d' d2 v] balance_cong [OF d1(1), of v] by (cases "v = u") auto
  have "\<not> creditKeySpent d2 (''plan-upgrade:'' @ mo_id o1)"
    using unspent d2(4) by (simp add: creditKeySpent_def s(2))
  from upgradeStandardPlan_exact [OF s(5) _ this, unfolded q d2(2)] ids newQuote_products(1) [OF quote]
  have up: "\<exists>g b. lookup g_id (uq_grantId q) (grants d) = Some g \<and> qb_grantId b = g_id g \<and> bucketCurrent now b
      \<and> grantedOf d3 (qb_id b) = map_option (\<lambda>n. n + (os_trafficBytes (uq_target q) - uq_sourceTrafficBytes q)) (grantedOf d2 (qb_id b))
      \<and> lookup g_id (uq_grantId q) (grants d3) = Some (upgradeGrantRow q g)
      \<and> (\<forall>i. i \<noteq> uq_grantId q \<longrightarrow> lookup g_id i (grants d3) = lookup g_id i (grants d))" by blast
  have granted: "grantedOf d' i = grantedOf d3 i" "grantedOf d2 i = grantedOf d i" for i
    using s(9) d2(3) by (simp_all add: grantedOf_def)
  have order: "orders d' = orders d @ [o1]" using s(7) upgradeStandardPlan_frame [OF s(5)] d2(1) by simp
  have order1: "mo_amountCents o1 = uq_payableCents q" "mo_discountCents o1 = uq_creditCents q"
      "mo_basePriceCents o1 = Some (mo_amountCents o1 + mo_discountCents o1)"
    using newQuote_products(3) [OF quote] by (simp_all add: s(2) q)
  show ?thesis
  proof (intro conjI allI)
    show "xr_chargedCents res = Some (uq_payableCents q)" using s(11) q by simp
    show "standardUpgradeFeeCents < uq_payableCents q" by (rule newQuote_products(2) [OF quote])
    show "balance d' v = (if v = u then map_option (\<lambda>b. b - uq_payableCents q) (balance d v) else balance d v)" for v
      by (rule paid)
    show "\<exists>o1. orders d' = orders d @ [o1] \<and> mo_id o1 = xr_orderId res \<and> mo_amountCents o1 = uq_payableCents q
          \<and> mo_basePriceCents o1 = Some (mo_amountCents o1 + mo_discountCents o1) \<and> mo_discountCents o1 = uq_creditCents q"
      using order order1 s(10) by (intro exI [of _ o1]) simp
  qed (use up granted s(8) in \<open>auto 0 3\<close>)
qed

end
