(* ===== verification/Spec2Isabelle.thy ===== *)
theory Spec2Isabelle imports WalletTopup GrantOrderLaws PlanActivationLaws HysteriaAuth ReferralLaws CheckIns PlanTerms CheckoutFlowLaws begin

text \<open>
  A model of the wallet and entitlement core of the API under \<open>apps/api/src\<close>: how money enters a member's
  wallet, how a purchase becomes an entitlement, how node traffic is charged to it, and who may connect to
  which node at the end of it. File names below are relative to \<open>apps/api/src\<close>.

  \<^bold>\<open>The program.\<close> Members hold a balance, moved only by the wallet ledger. A checkout charges it (or waits
  for an online payment) and fulfils an order: a plan or a traffic pack becomes an entitlement grant with
  quota buckets, one per period. Nodes report traffic counters, which the import charges to the buckets and to
  the legacy subscriptions and packs that mirror them. A proxy asks the API whether a token may connect; the
  answer is computed from the grants and their buckets. Grants are upgraded, retimed, activated early, refunded and
  revoked; invitations, check-ins and campaigns pay rewards into wallets and buckets.

  \<^bold>\<open>Conventions.\<close> An operation of the code is a function on \<open>db\<close>, a record of tables, each a list of
  rows in insertion order (\<open>Database\<close>); it returns \<open>error + 'a\<close>, an \<open>Inl\<close> for every throw of the source.
  An \<open>Inl\<close> has no database, since the transaction is rolled back. An operation written as the body of a
  transaction is that body; \<open>serializable\<close> (\<open>QuotaCycles\<close>) runs one up to three times. \<open>bigint\<close> and
  safe-integer numbers are \<open>int\<close>, where the code divides with \<open>bigDiv\<close> (truncating) and checks
  \<open>isSafeInteger\<close> where the code does; numbers rounded with \<open>Math.round\<close> are computed exactly on integers.
  Instants are milliseconds (\<open>int\<close>). Texts for display are slugs.

  \<^bold>\<open>Theories and sources.\<close>

  \<^item> \<open>Prelude\<close>: errors as values, \<open>bindE\<close>, tables (\<open>lookup\<close>, \<open>update_one\<close>, \<open>update_many\<close>,
    \<open>insert_unique\<close>), JavaScript numbers, the collection \<open>err_simps\<close> that opens chains of steps.
    \<open>UtcTime\<close>: \<open>Date.UTC\<close> and its readings. \<open>JsText\<close>: \<open>trim\<close> and friends on UTF-8 bytes.
    \<open>Database\<close>: the rows of \<open>prisma/schema.prisma\<close>.
  \<^item> \<open>MonthCycles\<close>, \<open>QuotaCycles\<close>: \<open>addUtcMonthsClamped\<close>, \<open>monthlyCycleBounds\<close>, \<open>serializable\<close> and the
    period upkeep of \<open>entitlement/entitlement.service.ts\<close>. The locale \<open>month_calendar\<close> is what callers use of
    month arithmetic; it is interpreted on the code's function.
  \<^item> \<open>Wallet\<close>: \<open>wallet/wallet-ledger.ts\<close>, with what other transactions commit while a lock is awaited as a
    parameter. The locale \<open>wallet_api\<close> is the contract of an idempotent posting, interpreted on \<open>postEntry\<close>.
    \<open>HolidayInvite\<close>: \<open>holiday/holiday-invite-draws.ts\<close>, \<open>wallet/wallet-credit-capacity.ts\<close>.
    \<open>WalletTopup\<close>: \<open>wallet/wallet-topup.ts\<close>.
  \<^item> \<open>Metering\<close>: \<open>meterV2Usage\<close>, \<open>entitlement/machine-traffic-rate.ts\<close>. \<open>UsageImport\<close>: \<open>applyTrafficBatch\<close>
    and \<open>consumeLegacyQuota\<close>. \<open>QuotaLedger\<close>, \<open>QuotaLaws\<close>: credits and adjustments of quota and what they
    guarantee; the locale \<open>credit_api\<close> is interpreted on \<open>creditQuotaBucket\<close>.
  \<^item> \<open>OfferSnapshot\<close>: \<open>commerce/catalog-offer-snapshot.ts\<close>. \<open>PlanPolicy\<close>: the purchase and redemption policies
    of \<open>commerce/\<close>. \<open>Grants\<close>, \<open>GrantLaws\<close>: upgrade, retiming, revocation and refund of entitlements.
    \<open>GrantOrders\<close>, \<open>GrantOrderLaws\<close>: \<open>grantFromOrder\<close>.
  \<^item> \<open>Access\<close>, \<open>AccessLaws\<close>, \<open>Provisioning\<close>: \<open>resolveAccess\<close>, \<open>getNodeAccess\<close>,
    \<open>getNodeProvisioningUsers\<close>. \<open>HysteriaAuth\<close>: \<open>hysteria-auth/hysteria-auth.service.ts\<close> over them.
  \<^item> \<open>SecretCipher\<close>: \<open>security/secret-cipher.service.ts\<close>. \<open>PlanUpgrade\<close>, \<open>PlanUpgradeLaws\<close>:
    \<open>commerce/standard-plan-upgrade.ts\<close>. \<open>PlanActivation\<close>, \<open>PlanActivationLaws\<close>:
    \<open>entitlement/scheduled-plan-activation.ts\<close>.
  \<^item> \<open>PaymentAttempts\<close>: \<open>payments/payment-attempt-lifecycle.service.ts\<close>. \<open>DiscountCodes\<close>: the discount
    steps of \<open>commerce/commerce.service.ts\<close>. \<open>Referrals\<close>, \<open>ReferralLaws\<close>: \<open>referrals/referral.service.ts\<close>.
    \<open>CheckIns\<close>: \<open>check-in/check-in.service.ts\<close>.
  \<^item> \<open>QuotaFrame\<close>: the tables a credit of quota leaves alone. \<open>PlanReset\<close>: buying the traffic of the running
    period again. \<open>Checkout\<close>, \<open>CheckoutLaws\<close>, \<open>PlanTerms\<close>: \<open>createOfferCheckout\<close> with its terms, price, plan
    switch, order and payment, and that it keeps a member's plans apart. \<open>CheckoutFlow\<close>, \<open>CheckoutFlowLaws\<close>: what
    leads to it: \<open>checkout\<close> with its replays and retries, \<open>fulfillStandardUpgrade\<close>, \<open>fulfillEpayPayment\<close>, the
    wallet payments of group buys and campaigns, and gifts. All are in \<open>commerce/commerce.service.ts\<close>.
    \<open>StoredQuotes\<close>: snapshots and quotes from JSON seen as records; it translates no code.

  \<^bold>\<open>What is shown.\<close> Money: a posting happens once per key and the ledger always sums to the balances
  (\<open>Wallet\<close>); recharges, invitation rewards and their refunds move exactly what they say. Quota: the charging
  loop equals pouring the whole batch at once, a batch is imported once, what is imported is accounted for, and
  every history of credits and adjustments is audited. Entitlements: an order delivers its terms, a restart
  is clean, at most one plan is linked, revocation is final, retiming keeps plans apart. Quotes and early
  activations: fair prices, tokens that hold exactly while nothing changed, one execution per key. Access:
  decisions equal a declarative rule, authorization refines it, and a purchase or a deletion decides it at once
  (this theory). Codes, check-ins, referrals: limits hold over every history, and each pays once. Checkouts: a
  purchase, a reset and an upgrade from the wallet cost exactly their price and leave one order, a key buys once, a
  settled payment is fulfilled once and never fails as the caller's mistake, and no two plans of a member overlap.

  \<^bold>\<open>Loops.\<close> Loops over rows are structural recursion. The retry loops have their bound in the code (three
  attempts), which is the fuel of \<open>retryLoop\<close>, \<open>confirmLoop\<close> and \<open>checkoutLoop\<close>; each is left in the third attempt at
  the latest, with its result or its failure (\<open>serializable_outcome\<close> for the first).

  \<^bold>\<open>Parameters.\<close> AES-256-GCM (\<open>seal\<close>, \<open>opens\<close>), SHA-256 fingerprints, JSON text, \<open>Date.parse\<close>, random
  vectors and fresh ids, the clock, the configuration read from the settings, the transactions committed by others
  and the conflicts the engine reports. What a property needs of them is a hypothesis of it.

  \<^bold>\<open>Not modelled.\<close> Checkouts of legacy plans and packs by product id (\<open>createPlanCheckout\<close> and the rest of
  \<open>createCheckout\<close>), the quote form (\<open>quoteCheckout\<close>), snapshots of version 1, group buys beyond their places in
  payment attempts and their settlement from the wallet, the holiday draws themselves, redemption of codes in
  \<open>domain/control-plane.store.ts\<close>, settings and listings of check-ins; and what has no logic of this kind:
  the HTTP clients, payment gateway, mail, AI and backup glue, administration forms and listings, reports,
  the web application's pages, and the agents in Go. The year range of \<open>Date\<close> and column overflow other
  than the wallet's are not modelled.
\<close>

section \<open>From deletion to access\<close>

lemma no_access_without_grants:
  assumes "activeGrants u d = []"
  shows "\<not> ax_allowed (fst (resolveAccess u nodeId now d))"
proof -
  let ?d = "ensureV2CurrentBuckets u now d"
  have "set (liveGrants u now ?d) \<subseteq> set (activeGrants u d)"
    by (auto simp: liveGrants_def activeGrants_def grantLive_def prepared_frame)
  then have "liveGrants u now ?d = []" using assms by simp
  then have "usableGrants u now ?d = []" by (simp add: usableGrants_def eligibleGrants_def)
  then show ?thesis
    by (simp add: resolveAccess_def Let_def decide_allowed deniedUser_def requested_def split: option.split)
qed

text \<open>C23: whoever deletes an account locks it out at once: afterwards no node is allowed to the member,
  by entitlements or by what is left of the legacy subscriptions and packs, whatever the clock says.\<close>

theorem deleted_account_has_no_access:
  assumes "distinct (map g_id (grants d))" and "d' = snd (revokeUserEntitlements u at actorId reason d)"
    and "getNodeAccess u n now d' = Inr (a, d'')"
  shows "\<not> ax_allowed a"
proof -
  note clear = revokeUserEntitlements_clears [OF assms(1,2)]
  obtain v2 d1 where r: "resolveAccess u (Some n) now d' = (v2, d1)" by fastforce
  have v2: "\<not> ax_allowed v2" using no_access_without_grants [of u d' "Some n" now] clear r by simp
  have d1: "packs d1 = packs d'" "subscriptions d1 = subscriptions d'"
    using r by (auto simp: resolveAccess_def Let_def prepared_frame)
  show ?thesis
  proof (cases "ax_reason v2 = UserNotActive")
    case True
    then show ?thesis using assms(3) r v2 by (simp add: getNodeAccess_def)
  next
    case False
    then obtain d2 where d2: "ensureCurrentCycles u now d1 = Inr d2"
        "a = (if \<not> userActive u d2 then deniedUser\<lparr>ax_nodes := None, ax_eligible := None\<rparr>
              else joinAccess v2 (legacyLimits u n now d2))"
      using assms(3) r by (auto simp: getNodeAccess_def err_simps split: if_splits)
    have "packs d2 = packs d'" "subscriptions d2 = subscriptions d'"
      using ensureCurrentCycles_tables [OF d2(1)] d1 by simp_all
    then have "legacyLimits u n now d2 = []" using clear
      by (auto simp: legacyLimits_def filter_empty_conv legacyPack_def legacySubscription_def currentSubscription_def)
    then show ?thesis using d2(2) v2 by (simp add: joinAccess_def deniedUser_def)
  qed
qed

theorem deleted_account_has_no_access_witness:
  "\<exists>a d'. getNodeAccess ''u1'' ''n1'' 1709300000000 (snd (revokeUserEntitlements ''u1'' 1709290000000 None ''r'' exampleNodeDb))
     = Inr (a, d') \<and> \<not> ax_allowed a"
proof -
  let ?run = "getNodeAccess ''u1'' ''n1'' 1709300000000 (snd (revokeUserEntitlements ''u1'' 1709290000000 None ''r'' exampleNodeDb))"
  have "\<not> isl ?run" by code_simp
  then obtain a d' where run: "?run = Inr (a, d')" by (cases ?run) auto
  have "distinct (map g_id (grants exampleNodeDb))"
    by (simp add: exampleNodeDb_def exampleQuotaUser_def exampleQuotaDb_def)
  then show ?thesis using deleted_account_has_no_access [OF _ refl run] run by blast
qed

section \<open>From payment to access\<close>

lemma superseded_ids: "map g_id (supersededGrants input o1 t gs) = map g_id gs"
  by (simp add: supersededGrants_def map_update_many)

lemma opened_period_holds_start:
  assumes "fullYearMonth (monthOf t)" and "fullYearMonth (monthOf t - 1)" and "t < e"
  shows "cb_startsAt (periodBounds c t e t) \<le> t \<and> t < cb_endsAt (periodBounds c t e t)"
  using cycleOffset_holds [OF assms(1,2)] assms(3) by (simp add: periodBounds_def monthlyCycleBounds_offset)

text \<open>C24: whoever pays gets in: once the order of an active member, for a plan or for a product that needs no plan
  beside it, with bytes and a term that is not empty, is turned into a new entitlement, the nodes in service on the
  granted profile are allowed to the member at the very instant the order starts, a date of a four-digit year.\<close>

theorem purchase_opens_access:
  assumes run: "grantFromOrder input d = Inr (g, d')"
    and o1: "lookup mo_id (gi_orderId input) (orders d) = Some o1"
    and offer: "Option.bind (mo_catalogOfferId o1) (\<lambda>i. lookup co_id i (offers d)) = Some offer"
    and new: "g_id g \<notin> g_id ` set (grants d)" "qb_grantId ` set (buckets d) \<subseteq> g_id ` set (grants d)"
    and paid: "orderStart input o1 < g_endsAt g" "fullYearMonth (monthOf (orderStart input o1) - 1)" "0 < orderBytes o1 offer"
    and member: "userActive (mo_userId o1) d'" "\<not> needsPlan d' g \<or> g_kind g = GrantPlan"
    and node: "servesNode d' n g" "n \<noteq> []"
  shows "ax_allowed (fst (resolveAccess (mo_userId o1) (Some n) (orderStart input o1) d'))"
  using run
proof (cases rule: grantFromOrder_shape)
  case (1 o2 offer' product expiresAt accountId d1 existing restarts d2 t)
  let ?at = "orderStart input o1"
  have same: "o2 = o1" "offer' = offer" using 1(1,10) o1 offer by simp_all
  note w = writeGrant_grants [OF 1(15)]
  have "existing = None"
  proof (rule ccontr)
    assume "existing \<noteq> None"
    then obtain e where e: "existing = Some e" by blast
    then have "e \<in> set (grants d1)" using continued_mem 1(6) by metis
    then have "g_id e \<in> set (map g_id (grants d1))" by simp
    then have "g_id e \<in> set (map g_id (grants d))" unfolding 1(4) superseded_ids .
    then show False using w e new(1) by (simp add: continueGrant_def termsRow_def)
  qed
  then have g: "g_userId g = mo_userId o1" "g_startsAt g = ?at" "g_status g = GrantActive" "g \<in> set (grants d')"
      "g_endsAt g = expiresAt" "buckets d2 = buckets d" "orderAnchor restarts ?at existing = ?at"
    using w 1(5,11,16) same by (simp_all add: cutBuckets_def orderAnchor_def)
  define p where "p = periodBounds (orderCadence o1 product) ?at expiresAt ?at"
  have p: "cb_startsAt p \<le> ?at" "?at < cb_endsAt p"
    unfolding p_def using opened_period_holds_start [OF _ paid(2), of expiresAt "orderCadence o1 product"] paid(1,2) g(5)
    by (simp_all add: fullYearMonth_def)
  have "g_id g \<notin> qb_grantId ` set (buckets d2)" using new unfolding g(6) by blast
  then obtain b where b: "b \<in> set (buckets d')" "qb_grantId b = g_id g" "qb_startsAt b = cb_startsAt p"
      "qb_endsAt b = cb_endsAt p" "qb_granted b = orderBytes o1 offer" "qb_consumed b = 0"
    using grantPeriod_opens [of "g_id g" "orderCadence o1 product" p] unfolding 1(17) same g(7) p_def by metis
  let ?d = "ensureV2CurrentBuckets (mo_userId o1) ?at d'"
  have live: "grantLive ?at g" using g(2,3) paid(1) by (simp add: grantLive_def)
  have "b \<in> set (buckets ?d)" using b(1) addsBuckets_tables(3) [OF ensureV2CurrentBuckets_adds] by blast
  moreover have "bucketCurrent ?at b" using b p by (simp add: bucketCurrent_def)
  moreover have "needsPlan ?d g \<longrightarrow> hasPlan (mo_userId o1) ?at ?d"
    using member(2) live g(1,4) by (auto simp: needsPlan_def grantProduct_def hasPlan_def liveGrants_def prepared_frame)
  ultimately have "g \<in> set (usableGrants (mo_userId o1) ?at ?d)"
    using b paid(3) g(1,4) live by (auto simp: usable_iff prepared_frame)
  moreover have "servesNode ?d n g" using node(1) by (simp add: servesNode_def grantNodes_def prepared_frame)
  ultimately show ?thesis
    using member(1) requested_nil_iff [OF node(2), of ?d]
    by (auto simp: resolveAccess_def Let_def decide_allowed userActive_def prepared_frame)
qed

definition exampleShopNode :: db where
  "exampleShopNode = exampleShop\<lparr>
     profileNodes := [\<lparr>apn_profileId = ''prof2'', apn_nodeId = ''n1'', apn_priority = 1\<rparr>],
     nodes := [\<lparr>n_id = ''n1'', n_serverId = None, n_label = ''N'', n_active = True, n_lifecycle = LifeActive, n_region = None,
       n_protocol = Hysteria2, n_retiredAt = None,
       n_trafficApiSecret = ''s'', n_controlApiSecret = None\<rparr>]\<rparr>"

theorem purchase_opens_access_witness:
  "\<exists>g d'. grantFromOrder (exampleBuy (Some ''s2'')) exampleShopNode = Inr (g, d')
     \<and> ax_allowed (fst (resolveAccess ''u1'' (Some ''n1'') 1709300000000 d'))"
proof -
  let ?in = "exampleBuy (Some ''s2'')"
  have ok: "case grantFromOrder ?in exampleShopNode of Inl _ \<Rightarrow> False | Inr (g, d') \<Rightarrow> g_id g \<noteq> ''g1''
      \<and> 1709300000000 < g_endsAt g \<and> userActive ''u1'' d' \<and> \<not> needsPlan d' g \<and> servesNode d' ''n1'' g"
    by code_simp
  then obtain g d' where run: "grantFromOrder ?in exampleShopNode = Inr (g, d')"
    by (cases "grantFromOrder ?in exampleShopNode") auto
  note facts = ok [unfolded run sum.case prod.case]
  have o1: "lookup mo_id (gi_orderId ?in) (orders exampleShopNode) = Some exampleShopOrder"
    "Option.bind (mo_catalogOfferId exampleShopOrder) (\<lambda>i. lookup co_id i (offers exampleShopNode)) = Some exampleShopOffer"
    using exampleShop_facts(1) [of "Some ''s2''"] exampleShop_facts(3) by (simp_all add: exampleShopNode_def)
  have "g_id g \<notin> g_id ` set (grants exampleShopNode)"
    using facts by (simp add: exampleShopNode_def exampleShop_def exampleMirrorDb_def exampleGrant_def)
  moreover have "qb_grantId ` set (buckets exampleShopNode) \<subseteq> g_id ` set (grants exampleShopNode)"
    by (simp add: exampleShopNode_def exampleShop_def exampleMirrorDb_def exampleQuotaUser_def newBucket_def exampleGrant_def)
  moreover have "fullYearMonth (monthOf 1709300000000 - 1)" by code_simp
  ultimately show ?thesis
    using purchase_opens_access [OF run o1, unfolded exampleShop_facts(4,6,7), of "''n1''"] facts run by auto
qed

end
